(* ===== verification/Prelude.thy ===== *)
theory Prelude
  imports Main "HOL-Library.Sublist" "HOL-Library.Char_ord" "HOL-Library.List_Lexorder"
    "HOL-Library.Multiset"
begin

text \<open>
  Shared vocabulary of the development.

  \<^item> Types of the Go program that every component uses: instants (\<open>time.Time\<close> as
    nanoseconds since the Unix epoch, \<open>time.Duration\<close> as nanoseconds), error values and
    their identity under \<open>errors.Is\<close>, metadata strings (annotations, tags, which hold
    either free text or an RFC 3339 timestamp), JSON bodies and HTTP responses.
  \<^item> The few string functions of Go's standard library the code calls.
  \<^item> Generic lemmas on lists, keyed rows and maps that the component proofs share.

  Named collections: \<open>go_defs\<close> holds the small definitions that proofs unfold,
  \<open>resp_defs\<close> the response builders.
\<close>

named_theorems go_defs
named_theorems resp_defs

section \<open>Time\<close>

type_synonym go_time = int
type_synonym duration = int

definition second :: duration where
  "second = 1000000000"

definition minute :: duration where
  "minute = 60 * second"

definition hour :: duration where
  "hour = 60 * minute"

text \<open>The zero \<open>time.Time\<close> is 1 January of year 1, UTC; \<open>IsZero\<close> recognises it.\<close>

definition zero_time :: go_time where
  "zero_time = - 62135596800 * second"

definition is_zero :: "go_time \<Rightarrow> bool" where
  "is_zero t \<longleftrightarrow> t = zero_time"

lemmas time_units = second_def minute_def hour_def zero_time_def is_zero_def

section \<open>Metadata strings\<close>

text \<open>
  Annotations of a namespace and tags of an instance are strings. The code writes two kinds
  of text into them: free text, and the RFC 3339 rendering of an instant
  (\<open>t.Format(time.RFC3339)\<close>), which has a resolution of one second. A string that is a
  valid timestamp is represented by the instant it denotes, every other string by its text,
  so that \<open>time.Parse(time.RFC3339, s)\<close> is a case distinction.
\<close>

datatype meta = Text string | Stamp go_time

definition format_rfc3339 :: "go_time \<Rightarrow> meta" where
  "format_rfc3339 t = Stamp (t div second * second)"

fun parse_rfc3339 :: "meta \<Rightarrow> go_time option" where
  "parse_rfc3339 (Stamp t) = Some t"
| "parse_rfc3339 (Text s) = None"

text \<open>\<open>t, _ := time.Parse(...)\<close>: the error is dropped, the result is then the zero time.\<close>

definition parse_or_zero :: "meta \<Rightarrow> go_time" where
  "parse_or_zero s = (case parse_rfc3339 s of None \<Rightarrow> zero_time | Some t \<Rightarrow> t)"

text \<open>
  The text of a timestamp as the code writes it (UTC, years 0 to 9999), with the civil calendar by
  eras of 400 years, the year starting on 1 March.
\<close>

definition civil_from_days :: "int \<Rightarrow> int \<times> int \<times> int" where
  "civil_from_days days =
     (let z = days + 719468; era = z div 146097; doe = z mod 146097;
          yoe = (doe - doe div 1460 + doe div 36524 - doe div 146096) div 365;
          doy = doe - (365 * yoe + yoe div 4 - yoe div 100);
          mp = (5 * doy + 2) div 153;
          d = doy - (153 * mp + 2) div 5 + 1;
          m = (if mp < 10 then mp + 3 else mp - 9)
      in (yoe + era * 400 + (if m \<le> 2 then 1 else 0), m, d))"

definition dec_digit :: "int \<Rightarrow> char" where
  "dec_digit n = char_of (nat (48 + n mod 10))"

definition pad2 :: "int \<Rightarrow> string" where
  "pad2 n = [dec_digit (n div 10), dec_digit n]"

definition render_rfc3339 :: "go_time \<Rightarrow> string" where
  "render_rfc3339 t =
     (let secs = t div second; days = secs div 86400; r = secs mod 86400;
          (y, m, d) = civil_from_days days
      in pad2 (y div 100) @ pad2 (y mod 100) @ ''-'' @ pad2 m @ ''-'' @ pad2 d @ ''T''
         @ pad2 (r div 3600) @ '':'' @ pad2 (r div 60 mod 60) @ '':'' @ pad2 (r mod 60) @ ''Z'')"

fun text_of :: "meta \<Rightarrow> string" where
  "text_of (Text s) = s"
| "text_of (Stamp t) = render_rfc3339 t"

text \<open>Reading a \<open>map[string]string\<close> at a missing key gives the empty string.\<close>

definition meta_get :: "('k \<Rightarrow> meta option) \<Rightarrow> 'k \<Rightarrow> meta" where
  "meta_get m k = (case m k of None \<Rightarrow> Text [] | Some v \<Rightarrow> v)"

lemma render_epoch: "render_rfc3339 (951782400 * second) = ''2000-02-29T00:00:00Z''"
  by code_simp

lemma parse_format: "parse_rfc3339 (format_rfc3339 t) = Some (t div second * second)"
  by (simp add: format_rfc3339_def)

lemma format_le: "t div second * second \<le> t" "t < t div second * second + second"
proof -
  have "t = t div second * second + t mod second" by simp
  moreover have "0 \<le> t mod second" "t mod second < second"
    by (simp_all add: second_def)
  ultimately show "t div second * second \<le> t" "t < t div second * second + second"
    by linarith+
qed

section \<open>Errors\<close>

text \<open>
  An error value of the session packages: the sentinel \<open>session.ErrNotFound\<close>, or any other
  error with its message. \<open>errors.Is(err, session.ErrNotFound)\<close> is equality with the first.
\<close>

datatype err = ErrNotFound | ErrOther string

fun is_not_found :: "err \<Rightarrow> bool" where
  "is_not_found ErrNotFound = True"
| "is_not_found (ErrOther s) = False"

lemma is_not_found_iff: "is_not_found e \<longleftrightarrow> e = ErrNotFound"
  by (cases e) simp_all

section \<open>JSON bodies and responses\<close>

text \<open>
  A response is the status code and the JSON body a handler writes. \<open>gin.H\<close> maps and structs
  are objects, given as the list of their fields in the order the source writes them. An
  instant in a body is kept as the instant.
\<close>

datatype json =
    JNull
  | JBool bool
  | JInt int
  | JStr string
  | JTime go_time
  | JArr "json list"
  | JObj "(string \<times> json) list"

datatype resp = Resp (resp_status: int) (resp_body: json)

definition err_resp :: "int \<Rightarrow> string \<Rightarrow> resp" where
  "err_resp code msg = Resp code (JObj [(''error'', JStr msg)])"

definition code_resp :: "int \<Rightarrow> string \<Rightarrow> string \<Rightarrow> resp" where
  "code_resp st msg code = Resp st (JObj [(''error'', JStr msg), (''code'', JStr code)])"

lemma status_err_resp [simp]: "resp_status (err_resp c m) = c"
  by (simp add: err_resp_def)

lemma status_code_resp [simp]: "resp_status (code_resp c m k) = c"
  by (simp add: code_resp_def)

text \<open>Fields of an object body.\<close>

fun json_field :: "string \<Rightarrow> json \<Rightarrow> json option" where
  "json_field k (JObj fs) = map_of fs k"
| "json_field k j = None"

section \<open>Strings\<close>

text \<open>A string literal that is not ASCII is given by its UTF-8 bytes.\<close>

definition utf8 :: "nat list \<Rightarrow> string" where
  "utf8 bs = map char_of bs"

definition has_prefix :: "string \<Rightarrow> string \<Rightarrow> bool" where
  "has_prefix s p \<longleftrightarrow> prefix p s"

definition trim_prefix :: "string \<Rightarrow> string \<Rightarrow> string" where
  "trim_prefix s p = (if prefix p s then drop (length p) s else s)"

fun contains :: "string \<Rightarrow> string \<Rightarrow> bool" where
  "contains [] p = (p = [])"
| "contains (c # s) p = (prefix p (c # s) \<or> contains s p)"

lemma contains_sublist: "contains s p \<longleftrightarrow> sublist p s"
  by (induction s) (auto simp: sublist_Cons_right)

lemma trim_prefix_append [simp]: "trim_prefix (p @ s) p = s"
  by (simp add: trim_prefix_def)

section \<open>Lists\<close>

text \<open>The first index whose element satisfies a predicate: the search loops of the source.\<close>

fun find_index :: "('a \<Rightarrow> bool) \<Rightarrow> 'a list \<Rightarrow> nat option" where
  "find_index P [] = None"
| "find_index P (x # xs) = (if P x then Some 0 else map_option Suc (find_index P xs))"

lemma find_index_None: "find_index P xs = None \<longleftrightarrow> (\<forall>x\<in>set xs. \<not> P x)"
  by (induction xs) auto

lemma find_index_Some:
  "find_index P xs = Some i \<longleftrightarrow> i < length xs \<and> P (xs ! i) \<and> (\<forall>j<i. \<not> P (xs ! j))"
proof (induction xs arbitrary: i)
  case Nil
  then show ?case by simp
next
  case (Cons x xs)
  then show ?case
    by (cases i) (auto simp: nth_Cons split: nat.splits)
qed

lemma find_index_SomeD:
  assumes "find_index P xs = Some i"
  shows "i < length xs" and "P (xs ! i)"
  using assms by (simp_all add: find_index_Some)

lemma find_index_distinct:
  assumes "distinct (map f xs)" and "i < length xs"
  shows "find_index (\<lambda>x. f x = f (xs ! i)) xs = Some i"
proof -
  have "f (xs ! j) \<noteq> f (xs ! i)" if "j < i" for j
    using assms that nth_eq_iff_index_eq [of "map f xs" j i] by auto
  with assms show ?thesis by (simp add: find_index_Some)
qed

lemma find_index_cong_map:
  assumes "map f xs = map f ys"
  shows "find_index (\<lambda>x. f x = k) xs = find_index (\<lambda>x. f x = k) ys"
  using assms
proof (induction xs arbitrary: ys)
  case Nil
  then show ?case by simp
next
  case (Cons x xs)
  from Cons.prems obtain y ys' where ys: "ys = y # ys'" by (cases ys) auto
  with Cons.prems have "f y = f x" "map f xs = map f ys'" by simp_all
  with Cons.IH [of ys'] show ?case by (simp add: ys)
qed

lemma map_list_update_same:
  "f y = f (xs ! i) \<Longrightarrow> map f (xs[i := y]) = map f xs"
  by (cases "i < length xs")
    (simp_all add: map_update list_update_same_conv list_update_beyond)

lemma list_all_update:
  "list_all P xs \<Longrightarrow> P y \<Longrightarrow> list_all P (xs[i := y])"
  by (auto simp: list_all_iff dest: set_update_subset_insert [THEN subsetD])

section \<open>Keyed rows\<close>

text \<open>
  A table with a primary key is the list of its rows. \<open>row_find\<close> is the lookup by key,
  \<open>row_upsert\<close> is \<open>INSERT ... ON CONFLICT (key) DO UPDATE\<close>: the update function when a row
  has the key, the new row appended otherwise; \<open>keyed\<close> says that the key is unique.
\<close>

definition row_find :: "('r \<Rightarrow> 'k) \<Rightarrow> 'k \<Rightarrow> 'r list \<Rightarrow> 'r option" where
  "row_find key k rows = find (\<lambda>r. key r = k) rows"

fun row_upsert :: "('r \<Rightarrow> 'k) \<Rightarrow> 'r \<Rightarrow> ('r \<Rightarrow> 'r) \<Rightarrow> 'r list \<Rightarrow> 'r list" where
  "row_upsert key new upd [] = [new]"
| "row_upsert key new upd (r # rs) =
     (if key r = key new then upd r # rs else r # row_upsert key new upd rs)"

definition row_update :: "('r \<Rightarrow> 'k) \<Rightarrow> 'k \<Rightarrow> ('r \<Rightarrow> 'r) \<Rightarrow> 'r list \<Rightarrow> 'r list" where
  "row_update key k upd rows = map (\<lambda>r. if key r = k then upd r else r) rows"

definition row_delete :: "('r \<Rightarrow> 'k) \<Rightarrow> 'k \<Rightarrow> 'r list \<Rightarrow> 'r list" where
  "row_delete key k rows = filter (\<lambda>r. key r \<noteq> k) rows"

definition keyed :: "('r \<Rightarrow> 'k) \<Rightarrow> 'r list \<Rightarrow> bool" where
  "keyed key rows \<longleftrightarrow> distinct (map key rows)"

lemma row_find_simps [simp]:
  "row_find key k [] = None"
  "row_find key k (r # rs) = (if key r = k then Some r else row_find key k rs)"
  by (simp_all add: row_find_def)

lemma row_find_Some: "row_find key k rows = Some r \<Longrightarrow> r \<in> set rows \<and> key r = k"
  by (induction rows) (auto split: if_splits)

lemma row_find_None: "row_find key k rows = None \<longleftrightarrow> k \<notin> key ` set rows"
  by (induction rows) auto

lemma row_find_keyed: "keyed key rows \<Longrightarrow> r \<in> set rows \<Longrightarrow> row_find key (key r) rows = Some r"
  by (induction rows) (auto simp: keyed_def)

lemma key_row_upsert:
  assumes "\<And>r. key (upd r) = key r"
  shows "map key (row_upsert key new upd rows)
       = map key rows @ (if key new \<in> key ` set rows then [] else [key new])"
  using assms by (induction rows) auto

lemma keyed_row_upsert:
  assumes "\<And>r. key (upd r) = key r" and "keyed key rows"
  shows "keyed key (row_upsert key new upd rows)"
  using assms(2) by (auto simp: keyed_def key_row_upsert [where key = key and upd = upd] assms(1))

lemma row_find_upsert:
  assumes "\<And>r. key (upd r) = key r"
  shows "row_find key k (row_upsert key new upd rows)
       = (if k = key new
          then Some (case row_find key k rows of None \<Rightarrow> new | Some r \<Rightarrow> upd r)
          else row_find key k rows)"
  using assms by (induction rows) auto

lemma filter_row_upsert_other:
  assumes "\<And>r. P (upd r) = P r" and "\<And>r. key r = key new \<Longrightarrow> \<not> P r" and "\<not> P new"
  shows "filter P (row_upsert key new upd rows) = filter P rows"
  using assms by (induction rows) auto

lemma filter_row_upsert_all:
  assumes "\<And>r. P (upd r) = P r" and "\<And>r. key r = key new \<Longrightarrow> P r" and "P new"
  shows "filter P (row_upsert key new upd rows) = row_upsert key new upd (filter P rows)"
  using assms by (induction rows) auto

lemma row_find_update:
  assumes "\<And>r. key (upd r) = key r"
  shows "row_find key k (row_update key k' upd rows)
       = (if k = k' then map_option upd (row_find key k rows) else row_find key k rows)"
  using assms by (induction rows) (auto simp: row_update_def)

lemma keyed_row_update:
  assumes "\<And>r. key (upd r) = key r" and "keyed key rows"
  shows "keyed key (row_update key k upd rows)"
proof -
  have "map key (row_update key k upd rows) = map key rows"
    using assms(1) by (simp add: row_update_def)
  with assms(2) show ?thesis by (simp add: keyed_def)
qed

lemma row_find_delete:
  "row_find key k (row_delete key k' rows) = (if k = k' then None else row_find key k rows)"
  by (induction rows) (auto simp: row_delete_def)

lemma keyed_row_delete: "keyed key rows \<Longrightarrow> keyed key (row_delete key k rows)"
  by (simp add: keyed_def row_delete_def distinct_map_filter)

lemma keyed_Nil [simp]: "keyed key []"
  by (simp add: keyed_def)

lemma row_find_append:
  "row_find key k (xs @ ys) = (case row_find key k xs of None \<Rightarrow> row_find key k ys | Some r \<Rightarrow> Some r)"
  by (induction xs) auto

text \<open>Sorting rows whose keys are distinct depends only on the set of rows.\<close>

lemma filter_key_singleton:
  "distinct (map key xs) \<Longrightarrow> k \<in> set xs \<Longrightarrow> filter (\<lambda>x. key k = key x) xs = [k]"
proof (induction xs)
  case Nil
  then show ?case by simp
next
  case (Cons x xs)
  then have "key x \<notin> key ` set xs" and IH: "k \<in> set xs \<Longrightarrow> filter (\<lambda>x. key k = key x) xs = [k]"
    by auto
  then have "filter (\<lambda>y. key x = key y) xs = []"
    by (auto simp: filter_empty_conv)
  then show ?case using Cons.prems IH by auto
qed

lemma sort_key_eqI:
  assumes "distinct (map key xs)" and "mset xs = mset ys" and "sorted (map key xs)"
  shows "sort_key key ys = xs"
proof (rule properties_for_sort_key [OF assms(2) _ assms(3)])
  fix k assume k: "k \<in> set xs"
  have "distinct (map key ys)"
    by (metis assms(1,2) mset_map mset_eq_imp_distinct_iff)
  moreover have "k \<in> set ys" using k assms(2) by (metis set_mset_mset)
  ultimately show "filter (\<lambda>x. key k = key x) xs = filter (\<lambda>x. key k = key x) ys"
    using k assms(1) by (simp add: filter_key_singleton)
qed

section \<open>The outside and its clock\<close>

text \<open>
  Where the passing of time matters, the outside of a component is the clock and the rest of its
  state.
\<close>

record 'v world =
  w_clock :: go_time
  w_rest :: 'v

section \<open>Letters and digits\<close>

definition is_alnum :: "char \<Rightarrow> bool" where
  "is_alnum c \<longleftrightarrow> (let n = of_char c :: nat in 48 \<le> n \<and> n \<le> 57 \<or> 65 \<le> n \<and> n \<le> 90 \<or> 97 \<le> n \<and> n \<le> 122)"

end
