(* ===== verification/Store.thy ===== *)
theory Store
  imports Prelude
begin

text \<open>
  The PostgreSQL layer, \<open>src/apps/api/internal/store/store.go\<close>, over the schema of
  \<open>src/apps/api/internal/store/migrations\<close>.

  A table is the list of its rows; the SQL of each method is written out as the list operation
  it denotes (\<open>ON CONFLICT DO UPDATE\<close> is \<open>row_upsert\<close>, \<open>ON CONFLICT DO NOTHING\<close> keeps the
  row, \<open>ON DELETE CASCADE\<close> filters the child table). \<open>now()\<close> and \<open>time.Now()\<close> are the argument
  \<open>now\<close>; a \<open>timestamptz\<close> column keeps microseconds. Integer columns are unbounded integers.

  The database can fail. Every method takes a \<open>fault\<close>: no fault, an error at its \<open>n\<close>-th
  statement (the open transaction is then rolled back), or an acknowledgement that is lost
  after the statement or commit took effect. A method returns its error, if any, and the
  tables after the call.
\<close>

section \<open>Rows and tables\<close>

record User =
  u_id :: string
  u_email :: string
  u_name :: string
  u_role :: string
  u_created_at :: go_time
  u_last_login_at :: go_time

record user_row = User +
  u_leaderboard_hidden :: bool

record Subscription =
  sub_user_id :: string
  sub_plan_id :: string
  sub_status :: string
  sub_current_period_end :: "go_time option"
  sub_updated_at :: go_time

record CheckoutSession =
  cs_id :: string
  cs_user_id :: string
  cs_plan_id :: string
  cs_provider :: string
  cs_status :: string
  cs_checkout_url :: string
  cs_created_at :: go_time
  cs_expires_at :: go_time

record CheckOutcome =
  co_type :: string
  co_passed :: bool
  co_detail :: string

record StepProgress =
  sp_step_id :: int
  sp_status :: string
  sp_attempts :: int
  sp_hint_level :: int
  sp_checks :: "CheckOutcome list"

record SessionProgress =
  sp_lab_id :: string
  sp_user_id :: string
  sp_current_step :: int
  sp_steps :: "StepProgress list"

record Completion =
  c_lab_id :: string
  c_session_id :: string
  c_completed_at :: go_time

record completion_row = Completion +
  c_user_id :: string

record InProgressLab =
  ip_lab_id :: string
  ip_session_id :: string
  ip_all_passed :: bool

record LeaderboardRow =
  lr_user_id :: string
  lr_name :: string
  lr_lab_id :: string
  lr_completed_at :: go_time

record progress_row =
  pr_session_id :: string
  pr_lab_id :: string
  pr_user_id :: string
  pr_current_step :: int
  pr_updated_at :: go_time

record step_row =
  sr_session_id :: string
  sr_step_id :: int
  sr_status :: string
  sr_attempts :: int
  sr_hint_level :: int
  sr_checks :: "CheckOutcome list option"

record tables =
  users :: "user_row list"
  session_progress :: "progress_row list"
  session_steps :: "step_row list"
  lab_completions :: "completion_row list"
  subscriptions :: "Subscription list"
  checkout_sessions :: "CheckoutSession list"

definition empty_tables :: tables where
  "empty_tables = \<lparr>users = [], session_progress = [], session_steps = [], lab_completions = [],
     subscriptions = [], checkout_sessions = []\<rparr>"

abbreviation step_key :: "step_row \<Rightarrow> string \<times> int" where
  "step_key r \<equiv> (sr_session_id r, sr_step_id r)"

abbreviation completion_key :: "completion_row \<Rightarrow> string \<times> string" where
  "completion_key r \<equiv> (c_user_id r, c_lab_id r)"

text \<open>A \<open>timestamptz\<close> keeps microseconds.\<close>

definition pg_time :: "go_time \<Rightarrow> go_time" where
  "pg_time t = t div 1000 * 1000"

section \<open>Faults\<close>

datatype fault = Healthy | Fail nat string | Lost string

fun fault_at :: "fault \<Rightarrow> nat \<Rightarrow> string option" where
  "fault_at (Fail k m) n = (if k = n then Some m else None)"
| "fault_at _ n = None"

text \<open>The last statement of a call, or the commit: it may take effect and still report an error.\<close>

fun finish :: "fault \<Rightarrow> nat \<Rightarrow> string \<Rightarrow> 'a \<Rightarrow> 'a \<Rightarrow> string option \<times> 'a" where
  "finish Healthy n what old new = (None, new)"
| "finish (Fail k m) n what old new = (if k = n then (Some (what @ m), old) else (None, new))"
| "finish (Lost m) n what old new = (Some (what @ m), new)"

text \<open>A query: it changes nothing, so only an error at its statement matters.\<close>

fun query :: "fault \<Rightarrow> string \<Rightarrow> 'a \<Rightarrow> string + 'a" where
  "query Healthy what x = Inr x"
| "query (Fail k m) what x = (if k = 0 then Inl (what @ m) else Inr x)"
| "query (Lost m) what x = Inl (what @ m)"

lemma finish_snd: "snd (finish f n what old new) \<in> {old, new}"
  by (cases f) auto

lemma finish_ok: "fst (finish f n what old new) = None \<Longrightarrow> snd (finish f n what old new) = new"
  by (cases f) (auto split: if_splits)

lemma query_ok: "query f what x = Inr y \<Longrightarrow> y = x"
  by (cases f) (auto split: if_splits)

section \<open>Users\<close>

definition ListUsers :: "fault \<Rightarrow> int \<Rightarrow> tables \<Rightarrow> string + User list" where
  "ListUsers f limit t =
     (let limit' = (if limit \<le> 0 then 50 else limit) in
      query f ''list users: ''
        (map User.truncate (take (nat limit') (sort_key (\<lambda>u. - u_last_login_at u) (users t)))))"

definition new_user :: "go_time \<Rightarrow> string \<Rightarrow> user_row" where
  "new_user now uid = \<lparr>u_id = uid, u_email = [], u_name = [], u_role = ''student'',
     u_created_at = pg_time now, u_last_login_at = pg_time now, u_leaderboard_hidden = False\<rparr>"

definition UpsertUser ::
  "fault \<Rightarrow> go_time \<Rightarrow> string \<Rightarrow> string \<Rightarrow> string \<Rightarrow> string \<Rightarrow> tables \<Rightarrow> string option \<times> tables" where
  "UpsertUser f now uid email name role t =
     finish f 0 ''upsert user: '' t
       (t\<lparr>users := row_upsert u_id
            ((new_user now uid)\<lparr>u_email := email, u_name := name, u_role := role\<rparr>)
            (\<lambda>r. r\<lparr>u_email := email, u_name := name, u_role := role,
                   u_last_login_at := pg_time now\<rparr>)
            (users t)\<rparr>)"

definition LeaderboardHidden :: "fault \<Rightarrow> string \<Rightarrow> tables \<Rightarrow> string + bool" where
  "LeaderboardHidden f uid t =
     query f ''leaderboard hidden: ''
       (case row_find u_id uid (users t) of None \<Rightarrow> False | Some r \<Rightarrow> u_leaderboard_hidden r)"

definition SetLeaderboardHidden ::
  "fault \<Rightarrow> go_time \<Rightarrow> string \<Rightarrow> bool \<Rightarrow> tables \<Rightarrow> string option \<times> tables" where
  "SetLeaderboardHidden f now uid hidden t =
     finish f 0 ''set leaderboard hidden: '' t
       (t\<lparr>users := row_upsert u_id ((new_user now uid)\<lparr>u_leaderboard_hidden := hidden\<rparr>)
            (\<lambda>r. r\<lparr>u_leaderboard_hidden := hidden\<rparr>) (users t)\<rparr>)"

definition SetUserRole :: "fault \<Rightarrow> string \<Rightarrow> string \<Rightarrow> tables \<Rightarrow> string option \<times> tables" where
  "SetUserRole f uid role t =
     finish f 0 ''set user role: '' t
       (t\<lparr>users := row_update u_id uid (\<lambda>r. r\<lparr>u_role := role\<rparr>) (users t)\<rparr>)"

section \<open>Billing\<close>

text \<open>
  \<open>now.AddDate(0, 1, 0)\<close> in UTC: \<open>time.Date\<close> with the month increased by one and the day kept
  (overflowing days run into the month after), which is the current instant plus the number of
  days of the current month.
\<close>

definition civil_year_month :: "int \<Rightarrow> int \<times> int" where
  "civil_year_month days = (let (y, m, d) = civil_from_days days in (y, m))"

definition days_in_month :: "int \<times> int \<Rightarrow> int" where
  "days_in_month ym =
     (let y = fst ym; m = snd ym in
      if m = 2 then (if y mod 4 = 0 \<and> (y mod 100 \<noteq> 0 \<or> y mod 400 = 0) then 29 else 28)
      else if m \<in> {4, 6, 9, 11} then 30 else 31)"

definition add_month :: "go_time \<Rightarrow> go_time" where
  "add_month t = t + days_in_month (civil_year_month (t div (24 * hour))) * (24 * hour)"

lemma days_in_month_pos: "28 \<le> days_in_month ym \<and> days_in_month ym \<le> 31"
  by (auto simp: days_in_month_def Let_def)

lemma add_month_gt: "t + 28 * (24 * hour) \<le> add_month t"
  using days_in_month_pos [of "civil_year_month (t div (24 * hour))"]
  by (simp add: add_month_def time_units)

datatype checkout_err =
  ErrCheckoutNotFound | ErrCheckoutExpired | ErrCheckoutInvalidStatus | CheckoutOther string

definition GetSubscription :: "fault \<Rightarrow> string \<Rightarrow> tables \<Rightarrow> string + Subscription option" where
  "GetSubscription f uid t =
     query f ''get subscription: '' (row_find sub_user_id uid (subscriptions t))"

definition CreateCheckoutSession ::
  "fault \<Rightarrow> go_time \<Rightarrow> CheckoutSession \<Rightarrow> tables \<Rightarrow> string option \<times> tables" where
  "CreateCheckoutSession f now cs t =
     (if row_find cs_id (cs_id cs) (checkout_sessions t) \<noteq> None
      then (Some ''create checkout session: duplicate key'', t)
      else finish f 0 ''create checkout session: '' t
             (t\<lparr>checkout_sessions := checkout_sessions t
                  @ [cs\<lparr>cs_created_at := pg_time now, cs_expires_at := pg_time (cs_expires_at cs)\<rparr>]\<rparr>))"

text \<open>
  \<open>CompleteCheckoutSession\<close>: statement 0 begins the transaction, 1 locks and reads the checkout,
  2 and 3 are the statements of the branch taken, and the commit comes last.
\<close>

definition set_checkout_status :: "string \<Rightarrow> string \<Rightarrow> tables \<Rightarrow> tables" where
  "set_checkout_status cid st t =
     t\<lparr>checkout_sessions := row_update cs_id cid (\<lambda>r. r\<lparr>cs_status := st\<rparr>) (checkout_sessions t)\<rparr>"

definition activate_subscription :: "go_time \<Rightarrow> string \<Rightarrow> string \<Rightarrow> tables \<Rightarrow> tables" where
  "activate_subscription now uid plan t =
     t\<lparr>subscriptions := row_upsert sub_user_id
         \<lparr>sub_user_id = uid, sub_plan_id = plan, sub_status = ''active'',
          sub_current_period_end = Some (pg_time (add_month now)), sub_updated_at = pg_time now\<rparr>
         (\<lambda>r. r\<lparr>sub_plan_id := plan, sub_status := ''active'',
               sub_current_period_end := Some (pg_time (add_month now)),
               sub_updated_at := pg_time now\<rparr>)
         (subscriptions t)\<rparr>"

fun commit_checkout ::
  "string option \<times> tables \<Rightarrow> checkout_err + Subscription \<Rightarrow> (checkout_err + Subscription) \<times> tables"
where
  "commit_checkout (Some m, t) r = (Inl (CheckoutOther m), t)"
| "commit_checkout (None, t) r = (r, t)"

definition CompleteCheckoutSession ::
  "fault \<Rightarrow> go_time \<Rightarrow> string \<Rightarrow> string \<Rightarrow> tables \<Rightarrow> (checkout_err + Subscription) \<times> tables" where
  "CompleteCheckoutSession f now cid uid t =
     (case fault_at f 0 of
        Some m \<Rightarrow> (Inl (CheckoutOther (''begin checkout completion: '' @ m)), t)
      | None \<Rightarrow>
     (case fault_at f 1 of
        Some m \<Rightarrow> (Inl (CheckoutOther (''get checkout session: '' @ m)), t)
      | None \<Rightarrow>
     (case row_find cs_id cid (checkout_sessions t) of
        None \<Rightarrow> (Inl ErrCheckoutNotFound, t)
      | Some cs \<Rightarrow>
          if cs_user_id cs \<noteq> uid then (Inl ErrCheckoutNotFound, t)
          else if cs_status cs \<noteq> ''pending'' \<and> cs_status cs \<noteq> ''completed''
          then (Inl ErrCheckoutInvalidStatus, t)
          else if cs_status cs = ''completed'' then
            (case fault_at f 2 of
               Some m \<Rightarrow> (Inl (CheckoutOther (''get completed checkout subscription: '' @ m)), t)
             | None \<Rightarrow>
                 (case row_find sub_user_id uid (subscriptions t) of
                    None \<Rightarrow> (Inl ErrCheckoutInvalidStatus, t)
                  | Some sub \<Rightarrow>
                      commit_checkout (finish f 3 ''commit completed checkout read: '' t t) (Inr sub)))
          else if cs_expires_at cs < now then
            (case fault_at f 2 of
               Some m \<Rightarrow> (Inl (CheckoutOther (''expire checkout session: '' @ m)), t)
             | None \<Rightarrow>
                 commit_checkout
                   (finish f 3 ''commit expired checkout session: '' t (set_checkout_status cid ''expired'' t))
                   (Inl ErrCheckoutExpired))
          else
            (case fault_at f 2 of
               Some m \<Rightarrow> (Inl (CheckoutOther (''mark checkout completed: '' @ m)), t)
             | None \<Rightarrow>
            (case fault_at f 3 of
               Some m \<Rightarrow> (Inl (CheckoutOther (''upsert subscription: '' @ m)), t)
             | None \<Rightarrow>
                 (let t' = activate_subscription now uid (cs_plan_id cs)
                             (set_checkout_status cid ''completed'' t)
                  in commit_checkout (finish f 4 ''commit checkout completion: '' t t')
                       (Inr (the (row_find sub_user_id uid (subscriptions t'))))))))))"

section \<open>Session progress\<close>

text \<open>
  The header row and the step rows of a session. On a conflict the header keeps its lab and
  user; step rows that the snapshot does not name stay. \<open>checks\<close> is \<open>NULL\<close> for an empty list.
\<close>

definition save_header :: "go_time \<Rightarrow> string \<Rightarrow> SessionProgress \<Rightarrow> tables \<Rightarrow> tables" where
  "save_header now sid p t =
     t\<lparr>session_progress := row_upsert pr_session_id
         \<lparr>pr_session_id = sid, pr_lab_id = sp_lab_id p, pr_user_id = sp_user_id p,
          pr_current_step = sp_current_step p, pr_updated_at = pg_time now\<rparr>
         (\<lambda>r. r\<lparr>pr_current_step := sp_current_step p, pr_updated_at := pg_time now\<rparr>)
         (session_progress t)\<rparr>"

definition marshal_checks :: "CheckOutcome list \<Rightarrow> CheckOutcome list option" where
  "marshal_checks cs = (if length cs > 0 then Some cs else None)"

definition unmarshal_checks :: "CheckOutcome list option \<Rightarrow> CheckOutcome list" where
  "unmarshal_checks c = (case c of None \<Rightarrow> [] | Some cs \<Rightarrow> cs)"

definition step_to_row :: "string \<Rightarrow> StepProgress \<Rightarrow> step_row" where
  "step_to_row sid st =
     \<lparr>sr_session_id = sid, sr_step_id = sp_step_id st, sr_status = sp_status st,
      sr_attempts = sp_attempts st, sr_hint_level = sp_hint_level st,
      sr_checks = marshal_checks (sp_checks st)\<rparr>"

definition row_to_step :: "step_row \<Rightarrow> StepProgress" where
  "row_to_step r =
     \<lparr>sp_step_id = sr_step_id r, sp_status = sr_status r, sp_attempts = sr_attempts r,
      sp_hint_level = sr_hint_level r, sp_checks = unmarshal_checks (sr_checks r)\<rparr>"

definition upsert_step :: "string \<Rightarrow> StepProgress \<Rightarrow> step_row list \<Rightarrow> step_row list" where
  "upsert_step sid st rows =
     row_upsert step_key (step_to_row sid st)
       (\<lambda>r. r\<lparr>sr_status := sp_status st, sr_attempts := sp_attempts st,
             sr_hint_level := sp_hint_level st, sr_checks := marshal_checks (sp_checks st)\<rparr>)
       rows"

text \<open>The loop over the steps; \<open>n\<close> is the number of the next statement.\<close>

fun save_steps ::
  "fault \<Rightarrow> nat \<Rightarrow> string \<Rightarrow> StepProgress list \<Rightarrow> step_row list \<Rightarrow> string + step_row list" where
  "save_steps f n sid [] rows = Inr rows"
| "save_steps f n sid (st # sts) rows =
     (case fault_at f n of
        Some m \<Rightarrow> Inl (''upsert session_steps: '' @ m)
      | None \<Rightarrow> save_steps f (Suc n) sid sts (upsert_step sid st rows))"

definition SaveProgress ::
  "fault \<Rightarrow> go_time \<Rightarrow> string \<Rightarrow> SessionProgress \<Rightarrow> tables \<Rightarrow> string option \<times> tables" where
  "SaveProgress f now sid p t =
     (case fault_at f 0 of
        Some m \<Rightarrow> (Some (''begin save progress: '' @ m), t)
      | None \<Rightarrow>
     (case fault_at f 1 of
        Some m \<Rightarrow> (Some (''upsert session_progress: '' @ m), t)
      | None \<Rightarrow>
          (let t1 = save_header now sid p t in
           case save_steps f 2 sid (sp_steps p) (session_steps t1) of
             Inl e \<Rightarrow> (Some e, t)
           | Inr rows \<Rightarrow> finish f (2 + length (sp_steps p)) [] t (t1\<lparr>session_steps := rows\<rparr>))))"

text \<open>\<open>LoadProgress\<close>: statement 0 reads the header, statement 1 the steps.\<close>

definition steps_of :: "string \<Rightarrow> step_row list \<Rightarrow> StepProgress list" where
  "steps_of sid rows =
     map row_to_step (sort_key sr_step_id (filter (\<lambda>r. sr_session_id r = sid) rows))"

definition progress_of :: "string \<Rightarrow> tables \<Rightarrow> SessionProgress option" where
  "progress_of sid t =
     map_option (\<lambda>h. \<lparr>sp_lab_id = pr_lab_id h, sp_user_id = pr_user_id h,
                      sp_current_step = pr_current_step h, sp_steps = steps_of sid (session_steps t)\<rparr>)
       (row_find pr_session_id sid (session_progress t))"

definition LoadProgress :: "fault \<Rightarrow> string \<Rightarrow> tables \<Rightarrow> string + SessionProgress option" where
  "LoadProgress f sid t =
     (case query f ''load session_progress: '' (row_find pr_session_id sid (session_progress t)) of
        Inl e \<Rightarrow> Inl e
      | Inr None \<Rightarrow> Inr None
      | Inr (Some h) \<Rightarrow>
          (case fault_at f 1 of
             Some m \<Rightarrow> Inl (''load session_steps: '' @ m)
           | None \<Rightarrow> Inr (progress_of sid t)))"

definition remove_progress :: "string \<Rightarrow> tables \<Rightarrow> tables" where
  "remove_progress sid t =
     t\<lparr>session_progress := row_delete pr_session_id sid (session_progress t),
       session_steps := row_delete sr_session_id sid (session_steps t)\<rparr>"

definition DeleteProgress :: "fault \<Rightarrow> string \<Rightarrow> tables \<Rightarrow> string option \<times> tables" where
  "DeleteProgress f sid t = finish f 0 ''delete session_progress: '' t (remove_progress sid t)"

section \<open>Completions and the leaderboard\<close>

definition RecordCompletion ::
  "fault \<Rightarrow> go_time \<Rightarrow> string \<Rightarrow> string \<Rightarrow> string \<Rightarrow> tables \<Rightarrow> string option \<times> tables" where
  "RecordCompletion f now uid lab sid t =
     finish f 0 ''record completion: '' t
       (t\<lparr>lab_completions := row_upsert completion_key
            \<lparr>c_lab_id = lab, c_session_id = sid, c_completed_at = pg_time now, c_user_id = uid\<rparr>
            (\<lambda>r. r) (lab_completions t)\<rparr>)"

definition ListCompletionsByUser :: "fault \<Rightarrow> string \<Rightarrow> tables \<Rightarrow> string + Completion list" where
  "ListCompletionsByUser f uid t =
     query f ''list completions: ''
       (map Completion.truncate
         (sort_key (\<lambda>r. - c_completed_at r) (filter (\<lambda>r. c_user_id r = uid) (lab_completions t))))"

text \<open>\<open>SELECT DISTINCT ON (k)\<close> keeps the first row of every key, in the order of the query.\<close>

fun distinct_on :: "('r \<Rightarrow> 'k) \<Rightarrow> 'r list \<Rightarrow> 'r list" where
  "distinct_on key [] = []"
| "distinct_on key (r # rs) = r # distinct_on key (filter (\<lambda>x. key x \<noteq> key r) rs)"

definition session_all_passed :: "string \<Rightarrow> step_row list \<Rightarrow> bool" where
  "session_all_passed sid rows \<longleftrightarrow>
     (\<exists>r\<in>set rows. sr_session_id r = sid) \<and>
     \<not> (\<exists>r\<in>set rows. sr_session_id r = sid \<and> sr_status r \<noteq> ''passed'')"

definition ListInProgressLabsByUser :: "fault \<Rightarrow> string \<Rightarrow> tables \<Rightarrow> string + InProgressLab list" where
  "ListInProgressLabsByUser f uid t =
     query f ''list in-progress labs: ''
       (map (\<lambda>r. \<lparr>ip_lab_id = pr_lab_id r, ip_session_id = pr_session_id r,
                 ip_all_passed = session_all_passed (pr_session_id r) (session_steps t)\<rparr>)
         (distinct_on pr_lab_id
           (sort_key pr_lab_id
             (sort_key (\<lambda>r. - pr_updated_at r)
               (filter (\<lambda>r. pr_user_id r = uid) (session_progress t))))))"

definition leaderboard_join :: "go_time option \<Rightarrow> tables \<Rightarrow> LeaderboardRow list" where
  "leaderboard_join since t =
     concat (map (\<lambda>c.
       map (\<lambda>u. \<lparr>lr_user_id = c_user_id c, lr_name = u_name u, lr_lab_id = c_lab_id c,
                 lr_completed_at = c_completed_at c\<rparr>)
         (filter (\<lambda>u. u_id u = c_user_id c \<and> \<not> u_leaderboard_hidden u
                     \<and> (case since of None \<Rightarrow> True | Some s \<Rightarrow> pg_time s \<le> c_completed_at c))
           (users t)))
       (lab_completions t))"

definition LeaderboardRows :: "fault \<Rightarrow> go_time option \<Rightarrow> tables \<Rightarrow> string + LeaderboardRow list" where
  "LeaderboardRows f since t = query f ''leaderboard rows: '' (leaderboard_join since t)"

section \<open>Integrity of the tables\<close>

text \<open>
  The constraints of the schema: the primary keys, and the foreign key of \<open>session_steps\<close>.
\<close>

definition tables_ok :: "tables \<Rightarrow> bool" where
  "tables_ok t \<longleftrightarrow>
     keyed u_id (users t) \<and> keyed pr_session_id (session_progress t) \<and>
     keyed step_key (session_steps t) \<and> keyed completion_key (lab_completions t) \<and>
     keyed sub_user_id (subscriptions t) \<and> keyed cs_id (checkout_sessions t) \<and>
     (\<forall>r\<in>set (session_steps t). \<exists>h\<in>set (session_progress t). pr_session_id h = sr_session_id r)"

lemma tables_ok_empty: "tables_ok empty_tables"
  by (simp add: tables_ok_def empty_tables_def)

lemma tables_ok_finish:
  "tables_ok t \<Longrightarrow> tables_ok t' \<Longrightarrow> tables_ok (snd (finish f n w t t'))"
  using finish_snd [of f n w t t'] by auto

lemma UpsertUser_ok: "tables_ok t \<Longrightarrow> tables_ok (snd (UpsertUser f now uid e n r t))"
  unfolding UpsertUser_def
  by (rule tables_ok_finish) (simp_all add: tables_ok_def keyed_row_upsert)

lemma SetLeaderboardHidden_ok:
  "tables_ok t \<Longrightarrow> tables_ok (snd (SetLeaderboardHidden f now uid h t))"
  unfolding SetLeaderboardHidden_def
  by (rule tables_ok_finish) (simp_all add: tables_ok_def keyed_row_upsert)

lemma SetUserRole_ok: "tables_ok t \<Longrightarrow> tables_ok (snd (SetUserRole f uid r t))"
  unfolding SetUserRole_def
  by (rule tables_ok_finish) (simp_all add: tables_ok_def keyed_row_update)

lemma RecordCompletion_ok:
  "tables_ok t \<Longrightarrow> tables_ok (snd (RecordCompletion f now uid lab sid t))"
  unfolding RecordCompletion_def
  by (rule tables_ok_finish) (simp_all add: tables_ok_def keyed_row_upsert)

lemma CreateCheckoutSession_ok:
  "tables_ok t \<Longrightarrow> tables_ok (snd (CreateCheckoutSession f now cs t))"
  unfolding CreateCheckoutSession_def
  by (split if_split, intro conjI impI, simp, rule tables_ok_finish)
    (simp_all add: tables_ok_def keyed_def row_find_None)

lemma set_checkout_status_ok: "tables_ok t \<Longrightarrow> tables_ok (set_checkout_status cid s t)"
  by (simp add: set_checkout_status_def tables_ok_def keyed_row_update)

lemma activate_subscription_ok: "tables_ok t \<Longrightarrow> tables_ok (activate_subscription now uid p t)"
  by (simp add: activate_subscription_def tables_ok_def keyed_row_upsert)

lemma commit_checkout_snd [simp]: "snd (commit_checkout x r) = snd x"
  by (cases "(x, r)" rule: commit_checkout.cases) auto

lemma CompleteCheckoutSession_ok:
  assumes "tables_ok t"
  shows "tables_ok (snd (CompleteCheckoutSession f now cid uid t))"
proof -
  note ok = assms set_checkout_status_ok [OF assms]
    activate_subscription_ok [OF set_checkout_status_ok [OF assms]]
  show ?thesis
    unfolding CompleteCheckoutSession_def
    using ok by (auto split: option.split intro!: tables_ok_finish simp: Let_def)
qed

lemma row_find_exists: "k \<in> key ` set rows \<Longrightarrow> \<exists>r. row_find key k rows = Some r"
  by (metis option.exhaust row_find_None)

subsection \<open>Saving steps\<close>

lemma upsert_step_eq:
  "upsert_step sid st rows =
     row_upsert step_key (step_to_row sid st)
       (\<lambda>r. if step_key r = (sid, sp_step_id st) then step_to_row sid st else
         r\<lparr>sr_status := sp_status st, sr_attempts := sp_attempts st,
           sr_hint_level := sp_hint_level st, sr_checks := marshal_checks (sp_checks st)\<rparr>) rows"
  by (induction rows) (auto simp: upsert_step_def step_to_row_def)

lemma step_key_row [simp]:
  "sr_session_id (step_to_row sid st) = sid" "sr_step_id (step_to_row sid st) = sp_step_id st"
  by (simp_all add: step_to_row_def)

lemma row_to_step_to_row [simp]: "row_to_step (step_to_row sid st) = st"
  by (cases "sp_checks st")
    (simp_all add: row_to_step_def step_to_row_def marshal_checks_def unmarshal_checks_def)

lemma keyed_upsert_step: "keyed step_key rows \<Longrightarrow> keyed step_key (upsert_step sid st rows)"
  unfolding upsert_step_def by (rule keyed_row_upsert) simp_all

lemma row_find_upsert_step:
  "row_find step_key k (upsert_step sid st rows)
   = (if k = (sid, sp_step_id st) then Some (step_to_row sid st) else row_find step_key k rows)"
proof -
  have "row_find step_key k (upsert_step sid st rows)
      = (if k = step_key (step_to_row sid st)
         then Some (case row_find step_key k rows of None \<Rightarrow> step_to_row sid st
           | Some r \<Rightarrow> (\<lambda>r. if step_key r = (sid, sp_step_id st) then step_to_row sid st else
               r\<lparr>sr_status := sp_status st, sr_attempts := sp_attempts st,
               sr_hint_level := sp_hint_level st, sr_checks := marshal_checks (sp_checks st)\<rparr>) r)
         else row_find step_key k rows)"
    unfolding upsert_step_eq by (rule row_find_upsert) simp
  then show ?thesis
    by (auto split: option.splits dest: row_find_Some)
qed

lemma filter_upsert_step_other:
  "sid' \<noteq> sid \<Longrightarrow> filter (\<lambda>r. sr_session_id r = sid') (upsert_step sid st rows)
    = filter (\<lambda>r. sr_session_id r = sid') rows"
  unfolding upsert_step_def by (rule filter_row_upsert_other) auto

abbreviation upsert_steps :: "string \<Rightarrow> StepProgress list \<Rightarrow> step_row list \<Rightarrow> step_row list" where
  "upsert_steps sid sts rows \<equiv> fold (upsert_step sid) sts rows"

lemma save_steps_Inr: "save_steps f n sid sts rows = Inr rows' \<Longrightarrow> rows' = upsert_steps sid sts rows"
  by (induction f n sid sts rows rule: save_steps.induct) (auto split: option.splits)

lemma keyed_upsert_steps: "keyed step_key rows \<Longrightarrow> keyed step_key (upsert_steps sid sts rows)"
  by (induction sts arbitrary: rows) (auto intro: keyed_upsert_step)

lemma filter_upsert_steps_other:
  "sid' \<noteq> sid \<Longrightarrow> filter (\<lambda>r. sr_session_id r = sid') (upsert_steps sid sts rows)
    = filter (\<lambda>r. sr_session_id r = sid') rows"
  by (induction sts arbitrary: rows) (simp_all add: filter_upsert_step_other)

lemma row_find_upsert_steps_other:
  "k \<notin> (\<lambda>st. (sid, sp_step_id st)) ` set sts \<Longrightarrow>
   row_find step_key k (upsert_steps sid sts rows) = row_find step_key k rows"
  by (induction sts arbitrary: rows) (auto simp: row_find_upsert_step)

lemma row_find_upsert_steps:
  "distinct (map sp_step_id sts) \<Longrightarrow> st \<in> set sts \<Longrightarrow>
   row_find step_key (sid, sp_step_id st) (upsert_steps sid sts rows) = Some (step_to_row sid st)"
proof (induction sts arbitrary: rows)
  case Nil
  then show ?case by simp
next
  case (Cons s sts)
  show ?case
  proof (cases "st \<in> set sts")
    case True
    then show ?thesis using Cons by simp
  next
    case False
    with Cons.prems have "st = s" by simp
    moreover have "(sid, sp_step_id s) \<notin> (\<lambda>st. (sid, sp_step_id st)) ` set sts"
      using Cons.prems(1) by auto
    ultimately show ?thesis
      by (simp add: row_find_upsert_steps_other row_find_upsert_step)
  qed
qed

text \<open>
  A snapshot covers the stored steps of its session when it names all of them; then saving it
  makes the step rows of the session exactly the snapshot.
\<close>

lemma session_rows_after_save:
  assumes "keyed step_key rows" and "distinct (map sp_step_id sts)"
    and "\<And>r. r \<in> set rows \<Longrightarrow> sr_session_id r = sid \<Longrightarrow> sr_step_id r \<in> sp_step_id ` set sts"
  shows "set (filter (\<lambda>r. sr_session_id r = sid) (upsert_steps sid sts rows))
       = step_to_row sid ` set sts" (is "?L = ?R")
proof
  let ?rows = "upsert_steps sid sts rows"
  have k: "keyed step_key ?rows" using assms(1) by (rule keyed_upsert_steps)
  show "?R \<subseteq> ?L"
    using row_find_upsert_steps [OF assms(2)] by (fastforce dest: row_find_Some)
  show "?L \<subseteq> ?R"
  proof
    fix r assume "r \<in> ?L"
    then have r: "r \<in> set ?rows" "sr_session_id r = sid" by auto
    with k have f: "row_find step_key (sid, sr_step_id r) ?rows = Some r"
      using row_find_keyed [of step_key ?rows r] by simp
    have "sr_step_id r \<in> sp_step_id ` set sts"
    proof (rule ccontr)
      assume "sr_step_id r \<notin> sp_step_id ` set sts"
      then have "(sid, sr_step_id r) \<notin> (\<lambda>st. (sid, sp_step_id st)) ` set sts" by auto
      then have "row_find step_key (sid, sr_step_id r) rows = Some r"
        using f row_find_upsert_steps_other [of "(sid, sr_step_id r)" sid sts rows] by simp
      then show False
        using assms(3) [of r] \<open>sr_step_id r \<notin> sp_step_id ` set sts\<close> r(2)
        by (auto dest: row_find_Some)
    qed
    then obtain st where "st \<in> set sts" "sr_step_id r = sp_step_id st" by auto
    with f row_find_upsert_steps [OF assms(2), of st sid rows] show "r \<in> ?R" by auto
  qed
qed

lemma steps_of_after_save:
  assumes "keyed step_key rows" and "sorted (map sp_step_id sts)" and "distinct (map sp_step_id sts)"
    and "\<And>r. r \<in> set rows \<Longrightarrow> sr_session_id r = sid \<Longrightarrow> sr_step_id r \<in> sp_step_id ` set sts"
  shows "steps_of sid (upsert_steps sid sts rows) = sts"
proof -
  let ?F = "filter (\<lambda>r. sr_session_id r = sid) (upsert_steps sid sts rows)"
  have "distinct ?F"
    using keyed_upsert_steps [OF assms(1)] by (simp add: keyed_def distinct_map)
  moreover have "distinct (map (step_to_row sid) sts)"
    using assms(3) by (auto simp: distinct_map inj_on_def dest: arg_cong [where f = sr_step_id])
  moreover have "set ?F = set (map (step_to_row sid) sts)"
    using session_rows_after_save [OF assms(1,3,4)] by simp
  ultimately have "mset (map (step_to_row sid) sts) = mset ?F"
    using set_eq_iff_mset_eq_distinct by metis
  then have "sort_key sr_step_id ?F = map (step_to_row sid) sts"
    using assms(2,3) by (intro sort_key_eqI) (simp_all add: comp_def)
  then show ?thesis by (simp add: steps_of_def comp_def)
qed

subsection \<open>The laws of the progress methods\<close>

text \<open>
  A snapshot fits the tables when it lists its steps in increasing order of their id, keeps the
  lab and user of the stored header, and names every stored step. The snapshots that the step
  store writes are of this kind.
\<close>

definition fits :: "SessionProgress \<Rightarrow> SessionProgress option \<Rightarrow> bool" where
  "fits p stored \<longleftrightarrow>
     sorted (map sp_step_id (sp_steps p)) \<and> distinct (map sp_step_id (sp_steps p)) \<and>
     (case stored of None \<Rightarrow> True
      | Some q \<Rightarrow> sp_lab_id q = sp_lab_id p \<and> sp_user_id q = sp_user_id p \<and>
          set (map sp_step_id (sp_steps q)) \<subseteq> set (map sp_step_id (sp_steps p)))"

definition saved :: "go_time \<Rightarrow> string \<Rightarrow> SessionProgress \<Rightarrow> tables \<Rightarrow> tables" where
  "saved now sid p t =
     (save_header now sid p t)\<lparr>session_steps := upsert_steps sid (sp_steps p) (session_steps t)\<rparr>"

lemma save_header_steps [simp]: "session_steps (save_header now sid p t) = session_steps t"
  by (simp add: save_header_def)

lemma SaveProgress_snd: "snd (SaveProgress f now sid p t) \<in> {t, saved now sid p t}"
proof (cases "save_steps f 2 sid (sp_steps p) (session_steps t)")
  case (Inl e)
  then show ?thesis by (auto simp: SaveProgress_def Let_def split: option.split)
next
  case (Inr rows)
  then have "rows = upsert_steps sid (sp_steps p) (session_steps t)" by (rule save_steps_Inr)
  with Inr finish_snd [of f "2 + length (sp_steps p)" "[]" t "saved now sid p t"]
  show ?thesis by (auto simp: SaveProgress_def Let_def saved_def split: option.split)
qed

lemma SaveProgress_None:
  assumes "fst (SaveProgress f now sid p t) = None"
  shows "snd (SaveProgress f now sid p t) = saved now sid p t"
proof (cases "save_steps f 2 sid (sp_steps p) (session_steps t)")
  case (Inl e)
  with assms show ?thesis by (auto simp: SaveProgress_def Let_def split: option.splits)
next
  case (Inr rows)
  then have "rows = upsert_steps sid (sp_steps p) (session_steps t)" by (rule save_steps_Inr)
  with Inr assms show ?thesis
    by (auto simp: SaveProgress_def Let_def saved_def split: option.splits dest: finish_ok)
qed

lemma saved_progress_row:
  "row_find pr_session_id sid' (session_progress (saved now sid p t))
   = (if sid' = sid
      then Some (case row_find pr_session_id sid (session_progress t) of
          None \<Rightarrow> \<lparr>pr_session_id = sid, pr_lab_id = sp_lab_id p, pr_user_id = sp_user_id p,
                   pr_current_step = sp_current_step p, pr_updated_at = pg_time now\<rparr>
        | Some r \<Rightarrow> r\<lparr>pr_current_step := sp_current_step p, pr_updated_at := pg_time now\<rparr>)
      else row_find pr_session_id sid' (session_progress t))"
  by (auto simp: saved_def save_header_def row_find_upsert split: option.splits)

lemma saved_keeps_headers:
  "h \<in> set (session_progress t) \<Longrightarrow>
   \<exists>h'\<in>set (session_progress (saved now sid p t)). pr_session_id h' = pr_session_id h"
proof -
  assume "h \<in> set (session_progress t)"
  then obtain r where "row_find pr_session_id (pr_session_id h) (session_progress t) = Some r"
    using row_find_exists [of "pr_session_id h" pr_session_id] by blast
  then have "row_find pr_session_id (pr_session_id h) (session_progress (saved now sid p t)) \<noteq> None"
    by (simp add: saved_progress_row)
  then show ?thesis by (auto dest: row_find_Some)
qed

lemma saved_tables_ok:
  assumes "tables_ok t"
  shows "tables_ok (saved now sid p t)"
proof -
  have parent: "\<exists>h\<in>set (session_progress (saved now sid p t)). pr_session_id h = sr_session_id r"
    if r: "r \<in> set (session_steps (saved now sid p t))" for r
  proof (cases "sr_session_id r = sid")
    case True
    then show ?thesis using saved_progress_row [of sid now sid p t] by (auto dest: row_find_Some)
  next
    case False
    have "r \<in> set (filter (\<lambda>x. sr_session_id x = sr_session_id r)
                    (upsert_steps sid (sp_steps p) (session_steps t)))"
      using r by (simp add: saved_def)
    with False have "r \<in> set (session_steps t)"
      by (simp add: filter_upsert_steps_other)
    with assms obtain h where "h \<in> set (session_progress t)" "pr_session_id h = sr_session_id r"
      by (auto simp: tables_ok_def)
    with saved_keeps_headers [of h t now sid p] show ?thesis by metis
  qed
  have "keyed pr_session_id (session_progress (saved now sid p t))"
    using assms by (simp add: saved_def save_header_def tables_ok_def keyed_row_upsert)
  moreover have "keyed step_key (session_steps (saved now sid p t))"
    using assms by (simp add: saved_def tables_ok_def keyed_upsert_steps)
  ultimately show ?thesis
    using assms parent by (simp add: tables_ok_def saved_def save_header_def)
qed

lemma SaveProgress_ok: "tables_ok t \<Longrightarrow> tables_ok (snd (SaveProgress f now sid p t))"
  using SaveProgress_snd [of f now sid p t] saved_tables_ok by auto

lemma stored_step_ids:
  assumes "tables_ok t" and "r \<in> set (session_steps t)" and "sr_session_id r = sid"
  shows "\<exists>q. progress_of sid t = Some q \<and> sr_step_id r \<in> set (map sp_step_id (sp_steps q))"
proof -
  from assms obtain h where "h \<in> set (session_progress t)" "pr_session_id h = sid"
    by (auto simp: tables_ok_def)
  then obtain h' where "row_find pr_session_id sid (session_progress t) = Some h'"
    using row_find_exists [of sid pr_session_id] by blast
  then show ?thesis
    using assms(2,3) by (auto simp: progress_of_def steps_of_def row_to_step_def image_image)
qed

lemma saved_round_trip:
  assumes "tables_ok t" and "fits p (progress_of sid t)"
  shows "progress_of sid (saved now sid p t) = Some p"
proof -
  have "steps_of sid (upsert_steps sid (sp_steps p) (session_steps t)) = sp_steps p"
    using assms stored_step_ids [OF assms(1)]
    by (intro steps_of_after_save) (fastforce simp: fits_def tables_ok_def split: option.splits)+
  then show ?thesis
    using assms(2)
    by (auto simp: progress_of_def saved_progress_row fits_def split: option.splits)
      (simp_all add: saved_def)
qed

lemma saved_frame: "sid' \<noteq> sid \<Longrightarrow> progress_of sid' (saved now sid p t) = progress_of sid' t"
  by (simp add: progress_of_def saved_progress_row steps_of_def)
    (simp add: saved_def filter_upsert_steps_other)

lemma LoadProgress_Inr: "LoadProgress f sid t = Inr r \<Longrightarrow> r = progress_of sid t"
  by (auto simp: LoadProgress_def progress_of_def split: sum.splits option.splits dest: query_ok)

lemma remove_progress_of:
  "progress_of sid' (remove_progress sid t) = (if sid' = sid then None else progress_of sid' t)"
proof (cases "sid' = sid")
  case True
  then show ?thesis by (simp add: progress_of_def remove_progress_def row_find_delete)
next
  case False
  then have "(sr_session_id r \<noteq> sid \<and> sr_session_id r = sid') = (sr_session_id r = sid')" for r :: step_row
    by auto
  with False have "steps_of sid' (row_delete sr_session_id sid (session_steps t))
      = steps_of sid' (session_steps t)"
    by (simp add: steps_of_def row_delete_def)
  with False show ?thesis by (simp add: progress_of_def remove_progress_def row_find_delete)
qed

lemma remove_progress_ok: "tables_ok t \<Longrightarrow> tables_ok (remove_progress sid t)"
  by (force simp: tables_ok_def remove_progress_def keyed_row_delete row_delete_def keyed_def
      distinct_map_filter)

lemma DeleteProgress_ok: "tables_ok t \<Longrightarrow> tables_ok (snd (DeleteProgress f sid t))"
  unfolding DeleteProgress_def by (rule tables_ok_finish) (simp_all add: remove_progress_ok)

lemmas store_preserves = UpsertUser_ok SetLeaderboardHidden_ok SetUserRole_ok RecordCompletion_ok
  CreateCheckoutSession_ok CompleteCheckoutSession_ok SaveProgress_ok DeleteProgress_ok

end
