(* ===== verification/Persistence.thy ===== *)
theory Persistence
  imports Store
begin

text \<open>
  The interface \<open>persistence\<close> of \<open>src/apps/api/internal/api/handlers/progress.go\<close> as a record of
  operations over an abstract database state, the contract its clients rely on as a locale, and
  the interpretation of that contract on the model of \<open>store.Store\<close>.

  The contract holds whatever faults the database has: an operation that reports success took
  effect, one that reports an error either took effect or changed nothing.
\<close>

section \<open>The interface\<close>

record 'd persistence =
  p_SaveProgress :: "go_time \<Rightarrow> string \<Rightarrow> SessionProgress \<Rightarrow> 'd \<Rightarrow> string option \<times> 'd"
  p_LoadProgress :: "string \<Rightarrow> 'd \<Rightarrow> (string + SessionProgress option) \<times> 'd"
  p_DeleteProgress :: "string \<Rightarrow> 'd \<Rightarrow> string option \<times> 'd"
  p_UpsertUser :: "go_time \<Rightarrow> string \<Rightarrow> string \<Rightarrow> string \<Rightarrow> string \<Rightarrow> 'd \<Rightarrow> string option \<times> 'd"
  p_ListUsers :: "int \<Rightarrow> 'd \<Rightarrow> (string + User list) \<times> 'd"
  p_ListCompletionsByUser :: "string \<Rightarrow> 'd \<Rightarrow> (string + Completion list) \<times> 'd"
  p_SetUserRole :: "string \<Rightarrow> string \<Rightarrow> 'd \<Rightarrow> string option \<times> 'd"
  p_RecordCompletion :: "go_time \<Rightarrow> string \<Rightarrow> string \<Rightarrow> string \<Rightarrow> 'd \<Rightarrow> string option \<times> 'd"
  p_LeaderboardRows :: "go_time option \<Rightarrow> 'd \<Rightarrow> (string + LeaderboardRow list) \<times> 'd"
  p_LeaderboardHidden :: "string \<Rightarrow> 'd \<Rightarrow> (string + bool) \<times> 'd"
  p_SetLeaderboardHidden :: "go_time \<Rightarrow> string \<Rightarrow> bool \<Rightarrow> 'd \<Rightarrow> string option \<times> 'd"
  p_ListInProgressLabsByUser :: "string \<Rightarrow> 'd \<Rightarrow> (string + InProgressLab list) \<times> 'd"
  p_GetSubscription :: "string \<Rightarrow> 'd \<Rightarrow> (string + Subscription option) \<times> 'd"
  p_CreateCheckoutSession :: "go_time \<Rightarrow> CheckoutSession \<Rightarrow> 'd \<Rightarrow> string option \<times> 'd"
  p_CompleteCheckoutSession ::
    "go_time \<Rightarrow> string \<Rightarrow> string \<Rightarrow> 'd \<Rightarrow> (checkout_err + Subscription) \<times> 'd"

text \<open>
  The store as an instance: the state is the tables and the number of calls made so far, and a
  script gives the fault of every call.
\<close>

record db =
  tbls :: tables
  calls :: nat

definition writes :: "(nat \<Rightarrow> fault) \<Rightarrow> (fault \<Rightarrow> tables \<Rightarrow> 'r \<times> tables) \<Rightarrow> db \<Rightarrow> 'r \<times> db" where
  "writes fs op d =
     (let (r, t) = op (fs (calls d)) (tbls d) in (r, \<lparr>tbls = t, calls = Suc (calls d)\<rparr>))"

definition reads :: "(nat \<Rightarrow> fault) \<Rightarrow> (fault \<Rightarrow> tables \<Rightarrow> 'r) \<Rightarrow> db \<Rightarrow> 'r \<times> db" where
  "reads fs op d = (op (fs (calls d)) (tbls d), d\<lparr>calls := Suc (calls d)\<rparr>)"

definition store_persistence :: "(nat \<Rightarrow> fault) \<Rightarrow> db persistence" where
  "store_persistence fs =
     \<lparr>p_SaveProgress = (\<lambda>now sid p. writes fs (\<lambda>f. SaveProgress f now sid p)),
      p_LoadProgress = (\<lambda>sid. reads fs (\<lambda>f. LoadProgress f sid)),
      p_DeleteProgress = (\<lambda>sid. writes fs (\<lambda>f. DeleteProgress f sid)),
      p_UpsertUser = (\<lambda>now uid email name role. writes fs (\<lambda>f. UpsertUser f now uid email name role)),
      p_ListUsers = (\<lambda>limit. reads fs (\<lambda>f. ListUsers f limit)),
      p_ListCompletionsByUser = (\<lambda>uid. reads fs (\<lambda>f. ListCompletionsByUser f uid)),
      p_SetUserRole = (\<lambda>uid role. writes fs (\<lambda>f. SetUserRole f uid role)),
      p_RecordCompletion = (\<lambda>now uid lab sid. writes fs (\<lambda>f. RecordCompletion f now uid lab sid)),
      p_LeaderboardRows = (\<lambda>since. reads fs (\<lambda>f. LeaderboardRows f since)),
      p_LeaderboardHidden = (\<lambda>uid. reads fs (\<lambda>f. LeaderboardHidden f uid)),
      p_SetLeaderboardHidden = (\<lambda>now uid h. writes fs (\<lambda>f. SetLeaderboardHidden f now uid h)),
      p_ListInProgressLabsByUser = (\<lambda>uid. reads fs (\<lambda>f. ListInProgressLabsByUser f uid)),
      p_GetSubscription = (\<lambda>uid. reads fs (\<lambda>f. GetSubscription f uid)),
      p_CreateCheckoutSession = (\<lambda>now cs. writes fs (\<lambda>f. CreateCheckoutSession f now cs)),
      p_CompleteCheckoutSession = (\<lambda>now cid uid. writes fs (\<lambda>f. CompleteCheckoutSession f now cid uid))\<rparr>"

definition db_view :: "db \<Rightarrow> string \<Rightarrow> SessionProgress option" where
  "db_view d sid = progress_of sid (tbls d)"

definition db_ok :: "db \<Rightarrow> bool" where
  "db_ok d \<longleftrightarrow> tables_ok (tbls d)"

definition empty_db :: db where
  "empty_db = \<lparr>tbls = empty_tables, calls = 0\<rparr>"

section \<open>The contract of the progress operations\<close>

text \<open>
  \<open>view\<close> is the progress the database holds for each session, \<open>ok\<close> its integrity.
\<close>

locale progress_persistence =
  fixes P :: "'d persistence"
    and view :: "'d \<Rightarrow> string \<Rightarrow> SessionProgress option"
    and ok :: "'d \<Rightarrow> bool"
  assumes load_frame: "ok d \<Longrightarrow> p_LoadProgress P sid d = (r, d') \<Longrightarrow> ok d' \<and> view d' = view d"
    and load_ok: "ok d \<Longrightarrow> p_LoadProgress P sid d = (Inr x, d') \<Longrightarrow> x = view d sid"
    and view_wf: "ok d \<Longrightarrow> view d sid = Some p \<Longrightarrow>
      sorted (map sp_step_id (sp_steps p)) \<and> distinct (map sp_step_id (sp_steps p))"
    and save_ok: "ok d \<Longrightarrow> fits p (view d sid) \<Longrightarrow> p_SaveProgress P now sid p d = (None, d') \<Longrightarrow>
      ok d' \<and> view d' = (view d)(sid := Some p)"
    and save_err: "ok d \<Longrightarrow> fits p (view d sid) \<Longrightarrow> p_SaveProgress P now sid p d = (Some e, d') \<Longrightarrow>
      ok d' \<and> (view d' = view d \<or> view d' = (view d)(sid := Some p))"
    and delete_ok: "ok d \<Longrightarrow> p_DeleteProgress P sid d = (None, d') \<Longrightarrow>
      ok d' \<and> view d' = (view d)(sid := None)"
    and delete_err: "ok d \<Longrightarrow> p_DeleteProgress P sid d = (Some e, d') \<Longrightarrow>
      ok d' \<and> (view d' = view d \<or> view d' = (view d)(sid := None))"
    and completion_frame: "ok d \<Longrightarrow> p_RecordCompletion P now uid lab sid d = (r', d') \<Longrightarrow>
      ok d' \<and> view d' = view d"
    and subscription_frame: "ok d \<Longrightarrow> p_GetSubscription P uid d = (rs, d') \<Longrightarrow> ok d' \<and> view d' = view d"
begin

lemma save_cases:
  assumes "ok d" and "fits p (view d sid)" and "p_SaveProgress P now sid p d = (r, d')"
  shows "ok d'" and "view d' = view d \<or> view d' = (view d)(sid := Some p)"
    and "sid' \<noteq> sid \<Longrightarrow> view d' sid' = view d sid'"
  using assms save_ok [of d p sid now d'] save_err [of d p sid now _ d'] by (cases r; auto)+

lemma delete_cases:
  assumes "ok d" and "p_DeleteProgress P sid d = (r, d')"
  shows "ok d'" and "sid' \<noteq> sid \<Longrightarrow> view d' sid' = view d sid'"
    and "view d' sid = view d sid \<or> view d' sid = None"
  using assms delete_ok [of d sid d'] delete_err [of d sid _ d'] by (cases r; auto)+

text \<open>What a load after a successful save returns, when it succeeds.\<close>

lemma load_after_save:
  assumes "ok d" and "fits p (view d sid)" and "p_SaveProgress P now sid p d = (None, d')"
    and "p_LoadProgress P sid d' = (Inr x, d'')"
  shows "x = Some p"
  using save_ok [OF assms(1-3)] load_ok [OF _ assms(4)] by simp

end

lemma progress_of_wf:
  assumes "tables_ok t" and "progress_of sid t = Some p"
  shows "sorted (map sp_step_id (sp_steps p)) \<and> distinct (map sp_step_id (sp_steps p))"
proof -
  let ?F = "filter (\<lambda>r. sr_session_id r = sid) (session_steps t)"
  have ids: "map sp_step_id (sp_steps p) = map sr_step_id (sort_key sr_step_id ?F)"
    using assms(2) by (auto simp: progress_of_def steps_of_def row_to_step_def)
  have "distinct (map step_key ?F)"
    using assms(1) by (simp add: tables_ok_def keyed_def distinct_map_filter)
  then have "distinct (map sr_step_id ?F)"
    by (auto simp: distinct_map inj_on_def)
  then have "distinct (map sr_step_id (sort_key sr_step_id ?F))"
    by (metis distinct_map distinct_sort set_sort)
  with ids show ?thesis by simp
qed

text \<open>\<open>RecordCompletion\<close> and the user and billing methods leave the progress tables alone.\<close>

lemma progress_of_cong:
  "session_progress t' = session_progress t \<Longrightarrow> session_steps t' = session_steps t \<Longrightarrow>
   progress_of sid t' = progress_of sid t"
  by (simp add: progress_of_def)

lemma RecordCompletion_frame:
  "progress_of sid' (snd (RecordCompletion f now uid lab sid t)) = progress_of sid' t"
  by (cases f) (auto simp: RecordCompletion_def intro: progress_of_cong)

lemma writesE:
  assumes "writes fs op d = (r, d')"
  obtains t where "op (fs (calls d)) (tbls d) = (r, t)" and "d' = \<lparr>tbls = t, calls = Suc (calls d)\<rparr>"
  using assms by (auto simp: writes_def split: prod.splits)

lemma db_save_ok:
  assumes "db_ok d" and "fits p (db_view d sid)"
    and "p_SaveProgress (store_persistence fs) now sid p d = (None, d')"
  shows "db_ok d' \<and> db_view d' = (db_view d)(sid := Some p)"
proof -
  from assms(3) obtain t where t: "SaveProgress (fs (calls d)) now sid p (tbls d) = (None, t)"
    and d': "d' = \<lparr>tbls = t, calls = Suc (calls d)\<rparr>"
    by (auto simp: store_persistence_def elim: writesE)
  from t have "t = saved now sid p (tbls d)"
    using SaveProgress_None [of "fs (calls d)" now sid p "tbls d"] by simp
  with assms(1,2) d' show ?thesis
    by (auto simp: db_ok_def db_view_def fun_eq_iff saved_tables_ok saved_round_trip saved_frame)
qed

lemma db_save_err:
  assumes "db_ok d" and "fits p (db_view d sid)"
    and "p_SaveProgress (store_persistence fs) now sid p d = (Some e, d')"
  shows "db_ok d' \<and> (db_view d' = db_view d \<or> db_view d' = (db_view d)(sid := Some p))"
proof -
  from assms(3) obtain t where t: "SaveProgress (fs (calls d)) now sid p (tbls d) = (Some e, t)"
    and d': "d' = \<lparr>tbls = t, calls = Suc (calls d)\<rparr>"
    by (auto simp: store_persistence_def elim: writesE)
  from t have "t \<in> {tbls d, saved now sid p (tbls d)}"
    using SaveProgress_snd [of "fs (calls d)" now sid p "tbls d"] by simp
  then show ?thesis
  proof (elim insertE emptyE)
    assume "t = tbls d"
    with assms(1) d' show ?thesis by (simp add: db_ok_def db_view_def fun_eq_iff)
  next
    assume "t = saved now sid p (tbls d)"
    with assms(1,2) d' show ?thesis
      by (simp add: db_ok_def db_view_def fun_eq_iff saved_tables_ok saved_round_trip saved_frame)
  qed
qed

lemma db_delete:
  assumes "db_ok d" and "p_DeleteProgress (store_persistence fs) sid d = (r, d')"
  shows "db_ok d'" and "r = None \<Longrightarrow> db_view d' = (db_view d)(sid := None)"
    and "db_view d' = db_view d \<or> db_view d' = (db_view d)(sid := None)"
proof -
  from assms(2) obtain t where t: "DeleteProgress (fs (calls d)) sid (tbls d) = (r, t)"
    and d': "d' = \<lparr>tbls = t, calls = Suc (calls d)\<rparr>"
    by (auto simp: store_persistence_def elim: writesE)
  have removed: "(\<lambda>s. progress_of s (remove_progress sid (tbls d))) = (db_view d)(sid := None)"
    by (auto simp: fun_eq_iff db_view_def remove_progress_of)
  show "db_ok d'"
    using DeleteProgress_ok [of "tbls d" "fs (calls d)" sid] assms(1) t d' by (simp add: db_ok_def)
  show "r = None \<Longrightarrow> db_view d' = (db_view d)(sid := None)"
    using t d' removed by (cases "fs (calls d)")
      (auto simp: DeleteProgress_def db_view_def [abs_def] split: if_splits)
  show "db_view d' = db_view d \<or> db_view d' = (db_view d)(sid := None)"
    using t d' removed by (cases "fs (calls d)")
      (auto simp: DeleteProgress_def db_view_def [abs_def] split: if_splits)
qed

interpretation pgdb: progress_persistence "store_persistence fs" db_view db_ok for fs
proof unfold_locales
  fix d d' :: db and sid uid lab :: string and now and p :: SessionProgress and x e
  show "db_ok d \<Longrightarrow> p_LoadProgress (store_persistence fs) sid d = (r, d') \<Longrightarrow>
      db_ok d' \<and> db_view d' = db_view d" for r
    by (auto simp: store_persistence_def reads_def db_ok_def db_view_def [abs_def])
  show "db_ok d \<Longrightarrow> p_LoadProgress (store_persistence fs) sid d = (Inr x, d') \<Longrightarrow> x = db_view d sid"
    by (auto simp: store_persistence_def reads_def db_view_def dest: LoadProgress_Inr)
  show "db_ok d \<Longrightarrow> db_view d sid = Some p \<Longrightarrow>
      sorted (map sp_step_id (sp_steps p)) \<and> distinct (map sp_step_id (sp_steps p))"
    unfolding db_ok_def db_view_def by (rule progress_of_wf)
  show "db_ok d \<Longrightarrow> p_RecordCompletion (store_persistence fs) now uid lab sid d = (r, d') \<Longrightarrow>
      db_ok d' \<and> db_view d' = db_view d" for r
    using RecordCompletion_ok [of "tbls d" "fs (calls d)" now uid lab sid]
      RecordCompletion_frame [of _ "fs (calls d)" now uid lab sid "tbls d"]
    by (auto simp: store_persistence_def db_ok_def db_view_def [abs_def] elim!: writesE)
  show "db_ok d \<Longrightarrow> p_GetSubscription (store_persistence fs) uid d = (rs, d') \<Longrightarrow>
      db_ok d' \<and> db_view d' = db_view d" for rs
    by (auto simp: store_persistence_def reads_def db_ok_def db_view_def [abs_def])
  show "db_ok d \<Longrightarrow> p_DeleteProgress (store_persistence fs) sid d = (None, d') \<Longrightarrow>
      db_ok d' \<and> db_view d' = (db_view d)(sid := None)"
    using db_delete(1,2) [where r = None and d = d and d' = d' and sid = sid and fs = fs] by simp
  show "db_ok d \<Longrightarrow> p_DeleteProgress (store_persistence fs) sid d = (Some e, d') \<Longrightarrow>
      db_ok d' \<and> (db_view d' = db_view d \<or> db_view d' = (db_view d)(sid := None))"
    using db_delete(1,3) [where r = "Some e" and d = d and d' = d' and sid = sid and fs = fs] by simp
qed (fact db_save_ok db_save_err)+

end
