(* ===== verification/Messages.thy ===== *)
theory Messages
  imports Prelude
begin

text \<open>
  The messages the API exchanges with the other services: validation requests and results
  (\<open>src/apps/api/internal/validation/message.go\<close>) and learning events
  (\<open>src/apps/api/internal/events/events.go\<close>). The named string types \<open>VMType\<close>, \<open>CheckType\<close>
  and \<open>events.Type\<close> are strings, since values outside their constants can occur on the wire.
\<close>

section \<open>Validation requests and results\<close>

definition VMTypeKubeVirt :: string where "VMTypeKubeVirt = ''kubevirt''"

definition VMTypeEC2 :: string where "VMTypeEC2 = ''ec2''"

record VMSpec =
  vm_type :: string
  vm_name :: string
  vm_namespace :: string
  vm_instance_id :: string
  vm_region :: string

record Check =
  chk_type :: string
  chk_command :: string
  chk_path :: string
  chk_url :: string
  chk_name :: string
  chk_expect :: string
  chk_expect_code :: int
  chk_timeout :: int

record ValidationRequest =
  vq_trace_id :: string
  vq_traceparent :: string
  vq_session_id :: string
  vq_step_id :: int
  vq_vm :: VMSpec
  vq_checks :: "Check list"

record CheckResult =
  cr_type :: string
  cr_passed :: bool
  cr_detail :: string

record ValidationResult =
  vr_trace_id :: string
  vr_session_id :: string
  vr_step_id :: int
  vr_passed :: bool
  vr_checks :: "CheckResult list"
  vr_duration_ms :: int

section \<open>Learning events\<close>

definition LabStarted :: string where "LabStarted = ''lab_started''"

definition StepCompleted :: string where "StepCompleted = ''step_completed''"

definition ValidationFailed :: string where "ValidationFailed = ''validation_failed''"

definition HintRequested :: string where "HintRequested = ''hint_requested''"

definition LabCompleted :: string where "LabCompleted = ''lab_completed''"

definition LabAbandoned :: string where "LabAbandoned = ''lab_abandoned''"

lemmas event_types = LabStarted_def StepCompleted_def ValidationFailed_def HintRequested_def
  LabCompleted_def LabAbandoned_def

record Event =
  ev_type :: string
  ev_user_id :: string
  ev_session_id :: string
  ev_lab_id :: string
  ev_step_id :: int
  ev_hint_level :: int
  ev_hint_source :: string
  ev_vm_provider :: string
  ev_timestamp :: go_time

text \<open>A composite literal leaves the fields it does not name at their zero values.\<close>

definition event0 :: Event where
  "event0 = \<lparr>ev_type = [], ev_user_id = [], ev_session_id = [], ev_lab_id = [], ev_step_id = 0,
     ev_hint_level = 0, ev_hint_source = [], ev_vm_provider = [], ev_timestamp = zero_time\<rparr>"

definition mk_event :: "string \<Rightarrow> string \<Rightarrow> string \<Rightarrow> string \<Rightarrow> int \<Rightarrow> Event" where
  "mk_event ty uid sid lab step =
     event0\<lparr>ev_type := ty, ev_user_id := uid, ev_session_id := sid, ev_lab_id := lab, ev_step_id := step\<rparr>"

text \<open>
  \<open>emitEvent\<close>: nothing without a publisher, otherwise the event with the current time is handed
  to the publisher. The publisher runs in its own goroutine and its errors are only logged; the
  model keeps the events in the order in which they were handed over.
\<close>

definition emitEvent :: "bool \<Rightarrow> go_time \<Rightarrow> Event \<Rightarrow> Event list \<Rightarrow> Event list" where
  "emitEvent enabled now e evs = (if enabled then evs @ [e\<lparr>ev_timestamp := now\<rparr>] else evs)"

end
