(* ===== verification/Step_Store.thy ===== *)
theory Step_Store
  imports Persistence Messages
begin

text \<open>
  The step store of \<open>src/apps/api/internal/api/handlers\<close>: the types and \<open>allPassed\<close> of
  \<open>session.go\<close>, the cache with write-through and load-on-miss of \<open>progress.go\<close>, and the
  operations that the handlers run on a session through \<open>withSession\<close>.

  A \<open>stepStore\<close> is the cache (\<open>st.m\<close>, a Go map of pointers) with the state of the database
  behind it; the database itself, when there is one, is the argument \<open>db\<close>. A function that the
  source passes to \<open>withSession\<close> mutates the entry through its pointer and assigns the captured
  variables: here it returns the captured result, the dirty flag and the entry after the call.
\<close>

section \<open>Types\<close>

record checkOutcome =
  ck_type :: string
  ck_passed :: bool
  ck_detail :: string

record stepState =
  step_id :: int
  step_status :: string
  step_attempts :: int
  step_checks :: "checkOutcome list"
  step_hint_level :: int

record sessionSteps =
  ss_lab_id :: string
  ss_user_id :: string
  ss_steps :: "stepState list"
  ss_current_step :: int

fun all_passed_loop :: "stepState list \<Rightarrow> bool" where
  "all_passed_loop [] = True"
| "all_passed_loop (s # ss) = (if step_status s \<noteq> ''passed'' then False else all_passed_loop ss)"

definition allPassed :: "sessionSteps \<Rightarrow> bool" where
  "allPassed ss = (if length (ss_steps ss) = 0 then False else all_passed_loop (ss_steps ss))"

lemma all_passed_loop_iff: "all_passed_loop ss \<longleftrightarrow> (\<forall>s\<in>set ss. step_status s = ''passed'')"
  by (induction ss) auto

lemma allPassed_iff:
  "allPassed ss \<longleftrightarrow> ss_steps ss \<noteq> [] \<and> (\<forall>s\<in>set (ss_steps ss). step_status s = ''passed'')"
  by (simp add: allPassed_def all_passed_loop_iff)

section \<open>Conversion to and from the stored form\<close>

definition toStoreProgress :: "sessionSteps \<Rightarrow> SessionProgress" where
  "toStoreProgress ss =
     \<lparr>sp_lab_id = ss_lab_id ss, sp_user_id = ss_user_id ss, sp_current_step = ss_current_step ss,
      sp_steps = map (\<lambda>st. \<lparr>sp_step_id = step_id st, sp_status = step_status st,
          sp_attempts = step_attempts st, sp_hint_level = step_hint_level st,
          sp_checks = map (\<lambda>ck. \<lparr>co_type = ck_type ck, co_passed = ck_passed ck,
                                 co_detail = ck_detail ck\<rparr>) (step_checks st)\<rparr>) (ss_steps ss)\<rparr>"

definition fromStoreProgress :: "SessionProgress \<Rightarrow> sessionSteps" where
  "fromStoreProgress p =
     \<lparr>ss_lab_id = sp_lab_id p, ss_user_id = sp_user_id p,
      ss_steps = map (\<lambda>sp. \<lparr>step_id = sp_step_id sp, step_status = sp_status sp,
          step_attempts = sp_attempts sp,
          step_checks = map (\<lambda>ck. \<lparr>ck_type = co_type ck, ck_passed = co_passed ck,
                                   ck_detail = co_detail ck\<rparr>) (sp_checks sp),
          step_hint_level = sp_hint_level sp\<rparr>) (sp_steps p),
      ss_current_step = sp_current_step p\<rparr>"

lemma from_to_store [simp]: "fromStoreProgress (toStoreProgress ss) = ss"
  by (auto simp: fromStoreProgress_def toStoreProgress_def
      intro!: map_idI sessionSteps.equality stepState.equality checkOutcome.equality)

lemma to_from_store [simp]: "toStoreProgress (fromStoreProgress p) = p"
  by (auto simp: fromStoreProgress_def toStoreProgress_def
      intro!: map_idI SessionProgress.equality StepProgress.equality CheckOutcome.equality)

lemma step_ids_to_store [simp]:
  "map sp_step_id (sp_steps (toStoreProgress ss)) = map step_id (ss_steps ss)"
  by (simp add: toStoreProgress_def comp_def)

lemma toStoreProgress_header [simp]:
  "sp_lab_id (toStoreProgress ss) = ss_lab_id ss" "sp_user_id (toStoreProgress ss) = ss_user_id ss"
  "sp_current_step (toStoreProgress ss) = ss_current_step ss"
  by (simp_all add: toStoreProgress_def)

section \<open>The store\<close>

record 'd stepStore =
  st_m :: "string \<rightharpoonup> sessionSteps"
  st_d :: 'd

text \<open>
  \<open>withSession\<close> in the two parts the mutex separates: \<open>lock_phase\<close> runs under the lock and
  gives the captured result with the snapshot to write, if any; \<open>save_phase\<close> writes the snapshot
  after the lock is released, and only logs a failure.
\<close>

definition load_on_miss ::
  "'d persistence option \<Rightarrow> string \<Rightarrow> 'd stepStore \<Rightarrow> sessionSteps option \<times> 'd stepStore" where
  "load_on_miss db sid st =
     (case st_m st sid of
        Some ss \<Rightarrow> (Some ss, st)
      | None \<Rightarrow>
          (case db of
             None \<Rightarrow> (None, st)
           | Some P \<Rightarrow>
               (let (r, d) = p_LoadProgress P sid (st_d st) in
                case r of
                  Inl e \<Rightarrow> (None, st\<lparr>st_d := d\<rparr>)
                | Inr None \<Rightarrow> (None, st\<lparr>st_d := d\<rparr>)
                | Inr (Some p) \<Rightarrow>
                    (Some (fromStoreProgress p),
                     st\<lparr>st_m := (st_m st)(sid \<mapsto> fromStoreProgress p), st_d := d\<rparr>))))"

definition lock_phase ::
  "'d persistence option \<Rightarrow> string \<Rightarrow> (sessionSteps \<Rightarrow> 'r \<times> bool \<times> sessionSteps) \<Rightarrow> 'd stepStore \<Rightarrow>
   ('r \<times> SessionProgress option) option \<times> 'd stepStore" where
  "lock_phase db sid fn st =
     (let (ss, st1) = load_on_miss db sid st in
      case ss of
        None \<Rightarrow> (None, st1)
      | Some ss \<Rightarrow>
          (let (r, dirty, ss') = fn ss in
           (Some (r, if dirty \<and> db \<noteq> None then Some (toStoreProgress ss') else None),
            st1\<lparr>st_m := (st_m st1)(sid \<mapsto> ss')\<rparr>)))"

definition save_phase ::
  "'d persistence option \<Rightarrow> go_time \<Rightarrow> string \<Rightarrow> SessionProgress option \<Rightarrow> 'd stepStore \<Rightarrow> 'd stepStore"
where
  "save_phase db now sid snap st =
     (case (db, snap) of
        (Some P, Some p) \<Rightarrow> st\<lparr>st_d := snd (p_SaveProgress P now sid p (st_d st))\<rparr>
      | _ \<Rightarrow> st)"

definition withSession ::
  "'d persistence option \<Rightarrow> go_time \<Rightarrow> string \<Rightarrow> (sessionSteps \<Rightarrow> 'r \<times> bool \<times> sessionSteps) \<Rightarrow>
   'd stepStore \<Rightarrow> 'r option \<times> 'd stepStore" where
  "withSession db now sid fn st =
     (case lock_phase db sid fn st of
        (None, st1) \<Rightarrow> (None, st1)
      | (Some (r, snap), st1) \<Rightarrow> (Some r, save_phase db now sid snap st1))"

definition put ::
  "'d persistence option \<Rightarrow> go_time \<Rightarrow> string \<Rightarrow> sessionSteps \<Rightarrow> 'd stepStore \<Rightarrow>
   string option \<times> 'd stepStore" where
  "put db now sid ss st =
     (case db of
        None \<Rightarrow> (None, st\<lparr>st_m := (st_m st)(sid \<mapsto> ss)\<rparr>)
      | Some P \<Rightarrow>
          (let (e, d) = p_SaveProgress P now sid (toStoreProgress ss) (st_d st) in
           case e of
             Some m \<Rightarrow> (Some m, st\<lparr>st_d := d\<rparr>)
           | None \<Rightarrow> (None, st\<lparr>st_m := (st_m st)(sid \<mapsto> ss), st_d := d\<rparr>)))"

definition completed ::
  "'d persistence option \<Rightarrow> go_time \<Rightarrow> string \<Rightarrow> 'd stepStore \<Rightarrow> bool \<times> 'd stepStore" where
  "completed db now sid st =
     (let (r, st') = withSession db now sid (\<lambda>ss. (allPassed ss, False, ss)) st in
      (case r of None \<Rightarrow> False | Some b \<Rightarrow> b, st'))"

definition take_lookup ::
  "'d persistence \<Rightarrow> string \<Rightarrow> 'd stepStore \<Rightarrow> sessionSteps option \<times> 'd" where
  "take_lookup P sid st =
     (case st_m st sid of
        Some ss \<Rightarrow> (Some ss, st_d st)
      | None \<Rightarrow>
          (let (r, d) = p_LoadProgress P sid (st_d st) in
           (case r of Inr (Some p) \<Rightarrow> Some (fromStoreProgress p) | _ \<Rightarrow> None, d)))"

definition take_session ::
  "'d persistence option \<Rightarrow> string \<Rightarrow> 'd stepStore \<Rightarrow> sessionSteps option \<times> 'd stepStore" where
  "take_session db sid st =
     (let st1 = st\<lparr>st_m := (st_m st)(sid := None)\<rparr> in
      case db of
        None \<Rightarrow> (st_m st sid, st1)
      | Some P \<Rightarrow>
          (let (ss, d1) = take_lookup P sid st in
           (ss, st1\<lparr>st_d := snd (p_DeleteProgress P sid d1)\<rparr>)))"

definition remove_session :: "'d persistence option \<Rightarrow> string \<Rightarrow> 'd stepStore \<Rightarrow> 'd stepStore" where
  "remove_session db sid st = snd (take_session db sid st)"

section \<open>Operations on a session\<close>

definition storeOwner ::
  "'d persistence option \<Rightarrow> go_time \<Rightarrow> string \<Rightarrow> 'd stepStore \<Rightarrow> string option \<times> 'd stepStore" where
  "storeOwner db now sid st = withSession db now sid (\<lambda>ss. (ss_user_id ss, False, ss)) st"

definition maxHintLevel :: int where
  "maxHintLevel = 3"

definition step_at :: "int \<Rightarrow> sessionSteps \<Rightarrow> nat option" where
  "step_at sid ss = find_index (\<lambda>s. step_id s = sid) (ss_steps ss)"

definition modify_step :: "nat \<Rightarrow> (stepState \<Rightarrow> stepState) \<Rightarrow> sessionSteps \<Rightarrow> sessionSteps" where
  "modify_step i f ss = ss\<lparr>ss_steps := (ss_steps ss)[i := f (ss_steps ss ! i)]\<rparr>"

definition next_hint_fn :: "int \<Rightarrow> int \<Rightarrow> sessionSteps \<Rightarrow> (string \<times> int) \<times> bool \<times> sessionSteps" where
  "next_hint_fn stepID explicit ss =
     (case step_at stepID ss of
        Some i \<Rightarrow>
          (let used = step_hint_level (ss_steps ss ! i);
               level = (if explicit = 0
                        then (if used + 1 > maxHintLevel then maxHintLevel else used + 1)
                        else explicit)
           in if level > used
              then ((ss_lab_id ss, level), True, modify_step i (\<lambda>s. s\<lparr>step_hint_level := level\<rparr>) ss)
              else ((ss_lab_id ss, level), False, ss))
      | None \<Rightarrow> ((ss_lab_id ss, if explicit = 0 then 1 else explicit), False, ss))"

definition nextHint ::
  "'d persistence option \<Rightarrow> go_time \<Rightarrow> string \<Rightarrow> int \<Rightarrow> int \<Rightarrow> 'd stepStore \<Rightarrow>
   (string \<times> int) option \<times> 'd stepStore" where
  "nextHint db now sid stepID explicit st = withSession db now sid (next_hint_fn stepID explicit) st"

definition mark_validating_fn :: "int \<Rightarrow> sessionSteps \<Rightarrow> unit \<times> bool \<times> sessionSteps" where
  "mark_validating_fn idx ss =
     (if idx < 0 \<or> idx \<ge> int (length (ss_steps ss)) then ((), False, ss)
      else ((), True, modify_step (nat idx)
              (\<lambda>s. s\<lparr>step_attempts := step_attempts s + 1, step_status := ''validating'',
                    step_checks := []\<rparr>) ss))"

definition markStepValidating ::
  "'d persistence option \<Rightarrow> go_time \<Rightarrow> string \<Rightarrow> int \<Rightarrow> 'd stepStore \<Rightarrow> 'd stepStore" where
  "markStepValidating db now sid idx st = snd (withSession db now sid (mark_validating_fn idx) st)"

text \<open>The tail that \<open>ApplyValidationResult\<close> and \<open>markStepPassed\<close> share: open the next step.\<close>

definition open_next :: "nat \<Rightarrow> sessionSteps \<Rightarrow> sessionSteps" where
  "open_next idx ss =
     (if idx + 1 < length (ss_steps ss)
      then (modify_step (idx + 1)
              (\<lambda>s. if step_status s = ''pending'' then s\<lparr>step_status := ''active''\<rparr> else s) ss)
            \<lparr>ss_current_step := step_id (ss_steps ss ! (idx + 1))\<rparr>
      else ss)"

definition mark_passed_fn ::
  "int \<Rightarrow> sessionSteps \<Rightarrow> (string \<times> string) \<times> bool \<times> sessionSteps" where
  "mark_passed_fn idx ss =
     (if idx < 0 \<or> idx \<ge> int (length (ss_steps ss)) then (([], []), False, ss)
      else
        (let ss' = open_next (nat idx)
               (modify_step (nat idx)
                  (\<lambda>s. s\<lparr>step_attempts := step_attempts s + 1, step_status := ''passed''\<rparr>) ss)
         in (if allPassed ss' then (ss_user_id ss', ss_lab_id ss') else ([], []), True, ss')))"

definition markStepPassed ::
  "'d persistence option \<Rightarrow> go_time \<Rightarrow> string \<Rightarrow> int \<Rightarrow> 'd stepStore \<Rightarrow>
   (string \<times> string) \<times> 'd stepStore" where
  "markStepPassed db now sid idx st =
     (let (r, st') = withSession db now sid (mark_passed_fn idx) st in
      (case r of None \<Rightarrow> ([], []) | Some x \<Rightarrow> x, st'))"

datatype step_err = errStepSessionNotFound | errStepNotFound | errStepOrderBlocked

fun blocked_loop :: "nat \<Rightarrow> stepState list \<Rightarrow> bool" where
  "blocked_loop 0 ss = False"
| "blocked_loop (Suc n) [] = False"
| "blocked_loop (Suc n) (s # ss) = (if step_status s \<noteq> ''passed'' then True else blocked_loop n ss)"

definition validatable_fn :: "int \<Rightarrow> sessionSteps \<Rightarrow> (nat option \<times> bool) \<times> bool \<times> sessionSteps" where
  "validatable_fn stepID ss =
     (let idx = step_at stepID ss in
      ((idx, case idx of None \<Rightarrow> False | Some i \<Rightarrow> blocked_loop i (ss_steps ss)), False, ss))"

definition findValidatableStepIndex ::
  "'d persistence option \<Rightarrow> go_time \<Rightarrow> string \<Rightarrow> int \<Rightarrow> 'd stepStore \<Rightarrow>
   (step_err + int) \<times> 'd stepStore" where
  "findValidatableStepIndex db now sid stepID st =
     (let (r, st') = withSession db now sid (validatable_fn stepID) st in
      (case r of
         None \<Rightarrow> Inl errStepSessionNotFound
       | Some (None, blocked) \<Rightarrow> Inl errStepNotFound
       | Some (Some i, blocked) \<Rightarrow> if blocked then Inl errStepOrderBlocked else Inr (int i), st'))"

text \<open>
  The function \<open>ApplyValidationResult\<close> runs under the lock: the captured result is the list of
  events it emits and the user and lab of a completion (both empty when there is none).
\<close>

definition result_outcomes :: "ValidationResult \<Rightarrow> checkOutcome list" where
  "result_outcomes r =
     map (\<lambda>ck. \<lparr>ck_type = cr_type ck, ck_passed = cr_passed ck, ck_detail = cr_detail ck\<rparr>) (vr_checks r)"

definition apply_result_fn ::
  "ValidationResult \<Rightarrow> sessionSteps \<Rightarrow> (Event list \<times> string \<times> string) \<times> bool \<times> sessionSteps" where
  "apply_result_fn r ss =
     (case step_at (vr_step_id r) ss of
        None \<Rightarrow> (([], [], []), False, ss)
      | Some idx \<Rightarrow>
          (let ev = (\<lambda>ty. mk_event ty (ss_user_id ss) (vr_session_id r) (ss_lab_id ss));
               ss1 = modify_step idx (\<lambda>s. s\<lparr>step_checks := result_outcomes r\<rparr>) ss
           in if vr_passed r then
                (let ss2 = open_next idx (modify_step idx (\<lambda>s. s\<lparr>step_status := ''passed''\<rparr>) ss1)
                 in if allPassed ss2
                    then (([ev StepCompleted (vr_step_id r), ev LabCompleted 0],
                           ss_user_id ss2, ss_lab_id ss2), True, ss2)
                    else (([ev StepCompleted (vr_step_id r)], [], []), True, ss2))
              else
                (([ev ValidationFailed (vr_step_id r)], [], []), True,
                 modify_step idx (\<lambda>s. s\<lparr>step_status := ''failed''\<rparr>) ss1)))"

section \<open>Shape and legality of a session\<close>

text \<open>
  Every operation keeps the lab, the user and the step ids of a session, and mutates it only when
  it reports it dirty.
\<close>

definition same_shape :: "sessionSteps \<Rightarrow> sessionSteps \<Rightarrow> bool" where
  "same_shape ss ss' \<longleftrightarrow> ss_lab_id ss' = ss_lab_id ss \<and> ss_user_id ss' = ss_user_id ss
     \<and> map step_id (ss_steps ss') = map step_id (ss_steps ss)"

definition well_behaved :: "(sessionSteps \<Rightarrow> 'r \<times> bool \<times> sessionSteps) \<Rightarrow> bool" where
  "well_behaved fn \<longleftrightarrow>
     (\<forall>ss r dirty ss'. fn ss = (r, dirty, ss') \<longrightarrow> same_shape ss ss' \<and> (\<not> dirty \<longrightarrow> ss' = ss))"

lemma well_behavedD:
  assumes "well_behaved fn" and "fn ss = (r, dirty, ss')"
  shows "same_shape ss ss'" and "\<not> dirty \<Longrightarrow> ss' = ss"
  using assms by (auto simp: well_behaved_def)

lemma same_shape_refl [simp]: "same_shape ss ss"
  by (simp add: same_shape_def)

lemma same_shape_trans: "same_shape a b \<Longrightarrow> same_shape b c \<Longrightarrow> same_shape a c"
  by (simp add: same_shape_def)

lemma same_shape_length: "same_shape a b \<Longrightarrow> length (ss_steps b) = length (ss_steps a)"
  by (metis length_map same_shape_def)

lemma modify_step_shape [simp]:
  "(\<And>s. step_id (f s) = step_id s) \<Longrightarrow> same_shape ss (modify_step i f ss') = same_shape ss ss'"
  by (simp add: same_shape_def modify_step_def map_list_update_same)

lemma modify_step_header [simp]:
  "ss_lab_id (modify_step i f ss) = ss_lab_id ss" "ss_user_id (modify_step i f ss) = ss_user_id ss"
  "ss_current_step (modify_step i f ss) = ss_current_step ss"
  "length (ss_steps (modify_step i f ss)) = length (ss_steps ss)"
  by (simp_all add: modify_step_def)

lemma open_next_shape [simp]: "same_shape ss (open_next i ss') = same_shape ss ss'"
  using modify_step_shape [of "\<lambda>s. if step_status s = ''pending'' then s\<lparr>step_status := ''active''\<rparr> else s"
      ss "i + 1" ss']
  by (simp add: open_next_def same_shape_def)

lemma open_next_header [simp]:
  "ss_lab_id (open_next i ss) = ss_lab_id ss" "ss_user_id (open_next i ss) = ss_user_id ss"
  by (simp_all add: open_next_def)

lemma next_hint_well_behaved: "well_behaved (next_hint_fn k e)"
  by (auto simp: well_behaved_def next_hint_fn_def Let_def split: option.splits if_splits)

lemma mark_validating_well_behaved: "well_behaved (mark_validating_fn i)"
  by (auto simp: well_behaved_def mark_validating_fn_def split: if_splits)

lemma mark_passed_well_behaved: "well_behaved (mark_passed_fn i)"
  by (auto simp: well_behaved_def mark_passed_fn_def Let_def split: if_splits)

lemma validatable_well_behaved: "well_behaved (validatable_fn k)"
  by (auto simp: well_behaved_def validatable_fn_def Let_def)

lemma apply_result_well_behaved: "well_behaved (apply_result_fn r)"
  by (auto simp: well_behaved_def apply_result_fn_def Let_def split: option.splits if_splits)

lemma read_well_behaved [simp]: "well_behaved (\<lambda>ss. (g ss, False, ss))"
  by (simp add: well_behaved_def)

lemmas session_fns_well_behaved = next_hint_well_behaved mark_validating_well_behaved
  mark_passed_well_behaved validatable_well_behaved apply_result_well_behaved read_well_behaved

text \<open>
  The legal sessions: step ids are distinct and increasing, every status is one of the five the
  front end knows, hint levels stay between 0 and 3, attempts are never negative.
\<close>

definition legal_status :: "string \<Rightarrow> bool" where
  "legal_status s \<longleftrightarrow> s \<in> {''pending'', ''active'', ''validating'', ''passed'', ''failed''}"

definition legal_step :: "stepState \<Rightarrow> bool" where
  "legal_step s \<longleftrightarrow> legal_status (step_status s) \<and> 0 \<le> step_hint_level s
     \<and> step_hint_level s \<le> maxHintLevel \<and> 0 \<le> step_attempts s"

definition legal_session :: "sessionSteps \<Rightarrow> bool" where
  "legal_session ss \<longleftrightarrow> sorted (map step_id (ss_steps ss)) \<and> distinct (map step_id (ss_steps ss))
     \<and> list_all legal_step (ss_steps ss)
     \<and> (ss_steps ss \<noteq> [] \<longrightarrow> ss_current_step ss \<in> set (map step_id (ss_steps ss)))"

lemma legal_step_updates:
  "legal_step s \<Longrightarrow> legal_step (s\<lparr>step_checks := c\<rparr>)"
  "legal_step s \<Longrightarrow> legal_status x \<Longrightarrow> legal_step (s\<lparr>step_status := x\<rparr>)"
  "legal_step s \<Longrightarrow> legal_step (s\<lparr>step_attempts := step_attempts s + 1\<rparr>)"
  "legal_step s \<Longrightarrow> 0 \<le> l \<Longrightarrow> l \<le> maxHintLevel \<Longrightarrow> legal_step (s\<lparr>step_hint_level := l\<rparr>)"
  by (simp_all add: legal_step_def)

lemma legal_modify_step:
  assumes "legal_session ss" and "\<And>s. step_id (f s) = step_id s"
    and "\<And>s. legal_step s \<Longrightarrow> legal_step (f s)"
  shows "legal_session (modify_step i f ss)"
proof -
  have ids: "map step_id (ss_steps (modify_step i f ss)) = map step_id (ss_steps ss)"
    using assms(2) by (simp add: modify_step_def map_list_update_same)
  have ids': "step_id ` set (ss_steps (modify_step i f ss)) = step_id ` set (ss_steps ss)"
    using arg_cong [OF ids, of set] by simp
  have "list_all legal_step (ss_steps (modify_step i f ss))"
  proof (cases "i < length (ss_steps ss)")
    case True
    then have "legal_step (ss_steps ss ! i)"
      using assms(1) by (simp add: legal_session_def list_all_length)
    then show ?thesis
      using assms(1,3) by (simp add: modify_step_def legal_session_def list_all_update)
  next
    case False
    then show ?thesis
      using assms(1) by (simp add: modify_step_def legal_session_def list_update_beyond)
  qed
  moreover have "ss_steps (modify_step i f ss) = [] \<longleftrightarrow> ss_steps ss = []"
    by (simp add: modify_step_def)
  ultimately show ?thesis
    using assms(1) ids ids' by (simp add: legal_session_def)
qed

lemma legal_open_next: "legal_session ss \<Longrightarrow> legal_session (open_next i ss)"
proof -
  assume l: "legal_session ss"
  let ?f = "\<lambda>s. if step_status s = ''pending'' then s\<lparr>step_status := ''active''\<rparr> else s"
  have m: "legal_session (modify_step (i + 1) ?f ss)"
    by (rule legal_modify_step [OF l]) (auto intro: legal_step_updates simp: legal_status_def)
  have ids: "map step_id (ss_steps (modify_step (i + 1) ?f ss)) = map step_id (ss_steps ss)"
    by (simp add: modify_step_def map_list_update_same)
  show ?thesis
    using m l arg_cong [OF ids, of set] by (simp add: open_next_def legal_session_def)
qed

lemma legal_next_hint:
  assumes "legal_session ss" and "0 \<le> e" and "e \<le> maxHintLevel"
    and "next_hint_fn k e ss = ((lab, level), dirty, ss')"
  shows "legal_session ss'" and "1 \<le> level" and "level \<le> maxHintLevel"
proof -
  have range: "0 \<le> step_hint_level (ss_steps ss ! i)" if "step_at k ss = Some i" for i
  proof -
    have "i < length (ss_steps ss)" using that find_index_SomeD by (auto simp: step_at_def)
    with assms(1) show ?thesis by (simp add: legal_session_def list_all_length legal_step_def)
  qed
  then show "1 \<le> level" and "level \<le> maxHintLevel"
    using assms(2-4)
    by (auto simp: next_hint_fn_def Let_def maxHintLevel_def split: option.splits if_splits)
  with assms(1,4) show "legal_session ss'"
    by (auto simp: next_hint_fn_def Let_def maxHintLevel_def split: option.splits if_splits
        intro!: legal_modify_step legal_step_updates)
qed

lemma legal_mark_validating:
  assumes "legal_session ss" and "mark_validating_fn i ss = (r, dirty, ss')"
  shows "legal_session ss'"
  using assms
  by (auto simp: mark_validating_fn_def legal_step_def legal_status_def split: if_splits
      intro!: legal_modify_step)

lemma legal_mark_passed:
  assumes "legal_session ss" and "mark_passed_fn i ss = (r, dirty, ss')"
  shows "legal_session ss'"
  using assms
  by (auto simp: mark_passed_fn_def Let_def legal_step_def legal_status_def split: if_splits
      intro!: legal_modify_step legal_open_next)

lemma legal_apply_result:
  assumes "legal_session ss" and "apply_result_fn r ss = (x, dirty, ss')"
  shows "legal_session ss'"
  using assms
  by (auto simp: apply_result_fn_def Let_def legal_step_def legal_status_def
      split: if_splits option.splits intro!: legal_modify_step legal_open_next)

text \<open>The order check finds a step before \<open>n\<close> that has not passed.\<close>

lemma blocked_loop_iff:
  "blocked_loop n ss \<longleftrightarrow> (\<exists>j<n. j < length ss \<and> step_status (ss ! j) \<noteq> ''passed'')"
proof (induction n ss rule: blocked_loop.induct)
  case (3 n s ss)
  then show ?case
    by (simp only: blocked_loop.simps Ex_less_Suc2 length_Cons nth_Cons_0 nth_Cons_Suc Suc_less_eq) simp
qed simp_all

section \<open>The initial progress of a session\<close>

text \<open>The loop of \<open>CreateSession\<close> (and of \<open>ensureStepSession\<close>) over the steps of the lab.\<close>

fun init_steps :: "nat \<Rightarrow> int list \<Rightarrow> stepState list" where
  "init_steps i [] = []"
| "init_steps i (k # ks) =
     \<lparr>step_id = k, step_status = (if i = 0 then ''active'' else ''pending''), step_attempts = 0,
      step_checks = [], step_hint_level = 0\<rparr> # init_steps (Suc i) ks"

definition init_session :: "string \<Rightarrow> string \<Rightarrow> int list \<Rightarrow> sessionSteps" where
  "init_session lab uid ks =
     (let steps = init_steps 0 ks in
      \<lparr>ss_lab_id = lab, ss_user_id = uid, ss_steps = steps,
       ss_current_step = (if length steps > 0 then step_id (steps ! 0) else 0)\<rparr>)"

lemma init_steps_ids [simp]: "map step_id (init_steps i ks) = ks"
  by (induction ks arbitrary: i) simp_all

lemma init_steps_length [simp]: "length (init_steps i ks) = length ks"
  by (induction ks arbitrary: i) simp_all

lemma init_steps_legal: "list_all legal_step (init_steps i ks)"
  by (induction ks arbitrary: i) (simp_all add: legal_step_def legal_status_def maxHintLevel_def)

lemma init_steps_status:
  "s \<in> set (init_steps i ks) \<Longrightarrow> step_status s \<in> {''active'', ''pending''}"
  by (induction ks arbitrary: i) (auto split: if_splits)

lemma init_session_legal:
  "sorted ks \<Longrightarrow> distinct ks \<Longrightarrow> legal_session (init_session lab uid ks)"
proof -
  assume s: "sorted ks" and d: "distinct ks"
  have "step_id (init_steps 0 ks ! 0) \<in> set ks" if "ks \<noteq> []"
    using that nth_mem [of 0 "map step_id (init_steps 0 ks)"] by (cases ks) simp_all
  moreover have "step_id ` set (init_steps 0 ks) = set ks"
    by (metis init_steps_ids set_map)
  moreover have "(init_steps 0 ks = []) = (ks = [])" by (cases ks) simp_all
  ultimately show ?thesis
    using s d init_steps_legal [of 0 ks] by (simp add: init_session_def legal_session_def Let_def)
qed

lemma init_session_not_passed: "\<not> allPassed (init_session lab uid ks)"
proof (cases "init_steps 0 ks")
  case (Cons s ss)
  with init_steps_status [of s 0 ks] show ?thesis
    by (auto simp: init_session_def allPassed_iff)
qed (simp add: init_session_def allPassed_iff)

end
