(* ===== verification/Step_Refinement.thy ===== *)
theory Step_Refinement
  imports Step_Store
begin

text \<open>
  What the step store promises, as a map from session ids to sessions, and the proof that the
  cache with its write-through database implements it.

  \<open>store_abs\<close> is the session an access would see: the cached entry, or else the stored one.
  \<open>store_inv\<close> says that every cached session may be written over what is stored; \<open>coherent\<close>
  says that what is cached is what is stored, so that losing the cache loses nothing.
\<close>

section \<open>Abstraction\<close>

definition store_abs ::
  "('d \<Rightarrow> string \<Rightarrow> SessionProgress option) \<Rightarrow> 'd stepStore \<Rightarrow> string \<Rightarrow> sessionSteps option" where
  "store_abs view st sid =
     (case st_m st sid of
        Some ss \<Rightarrow> Some ss
      | None \<Rightarrow> map_option fromStoreProgress (view (st_d st) sid))"

definition store_inv ::
  "('d \<Rightarrow> string \<Rightarrow> SessionProgress option) \<Rightarrow> ('d \<Rightarrow> bool) \<Rightarrow> 'd stepStore \<Rightarrow> bool" where
  "store_inv view ok st \<longleftrightarrow> ok (st_d st) \<and>
     (\<forall>sid ss. st_m st sid = Some ss \<longrightarrow> fits (toStoreProgress ss) (view (st_d st) sid))"

definition coherent :: "('d \<Rightarrow> string \<Rightarrow> SessionProgress option) \<Rightarrow> 'd stepStore \<Rightarrow> bool" where
  "coherent view st \<longleftrightarrow>
     (\<forall>sid ss. st_m st sid = Some ss \<longrightarrow> view (st_d st) sid = Some (toStoreProgress ss))"

text \<open>A restart of the API process: the cache is gone, the database is not.\<close>

definition restart :: "'d stepStore \<Rightarrow> 'd stepStore" where
  "restart st = st\<lparr>st_m := Map.empty\<rparr>"

lemma fits_refl:
  "fits p s \<Longrightarrow> fits p (Some p)"
  by (simp add: fits_def)

lemma fits_same_shape:
  "fits (toStoreProgress ss) s \<Longrightarrow> same_shape ss ss' \<Longrightarrow> fits (toStoreProgress ss') s"
proof -
  assume f: "fits (toStoreProgress ss) s" and s: "same_shape ss ss'"
  have "map sp_step_id (sp_steps (toStoreProgress ss')) = map sp_step_id (sp_steps (toStoreProgress ss))"
    using s by (simp add: same_shape_def del: map_eq_conv)
  with f s show ?thesis
    by (simp add: fits_def same_shape_def del: step_ids_to_store set_map split: option.splits)
qed

lemma store_abs_update:
  "store_abs view (st\<lparr>st_m := (st_m st)(sid \<mapsto> ss)\<rparr>) = (store_abs view st)(sid \<mapsto> ss)"
  by (simp add: store_abs_def fun_eq_iff split: option.split)

lemma coherent_update:
  "coherent view st \<Longrightarrow> view d = (view (st_d st))(sid := Some (toStoreProgress ss)) \<Longrightarrow>
   coherent view (st\<lparr>st_m := (st_m st)(sid \<mapsto> ss), st_d := d\<rparr>)"
  by (simp add: coherent_def)

context progress_persistence
begin

lemma load_on_miss_spec:
  assumes "store_inv view ok st" and "load_on_miss (Some P) sid st = (r, st')"
  shows "store_inv view ok st'" and "store_abs view st' = store_abs view st"
    and "coherent view st \<Longrightarrow> coherent view st'"
    and "r = Some ss \<Longrightarrow> store_abs view st sid = Some ss \<and> st_m st' sid = Some ss"
proof -
  have "store_inv view ok st' \<and> store_abs view st' = store_abs view st
      \<and> (coherent view st \<longrightarrow> coherent view st')
      \<and> (\<forall>ss. r = Some ss \<longrightarrow> store_abs view st sid = Some ss \<and> st_m st' sid = Some ss)"
  proof (cases "st_m st sid")
    case (Some ss)
    then show ?thesis using assms by (auto simp: load_on_miss_def store_abs_def)
  next
    case None
    obtain x d where load: "p_LoadProgress P sid (st_d st) = (x, d)" by (cases "p_LoadProgress P sid (st_d st)")
    have okd: "ok (st_d st)" using assms(1) by (simp add: store_inv_def)
    have d: "ok d" "view d = view (st_d st)" using load_frame [OF okd load] by auto
    show ?thesis
    proof (cases "\<exists>p. x = Inr (Some p)")
      case True
      then obtain p where x: "x = Inr (Some p)" by blast
      have v: "view (st_d st) sid = Some p" using load_ok [OF okd] load x by auto
      have wf: "sorted (map sp_step_id (sp_steps p)) \<and> distinct (map sp_step_id (sp_steps p))"
        using view_wf [OF okd v] .
      then have "fits p (Some p)" by (simp add: fits_def)
      then show ?thesis
        using assms None load x d v
        by (auto simp: load_on_miss_def store_abs_def store_inv_def coherent_def fun_eq_iff
            split: option.splits if_splits)
    next
      case False
      then have "r = None" "st' = st\<lparr>st_d := d\<rparr>"
        using assms(2) None load by (auto simp: load_on_miss_def split: sum.splits option.splits)
      then show ?thesis
        using assms(1) d
        by (simp add: store_abs_def store_inv_def coherent_def fun_eq_iff split: option.split)
    qed
  qed
  then show "store_inv view ok st'" and "store_abs view st' = store_abs view st"
    and "coherent view st \<Longrightarrow> coherent view st'"
    and "r = Some ss \<Longrightarrow> store_abs view st sid = Some ss \<and> st_m st' sid = Some ss"
    by blast+
qed

text \<open>Writing the snapshot of a cached session keeps the abstraction, whether it fails or not.\<close>

lemma save_phase_spec:
  assumes "store_inv view ok st" and "st_m st sid = Some ss" and "snap \<in> {None, Some (toStoreProgress ss)}"
  shows "store_inv view ok (save_phase (Some P) now sid snap st)"
    and "store_abs view (save_phase (Some P) now sid snap st) = store_abs view st"
proof -
  have "store_inv view ok (save_phase (Some P) now sid snap st)
    \<and> store_abs view (save_phase (Some P) now sid snap st) = store_abs view st"
  proof (cases snap)
    case None
    then show ?thesis using assms(1) by (simp add: save_phase_def)
  next
    case (Some p)
    with assms(3) have p: "p = toStoreProgress ss" by simp
    obtain e d where save: "p_SaveProgress P now sid p (st_d st) = (e, d)"
      by (cases "p_SaveProgress P now sid p (st_d st)")
    have okd: "ok (st_d st)" and f: "fits p (view (st_d st) sid)"
      using assms(1,2) p by (auto simp: store_inv_def)
    note cs = save_cases [OF okd f save]
    have "fits p (view d sid)" using cs(2) f fits_refl [OF f] by auto
    then have "fits (toStoreProgress ss') (view d sid')" if "st_m st sid' = Some ss'" for sid' ss'
      using that assms(1,2) p cs(3) by (cases "sid' = sid") (auto simp: store_inv_def)
    moreover have "store_abs view (st\<lparr>st_d := d\<rparr>) = store_abs view st"
    proof
      fix x
      show "store_abs view (st\<lparr>st_d := d\<rparr>) x = store_abs view st x"
        using assms(2) cs(3) by (cases "x = sid") (simp_all add: store_abs_def split: option.split)
    qed
    ultimately show ?thesis
      using save cs(1) Some by (simp add: save_phase_def store_inv_def)
  qed
  then show "store_inv view ok (save_phase (Some P) now sid snap st)"
    and "store_abs view (save_phase (Some P) now sid snap st) = store_abs view st" by blast+
qed

text \<open>
  \<open>withSession\<close> implements the update of one entry of the map, whatever the database does: a
  failed load is a session not found, a failed save leaves the new entry in the cache.
\<close>

lemma withSession_found:
  assumes "store_inv view ok st" and "well_behaved fn"
    and "withSession (Some P) now sid fn st = (Some r, st')"
  obtains ss dirty ss' where "store_abs view st sid = Some ss" and "fn ss = (r, dirty, ss')"
    and "store_abs view st' = (store_abs view st)(sid \<mapsto> ss')" and "store_inv view ok st'"
proof -
  obtain x st1 where lm: "load_on_miss (Some P) sid st = (x, st1)"
    by (cases "load_on_miss (Some P) sid st")
  with assms(3) obtain ss where x: "x = Some ss"
    by (auto simp: withSession_def lock_phase_def split: option.splits)
  obtain r' dirty ss' where fn: "fn ss = (r', dirty, ss')" by (cases "fn ss")
  define st2 where "st2 = st1\<lparr>st_m := (st_m st1)(sid \<mapsto> ss')\<rparr>"
  define snap where "snap = (if dirty then Some (toStoreProgress ss') else None)"
  have r: "r = r'" and st': "st' = save_phase (Some P) now sid snap st2"
    using assms(3) lm x fn by (auto simp: withSession_def lock_phase_def st2_def snap_def)
  note l = load_on_miss_spec [OF assms(1) lm]
  have abs: "store_abs view st sid = Some ss" and m: "st_m st1 sid = Some ss" using l(4) x by auto
  have shape: "same_shape ss ss'" using assms(2) fn by (rule well_behavedD)
  have "fits (toStoreProgress ss') (view (st_d st1) sid)"
    using l(1) m by (intro fits_same_shape [OF _ shape]) (simp add: store_inv_def)
  then have inv2: "store_inv view ok st2"
    using l(1) by (auto simp: store_inv_def st2_def)
  have abs2: "store_abs view st2 = (store_abs view st)(sid \<mapsto> ss')"
    using l(2) by (simp add: st2_def store_abs_update)
  have "st_m st2 sid = Some ss'" "snap \<in> {None, Some (toStoreProgress ss')}"
    by (simp_all add: st2_def snap_def)
  from save_phase_spec [OF inv2 this] st' abs2
  have "store_abs view st' = (store_abs view st)(sid \<mapsto> ss')" "store_inv view ok st'" by simp_all
  with abs fn r that show thesis by simp
qed

lemma withSession_missing:
  assumes "store_inv view ok st" and "withSession (Some P) now sid fn st = (None, st')"
  shows "store_abs view st' = store_abs view st" and "store_inv view ok st'"
    and "coherent view st \<Longrightarrow> coherent view st'"
proof -
  obtain x st1 where lm: "load_on_miss (Some P) sid st = (x, st1)"
    by (cases "load_on_miss (Some P) sid st")
  have "st' = st1"
    using assms(2) lm by (auto simp: withSession_def lock_phase_def split: option.splits prod.splits)
  with load_on_miss_spec [OF assms(1) lm] show "store_abs view st' = store_abs view st"
    and "store_inv view ok st'" and "coherent view st \<Longrightarrow> coherent view st'" by simp_all
qed

text \<open>Losing the cache while it is coherent is invisible.\<close>

lemma restart_transparent:
  assumes "store_inv view ok st" and "coherent view st"
  shows "store_abs view (restart st) = store_abs view st" and "store_inv view ok (restart st)"
    and "coherent view (restart st)"
  using assms
  by (auto simp: restart_def store_abs_def store_inv_def coherent_def fun_eq_iff split: option.splits)

lemma put_spec:
  assumes "store_inv view ok st" and "fits (toStoreProgress ss) (view (st_d st) sid)"
    and "put (Some P) now sid ss st = (None, st')"
  shows "store_abs view st' = (store_abs view st)(sid \<mapsto> ss)" and "store_inv view ok st'"
    and "coherent view st \<Longrightarrow> coherent view st'"
proof -
  obtain d where save: "p_SaveProgress P now sid (toStoreProgress ss) (st_d st) = (None, d)"
    and st': "st' = st\<lparr>st_m := (st_m st)(sid \<mapsto> ss), st_d := d\<rparr>"
    using assms(3) by (auto simp: put_def split: prod.splits option.splits)
  have okd: "ok (st_d st)" using assms(1) by (simp add: store_inv_def)
  have v: "ok d" "view d = (view (st_d st))(sid := Some (toStoreProgress ss))"
    using save_ok [OF okd assms(2) save] by auto
  show "store_abs view st' = (store_abs view st)(sid \<mapsto> ss)"
    using v st' by (auto simp: store_abs_def fun_eq_iff split: option.splits)
  show "store_inv view ok st'"
    using assms(1) v st' fits_refl [OF assms(2)] by (auto simp: store_inv_def)
  show "coherent view st'" if "coherent view st"
    using that v st' by (auto simp: coherent_def)
qed

lemma put_failed:
  assumes "store_inv view ok st" and "fits (toStoreProgress ss) (view (st_d st) sid)"
    and "put (Some P) now sid ss st = (Some e, st')"
  shows "st_m st' = st_m st" and "sid' \<noteq> sid \<Longrightarrow> store_abs view st' sid' = store_abs view st sid'"
    and "ok (st_d st')"
proof -
  obtain d where save: "p_SaveProgress P now sid (toStoreProgress ss) (st_d st) = (Some e, d)"
    and st': "st' = st\<lparr>st_d := d\<rparr>"
    using assms(3) by (auto simp: put_def split: prod.splits option.splits)
  have okd: "ok (st_d st)" using assms(1) by (simp add: store_inv_def)
  note cs = save_cases [OF okd assms(2) save]
  show "st_m st' = st_m st" and "ok (st_d st')" using st' cs(1) by simp_all
  show "store_abs view st' sid' = store_abs view st sid'" if "sid' \<noteq> sid"
    using st' cs(3) that by (simp add: store_abs_def split: option.split)
qed

lemma take_lookup_spec:
  assumes "ok (st_d st)"
  shows "ok (snd (take_lookup P sid st)) \<and> view (snd (take_lookup P sid st)) = view (st_d st)
      \<and> (\<forall>ss. fst (take_lookup P sid st) = Some ss \<longrightarrow> store_abs view st sid = Some ss)"
proof (cases "st_m st sid")
  case (Some ss)
  with assms show ?thesis by (simp add: take_lookup_def store_abs_def)
next
  case None
  obtain r d where l: "p_LoadProgress P sid (st_d st) = (r, d)" by (cases "p_LoadProgress P sid (st_d st)")
  with None load_frame [OF assms l] load_ok [OF assms] show ?thesis
    by (auto simp: take_lookup_def store_abs_def split: sum.splits option.splits)
qed

lemma take_spec:
  assumes "store_inv view ok st" and "take_session (Some P) sid st = (r, st')"
  shows "store_inv view ok st'" and "sid' \<noteq> sid \<Longrightarrow> store_abs view st' sid' = store_abs view st sid'"
    and "st_m st' sid = None" and "r = Some ss \<Longrightarrow> store_abs view st sid = Some ss"
    and "coherent view st \<Longrightarrow> coherent view st'"
proof -
  define st1 where "st1 = st\<lparr>st_m := (st_m st)(sid := None)\<rparr>"
  define x where "x = take_lookup P sid st"
  have r: "r = fst x" and st': "st' = st1\<lparr>st_d := snd (p_DeleteProgress P sid (snd x))\<rparr>"
    using assms(2) by (auto simp: take_session_def Let_def st1_def x_def split: prod.splits)
  have okd: "ok (st_d st)" using assms(1) by (simp add: store_inv_def)
  have "ok (snd x) \<and> view (snd x) = view (st_d st)
      \<and> (\<forall>ss. fst x = Some ss \<longrightarrow> store_abs view st sid = Some ss)"
    unfolding x_def by (rule take_lookup_spec [OF okd])
  then have x: "ok (snd x)" "view (snd x) = view (st_d st)"
    "\<And>ss. fst x = Some ss \<Longrightarrow> store_abs view st sid = Some ss" by blast+
  obtain e d where del: "p_DeleteProgress P sid (snd x) = (e, d)"
    by (cases "p_DeleteProgress P sid (snd x)")
  note dc = delete_cases [OF x(1) del]
  have d: "st' = st1\<lparr>st_d := d\<rparr>" using st' del by simp
  have v: "view d sid' = view (st_d st) sid'" if "sid' \<noteq> sid" for sid'
    using dc(2) [OF that] x(2) by simp
  show "st_m st' sid = None" using d by (simp add: st1_def)
  show "r = Some ss \<Longrightarrow> store_abs view st sid = Some ss" using r x(3) by simp
  show "store_abs view st' sid' = store_abs view st sid'" if "sid' \<noteq> sid"
    using d v that by (simp add: st1_def store_abs_def split: option.split)
  show "store_inv view ok st'"
    using assms(1) d v dc(1) by (auto simp: store_inv_def st1_def)
  show "coherent view st'" if "coherent view st"
    using that d v by (auto simp: coherent_def st1_def)
qed

end

section \<open>A database without faults\<close>

text \<open>With no faults the store is exactly the map: nothing is lost by a restart.\<close>

locale healthy_persistence = progress_persistence +
  assumes load_succeeds: "ok d \<Longrightarrow> \<exists>x d'. p_LoadProgress P sid d = (Inr x, d')"
    and save_succeeds: "ok d \<Longrightarrow> \<exists>d'. p_SaveProgress P now sid p d = (None, d')"
    and delete_succeeds: "ok d \<Longrightarrow> \<exists>d'. p_DeleteProgress P sid d = (None, d')"
begin

lemma load_on_miss_total:
  assumes "store_inv view ok st"
  shows "fst (load_on_miss (Some P) sid st) = store_abs view st sid"
proof -
  have okd: "ok (st_d st)" using assms by (simp add: store_inv_def)
  obtain x d' where l: "p_LoadProgress P sid (st_d st) = (Inr x, d')"
    using load_succeeds [OF okd] by blast
  with load_ok [OF okd l] show ?thesis
    by (auto simp: load_on_miss_def store_abs_def split: option.splits)
qed

lemma withSession_refines:
  assumes "store_inv view ok st" and "coherent view st" and "well_behaved fn"
  shows "fst (withSession (Some P) now sid fn st) = map_option (\<lambda>ss. fst (fn ss)) (store_abs view st sid)"
    and "store_abs view (snd (withSession (Some P) now sid fn st))
       = (case store_abs view st sid of None \<Rightarrow> store_abs view st
          | Some ss \<Rightarrow> (store_abs view st)(sid \<mapsto> snd (snd (fn ss))))"
    and "store_inv view ok (snd (withSession (Some P) now sid fn st))"
    and "coherent view (snd (withSession (Some P) now sid fn st))"
proof -
  let ?w = "withSession (Some P) now sid fn st"
  obtain x st1 where lm: "load_on_miss (Some P) sid st = (x, st1)"
    by (cases "load_on_miss (Some P) sid st")
  note l = load_on_miss_spec [OF assms(1) lm]
  have x: "x = store_abs view st sid" using load_on_miss_total [OF assms(1), of sid] lm by simp
  have all: "fst ?w = map_option (\<lambda>ss. fst (fn ss)) (store_abs view st sid)
    \<and> store_abs view (snd ?w) = (case store_abs view st sid of None \<Rightarrow> store_abs view st
          | Some ss \<Rightarrow> (store_abs view st)(sid \<mapsto> snd (snd (fn ss))))
    \<and> store_inv view ok (snd ?w) \<and> coherent view (snd ?w)"
  proof (cases x)
    case None
    then show ?thesis using lm l(1-3) x assms(2) by (simp add: withSession_def lock_phase_def)
  next
    case (Some ss)
    obtain r dirty ss' where fn: "fn ss = (r, dirty, ss')" by (cases "fn ss")
    have m: "st_m st1 sid = Some ss" using l(4) Some by blast
    have okd: "ok (st_d st1)" using l(1) by (simp add: store_inv_def)
    have f: "fits (toStoreProgress ss') (view (st_d st1) sid)"
      using l(1) m
      by (intro fits_same_shape [OF _ well_behavedD(1) [OF assms(3) fn]]) (simp add: store_inv_def)
    obtain d where save: "p_SaveProgress P now sid (toStoreProgress ss') (st_d st1) = (None, d)"
      using save_succeeds [OF okd] by blast
    have v: "view d = (view (st_d st1))(sid := Some (toStoreProgress ss'))"
      using save_ok [OF okd f save] by simp
    have w: "?w = (Some r, st1\<lparr>st_m := (st_m st1)(sid \<mapsto> ss'),
        st_d := if dirty then d else st_d st1\<rparr>)"
      using lm Some fn save by (simp add: withSession_def lock_phase_def save_phase_def)
    have coh: "coherent view (snd ?w)"
    proof (cases dirty)
      case True
      then show ?thesis using w v by (simp add: coherent_update [OF l(3) [OF assms(2)]])
    next
      case False
      then have "(st_m st1)(sid \<mapsto> ss') = st_m st1" using m well_behavedD(2) [OF assms(3) fn]
        by (simp add: map_upd_triv)
      then show ?thesis using False w l(3) [OF assms(2)] by simp
    qed
    have "?w = (Some r, snd ?w)" using w by simp
    then obtain ss0 dirty0 ss0' where "store_abs view st sid = Some ss0" "fn ss0 = (r, dirty0, ss0')"
      "store_abs view (snd ?w) = (store_abs view st)(sid \<mapsto> ss0')" "store_inv view ok (snd ?w)"
      by (rule withSession_found [OF assms(1,3)])
    then have "store_abs view (snd ?w) = (store_abs view st)(sid \<mapsto> ss')" "store_inv view ok (snd ?w)"
      using x Some fn by simp_all
    moreover have "fst ?w = Some r" using w by simp
    moreover have "store_abs view st sid = Some ss" using x Some by simp
    ultimately show ?thesis using fn coh by simp
  qed
  from all show "fst ?w = map_option (\<lambda>ss. fst (fn ss)) (store_abs view st sid)"
    and "store_abs view (snd ?w) = (case store_abs view st sid of None \<Rightarrow> store_abs view st
          | Some ss \<Rightarrow> (store_abs view st)(sid \<mapsto> snd (snd (fn ss))))"
    and "store_inv view ok (snd ?w)" and "coherent view (snd ?w)" by blast+
qed

lemma put_refines:
  assumes "store_inv view ok st" and "coherent view st" and "fits (toStoreProgress ss) (view (st_d st) sid)"
  shows "fst (put (Some P) now sid ss st) = None"
    and "store_abs view (snd (put (Some P) now sid ss st)) = (store_abs view st)(sid \<mapsto> ss)"
    and "store_inv view ok (snd (put (Some P) now sid ss st))"
    and "coherent view (snd (put (Some P) now sid ss st))"
proof -
  have okd: "ok (st_d st)" using assms(1) by (simp add: store_inv_def)
  obtain d where "p_SaveProgress P now sid (toStoreProgress ss) (st_d st) = (None, d)"
    using save_succeeds [OF okd] by blast
  then show e: "fst (put (Some P) now sid ss st) = None" by (simp add: put_def)
  then have "put (Some P) now sid ss st = (None, snd (put (Some P) now sid ss st))"
    by (metis prod.collapse)
  note p = put_spec [OF assms(1,3) this]
  show "store_abs view (snd (put (Some P) now sid ss st)) = (store_abs view st)(sid \<mapsto> ss)"
    by (rule p(1))
  show "store_inv view ok (snd (put (Some P) now sid ss st))" by (rule p(2))
  show "coherent view (snd (put (Some P) now sid ss st))" by (rule p(3) [OF assms(2)])
qed

lemma take_lookup_total:
  assumes "ok (st_d st)"
  shows "fst (take_lookup P sid st) = store_abs view st sid"
proof -
  obtain x d' where l: "p_LoadProgress P sid (st_d st) = (Inr x, d')"
    using load_succeeds [OF assms] by blast
  with load_ok [OF assms l] show ?thesis
    by (auto simp: take_lookup_def store_abs_def split: option.splits)
qed

lemma take_refines:
  assumes "store_inv view ok st" and "coherent view st"
  shows "fst (take_session (Some P) sid st) = store_abs view st sid"
    and "store_abs view (snd (take_session (Some P) sid st)) = (store_abs view st)(sid := None)"
    and "store_inv view ok (snd (take_session (Some P) sid st))"
    and "coherent view (snd (take_session (Some P) sid st))"
proof -
  let ?t = "take_session (Some P) sid st"
  have okd: "ok (st_d st)" using assms(1) by (simp add: store_inv_def)
  have t: "?t = (fst ?t, snd ?t)" by simp
  show "store_inv view ok (snd ?t)" and "coherent view (snd ?t)"
    using take_spec(1,5) [OF assms(1) t] assms(2) by blast+
  show "fst ?t = store_abs view st sid"
    using take_lookup_total [OF okd, of sid]
    by (auto simp: take_session_def Let_def split: prod.split)
  obtain y d1 where tl: "take_lookup P sid st = (y, d1)" by (cases "take_lookup P sid st")
  with take_lookup_spec [OF okd, of sid] have "ok d1" by simp
  then obtain d where del: "p_DeleteProgress P sid d1 = (None, d)" using delete_succeeds by blast
  have "view d sid = None" using delete_ok [OF \<open>ok d1\<close> del] by simp
  moreover have "snd ?t = st\<lparr>st_m := (st_m st)(sid := None), st_d := d\<rparr>"
    using tl del by (simp add: take_session_def)
  ultimately have "store_abs view (snd ?t) sid = None" by (simp add: store_abs_def)
  then show "store_abs view (snd ?t) = (store_abs view st)(sid := None)"
    using take_spec(2) [OF assms(1) t] by (auto simp: fun_eq_iff)
qed

end

interpretation healthy_pgdb: healthy_persistence "store_persistence (\<lambda>_. Healthy)" db_view db_ok
proof unfold_locales
  fix d :: db and sid :: string and now and p :: SessionProgress
  show "\<exists>x d'. p_LoadProgress (store_persistence (\<lambda>_. Healthy)) sid d = (Inr x, d')"
    by (auto simp: store_persistence_def reads_def LoadProgress_def split: option.split)
  have steps: "\<exists>rows'. save_steps Healthy n sid sts rows = Inr rows'" for n sts rows
    by (induction sts arbitrary: n rows) auto
  show "\<exists>d'. p_SaveProgress (store_persistence (\<lambda>_. Healthy)) now sid p d = (None, d')"
    using steps [of 2 "sp_steps p" "session_steps (tbls d)"]
    by (auto simp: store_persistence_def writes_def SaveProgress_def Let_def)
  show "\<exists>d'. p_DeleteProgress (store_persistence (\<lambda>_. Healthy)) sid d = (None, d')"
    by (auto simp: store_persistence_def writes_def DeleteProgress_def)
qed

section \<open>Runs with restarts\<close>

text \<open>
  The accesses the handlers make to the step store, a restart of the process among them, and
  their results. \<open>run\<close> executes them on the store, \<open>spec_run\<close> on the abstract map, where a
  restart does nothing. A new session is registered under a session id not in use.
\<close>

datatype store_op =
    OpPut string sessionSteps
  | OpTake string
  | OpOwner string
  | OpCompleted string
  | OpFind string int
  | OpHint string int int
  | OpValidating string int
  | OpPassed string int
  | OpResult ValidationResult
  | OpRestart

datatype store_res =
    RPut "string option"
  | RSession "sessionSteps option"
  | ROwner "string option"
  | RBool bool
  | RFind "step_err + int"
  | RHint "(string \<times> int) option"
  | RPassed "string \<times> string"
  | RResult "(Event list \<times> string \<times> string) option"
  | RUnit

fun exec :: "'d persistence option \<Rightarrow> go_time \<Rightarrow> store_op \<Rightarrow> 'd stepStore \<Rightarrow> store_res \<times> 'd stepStore" where
  "exec db now (OpPut sid ss) st = map_prod RPut id (put db now sid ss st)"
| "exec db now (OpTake sid) st = map_prod RSession id (take_session db sid st)"
| "exec db now (OpOwner sid) st = map_prod ROwner id (storeOwner db now sid st)"
| "exec db now (OpCompleted sid) st = map_prod RBool id (completed db now sid st)"
| "exec db now (OpFind sid k) st = map_prod RFind id (findValidatableStepIndex db now sid k st)"
| "exec db now (OpHint sid k e) st = map_prod RHint id (nextHint db now sid k e st)"
| "exec db now (OpValidating sid i) st = (RUnit, markStepValidating db now sid i st)"
| "exec db now (OpPassed sid i) st = map_prod RPassed id (markStepPassed db now sid i st)"
| "exec db now (OpResult r) st =
     map_prod RResult id (withSession db now (vr_session_id r) (apply_result_fn r) st)"
| "exec db now OpRestart st = (RUnit, restart st)"

fun run :: "'d persistence option \<Rightarrow> go_time \<Rightarrow> store_op list \<Rightarrow> 'd stepStore \<Rightarrow> store_res list \<times> 'd stepStore" where
  "run db now [] st = ([], st)"
| "run db now (op # ops) st =
     (let (r, st1) = exec db now op st; (rs, st2) = run db now ops st1 in (r # rs, st2))"

definition spec_with ::
  "string \<Rightarrow> (sessionSteps \<Rightarrow> 'r \<times> bool \<times> sessionSteps) \<Rightarrow> (string \<rightharpoonup> sessionSteps) \<Rightarrow>
   'r option \<times> (string \<rightharpoonup> sessionSteps)" where
  "spec_with sid fn A =
     (case A sid of None \<Rightarrow> (None, A) | Some ss \<Rightarrow> (Some (fst (fn ss)), A(sid \<mapsto> snd (snd (fn ss)))))"

fun spec_exec :: "store_op \<Rightarrow> (string \<rightharpoonup> sessionSteps) \<Rightarrow> store_res \<times> (string \<rightharpoonup> sessionSteps)" where
  "spec_exec (OpPut sid ss) A = (RPut None, A(sid \<mapsto> ss))"
| "spec_exec (OpTake sid) A = (RSession (A sid), A(sid := None))"
| "spec_exec (OpOwner sid) A = (ROwner (map_option ss_user_id (A sid)), A)"
| "spec_exec (OpCompleted sid) A = (RBool (case A sid of None \<Rightarrow> False | Some ss \<Rightarrow> allPassed ss), A)"
| "spec_exec (OpFind sid k) A =
     (RFind (case A sid of
        None \<Rightarrow> Inl errStepSessionNotFound
      | Some ss \<Rightarrow> (case step_at k ss of
            None \<Rightarrow> Inl errStepNotFound
          | Some i \<Rightarrow> if blocked_loop i (ss_steps ss) then Inl errStepOrderBlocked else Inr (int i))), A)"
| "spec_exec (OpHint sid k e) A = map_prod RHint id (spec_with sid (next_hint_fn k e) A)"
| "spec_exec (OpValidating sid i) A = (RUnit, snd (spec_with sid (mark_validating_fn i) A))"
| "spec_exec (OpPassed sid i) A =
     map_prod (\<lambda>r. RPassed (case r of None \<Rightarrow> ([], []) | Some x \<Rightarrow> x)) id (spec_with sid (mark_passed_fn i) A)"
| "spec_exec (OpResult r) A = map_prod RResult id (spec_with (vr_session_id r) (apply_result_fn r) A)"
| "spec_exec OpRestart A = (RUnit, A)"

fun spec_run :: "store_op list \<Rightarrow> (string \<rightharpoonup> sessionSteps) \<Rightarrow> store_res list \<times> (string \<rightharpoonup> sessionSteps)" where
  "spec_run [] A = ([], A)"
| "spec_run (op # ops) A =
     (let (r, A1) = spec_exec op A; (rs, A2) = spec_run ops A1 in (r # rs, A2))"

lemma map_prod_idE:
  assumes "map_prod f id p = (r, s)"
  obtains x where "p = (x, s)" and "r = f x"
  using assms by (cases p) auto

lemma spec_with_read: "spec_with sid (\<lambda>ss. (g ss, False, ss)) A = (map_option g (A sid), A)"
  by (simp add: spec_with_def map_upd_triv split: option.split)

text \<open>The new sessions of a run have fresh ids and step ids in increasing order.\<close>

fun admissible :: "store_op list \<Rightarrow> (string \<rightharpoonup> sessionSteps) \<Rightarrow> bool" where
  "admissible [] A = True"
| "admissible (op # ops) A =
     ((case op of OpPut sid ss \<Rightarrow> A sid = None \<and> sorted (map step_id (ss_steps ss))
                                \<and> distinct (map step_id (ss_steps ss))
       | _ \<Rightarrow> True) \<and> admissible ops (snd (spec_exec op A)))"

context healthy_persistence
begin

lemma store_abs_None: "store_abs view st sid = None \<Longrightarrow> view (st_d st) sid = None"
  by (simp add: store_abs_def split: option.splits)

lemma with_spec:
  assumes "store_inv view ok st" and "coherent view st" and "well_behaved fn"
    and "withSession (Some P) now sid fn st = (r, st')"
  shows "spec_with sid fn (store_abs view st) = (r, store_abs view st')"
  using withSession_refines(1,2) [OF assms(1-3), of now sid] assms(4)
  by (auto simp: spec_with_def split: option.splits)

lemma with_keeps:
  assumes "store_inv view ok st" and "coherent view st" and "well_behaved fn"
  shows "store_inv view ok (snd (withSession (Some P) now sid fn st))
    \<and> coherent view (snd (withSession (Some P) now sid fn st))"
  using withSession_refines(3,4) [OF assms] by blast

lemma exec_refines:
  assumes "store_inv view ok st" and "coherent view st" and "admissible [op] (store_abs view st)"
    and "exec (Some P) now op st = (r, st')"
  shows "spec_exec op (store_abs view st) = (r, store_abs view st')"
proof (cases op)
  case (OpPut sid ss)
  have "fits (toStoreProgress ss) (view (st_d st) sid)"
    using assms(3) OpPut store_abs_None [of st sid] by (simp add: fits_def del: map_map)
  from put_refines(1,2) [OF assms(1,2) this, of now] show ?thesis
    using assms(4) OpPut by (auto simp: map_prod_def split: prod.splits)
next
  case (OpTake sid)
  then show ?thesis
    using take_refines(1,2) [OF assms(1,2), of sid] assms(4)
    by (auto simp: map_prod_def split: prod.splits)
next
  case OpRestart
  then show ?thesis using restart_transparent(1) [OF assms(1,2)] assms(4) by simp
next
  case (OpOwner sid)
  then obtain x where x: "withSession (Some P) now sid (\<lambda>ss. (ss_user_id ss, False, ss)) st = (x, st')"
    and "r = ROwner x" using assms(4) by (auto simp: storeOwner_def elim: map_prod_idE)
  with with_spec [OF assms(1,2) read_well_behaved x] OpOwner show ?thesis
    by (auto simp: spec_with_read)
next
  case (OpCompleted sid)
  then obtain x where x: "withSession (Some P) now sid (\<lambda>ss. (allPassed ss, False, ss)) st = (x, st')"
    and "r = RBool (case x of None \<Rightarrow> False | Some b \<Rightarrow> b)"
    using assms(4) by (auto simp: completed_def split: prod.splits elim: map_prod_idE)
  with with_spec [OF assms(1,2) read_well_behaved x] OpCompleted show ?thesis
    by (auto simp: spec_with_read split: option.splits)
next
  case (OpFind sid k)
  then obtain x where x: "withSession (Some P) now sid (validatable_fn k) st = (x, st')"
    and "r = RFind (case x of None \<Rightarrow> Inl errStepSessionNotFound
       | Some (None, blocked) \<Rightarrow> Inl errStepNotFound
       | Some (Some i, blocked) \<Rightarrow> if blocked then Inl errStepOrderBlocked else Inr (int i))"
    using assms(4) by (auto simp: findValidatableStepIndex_def split: prod.splits)
  with with_spec [OF assms(1,2) validatable_well_behaved x] OpFind show ?thesis
    by (auto simp: spec_with_read validatable_fn_def [abs_def] Let_def split: option.splits)
next
  case (OpHint sid k e)
  then obtain x where x: "withSession (Some P) now sid (next_hint_fn k e) st = (x, st')"
    and "r = RHint x" using assms(4) by (auto simp: nextHint_def elim: map_prod_idE)
  with with_spec [OF assms(1,2) next_hint_well_behaved x] OpHint show ?thesis by simp
next
  case (OpValidating sid i)
  then obtain x where x: "withSession (Some P) now sid (mark_validating_fn i) st = (x, st')"
    and "r = RUnit" using assms(4)
    by (cases "withSession (Some P) now sid (mark_validating_fn i) st") (auto simp: markStepValidating_def)
  with with_spec [OF assms(1,2) mark_validating_well_behaved x] OpValidating show ?thesis by simp
next
  case (OpPassed sid i)
  then obtain x where x: "withSession (Some P) now sid (mark_passed_fn i) st = (x, st')"
    and "r = RPassed (case x of None \<Rightarrow> ([], []) | Some x \<Rightarrow> x)"
    using assms(4) by (auto simp: markStepPassed_def split: prod.splits)
  with with_spec [OF assms(1,2) mark_passed_well_behaved x] OpPassed show ?thesis by simp
next
  case (OpResult v)
  then obtain x where x: "withSession (Some P) now (vr_session_id v) (apply_result_fn v) st = (x, st')"
    and "r = RResult x" using assms(4) by (auto elim: map_prod_idE)
  with with_spec [OF assms(1,2) apply_result_well_behaved x] OpResult show ?thesis by simp
qed

lemma exec_keeps:
  assumes "store_inv view ok st" and "coherent view st" and "admissible [op] (store_abs view st)"
  shows "store_inv view ok (snd (exec (Some P) now op st)) \<and> coherent view (snd (exec (Some P) now op st))"
proof (cases op)
  case (OpPut sid ss)
  have "fits (toStoreProgress ss) (view (st_d st) sid)"
    using assms(3) OpPut store_abs_None [of st sid] by (simp add: fits_def del: map_map)
  from put_refines(3,4) [OF assms(1,2) this, of now] show ?thesis using OpPut by simp
qed (simp_all add: with_keeps session_fns_well_behaved assms take_refines(3,4) restart_transparent(2,3)
      storeOwner_def completed_def nextHint_def markStepValidating_def
      findValidatableStepIndex_def markStepPassed_def case_prod_beta)

lemma run_refines:
  assumes "store_inv view ok st" and "coherent view st" and "admissible ops (store_abs view st)"
    and "run (Some P) now ops st = (rs, st')"
  shows "spec_run ops (store_abs view st) = (rs, store_abs view st')"
  using assms
proof (induction ops arbitrary: st rs)
  case Nil
  then show ?case by simp
next
  case (Cons op ops)
  obtain r st1 where e: "exec (Some P) now op st = (r, st1)" by (cases "exec (Some P) now op st")
  obtain rs1 where r: "run (Some P) now ops st1 = (rs1, st')" "rs = r # rs1"
    using Cons.prems(4) e by (auto split: prod.splits)
  have a: "admissible [op] (store_abs view st)" using Cons.prems(3) by simp
  have s: "spec_exec op (store_abs view st) = (r, store_abs view st1)"
    by (rule exec_refines [OF Cons.prems(1,2) a e])
  have "spec_run ops (store_abs view st1) = (rs1, store_abs view st')"
    using Cons.IH [OF _ _ _ r(1)] exec_keeps [OF Cons.prems(1,2) a, of now] e s Cons.prems(3) by simp
  then show ?case using s r(2) by simp
qed

end

end
