(* ===== verification/Session_Provider.thy ===== *)
theory Session_Provider
  imports Prelude
begin

text \<open>
  The provider contract of \<open>src/apps/api/internal/session\<close>: the types and the \<open>Provider\<close>
  interface of \<open>session.go\<close> as a record of operations over a provider state, the laws its clients
  use as a locale, and the overflow \<open>Dispatcher\<close> of \<open>dispatcher.go\<close>, itself a provider over the
  states of its two providers.

  An operation takes the current time where the code calls \<open>time.Now\<close>, and returns its result with
  the state after the call. The reapers of the Go interface return a list together with an error,
  so both are kept.
\<close>

section \<open>Types\<close>

definition ProviderKubeVirt :: string where "ProviderKubeVirt = ''kubevirt''"

definition ProviderEC2 :: string where "ProviderEC2 = ''ec2''"

record Session =
  s_ID :: string
  s_LabID :: string
  s_UserID :: string
  s_Status :: string
  s_ProvisioningStage :: string
  s_StartedAt :: go_time
  s_ExpiresAt :: go_time
  s_Provider :: string
  s_InstanceID :: string
  s_Region :: string
  s_TailnetEnabled :: bool

record BootInit =
  bi_packages :: "string list"
  bi_runcmd :: "string list"

record 's provider =
  pv_Create :: "go_time \<Rightarrow> string \<Rightarrow> string \<Rightarrow> string \<Rightarrow> BootInit \<Rightarrow> 's \<Rightarrow> (err + Session) \<times> 's"
  pv_Get :: "go_time \<Rightarrow> string \<Rightarrow> 's \<Rightarrow> (err + Session) \<times> 's"
  pv_Delete :: "string \<Rightarrow> 's \<Rightarrow> err option \<times> 's"
  pv_FindActiveByUser :: "string \<Rightarrow> 's \<Rightarrow> (err + string) \<times> 's"
  pv_CountActiveSessions :: "'s \<Rightarrow> (err + int) \<times> 's"
  pv_ReapStuckSessions :: "go_time \<Rightarrow> duration \<Rightarrow> 's \<Rightarrow> (string list \<times> err option) \<times> 's"
  pv_ReapExpiredSessions :: "go_time \<Rightarrow> 's \<Rightarrow> (string list \<times> err option) \<times> 's"
  pv_VMIAddress :: "string \<Rightarrow> 's \<Rightarrow> (err + string) \<times> 's"
  pv_Capacity :: int

section \<open>Reaper loops\<close>

text \<open>The loop of a reaper over the listed resources: it collects the ids of those it reaped.\<close>

fun reap_loop :: "('i \<Rightarrow> 's \<Rightarrow> string list \<times> 's) \<Rightarrow> 'i list \<Rightarrow> 's \<Rightarrow> string list \<times> 's" where
  "reap_loop one [] m = ([], m)"
| "reap_loop one (i # is) m =
     (let (r1, m1) = one i m; (r2, m2) = reap_loop one is m1 in (r1 @ r2, m2))"

lemma reap_loop_mem:
  "x \<in> set (fst (reap_loop one is m)) \<Longrightarrow> \<exists>i\<in>set is. \<exists>m'. x \<in> set (fst (one i m'))"
proof (induction "is" arbitrary: m)
  case (Cons i "is")
  obtain r1 m1 where one: "one i m = (r1, m1)" by (cases "one i m")
  then have "x \<in> set r1 \<or> x \<in> set (fst (reap_loop one is m1))"
    using Cons.prems by (auto simp: Let_def split: prod.splits)
  then show ?case
  proof
    assume "x \<in> set r1"
    then have "x \<in> set (fst (one i m))" using one by simp
    then show ?thesis by auto
  next
    assume "x \<in> set (fst (reap_loop one is m1))"
    then show ?thesis using Cons.IH by auto
  qed
qed simp

section \<open>The dispatcher\<close>

text \<open>
  \<open>lift_fst\<close> and \<open>lift_snd\<close> run an operation of the on-premises or of the overflow provider on its
  half of the state.
\<close>

definition lift_fst :: "('a \<Rightarrow> 'r \<times> 'a) \<Rightarrow> 'a \<times> 'b \<Rightarrow> 'r \<times> ('a \<times> 'b)" where
  "lift_fst f s = (let (r, a) = f (fst s) in (r, (a, snd s)))"

definition lift_snd :: "('b \<Rightarrow> 'r \<times> 'b) \<Rightarrow> 'a \<times> 'b \<Rightarrow> 'r \<times> ('a \<times> 'b)" where
  "lift_snd f s = (let (r, b) = f (snd s) in (r, (fst s, b)))"

definition d_Create ::
  "'a provider \<Rightarrow> 'b provider option \<Rightarrow> int \<Rightarrow> go_time \<Rightarrow> string \<Rightarrow> string \<Rightarrow> string \<Rightarrow> BootInit \<Rightarrow>
   'a \<times> 'b \<Rightarrow> (err + Session) \<times> ('a \<times> 'b)" where
  "d_Create onprem overflow cap now sid lab uid init s =
     (case overflow of
        None \<Rightarrow> lift_fst (pv_Create onprem now sid lab uid init) s
      | Some ov \<Rightarrow>
          (let (r, s1) = lift_fst (pv_CountActiveSessions onprem) s in
           case r of
             Inl e \<Rightarrow> (Inl e, s1)
           | Inr n \<Rightarrow>
               if n < cap then lift_fst (pv_Create onprem now sid lab uid init) s1
               else lift_snd (pv_Create ov now sid lab uid init) s1))"

definition d_Get ::
  "'a provider \<Rightarrow> 'b provider option \<Rightarrow> go_time \<Rightarrow> string \<Rightarrow> 'a \<times> 'b \<Rightarrow> (err + Session) \<times> ('a \<times> 'b)" where
  "d_Get onprem overflow now sid s =
     (let (r, s1) = lift_fst (pv_Get onprem now sid) s in
      case r of
        Inr sess \<Rightarrow> (Inr sess, s1)
      | Inl e \<Rightarrow>
          (case overflow of
             Some ov \<Rightarrow> if is_not_found e then lift_snd (pv_Get ov now sid) s1 else (Inl e, s1)
           | None \<Rightarrow> (Inl e, s1)))"

definition d_Delete ::
  "'a provider \<Rightarrow> 'b provider option \<Rightarrow> string \<Rightarrow> 'a \<times> 'b \<Rightarrow> err option \<times> ('a \<times> 'b)" where
  "d_Delete onprem overflow sid s =
     (let (e, s1) = lift_fst (pv_Delete onprem sid) s in
      case (overflow, e) of
        (Some ov, Some e') \<Rightarrow> if is_not_found e' then lift_snd (pv_Delete ov sid) s1 else (e, s1)
      | _ \<Rightarrow> (e, s1))"

definition d_FindActiveByUser ::
  "'a provider \<Rightarrow> 'b provider option \<Rightarrow> string \<Rightarrow> 'a \<times> 'b \<Rightarrow> (err + string) \<times> ('a \<times> 'b)" where
  "d_FindActiveByUser onprem overflow uid s =
     (let (r, s1) = lift_fst (pv_FindActiveByUser onprem uid) s in
      case r of
        Inl e \<Rightarrow> (Inl e, s1)
      | Inr sid \<Rightarrow>
          (case overflow of
             None \<Rightarrow> (Inr sid, s1)
           | Some ov \<Rightarrow> if sid \<noteq> [] then (Inr sid, s1) else lift_snd (pv_FindActiveByUser ov uid) s1))"

definition d_Capacity :: "'b provider option \<Rightarrow> int \<Rightarrow> int" where
  "d_Capacity overflow cap = (case overflow of None \<Rightarrow> cap | Some ov \<Rightarrow> cap + pv_Capacity ov)"

definition d_CountActiveSessions ::
  "'a provider \<Rightarrow> 'b provider option \<Rightarrow> 'a \<times> 'b \<Rightarrow> (err + int) \<times> ('a \<times> 'b)" where
  "d_CountActiveSessions onprem overflow s =
     (let (r, s1) = lift_fst (pv_CountActiveSessions onprem) s in
      case r of
        Inl e \<Rightarrow> (Inl e, s1)
      | Inr n \<Rightarrow>
          (case overflow of
             None \<Rightarrow> (Inr n, s1)
           | Some ov \<Rightarrow>
               (let (r2, s2) = lift_snd (pv_CountActiveSessions ov) s1 in
                case r2 of Inl e \<Rightarrow> (Inl e, s2) | Inr m \<Rightarrow> (Inr (n + m), s2))))"

definition reapBoth ::
  "('a \<Rightarrow> (string list \<times> err option) \<times> 'a) \<Rightarrow> ('b \<Rightarrow> (string list \<times> err option) \<times> 'b) option \<Rightarrow>
   'a \<times> 'b \<Rightarrow> (string list \<times> err option) \<times> ('a \<times> 'b)" where
  "reapBoth fn_onprem fn_overflow s =
     (let ((reaped, e), s1) = lift_fst fn_onprem s in
      case fn_overflow of
        None \<Rightarrow> ((reaped, e), s1)
      | Some fn \<Rightarrow>
          (let ((r2, e2), s2) = lift_snd fn s1 in
           case e2 of Some _ \<Rightarrow> ((reaped @ r2, e2), s2) | None \<Rightarrow> ((reaped @ r2, e), s2)))"

definition d_VMIAddress ::
  "'a provider \<Rightarrow> 'b provider option \<Rightarrow> string \<Rightarrow> 'a \<times> 'b \<Rightarrow> (err + string) \<times> ('a \<times> 'b)" where
  "d_VMIAddress onprem overflow sid s =
     (let (r, s1) = lift_fst (pv_VMIAddress onprem sid) s in
      case r of
        Inr addr \<Rightarrow> (Inr addr, s1)
      | Inl e \<Rightarrow>
          (case overflow of
             Some ov \<Rightarrow> if is_not_found e then lift_snd (pv_VMIAddress ov sid) s1 else (Inl e, s1)
           | None \<Rightarrow> (Inl e, s1)))"

definition NewDispatcher :: "'a provider \<Rightarrow> 'b provider option \<Rightarrow> int \<Rightarrow> ('a \<times> 'b) provider" where
  "NewDispatcher onprem overflow cap =
     \<lparr>pv_Create = d_Create onprem overflow cap,
      pv_Get = d_Get onprem overflow,
      pv_Delete = d_Delete onprem overflow,
      pv_FindActiveByUser = d_FindActiveByUser onprem overflow,
      pv_CountActiveSessions = d_CountActiveSessions onprem overflow,
      pv_ReapStuckSessions = (\<lambda>now timeout. reapBoth (pv_ReapStuckSessions onprem now timeout)
         (map_option (\<lambda>ov. pv_ReapStuckSessions ov now timeout) overflow)),
      pv_ReapExpiredSessions = (\<lambda>now. reapBoth (pv_ReapExpiredSessions onprem now)
         (map_option (\<lambda>ov. pv_ReapExpiredSessions ov now) overflow)),
      pv_VMIAddress = d_VMIAddress onprem overflow,
      pv_Capacity = d_Capacity overflow cap\<rparr>"

lemmas dispatcher_ops = d_Create_def d_Get_def d_Delete_def d_FindActiveByUser_def
  d_CountActiveSessions_def d_VMIAddress_def lift_fst_def lift_snd_def

section \<open>The contract\<close>

text \<open>
  What every provider guarantees, whatever its backend answers: a created session carries the ids
  it was asked for and is provisioning; a session that is read has one of the three statuses; nobody's session is found for the empty user; counts are not negative.
\<close>

locale session_provider =
  fixes P :: "'s provider"
  assumes create_echo: "pv_Create P now sid lab uid init s = (Inr x, s') \<Longrightarrow>
      s_ID x = sid \<and> s_LabID x = lab \<and> s_UserID x = uid \<and> s_Status x = ''provisioning''
      \<and> s_Provider x \<in> {ProviderKubeVirt, ProviderEC2}"
    and get_session: "pv_Get P now sid s = (Inr x, s') \<Longrightarrow>
      s_Status x \<in> {''provisioning'', ''ready'', ''failed''}
      \<and> s_Provider x \<in> {ProviderKubeVirt, ProviderEC2}"
    and find_nobody: "pv_FindActiveByUser P [] s = (Inr sid, s') \<Longrightarrow> sid = []"
    and count_nonneg: "pv_CountActiveSessions P s = (Inr n, s') \<Longrightarrow> 0 \<le> n"
begin

lemma get_active:
  assumes "pv_Get P now sid s = (Inr x, s')" and "s_Status x \<noteq> ''failed''"
  shows "s_Status x = ''provisioning'' \<or> s_Status x = ''ready''"
  using get_session [OF assms(1)] assms(2) by auto

end

locale two_providers = onprem: session_provider P + overflow: session_provider Q
  for P :: "'a provider" and Q :: "'b provider" +
  fixes cap :: int
begin

lemma routed_to_onprem:
  assumes "pv_CountActiveSessions P (fst s) = (Inr n, a)" and "n < cap"
  shows "d_Create P (Some Q) cap now sid lab uid init s
       = (let (r, a') = pv_Create P now sid lab uid init a in (r, (a', snd s)))"
  using assms by (simp add: dispatcher_ops)

lemma routed_to_overflow:
  assumes "pv_CountActiveSessions P (fst s) = (Inr n, a)" and "cap \<le> n"
  shows "d_Create P (Some Q) cap now sid lab uid init s
       = (let (r, b) = pv_Create Q now sid lab uid init (snd s) in (r, (a, b)))"
  using assms by (simp add: dispatcher_ops)

end

sublocale two_providers \<subseteq> session_provider "NewDispatcher P (Some Q) cap"
proof
  fix now sid lab uid init s x s'
  show "pv_Create (NewDispatcher P (Some Q) cap) now sid lab uid init s = (Inr x, s') \<Longrightarrow>
      s_ID x = sid \<and> s_LabID x = lab \<and> s_UserID x = uid \<and> s_Status x = ''provisioning''
      \<and> s_Provider x \<in> {ProviderKubeVirt, ProviderEC2}"
    using onprem.create_echo [of now sid lab uid init _ x] overflow.create_echo [of now sid lab uid init _ x]
    by (auto simp: NewDispatcher_def dispatcher_ops split: prod.splits sum.splits if_splits)
next
  fix now sid s x s'
  show "pv_Get (NewDispatcher P (Some Q) cap) now sid s = (Inr x, s') \<Longrightarrow>
      s_Status x \<in> {''provisioning'', ''ready'', ''failed''}
      \<and> s_Provider x \<in> {ProviderKubeVirt, ProviderEC2}"
    using onprem.get_session [of now sid _ x] overflow.get_session [of now sid _ x]
    by (auto simp: NewDispatcher_def dispatcher_ops split: prod.splits sum.splits if_splits)
next
  fix s sid s'
  show "pv_FindActiveByUser (NewDispatcher P (Some Q) cap) [] s = (Inr sid, s') \<Longrightarrow> sid = []"
    using onprem.find_nobody overflow.find_nobody
    by (auto simp: NewDispatcher_def dispatcher_ops split: prod.splits sum.splits if_splits)
next
  fix s n s'
  show "pv_CountActiveSessions (NewDispatcher P (Some Q) cap) s = (Inr n, s') \<Longrightarrow> 0 \<le> n"
    using onprem.count_nonneg overflow.count_nonneg
    by (fastforce simp: NewDispatcher_def dispatcher_ops split: prod.splits sum.splits if_splits)
qed

end
