(* ===== verification/Content.thy ===== *)
theory Content
  imports Messages Session_Provider "HOL-Library.Product_Lexorder"
begin

text \<open>
  Lab content: the DSL types and the loader of \<open>src/apps/api/internal/content/loader.go\<close>, and the
  lab catalogue handlers of \<open>src/apps/api/internal/api/handlers/lab.go\<close>. The YAML decoder is a
  parameter. The labs are a Go map: iteration over it takes the keys in the order of a list \<open>order\<close>
  that enumerates them, which is arbitrary in the source.
\<close>

section \<open>The DSL\<close>

record ContentCheck =
  cc_type :: string
  cc_command :: string
  cc_path :: string
  cc_url :: string
  cc_name :: string
  cc_expect :: string
  cc_expect_code :: int
  cc_timeout :: int

record Step =
  cs_ID :: int
  cs_title :: string
  cs_description :: string
  cs_commands :: "string list"
  cs_hint :: string
  cs_hint_levels :: "string list"
  cs_checks :: "ContentCheck list"

record LabContent =
  lc_ID :: string
  lc_title :: string
  lc_description :: string
  lc_difficulty :: string
  lc_duration_min :: int
  lc_vm_type :: string
  lc_tags :: "string list"
  lc_environment :: string
  lc_IDE :: bool
  lc_init :: BootInit
  lc_steps :: "Step list"

definition StaticHint :: "Step \<Rightarrow> int \<Rightarrow> string" where
  "StaticHint s level =
     (if length (cs_hint_levels s) > 0
      then (let idx = level - 1;
                idx = (if idx < 0 then 0 else idx);
                idx = (if idx \<ge> int (length (cs_hint_levels s)) then int (length (cs_hint_levels s)) - 1 else idx)
            in cs_hint_levels s ! nat idx)
      else cs_hint s)"

definition HasLiveTerminal :: "LabContent \<Rightarrow> bool" where
  "HasLiveTerminal lc \<longleftrightarrow> lc_environment lc = ''ubuntu''"

text \<open>
  \<open>Load\<close>: a directory entry is its name, whether it is a directory, and the result of reading it;
  \<open>unmarshal\<close> is the YAML decoder.
\<close>

definition sort_steps :: "LabContent \<Rightarrow> LabContent" where
  "sort_steps lc = lc\<lparr>lc_steps := sort_key cs_ID (lc_steps lc)\<rparr>"

fun load_loop ::
  "(string \<Rightarrow> string + LabContent) \<Rightarrow> (string \<times> bool \<times> (string + string)) list \<Rightarrow>
   (string \<rightharpoonup> LabContent) \<Rightarrow> string + (string \<rightharpoonup> LabContent)" where
  "load_loop unmarshal [] out = Inr out"
| "load_loop unmarshal ((name, is_dir, file) # es) out =
     (if is_dir then load_loop unmarshal es out
      else
        (case file of
           Inl e \<Rightarrow> Inl (''read '' @ name @ '': '' @ e)
         | Inr data \<Rightarrow>
             (case unmarshal data of
                Inl e \<Rightarrow> Inl (''parse '' @ name @ '': '' @ e)
              | Inr lc \<Rightarrow>
                  if lc_ID lc = [] then Inl (name @ '': lab id is empty'')
                  else if out (lc_ID lc) \<noteq> None then Inl (name @ '': duplicate lab id '' @ lc_ID lc)
                  else load_loop unmarshal es (out(lc_ID lc \<mapsto> sort_steps lc)))))"

definition Load ::
  "(string \<Rightarrow> string + LabContent) \<Rightarrow> string + (string \<times> bool \<times> (string + string)) list \<Rightarrow>
   string + (string \<rightharpoonup> LabContent)" where
  "Load unmarshal entries =
     (case entries of
        Inl e \<Rightarrow> Inl (''read labs dir: '' @ e)
      | Inr es \<Rightarrow> load_loop unmarshal es Map.empty)"

definition labs_ok :: "(string \<rightharpoonup> LabContent) \<Rightarrow> bool" where
  "labs_ok labs \<longleftrightarrow> (\<forall>k lc. labs k = Some lc \<longrightarrow> lc_ID lc = k \<and> k \<noteq> [] \<and> sorted (map cs_ID (lc_steps lc)))"

lemma load_loop_ok: "load_loop u es out = Inr labs \<Longrightarrow> labs_ok out \<Longrightarrow> labs_ok labs"
proof (induction u es out rule: load_loop.induct)
  case (2 u name is_dir rd es out)
  show ?case
  proof (cases is_dir)
    case True
    then show ?thesis using 2 by simp
  next
    case False
    with 2(3) obtain data lc where f: "rd = Inr data" "u data = Inr lc" "lc_ID lc \<noteq> []"
      "out (lc_ID lc) = None" and l: "load_loop u es (out(lc_ID lc \<mapsto> sort_steps lc)) = Inr labs"
      by (auto split: sum.splits if_splits)
    have "labs_ok (out(lc_ID lc \<mapsto> sort_steps lc))"
      using 2(4) f(3) by (auto simp: labs_ok_def sort_steps_def)
    moreover have "\<not> out (lc_ID lc) \<noteq> None" using f(4) by simp
    ultimately show ?thesis using 2(2) [OF False f(1,2,3)] l by blast
  qed
qed simp

section \<open>The catalogue\<close>

definition labCatalogTieBreakOrder :: "string list" where
  "labCatalogTieBreakOrder = [''lab-linux-basics'', ''lab-docker-basics'', ''lab-k8s-basics'',
     ''lab-ansible-basics'', ''lab-terraform-basics'', ''lab-helm-advanced'']"

definition labDifficultyRank :: "string \<rightharpoonup> int" where
  "labDifficultyRank = map_of [(''beginner'', 0), (''intermediate'', 1), (''advanced'', 2)]"

definition catalog_key :: "LabContent \<Rightarrow> int \<times> nat \<times> string" where
  "catalog_key lc =
     (case labDifficultyRank (lc_difficulty lc) of None \<Rightarrow> 3 | Some r \<Rightarrow> r,
      case find_index (\<lambda>k. k = lc_ID lc) labCatalogTieBreakOrder of
        None \<Rightarrow> length labCatalogTieBreakOrder | Some i \<Rightarrow> i,
      lc_ID lc)"

definition orderedLabIDs :: "(string \<rightharpoonup> LabContent) \<Rightarrow> string list \<Rightarrow> string list" where
  "orderedLabIDs labs order = sort_key (\<lambda>k. catalog_key (the (labs k))) order"

definition json_strings :: "string list \<Rightarrow> json" where
  "json_strings ss = JArr (map JStr ss)"

definition publicLabSummary :: "LabContent \<Rightarrow> json" where
  "publicLabSummary lab =
     JObj [(''id'', JStr (lc_ID lab)), (''title'', JStr (lc_title lab)),
           (''description'', JStr (lc_description lab)), (''difficulty'', JStr (lc_difficulty lab)),
           (''duration_min'', JInt (lc_duration_min lab)), (''tags'', json_strings (lc_tags lab)),
           (''vm_type'', JStr (lc_vm_type lab)), (''step_count'', JInt (int (length (lc_steps lab))))]"

definition publicSteps :: "Step list \<Rightarrow> json" where
  "publicSteps steps =
     JArr (map (\<lambda>s. JObj ([(''id'', JInt (cs_ID s)), (''title'', JStr (cs_title s)),
                           (''description'', JStr (cs_description s))]
                          @ (if cs_hint s \<noteq> [] then [(''hint'', JStr (cs_hint s))] else []))) steps)"

definition ListLabs :: "(string \<rightharpoonup> LabContent) \<Rightarrow> string list \<Rightarrow> resp" where
  "ListLabs labs order =
     (let ids = orderedLabIDs labs order in
      Resp 200 (JObj [(''items'', JArr (map (\<lambda>k. publicLabSummary (the (labs k))) ids)),
                      (''total'', JInt (int (length ids)))]))"

definition GetLab :: "(string \<rightharpoonup> LabContent) \<Rightarrow> string \<Rightarrow> resp" where
  "GetLab labs k =
     (case labs k of
        None \<Rightarrow> err_resp 404 ''lab not found''
      | Some lab \<Rightarrow>
          Resp 200 (JObj [(''id'', JStr (lc_ID lab)), (''title'', JStr (lc_title lab)),
            (''description'', JStr (lc_description lab)), (''difficulty'', JStr (lc_difficulty lab)),
            (''duration_min'', JInt (lc_duration_min lab)), (''tags'', json_strings (lc_tags lab)),
            (''vm_type'', JStr (lc_vm_type lab)), (''step_count'', JInt (int (length (lc_steps lab)))),
            (''steps'', publicSteps (lc_steps lab)), (''environment'', JStr (lc_environment lab))]))"

section \<open>Steps of a lab\<close>

fun find_step :: "Step list \<Rightarrow> int \<Rightarrow> Step option" where
  "find_step [] k = None"
| "find_step (s # ss) k = (if cs_ID s = k then Some s else find_step ss k)"

definition findContentStep :: "LabContent \<Rightarrow> int \<Rightarrow> Step option" where
  "findContentStep lc stepID = find_step (lc_steps lc) stepID"

definition toValidationChecks :: "ContentCheck list \<Rightarrow> Check list" where
  "toValidationChecks checks =
     map (\<lambda>c. \<lparr>chk_type = cc_type c, chk_command = cc_command c, chk_path = cc_path c, chk_url = cc_url c,
               chk_name = cc_name c, chk_expect = cc_expect c, chk_expect_code = cc_expect_code c,
               chk_timeout = cc_timeout c\<rparr>) checks"

definition vmSpecForSession :: "Session \<Rightarrow> string \<Rightarrow> VMSpec" where
  "vmSpecForSession sess sessionID =
     (if s_Provider sess = ProviderEC2
      then \<lparr>vm_type = VMTypeEC2, vm_name = [], vm_namespace = [], vm_instance_id = s_InstanceID sess,
            vm_region = s_Region sess\<rparr>
      else \<lparr>vm_type = VMTypeKubeVirt, vm_name = ''session-vm'', vm_namespace = ''lab-'' @ sessionID,
            vm_instance_id = [], vm_region = []\<rparr>)"

section \<open>Properties\<close>

text \<open>
  C36. Loaded content is indexed by its own ids and its steps are in increasing order of their ids,
  whatever the files hold and however the decoder reads them.
\<close>

theorem Load_wellformed:
  assumes "Load unmarshal entries = Inr labs"
  shows "labs_ok labs"
  using assms load_loop_ok [of unmarshal _ Map.empty labs]
  by (auto simp: Load_def labs_ok_def split: sum.splits)

definition demo_lab :: LabContent where
  "demo_lab = \<lparr>lc_ID = ''lab-linux-basics'', lc_title = ''Linux'', lc_description = [],
     lc_difficulty = ''beginner'', lc_duration_min = 30, lc_vm_type = ''lab-small'', lc_tags = [],
     lc_environment = ''ubuntu'', lc_IDE = False, lc_init = \<lparr>bi_packages = [], bi_runcmd = []\<rparr>,
     lc_steps = [\<lparr>cs_ID = 2, cs_title = ''two'', cs_description = [], cs_commands = [], cs_hint = [],
                  cs_hint_levels = [], cs_checks = []\<rparr>,
                 \<lparr>cs_ID = 1, cs_title = ''one'', cs_description = [], cs_commands = [], cs_hint = ''h'',
                  cs_hint_levels = [], cs_checks = []\<rparr>]\<rparr>"

theorem Load_wellformed_witness:
  "labs_ok [''lab-linux-basics'' \<mapsto> sort_steps demo_lab]
   \<and> map cs_ID (lc_steps (sort_steps demo_lab)) = [1, 2]"
proof
  show "labs_ok [''lab-linux-basics'' \<mapsto> sort_steps demo_lab]"
    by (rule Load_wellformed [of "\<lambda>_. Inr demo_lab" "Inr [(''a.yaml'', False, Inr [])]"])
      (simp add: Load_def demo_lab_def)
qed (simp add: sort_steps_def demo_lab_def)

lemma sort_key_unique:
  assumes "mset xs = mset ys" and "distinct (map key xs)"
  shows "sort_key key xs = sort_key key ys"
  using assms sort_key_eqI [of key "sort_key key xs" ys] by (metis mset_map mset_sort
      mset_eq_imp_distinct_iff sorted_sort_key)

text \<open>
  The catalogue order does not depend on Go's map iteration: any two enumerations of the labs give
  the same list, sorted by difficulty, then recommended order, then id.
\<close>

theorem orderedLabIDs_deterministic:
  assumes "labs_ok labs" and "distinct order" and "distinct order'"
    and "set order = dom labs" and "set order' = dom labs"
  shows "orderedLabIDs labs order = orderedLabIDs labs order'
    \<and> sorted (map (\<lambda>k. catalog_key (the (labs k))) (orderedLabIDs labs order))"
proof -
  have "inj_on (\<lambda>k. catalog_key (the (labs k))) (dom labs)"
    using assms(1) by (auto simp: inj_on_def labs_ok_def catalog_key_def)
  then have "distinct (map (\<lambda>k. catalog_key (the (labs k))) order)"
    using assms(2,4) by (simp add: distinct_map)
  moreover have "mset order = mset order'"
    using assms(2-5) set_eq_iff_mset_eq_distinct [of order order'] by simp
  ultimately show ?thesis
    by (simp add: orderedLabIDs_def sort_key_unique)
qed

theorem orderedLabIDs_deterministic_witness:
  "orderedLabIDs [''lab-linux-basics'' \<mapsto> sort_steps demo_lab, ''a'' \<mapsto> demo_lab\<lparr>lc_ID := ''a'', lc_steps := []\<rparr>]
     [''a'', ''lab-linux-basics'']
   = orderedLabIDs [''lab-linux-basics'' \<mapsto> sort_steps demo_lab, ''a'' \<mapsto> demo_lab\<lparr>lc_ID := ''a'', lc_steps := []\<rparr>]
     [''lab-linux-basics'', ''a'']"
  by (rule conjunct1 [OF orderedLabIDs_deterministic])
    (auto simp: labs_ok_def sort_steps_def demo_lab_def split: if_splits)

end
