(* ===== verification/Billing.thy ===== *)
theory Billing
  imports Persistence Content
begin

text \<open>
  Billing and entitlement: \<open>src/apps/api/internal/api/handlers/billing.go\<close> and
  \<open>src/apps/api/internal/api/handlers/entitlement.go\<close>. The handlers take the database interface
  (\<open>None\<close> when it is not configured), the user id that the authentication middleware put into the
  context (empty without one), and the current time; a request body is \<open>Inl\<close> of the binding error
  or \<open>Inr\<close> of the bound value. The random checkout id is an argument.
\<close>

section \<open>Plans\<close>

definition checkoutProviderMock :: string where "checkoutProviderMock = ''mock''"

definition checkoutStatusPending :: string where "checkoutStatusPending = ''pending''"

definition defaultPlanID :: string where "defaultPlanID = ''free''"

record billingPlan =
  bp_ID :: string
  bp_name :: string
  bp_price_krw :: int
  bp_interval :: string
  bp_features :: "string list"
  bp_recommended :: bool

definition billingPlans :: "billingPlan list" where
  "billingPlans =
     [\<lparr>bp_ID = defaultPlanID, bp_name = ''Free'', bp_price_krw = 0, bp_interval = ''none'',
       bp_features = [utf8 [234, 179, 181, 234, 176, 156, 32, 76, 97, 98, 32, 236, 185, 180, 237, 131,
           136, 235, 161, 156, 234, 183, 184],
         utf8 [234, 184, 176, 235, 179, 184, 32, 237, 149, 153, 236, 138, 181, 32, 237,
           152, 132, 237, 153, 169]],
       bp_recommended = False\<rparr>,
      \<lparr>bp_ID = ''pro-monthly'', bp_name = ''Pro'', bp_price_krw = 9900, bp_interval = ''month'',
       bp_features = [utf8 [236, 160, 132, 236, 178, 180, 32, 72, 97, 110, 100, 115, 45, 111, 110, 32,
           76, 97, 98],
         utf8 [65, 73, 32, 237, 158, 140, 237, 138, 184, 32, 236, 130, 172, 236, 154, 169,
           235, 159, 137, 32, 237, 153, 149, 236, 158, 165],
         utf8 [235, 176, 176, 236, 167, 128, 236, 153, 128, 32, 236, 136, 152, 235, 163,
           140, 32, 236, 157, 180, 235, 160, 165]],
       bp_recommended = True\<rparr>,
      \<lparr>bp_ID = ''team-monthly'', bp_name = ''Team'', bp_price_krw = 29900, bp_interval = ''month'',
       bp_features = [utf8 [237, 140, 128, 32, 235, 139, 168, 236, 156, 132, 32, 237, 149, 153, 236,
           138, 181, 32, 237, 152, 132, 237, 153, 169],
         utf8 [237, 140, 128, 32, 237, 149, 153, 236, 138, 181, 32, 234, 180, 128, 235,
           166, 172],
         utf8 [236, 154, 180, 236, 152, 129, 32, 235, 166, 172, 237, 143, 172, 237, 138,
           184, 32, 236, 164, 128, 235, 185, 132]],
       bp_recommended = False\<rparr>]"

fun find_plan :: "string \<Rightarrow> billingPlan list \<Rightarrow> billingPlan option" where
  "find_plan k [] = None"
| "find_plan k (p # ps) = (if bp_ID p = k then Some p else find_plan k ps)"

definition findBillingPlan :: "string \<Rightarrow> billingPlan option" where
  "findBillingPlan planID = find_plan planID billingPlans"

definition plan_json :: "billingPlan \<Rightarrow> json" where
  "plan_json p = JObj [(''id'', JStr (bp_ID p)), (''name'', JStr (bp_name p)),
     (''price_krw'', JInt (bp_price_krw p)), (''interval'', JStr (bp_interval p)),
     (''features'', json_strings (bp_features p)), (''recommended'', JBool (bp_recommended p))]"

definition GetBillingPlans :: resp where
  "GetBillingPlans = Resp 200 (JObj [(''items'', JArr (map plan_json billingPlans))])"

section \<open>Subscriptions\<close>

definition subscriptionResponse :: "string \<Rightarrow> string \<Rightarrow> go_time option \<Rightarrow> json" where
  "subscriptionResponse plan st period_end =
     JObj ([(''plan_id'', JStr plan), (''status'', JStr st)]
           @ (case period_end of None \<Rightarrow> [] | Some t \<Rightarrow> [(''current_period_end'', JTime t)]))"

definition GetMySubscription :: "'d persistence option \<Rightarrow> string \<Rightarrow> 'd \<Rightarrow> resp \<times> 'd" where
  "GetMySubscription db userID d =
     (if userID = [] then (err_resp 401 ''missing user'', d)
      else
        (case db of
           None \<Rightarrow> (Resp 200 (subscriptionResponse defaultPlanID ''free'' None), d)
         | Some P \<Rightarrow>
             (let (r, d1) = p_GetSubscription P userID d in
              (case r of
                 Inl e \<Rightarrow> err_resp 500 ''subscription lookup failed''
               | Inr None \<Rightarrow> Resp 200 (subscriptionResponse defaultPlanID ''free'' None)
               | Inr (Some sub) \<Rightarrow>
                   Resp 200 (subscriptionResponse (sub_plan_id sub) (sub_status sub) (sub_current_period_end sub)),
               d1))))"

section \<open>Checkout\<close>

definition checkout_record :: "go_time \<Rightarrow> string \<Rightarrow> string \<Rightarrow> string \<Rightarrow> CheckoutSession" where
  "checkout_record now cid userID planID =
     \<lparr>cs_id = cid, cs_user_id = userID, cs_plan_id = planID, cs_provider = checkoutProviderMock,
      cs_status = checkoutStatusPending,
      cs_checkout_url = ''/billing?checkout_session_id='' @ cid @ ''&provider='' @ checkoutProviderMock,
      cs_created_at = zero_time, cs_expires_at = now + 30 * minute\<rparr>"

definition checkoutResponse :: "CheckoutSession \<Rightarrow> json" where
  "checkoutResponse cs =
     JObj [(''id'', JStr (cs_id cs)), (''provider'', JStr (cs_provider cs)), (''status'', JStr (cs_status cs)),
           (''checkout_url'', JStr (cs_checkout_url cs)), (''expires_at'', JTime (cs_expires_at cs))]"

definition CreateCheckout ::
  "'d persistence option \<Rightarrow> go_time \<Rightarrow> string \<Rightarrow> string \<Rightarrow> string + string \<Rightarrow> 'd \<Rightarrow> resp \<times> 'd" where
  "CreateCheckout db now cid userID body d =
     (case db of
        None \<Rightarrow> (err_resp 503 ''billing store not configured'', d)
      | Some P \<Rightarrow>
          if userID = [] then (err_resp 401 ''missing user'', d)
          else
            (case body of
               Inl m \<Rightarrow> (err_resp 400 m, d)
             | Inr planID \<Rightarrow>
                 (case findBillingPlan planID of
                    None \<Rightarrow> (err_resp 400 ''unknown billing plan'', d)
                  | Some plan \<Rightarrow>
                      if bp_price_krw plan = 0 then (err_resp 400 ''free plan does not require checkout'', d)
                      else
                        (let cs = checkout_record now cid userID (bp_ID plan);
                             (e, d1) = p_CreateCheckoutSession P now cs d
                         in (case e of
                               Some m \<Rightarrow> err_resp 500 ''checkout session create failed''
                             | None \<Rightarrow> Resp 201 (checkoutResponse cs), d1)))))"

definition CompleteCheckout ::
  "'d persistence option \<Rightarrow> go_time \<Rightarrow> string \<Rightarrow> string \<Rightarrow> 'd \<Rightarrow> resp \<times> 'd" where
  "CompleteCheckout db now userID cid d =
     (case db of
        None \<Rightarrow> (err_resp 503 ''billing store not configured'', d)
      | Some P \<Rightarrow>
          if userID = [] then (err_resp 401 ''missing user'', d)
          else
            (let (r, d1) = p_CompleteCheckoutSession P now cid userID d in
             (case r of
                Inl ErrCheckoutNotFound \<Rightarrow> err_resp 404 ''checkout session not found''
              | Inl ErrCheckoutExpired \<Rightarrow> err_resp 409 ''checkout session expired''
              | Inl ErrCheckoutInvalidStatus \<Rightarrow> err_resp 409 ''checkout session cannot be completed''
              | Inl (CheckoutOther m) \<Rightarrow> err_resp 500 ''checkout completion failed''
              | Inr sub \<Rightarrow>
                  Resp 200 (subscriptionResponse (sub_plan_id sub) (sub_status sub) (sub_current_period_end sub)),
              d1)))"

section \<open>Entitlement\<close>

definition requiredPaidPlanID :: string where "requiredPaidPlanID = ''pro-monthly''"

datatype entitlement_err = errSubscriptionRequired | EntitlementOther string

definition labRequiresPaidPlan :: "LabContent \<Rightarrow> bool" where
  "labRequiresPaidPlan lab \<longleftrightarrow> lc_difficulty lab \<noteq> ''beginner''"

definition hasActivePaidSubscription :: "Subscription option \<Rightarrow> go_time \<Rightarrow> bool" where
  "hasActivePaidSubscription s now =
     (case s of
        None \<Rightarrow> False
      | Some sub \<Rightarrow>
          if sub_status sub \<noteq> ''active'' \<or> sub_plan_id sub = defaultPlanID then False
          else (case sub_current_period_end sub of
                  Some t \<Rightarrow> \<not> (\<not> now < t)
                | None \<Rightarrow> True))"

text \<open>\<open>mode\<close> is \<open>cfg.Server.Mode\<close>, \<open>None\<close> when the configuration is nil.\<close>

definition ensureLabEntitlement ::
  "'d persistence option \<Rightarrow> string option \<Rightarrow> go_time \<Rightarrow> string \<Rightarrow> LabContent \<Rightarrow> 'd \<Rightarrow>
   entitlement_err option \<times> 'd" where
  "ensureLabEntitlement db mode now userID lab d =
     (if mode = None \<or> mode = Some ''release'' then (None, d)
      else if \<not> labRequiresPaidPlan lab then (None, d)
      else
        (case db of
           None \<Rightarrow> (None, d)
         | Some P \<Rightarrow>
             (let (r, d1) = p_GetSubscription P userID d in
              (case r of
                 Inl e \<Rightarrow> Some (EntitlementOther e)
               | Inr sub \<Rightarrow> if hasActivePaidSubscription sub now then None else Some errSubscriptionRequired,
               d1))))"

section \<open>Properties\<close>

lemma activated_row:
  "row_find sub_user_id uid (subscriptions (activate_subscription now uid plan t))
   = Some (case row_find sub_user_id uid (subscriptions t) of
       None \<Rightarrow> \<lparr>sub_user_id = uid, sub_plan_id = plan, sub_status = ''active'',
          sub_current_period_end = Some (pg_time (add_month now)), sub_updated_at = pg_time now\<rparr>
     | Some r \<Rightarrow> r\<lparr>sub_plan_id := plan, sub_status := ''active'',
          sub_current_period_end := Some (pg_time (add_month now)), sub_updated_at := pg_time now\<rparr>)"
  by (simp add: activate_subscription_def row_find_upsert)

lemma activated_fields:
  assumes "row_find sub_user_id uid (subscriptions (activate_subscription now uid plan t)) = Some sub"
  shows "sub_user_id sub = uid" and "sub_plan_id sub = plan" and "sub_status sub = ''active''"
    and "sub_current_period_end sub = Some (pg_time (add_month now))"
proof -
  show "sub_user_id sub = uid" using row_find_Some [OF assms] by simp
  show "sub_plan_id sub = plan" and "sub_status sub = ''active''"
    and "sub_current_period_end sub = Some (pg_time (add_month now))"
    using assms by (auto simp: activated_row split: option.splits)
qed

lemma checkout_row:
  "row_find cs_id cid (checkout_sessions (set_checkout_status cid' s t))
   = (if cid = cid' then map_option (\<lambda>r. r\<lparr>cs_status := s\<rparr>) (row_find cs_id cid (checkout_sessions t))
      else row_find cs_id cid (checkout_sessions t))"
  by (simp add: set_checkout_status_def row_find_update)

lemma activate_keeps_checkouts [simp]:
  "checkout_sessions (activate_subscription now uid plan t) = checkout_sessions t"
  by (simp add: activate_subscription_def)

text \<open>
  C27. A checkout is completed atomically: whatever statement fails, and even when the commit is
  acknowledged with an error, the tables are unchanged, or the checkout is only marked expired, or
  it is marked completed together with the subscription of its own user on its own plan.
\<close>

theorem checkout_atomic:
  "snd (CompleteCheckoutSession f now cid uid t) = t
   \<or> snd (CompleteCheckoutSession f now cid uid t) = set_checkout_status cid ''expired'' t
   \<or> (\<exists>cs. row_find cs_id cid (checkout_sessions t) = Some cs \<and> cs_user_id cs = uid
        \<and> cs_status cs = ''pending'' \<and> now \<le> cs_expires_at cs
        \<and> snd (CompleteCheckoutSession f now cid uid t)
          = activate_subscription now uid (cs_plan_id cs) (set_checkout_status cid ''completed'' t))"
proof (cases "row_find cs_id cid (checkout_sessions t)")
  case None
  then show ?thesis by (simp add: CompleteCheckoutSession_def split: option.split)
next
  case (Some cs)
  let ?done = "activate_subscription now uid (cs_plan_id cs) (set_checkout_status cid ''completed'' t)"
  note fin = finish_snd [of f 3 "''commit expired checkout session: ''" t "set_checkout_status cid ''expired'' t"]
    finish_snd [of f 4 "''commit checkout completion: ''" t ?done]
    finish_snd [of f 3 "''commit completed checkout read: ''" t t]
  show ?thesis
    using Some fin by (auto simp: CompleteCheckoutSession_def Let_def not_less split: option.split)
qed

text \<open>
  Paying grants access: when a checkout of a paid plan that is still open is completed without an
  error, the user's stored subscription is the returned one, it is active on the plan of the
  checkout, and it counts as an active paid subscription at every moment before the end of a period
  of at least 28 days.
\<close>

theorem checkout_grants_entitlement:
  assumes "row_find cs_id cid (checkout_sessions t) = Some cs" and "cs_status cs = ''pending''"
    and "cs_plan_id cs \<noteq> defaultPlanID"
    and "CompleteCheckoutSession f now cid uid t = (Inr sub, t')"
  shows "row_find sub_user_id uid (subscriptions t') = Some sub \<and> sub_plan_id sub = cs_plan_id cs
    \<and> cs_user_id cs = uid
    \<and> (\<forall>at < now + 27 * (24 * hour). hasActivePaidSubscription (Some sub) at)"
proof -
  let ?t = "activate_subscription now uid (cs_plan_id cs) (set_checkout_status cid ''completed'' t)"
  have u: "cs_user_id cs = uid" and t': "t' = ?t"
    and sub: "row_find sub_user_id uid (subscriptions ?t) = Some sub"
    using assms activated_row [of uid now "cs_plan_id cs" "set_checkout_status cid ''completed'' t"]
    by (cases f; auto simp: CompleteCheckoutSession_def Let_def split: option.splits if_splits)+
  note f = activated_fields [OF sub]
  have "add_month now - 1000 < pg_time (add_month now)"
    using pos_mod_bound [of 1000 "add_month now"] div_mult_mod_eq [of "add_month now" 1000]
    unfolding pg_time_def by linarith
  then have "now + 27 * (24 * hour) \<le> pg_time (add_month now)"
    using add_month_gt [of now] by (simp add: time_units)
  then have "hasActivePaidSubscription (Some sub) at" if "at < now + 27 * (24 * hour)" for at
    using f assms(3) that by (simp add: hasActivePaidSubscription_def)
  with sub t' f(2) u show ?thesis by simp
qed

definition demo_checkout :: CheckoutSession where
  "demo_checkout = checkout_record 0 ''chk_1'' ''u'' ''pro-monthly''"

definition demo_billing :: tables where
  "demo_billing = empty_tables\<lparr>checkout_sessions := [demo_checkout]\<rparr>"

lemmas demo_billing_defs = demo_billing_def demo_checkout_def checkout_record_def empty_tables_def
  CompleteCheckoutSession_def set_checkout_status_def activate_subscription_def row_update_def
  checkoutStatusPending_def checkoutProviderMock_def

theorem checkout_grants_entitlement_witness:
  "hasActivePaidSubscription (row_find sub_user_id ''u''
     (subscriptions (snd (CompleteCheckoutSession Healthy 60 ''chk_1'' ''u'' demo_billing)))) 1000"
proof -
  obtain sub where c: "CompleteCheckoutSession Healthy 60 ''chk_1'' ''u'' demo_billing
      = (Inr sub, snd (CompleteCheckoutSession Healthy 60 ''chk_1'' ''u'' demo_billing))"
    by (simp add: demo_billing_defs Let_def time_units)
  have cs: "row_find cs_id ''chk_1'' (checkout_sessions demo_billing) = Some demo_checkout"
    by (simp add: demo_billing_defs)
  have "row_find sub_user_id ''u'' (subscriptions
      (snd (CompleteCheckoutSession Healthy 60 ''chk_1'' ''u'' demo_billing))) = Some sub
    \<and> (\<forall>at < 60 + 27 * (24 * hour). hasActivePaidSubscription (Some sub) at)"
    using checkout_grants_entitlement [OF cs _ _ c] by (simp add: demo_billing_defs defaultPlanID_def)
  then show ?thesis by (simp add: time_units)
qed

text \<open>
  Completing a checkout twice is harmless: once a completion has taken effect, repeating it, at any
  later time, returns the stored subscription and changes nothing.
\<close>

theorem checkout_completion_idempotent:
  assumes "CompleteCheckoutSession Healthy now cid uid t = (Inr sub, t')"
  shows "CompleteCheckoutSession Healthy now' cid uid t' = (Inr sub, t')"
proof -
  obtain cs where cs: "row_find cs_id cid (checkout_sessions t) = Some cs" and u: "cs_user_id cs = uid"
    using assms by (auto simp: CompleteCheckoutSession_def split: option.splits if_splits)
  show ?thesis
  proof (cases "cs_status cs = ''completed''")
    case True
    then have "t' = t" and "row_find sub_user_id uid (subscriptions t) = Some sub"
      using assms cs u by (auto simp: CompleteCheckoutSession_def split: option.splits)
    with True cs u show ?thesis by (simp add: CompleteCheckoutSession_def)
  next
    case False
    let ?t = "activate_subscription now uid (cs_plan_id cs) (set_checkout_status cid ''completed'' t)"
    have t': "t' = ?t" and sub: "row_find sub_user_id uid (subscriptions ?t) = Some sub"
      using assms cs u False activated_row [of uid now "cs_plan_id cs" "set_checkout_status cid ''completed'' t"]
      by (auto simp: CompleteCheckoutSession_def Let_def split: if_splits)
    have "row_find cs_id cid (checkout_sessions t') = Some (cs\<lparr>cs_status := ''completed''\<rparr>)"
      using cs t' by (simp add: checkout_row)
    with sub t' u show ?thesis by (simp add: CompleteCheckoutSession_def)
  qed
qed

theorem checkout_completion_idempotent_witness:
  "CompleteCheckoutSession Healthy 999 ''chk_1'' ''u''
     (snd (CompleteCheckoutSession Healthy 60 ''chk_1'' ''u'' demo_billing))
   = CompleteCheckoutSession Healthy 60 ''chk_1'' ''u'' demo_billing"
proof -
  obtain sub where c: "CompleteCheckoutSession Healthy 60 ''chk_1'' ''u'' demo_billing
      = (Inr sub, snd (CompleteCheckoutSession Healthy 60 ''chk_1'' ''u'' demo_billing))"
    by (simp add: demo_billing_defs Let_def time_units)
  show ?thesis using checkout_completion_idempotent [OF c, of 999] c by metis
qed

end
