(* ===== verification/Clients.thy ===== *)
theory Clients
  imports Decimal
begin

text \<open>
  The HTTP clients of the API: the AI tutor (\<open>src/apps/api/internal/ai/client.go\<close>) and the
  Keycloak administration API (\<open>src/apps/api/internal/auth/admin.go\<close>). The transport is an
  argument: it maps a request to a transport error or to a response with its status and the result
  of decoding its body. The access token that \<open>oauth2\<close> adds is part of the transport.
\<close>

section \<open>Requests\<close>

record http_request =
  rq_method :: string
  rq_url :: string
  rq_body :: json

text \<open>A response: the status and the JSON value its body decodes to (\<open>None\<close> when it does not).\<close>

type_synonym 'x transport = "http_request \<Rightarrow> 'x \<Rightarrow> (string + int \<times> json option) \<times> 'x"

text \<open>\<open>url.PathEscape\<close>: every byte outside the characters allowed in a path segment is escaped.\<close>

definition hex_upper :: "nat \<Rightarrow> char" where
  "hex_upper n = ''0123456789ABCDEF'' ! n"

definition shouldEscape :: "char \<Rightarrow> bool" where
  "shouldEscape c \<longleftrightarrow>
     \<not> (is_alnum c \<or> c \<in> set ''-_.~'' \<or> c \<in> set ''$&+=:@'')"

definition escape_char :: "char \<Rightarrow> string" where
  "escape_char c =
     (if shouldEscape c then [CHR ''%'', hex_upper (of_char c div 16), hex_upper (of_char c mod 16)] else [c])"

definition PathEscape :: "string \<Rightarrow> string" where
  "PathEscape s = concat (map escape_char s)"

section \<open>The AI tutor\<close>

record StepInfo =
  si_id :: int
  si_title :: string
  si_description :: string
  si_commands :: "string list"

record HintRequest =
  hq_user_id :: string
  hq_session_id :: string
  hq_lab_id :: string
  hq_org_id :: string
  hq_step :: StepInfo
  hq_hint_level :: int
  hq_terminal_tail :: string

record DocSource =
  ds_title :: string
  ds_url :: string

record HintResponse =
  hr_hint :: string
  hr_hint_level :: int
  hr_model :: string
  hr_sources :: "DocSource list option"

datatype ai_err = ErrUnavailable string | ErrRateLimited

text \<open>
  \<open>RequestHint\<close>: \<open>http\<close> posts the request to \<open>/v1/hints\<close> and gives a transport error or the
  status with the decoded body or the decoding error.
\<close>

definition ai_RequestHint ::
  "(HintRequest \<Rightarrow> 'x \<Rightarrow> (string + int \<times> (string + HintResponse)) \<times> 'x) \<Rightarrow>
   HintRequest \<Rightarrow> 'x \<Rightarrow> (ai_err + HintResponse) \<times> 'x" where
  "ai_RequestHint http req x =
     (let (r, x1) = http req x in
      (case r of
         Inl e \<Rightarrow> Inl (ErrUnavailable e)
       | Inr (code, body) \<Rightarrow>
           if code = 200 then (case body of Inl e \<Rightarrow> Inl (ErrUnavailable (''decode response: '' @ e)) | Inr out \<Rightarrow> Inr out)
           else if code = 429 then Inl ErrRateLimited
           else Inl (ErrUnavailable (''status '' @ Itoa code)), x1))"

section \<open>The Keycloak administration API\<close>

datatype kc_err = ErrUserNotFound | ErrRoleNotFound | KcOther string

record realmRole =
  rr_id :: string
  rr_name :: string

record AdminClient =
  ac_base :: string
  ac_realm :: string

text \<open>\<open>NewAdminClient\<close>: \<open>None\<close> without credentials.\<close>

definition trim_slashes :: "string \<Rightarrow> string" where
  "trim_slashes s = rev (dropWhile (\<lambda>c. c = CHR ''/'') (rev s))"

definition NewAdminClient :: "string \<Rightarrow> string \<Rightarrow> string \<Rightarrow> string \<Rightarrow> AdminClient option" where
  "NewAdminClient url realm clientID secret =
     (if clientID = [] \<or> secret = [] then None else Some \<lparr>ac_base = trim_slashes url, ac_realm = realm\<rparr>)"

text \<open>A missing or mistyped field of a decoded object is the zero value or a decoding error.\<close>

definition decode_role :: "json option \<Rightarrow> string + realmRole" where
  "decode_role body =
     (case body of
        Some (JObj fs) \<Rightarrow>
          (case (map_of fs ''id'', map_of fs ''name'') of
             (Some (JStr i), Some (JStr n)) \<Rightarrow> Inr \<lparr>rr_id = i, rr_name = n\<rparr>
           | (None, Some (JStr n)) \<Rightarrow> Inr \<lparr>rr_id = [], rr_name = n\<rparr>
           | (Some (JStr i), None) \<Rightarrow> Inr \<lparr>rr_id = i, rr_name = []\<rparr>
           | (None, None) \<Rightarrow> Inr \<lparr>rr_id = [], rr_name = []\<rparr>
           | _ \<Rightarrow> Inl ''type mismatch'')
      | _ \<Rightarrow> Inl ''invalid body'')"

definition getRealmRole ::
  "'x transport \<Rightarrow> AdminClient \<Rightarrow> string \<Rightarrow> 'x \<Rightarrow> (kc_err + realmRole) \<times> 'x" where
  "getRealmRole http ac role x =
     (let (r, x1) = http \<lparr>rq_method = ''GET'',
            rq_url = ac_base ac @ ''/admin/realms/'' @ PathEscape (ac_realm ac) @ ''/roles/'' @ PathEscape role,
            rq_body = JNull\<rparr> x
      in (case r of
            Inl e \<Rightarrow> Inl (KcOther (''get realm role: '' @ e))
          | Inr (code, body) \<Rightarrow>
              if code = 404 then Inl ErrRoleNotFound
              else if code \<noteq> 200 then Inl (KcOther (''get realm role: status '' @ Itoa code))
              else (case decode_role body of Inl e \<Rightarrow> Inl (KcOther (''decode realm role: '' @ e)) | Inr rr \<Rightarrow> Inr rr), x1))"

definition send :: "'x transport \<Rightarrow> AdminClient \<Rightarrow> string \<Rightarrow> string \<Rightarrow> json \<Rightarrow> int \<Rightarrow> 'x \<Rightarrow> kc_err option \<times> 'x" where
  "send http ac meth path body want x =
     (let (r, x1) = http \<lparr>rq_method = meth, rq_url = ac_base ac @ path, rq_body = body\<rparr> x
      in (case r of
            Inl e \<Rightarrow> Some (KcOther (''admin api '' @ meth @ '' '' @ path @ '': '' @ e))
          | Inr (code, resp) \<Rightarrow>
              if code = 404 then Some ErrUserNotFound
              else if code \<noteq> want then Some (KcOther (''admin api '' @ meth @ '' '' @ path @ '': status '' @ Itoa code))
              else None, x1))"

definition AssignRealmRole ::
  "'x transport \<Rightarrow> AdminClient \<Rightarrow> string \<Rightarrow> string \<Rightarrow> 'x \<Rightarrow> kc_err option \<times> 'x" where
  "AssignRealmRole http ac userID role x =
     (let (r, x1) = getRealmRole http ac role x in
      case r of
        Inl e \<Rightarrow> (Some e, x1)
      | Inr rr \<Rightarrow>
          send http ac ''POST''
            (''/admin/realms/'' @ PathEscape (ac_realm ac) @ ''/users/'' @ PathEscape userID @ ''/role-mappings/realm'')
            (JArr [JObj [(''id'', JStr (rr_id rr)), (''name'', JStr (rr_name rr))]]) 204 x1)"

section \<open>Properties\<close>

lemma escape_char_safe: "set (escape_char c) \<inter> {CHR ''/'', CHR ''?'', CHR ''#''} = {}"
proof -
  have hex: "hex_upper n \<notin> {CHR ''/'', CHR ''?'', CHR ''#''}" if "n < 16" for n
  proof -
    have "hex_upper n \<in> set ''0123456789ABCDEF''" unfolding hex_upper_def using that by (intro nth_mem) simp
    then show ?thesis by auto
  qed
  have "shouldEscape CHR ''/''" "shouldEscape CHR ''?''" "shouldEscape CHR ''#''"
    by (simp_all add: shouldEscape_def is_alnum_def)
  moreover have "hex_upper (of_char c div 16) \<notin> {CHR ''/'', CHR ''?'', CHR ''#''}"
    by (rule hex, rule less_mult_imp_div_less) simp
  ultimately show ?thesis
    using hex [of "of_char c mod 16"] by (auto simp: escape_char_def)
qed

text \<open>A value put into a URL path with \<open>PathEscape\<close> stays one segment of it.\<close>

lemma PathEscape_one_segment: "set (PathEscape s) \<inter> {CHR ''/'', CHR ''?'', CHR ''#''} = {}"
  using escape_char_safe by (fastforce simp: PathEscape_def)

end
