(* ===== verification/App.thy ===== *)
theory App
  imports Step_Refinement Billing Clients
begin

text \<open>
  The handler object and the state its requests act on
  (\<open>src/apps/api/internal/api/handlers/handlers.go\<close>), session ownership (\<open>ownership.go\<close>), and the
  life cycle of a session: creation, reading, deletion and the background reapers of
  \<open>session.go\<close>, with the forced termination of \<open>admin.go\<close>.

  A handler is a function of the handler object, the current time, the request (path parameter,
  body, user id from the token) and the application state; it returns the response and the state
  after it. One instant stands for all \<open>time.Now\<close> calls of a request. Random ids are arguments.
  The services outside the repository (locks in Redis, Kafka, the AI tutor, Keycloak) are fields of
  the handler object over an arbitrary outside state \<open>'x\<close>. Log lines, trace spans and the
  Prometheus series of the handlers are left out.
\<close>

section \<open>State\<close>

record ('d, 'p, 'x) handler =
  h_mode :: "string option"
  h_provision_timeout_min :: int
  h_labs :: "string \<rightharpoonup> LabContent"
  h_sessions :: "'p provider option"
  h_db :: "'d persistence option"
  h_events :: bool
  h_lock_acquire :: "string \<Rightarrow> 'x \<Rightarrow> bool \<times> 'x"
  h_lock_release :: "string \<Rightarrow> 'x \<Rightarrow> 'x"
  h_validator :: "(ValidationRequest \<Rightarrow> 'x \<Rightarrow> string option \<times> 'x) option"
  h_redis_set :: "(string \<Rightarrow> int \<Rightarrow> duration \<Rightarrow> 'x \<Rightarrow> 'x) option"
  h_redis_getdel :: "(string \<Rightarrow> 'x \<Rightarrow> 'x) option"
  h_ai :: "(HintRequest \<Rightarrow> 'x \<Rightarrow> (ai_err + HintResponse) \<times> 'x) option"
  h_kc_admin :: "(string \<Rightarrow> string \<Rightarrow> 'x \<Rightarrow> kc_err option \<times> 'x) option"
  h_ec2_dial :: bool

record ('d, 'p, 'x) app =
  a_steps :: "'d stepStore"
  a_prov :: 'p
  a_events :: "Event list"
  a_ext :: 'x

text \<open>Calls on one part of the state.\<close>

definition on_prov :: "('p \<Rightarrow> 'r \<times> 'p) \<Rightarrow> ('d, 'p, 'x) app \<Rightarrow> 'r \<times> ('d, 'p, 'x) app" where
  "on_prov f a = (let (r, p) = f (a_prov a) in (r, a\<lparr>a_prov := p\<rparr>))"

definition on_steps :: "('d stepStore \<Rightarrow> 'r \<times> 'd stepStore) \<Rightarrow> ('d, 'p, 'x) app \<Rightarrow> 'r \<times> ('d, 'p, 'x) app" where
  "on_steps f a = (let (r, s) = f (a_steps a) in (r, a\<lparr>a_steps := s\<rparr>))"

definition on_db :: "('d \<Rightarrow> 'r \<times> 'd) \<Rightarrow> ('d, 'p, 'x) app \<Rightarrow> 'r \<times> ('d, 'p, 'x) app" where
  "on_db f a = (let (r, d) = f (st_d (a_steps a)) in (r, a\<lparr>a_steps := (a_steps a)\<lparr>st_d := d\<rparr>\<rparr>))"

definition on_ext :: "('x \<Rightarrow> 'r \<times> 'x) \<Rightarrow> ('d, 'p, 'x) app \<Rightarrow> 'r \<times> ('d, 'p, 'x) app" where
  "on_ext f a = (let (r, x) = f (a_ext a) in (r, a\<lparr>a_ext := x\<rparr>))"

lemmas on_defs = on_prov_def on_steps_def on_db_def on_ext_def

definition emit ::
  "('d, 'p, 'x) handler \<Rightarrow> go_time \<Rightarrow> Event \<Rightarrow> ('d, 'p, 'x) app \<Rightarrow> ('d, 'p, 'x) app" where
  "emit h now e a = a\<lparr>a_events := emitEvent (h_events h) now e (a_events a)\<rparr>"

definition drop_steps ::
  "('d, 'p, 'x) handler \<Rightarrow> string \<Rightarrow> ('d, 'p, 'x) app \<Rightarrow> ('d, 'p, 'x) app" where
  "drop_steps h sid a = a\<lparr>a_steps := remove_session (h_db h) sid (a_steps a)\<rparr>"

section \<open>Ownership\<close>

definition not_found :: resp where
  "not_found = err_resp 404 ''session not found''"

definition denyIfNotOwner :: "string \<Rightarrow> string \<Rightarrow> resp option" where
  "denyIfNotOwner uid ownerUID =
     (if uid \<noteq> [] \<and> ownerUID \<noteq> [] \<and> uid \<noteq> ownerUID then Some not_found else None)"

definition denyIfNotSessionOwner :: "string \<Rightarrow> Session \<Rightarrow> resp option" where
  "denyIfNotSessionOwner uid sess = denyIfNotOwner uid (s_UserID sess)"

definition denyIfNotStoreOwner ::
  "('d, 'p, 'x) handler \<Rightarrow> go_time \<Rightarrow> string \<Rightarrow> string \<Rightarrow> ('d, 'p, 'x) app \<Rightarrow>
   resp option \<times> ('d, 'p, 'x) app" where
  "denyIfNotStoreOwner h now uid sid a =
     (let (owner, a1) = on_steps (storeOwner (h_db h) now sid) a in
      (case owner of None \<Rightarrow> None | Some o' \<Rightarrow> denyIfNotOwner uid o', a1))"

definition step_ids :: "LabContent \<Rightarrow> int list" where
  "step_ids lc = map cs_ID (lc_steps lc)"

text \<open>\<open>None\<close> is the Go result \<open>true\<close>; \<open>Some r\<close> is \<open>false\<close> with the response written.\<close>

definition ensureStepSession ::
  "('d, 'p, 'x) handler \<Rightarrow> go_time \<Rightarrow> string \<Rightarrow> string \<Rightarrow> ('d, 'p, 'x) app \<Rightarrow>
   resp option \<times> ('d, 'p, 'x) app" where
  "ensureStepSession h now uid sid a =
     (let (owner, a1) = on_steps (storeOwner (h_db h) now sid) a in
      case owner of
        Some _ \<Rightarrow> (None, a1)
      | None \<Rightarrow>
          if h_db h \<noteq> None then (Some not_found, a1)
          else
            (case h_sessions h of
               None \<Rightarrow> (Some not_found, a1)
             | Some P \<Rightarrow>
                 (let (r, a2) = on_prov (pv_Get P now sid) a1 in
                  case r of
                    Inl e \<Rightarrow> (Some (if is_not_found e then not_found else err_resp 500 ''get session failed''), a2)
                  | Inr sess \<Rightarrow>
                      (case denyIfNotSessionOwner uid sess of
                         Some resp \<Rightarrow> (Some resp, a2)
                       | None \<Rightarrow>
                           (case h_labs h (s_LabID sess) of
                              None \<Rightarrow> (Some (err_resp 404 ''lab content not found''), a2)
                            | Some lab \<Rightarrow>
                                (let (e, a3) = on_steps (put (h_db h) now sid
                                       (init_session (s_LabID sess) (s_UserID sess) (step_ids lab))) a2
                                 in case e of
                                      Some _ \<Rightarrow> (Some (err_resp 500 ''initialize session progress failed''), a3)
                                    | None \<Rightarrow> (None, a3)))))))"

section \<open>Session responses\<close>

definition sessionResponse ::
  "('d, 'p, 'x) handler \<Rightarrow> go_time \<Rightarrow> Session \<Rightarrow> ('d, 'p, 'x) app \<Rightarrow> json \<times> ('d, 'p, 'x) app" where
  "sessionResponse h now s a =
     (let (cur, a1) = on_steps (withSession (h_db h) now (s_ID s) (\<lambda>ss. (ss_current_step ss, False, ss))) a;
          terminal =
            (case h_labs h (s_LabID s) of
               None \<Rightarrow> []
             | Some lc \<Rightarrow>
                 if HasLiveTerminal lc \<and> s_Status s = ''ready''
                    \<and> (s_Provider s \<noteq> ProviderEC2 \<or> (s_TailnetEnabled s \<and> h_ec2_dial h))
                 then (''terminal_url'', JStr (''/api/v1/sessions/'' @ s_ID s @ ''/ws''))
                      # (if lc_IDE lc then [(''ide_url'', JStr (''/api/v1/sessions/'' @ s_ID s @ ''/ide/''))] else [])
                 else [])
      in (JObj ([(''id'', JStr (s_ID s)), (''lab_id'', JStr (s_LabID s)), (''user_id'', JStr (s_UserID s)),
                 (''status'', JStr (s_Status s)), (''started_at'', JStr (render_rfc3339 (s_StartedAt s))),
                 (''expires_at'', JStr (render_rfc3339 (s_ExpiresAt s))), (''vm_provider'', JStr (s_Provider s))]
                @ (if s_ProvisioningStage s \<noteq> [] then [(''provisioning_stage'', JStr (s_ProvisioningStage s))] else [])
                @ [(''current_step'', JInt (case cur of None \<Rightarrow> 0 | Some k \<Rightarrow> k))]
                @ terminal), a1))"

section \<open>Creating a session\<close>

definition prepareSessionCreation ::
  "'p provider \<Rightarrow> go_time \<Rightarrow> string \<Rightarrow> 'p \<Rightarrow> (err + string \<times> string) \<times> 'p" where
  "prepareSessionCreation P now userID s =
     (let (r, s1) = pv_FindActiveByUser P userID s in
      case r of
        Inl e \<Rightarrow> (Inl e, s1)
      | Inr existing \<Rightarrow>
          if existing = [] then (Inr ([], []), s1)
          else
            (let (g, s2) = pv_Get P now existing s1 in
             case g of
               Inl e \<Rightarrow> if is_not_found e then (Inr ([], existing), s2) else (Inl e, s2)
             | Inr sess \<Rightarrow>
                 if s_Status sess \<noteq> ''failed'' then (Inr (existing, []), s2)
                 else
                   (let (d, s3) = pv_Delete P existing s2 in
                    case d of
                      Some e \<Rightarrow> if is_not_found e then (Inr ([], existing), s3) else (Inl e, s3)
                    | None \<Rightarrow> (Inr ([], existing), s3))))"

text \<open>
  The part under the lock that makes room for a new session: \<open>Some\<close> of the response that ends the
  request, or \<open>None\<close> to go on.
\<close>

definition make_room ::
  "('d, 'p, 'x) handler \<Rightarrow> 'p provider \<Rightarrow> go_time \<Rightarrow> string \<Rightarrow> ('d, 'p, 'x) app \<Rightarrow>
   resp option \<times> ('d, 'p, 'x) app" where
  "make_room h P now uid a =
     (let (r, a1) = on_prov (prepareSessionCreation P now uid) a in
      case r of
        Inl e \<Rightarrow> (Some (err_resp 500 ''check active session failed''), a1)
      | Inr (existing, cleaned) \<Rightarrow>
          (let a2 = (if cleaned \<noteq> [] then drop_steps h cleaned a1 else a1);
               (fin, a3) = (if existing \<noteq> [] then on_steps (completed (h_db h) now existing) a2 else (False, a2))
           in if existing \<noteq> [] \<and> fin then
                (let (d, a4) = on_prov (pv_Delete P existing) a3 in
                 case d of
                   Some e \<Rightarrow> if is_not_found e then (None, drop_steps h existing a4)
                             else (Some (err_resp 500 ''replace completed session failed''), a4)
                 | None \<Rightarrow> (None, drop_steps h existing a4))
              else if existing \<noteq> [] then
                (Some (Resp 409 (JObj [(''error'', JStr ''active session already exists''),
                   (''code'', JStr ''session_exists''), (''session_id'', JStr existing)])), a3)
              else (None, a3)))"

definition check_capacity ::
  "'p provider \<Rightarrow> ('d, 'p, 'x) app \<Rightarrow> resp option \<times> ('d, 'p, 'x) app" where
  "check_capacity P a =
     (if pv_Capacity P > 0 then
        (let (r, a1) = on_prov (pv_CountActiveSessions P) a in
         case r of
           Inl e \<Rightarrow> (Some (err_resp 500 ''check session capacity failed''), a1)
         | Inr active \<Rightarrow>
             if active \<ge> pv_Capacity P
             then (Some (code_resp 429 ''session capacity reached, try again later'' ''capacity_reached''), a1)
             else (None, a1))
      else (None, a))"

text \<open>The progress is stored before the provider is asked for the VM, and dropped if that fails.\<close>

definition provision ::
  "('d, 'p, 'x) handler \<Rightarrow> 'p provider \<Rightarrow> go_time \<Rightarrow> string \<Rightarrow> string \<Rightarrow> LabContent \<Rightarrow> string \<Rightarrow>
   ('d, 'p, 'x) app \<Rightarrow> resp \<times> ('d, 'p, 'x) app" where
  "provision h P now sid labID lc uid a =
     (let (e, a1) = on_steps (put (h_db h) now sid (init_session labID uid (step_ids lc))) a in
      case e of
        Some _ \<Rightarrow> (err_resp 500 ''initialize session progress failed'', a1)
      | None \<Rightarrow>
          (let (r, a2) = on_prov (pv_Create P now sid labID uid (lc_init lc)) a1 in
           case r of
             Inl e \<Rightarrow> (err_resp 500 ''create session failed'', drop_steps h sid a2)
           | Inr sess \<Rightarrow>
               (let a3 = emit h now ((mk_event LabStarted uid (s_ID sess) labID 0)
                                       \<lparr>ev_vm_provider := s_Provider sess\<rparr>) a2;
                    (body, a4) = sessionResponse h now sess a3
                in (Resp 201 body, a4))))"

definition create_checked ::
  "('d, 'p, 'x) handler \<Rightarrow> 'p provider \<Rightarrow> go_time \<Rightarrow> string \<Rightarrow> string \<Rightarrow> LabContent \<Rightarrow> string \<Rightarrow>
   ('d, 'p, 'x) app \<Rightarrow> resp \<times> ('d, 'p, 'x) app" where
  "create_checked h P now sid labID lc uid a =
     (let (r, a1) = check_capacity P a in
      case r of Some resp \<Rightarrow> (resp, a1) | None \<Rightarrow> provision h P now sid labID lc uid a1)"

definition create_locked ::
  "('d, 'p, 'x) handler \<Rightarrow> 'p provider \<Rightarrow> go_time \<Rightarrow> string \<Rightarrow> string \<Rightarrow> LabContent \<Rightarrow> string \<Rightarrow>
   ('d, 'p, 'x) app \<Rightarrow> resp \<times> ('d, 'p, 'x) app" where
  "create_locked h P now sid labID lc uid a =
     (let key = ''session-create:'' @ uid; (ok, a1) = on_ext (h_lock_acquire h key) a in
      if \<not> ok
      then (code_resp 409 ''session operation in progress, try again'' ''session_locked'', a1)
      else
        (let (r, a2) = make_room h P now uid a1;
             (resp, a3) = (case r of
                Some resp \<Rightarrow> (resp, a2)
              | None \<Rightarrow> create_checked h P now sid labID lc uid a2)
         in (resp, a3\<lparr>a_ext := h_lock_release h key (a_ext a3)\<rparr>)))"

definition CreateSession ::
  "('d, 'p, 'x) handler \<Rightarrow> go_time \<Rightarrow> string \<Rightarrow> string + string \<Rightarrow> string \<Rightarrow>
   ('d, 'p, 'x) app \<Rightarrow> resp \<times> ('d, 'p, 'x) app" where
  "CreateSession h now newSessionID req uid a =
     (case h_sessions h of
        None \<Rightarrow> (err_resp 503 ''kubevirt not configured'', a)
      | Some P \<Rightarrow>
          (case req of
             Inl m \<Rightarrow> (err_resp 400 m, a)
           | Inr labID \<Rightarrow>
               (case h_labs h labID of
                  None \<Rightarrow> (err_resp 404 ''lab content not found'', a)
                | Some lc \<Rightarrow>
                    (let (e, a1) = on_db (ensureLabEntitlement (h_db h) (h_mode h) now uid lc) a in
                     case e of
                       Some errSubscriptionRequired \<Rightarrow>
                         (Resp 402 (JObj [(''error'', JStr ''active subscription required''),
                            (''code'', JStr ''subscription_required''),
                            (''required_plan'', JStr requiredPaidPlanID)]), a1)
                     | Some (EntitlementOther m) \<Rightarrow> (err_resp 500 ''check lab entitlement failed'', a1)
                     | None \<Rightarrow>
                         if uid \<noteq> [] then create_locked h P now newSessionID labID lc uid a1
                         else create_checked h P now newSessionID labID lc uid a1))))"

section \<open>Reading and deleting\<close>

definition GetSession ::
  "('d, 'p, 'x) handler \<Rightarrow> go_time \<Rightarrow> string \<Rightarrow> string \<Rightarrow> ('d, 'p, 'x) app \<Rightarrow> resp \<times> ('d, 'p, 'x) app" where
  "GetSession h now sid uid a =
     (case h_sessions h of
        None \<Rightarrow> (err_resp 503 ''kubevirt not configured'', a)
      | Some P \<Rightarrow>
          (let (r, a1) = on_prov (pv_Get P now sid) a in
           case r of
             Inl e \<Rightarrow> (if is_not_found e then not_found else err_resp 500 ''get session failed'', a1)
           | Inr sess \<Rightarrow>
               (case denyIfNotSessionOwner uid sess of
                  Some resp \<Rightarrow> (resp, a1)
                | None \<Rightarrow> (let (body, a2) = sessionResponse h now sess a1 in (Resp 200 body, a2)))))"

text \<open>The event of a session that ends before all its steps passed.\<close>

definition abandon ::
  "('d, 'p, 'x) handler \<Rightarrow> go_time \<Rightarrow> string \<Rightarrow> ('d, 'p, 'x) app \<Rightarrow> ('d, 'p, 'x) app" where
  "abandon h now sid a =
     (let (taken, a1) = on_steps (take_session (h_db h) sid) a in
      case taken of
        None \<Rightarrow> a1
      | Some ss \<Rightarrow>
          if \<not> allPassed ss then emit h now (mk_event LabAbandoned (ss_user_id ss) sid (ss_lab_id ss) 0) a1
          else a1)"

definition DeleteSession ::
  "('d, 'p, 'x) handler \<Rightarrow> go_time \<Rightarrow> string \<Rightarrow> string \<Rightarrow> ('d, 'p, 'x) app \<Rightarrow> resp \<times> ('d, 'p, 'x) app" where
  "DeleteSession h now sid uid a =
     (case h_sessions h of
        None \<Rightarrow> (err_resp 503 ''kubevirt not configured'', a)
      | Some P \<Rightarrow>
          (let (r, a1) = on_prov (pv_Get P now sid) a in
           case r of
             Inl e \<Rightarrow> (if is_not_found e then not_found else err_resp 500 ''delete session failed'', a1)
           | Inr sess \<Rightarrow>
               (case denyIfNotSessionOwner uid sess of
                  Some resp \<Rightarrow> (resp, a1)
                | None \<Rightarrow>
                    (let (d, a2) = on_prov (pv_Delete P sid) a1 in
                     case d of
                       Some e \<Rightarrow> (if is_not_found e then not_found else err_resp 500 ''delete session failed'', a2)
                     | None \<Rightarrow> (Resp 204 JNull, abandon h now sid a2)))))"

definition TerminateUserSession ::
  "('d, 'p, 'x) handler \<Rightarrow> string \<Rightarrow> ('d, 'p, 'x) app \<Rightarrow> resp \<times> ('d, 'p, 'x) app" where
  "TerminateUserSession h uid a =
     (case h_sessions h of
        None \<Rightarrow> (err_resp 503 ''kubevirt not configured'', a)
      | Some P \<Rightarrow>
          (let (r, a1) = on_prov (pv_FindActiveByUser P uid) a in
           case r of
             Inl e \<Rightarrow> (err_resp 500 ''lookup session failed'', a1)
           | Inr sid \<Rightarrow>
               if sid = [] then (err_resp 404 ''no active session for user'', a1)
               else
                 (let (d, a2) = on_prov (pv_Delete P sid) a1 in
                  if (case d of Some e \<Rightarrow> \<not> is_not_found e | None \<Rightarrow> False)
                  then (err_resp 500 ''terminate session failed'', a2)
                  else (Resp 200 (JObj [(''user_id'', JStr uid), (''session_id'', JStr sid),
                          (''status'', JStr ''terminated'')]), drop_steps h sid a2))))"

section \<open>Background reapers\<close>

definition ReapStuckSessions ::
  "('d, 'p, 'x) handler \<Rightarrow> go_time \<Rightarrow> ('d, 'p, 'x) app \<Rightarrow> ('d, 'p, 'x) app" where
  "ReapStuckSessions h now a =
     (case h_sessions h of
        None \<Rightarrow> a
      | Some P \<Rightarrow>
          (let timeout = h_provision_timeout_min h * minute in
           if timeout \<le> 0 then a
           else
             (let ((reaped, e), a1) = on_prov (pv_ReapStuckSessions P now timeout) a in
              case e of
                Some _ \<Rightarrow> a1
              | None \<Rightarrow> fold (drop_steps h) reaped a1)))"

definition ReapExpiredSessions ::
  "('d, 'p, 'x) handler \<Rightarrow> go_time \<Rightarrow> ('d, 'p, 'x) app \<Rightarrow> ('d, 'p, 'x) app" where
  "ReapExpiredSessions h now a =
     (case h_sessions h of
        None \<Rightarrow> a
      | Some P \<Rightarrow>
          (let ((reaped, e), a1) = on_prov (pv_ReapExpiredSessions P now) a in
           case e of
             Some _ \<Rightarrow> a1
           | None \<Rightarrow> fold (abandon h now) reaped a1))"

section \<open>Progress of a new session\<close>

text \<open>A session id that the database has no progress for, in a consistent step store.\<close>

definition fresh_in ::
  "('d \<Rightarrow> string \<Rightarrow> SessionProgress option) \<Rightarrow> ('d \<Rightarrow> bool) \<Rightarrow> string \<Rightarrow> 'd stepStore \<Rightarrow> bool" where
  "fresh_in view ok sid st \<longleftrightarrow> store_inv view ok st \<and> view (st_d st) sid = None"

lemma a_steps_simps [simp]:
  "a_steps (snd (on_prov f a)) = a_steps a" "a_steps (snd (on_ext g a)) = a_steps a"
  "a_steps (emit h now e a) = a_steps a"
  by (simp_all add: on_defs emit_def split: prod.split)

lemma on_steps_snd: "snd (on_steps f a) = a\<lparr>a_steps := snd (f (a_steps a))\<rparr>"
  by (simp add: on_steps_def split: prod.split)

lemma on_prov_steps: "on_prov f a = (r, a') \<Longrightarrow> a_steps a' = a_steps a"
  by (auto simp: on_prov_def split: prod.splits)

context progress_persistence
begin

lemma read_frame:
  assumes "store_inv view ok st"
    and "withSession (Some P) now sid (\<lambda>ss. (g ss, False, ss)) st = (r, st')"
  shows "store_inv view ok st'" and "view (st_d st') = view (st_d st)"
proof -
  obtain x st1 where lm: "load_on_miss (Some P) sid st = (x, st1)"
    by (cases "load_on_miss (Some P) sid st")
  have okd: "ok (st_d st)" using assms(1) by (simp add: store_inv_def)
  have v: "view (st_d st1) = view (st_d st)"
    using lm load_frame [OF okd] by (auto simp: load_on_miss_def split: option.splits sum.splits prod.splits)
  have "st_d st' = st_d st1"
    using assms(2) lm by (auto simp: withSession_def lock_phase_def save_phase_def split: option.splits)
  with v show "view (st_d st') = view (st_d st)" by simp
  show "store_inv view ok st'"
  proof (cases r)
    case None
    then show ?thesis using withSession_missing(2) [OF assms(1)] assms(2) by blast
  next
    case (Some y)
    then show ?thesis using withSession_found [OF assms(1) read_well_behaved] assms(2) by metis
  qed
qed

lemma fresh_read:
  "fresh_in view ok sid st \<Longrightarrow> withSession (Some P) now sid' (\<lambda>ss. (g ss, False, ss)) st = (r, st') \<Longrightarrow>
   fresh_in view ok sid st'"
  using read_frame unfolding fresh_in_def by metis

lemma fresh_remove:
  assumes "fresh_in view ok sid st"
  shows "fresh_in view ok sid (remove_session (Some P) sid' st)"
proof -
  obtain r st' where t: "take_session (Some P) sid' st = (r, st')" by (cases "take_session (Some P) sid' st")
  have inv: "store_inv view ok st" using assms by (simp add: fresh_in_def)
  have okd: "ok (st_d st)" using inv by (simp add: store_inv_def)
  obtain y d1 where tl: "take_lookup P sid' st = (y, d1)" by (cases "take_lookup P sid' st")
  have d1: "ok d1" "view d1 = view (st_d st)" using take_lookup_spec [OF okd, of sid'] tl by simp_all
  obtain e d where del: "p_DeleteProgress P sid' d1 = (e, d)" by (cases "p_DeleteProgress P sid' d1")
  have "st_d st' = d" using t tl del by (auto simp: take_session_def)
  moreover have "view d sid = None"
    using delete_cases(2,3) [OF d1(1) del] d1(2) assms by (cases "sid = sid'") (auto simp: fresh_in_def)
  ultimately show ?thesis
    using take_spec(1) [OF inv t] t by (simp add: fresh_in_def remove_session_def)
qed

lemma fresh_completed:
  "fresh_in view ok sid st \<Longrightarrow> fresh_in view ok sid (snd (completed (Some P) now sid' st))"
  using fresh_read [of sid st now sid' allPassed]
  by (auto simp: completed_def split: prod.split)

lemma fresh_entitlement:
  assumes "fresh_in view ok sid (a_steps a)"
  shows "fresh_in view ok sid (a_steps (snd (on_db (ensureLabEntitlement (Some P) mode now uid lc) a)))"
proof -
  have okd: "ok (st_d (a_steps a))" using assms by (simp add: fresh_in_def store_inv_def)
  have "ok d' \<and> view d' = view (st_d (a_steps a))"
    if "ensureLabEntitlement (Some P) mode now uid lc (st_d (a_steps a)) = (e, d')" for e d'
    using that okd subscription_frame [OF okd, of uid]
    by (auto simp: ensureLabEntitlement_def split: prod.splits if_splits)
  then show ?thesis
    using assms by (auto simp: on_db_def fresh_in_def store_inv_def split: prod.split)
qed

lemma fresh_make_room:
  assumes "h_db h = Some P" and "fresh_in view ok sid (a_steps a)"
  shows "fresh_in view ok sid (a_steps (snd (make_room h Q now uid a)))"
proof -
  obtain r a1 where r: "on_prov (prepareSessionCreation Q now uid) a = (r, a1)"
    by (cases "on_prov (prepareSessionCreation Q now uid) a")
  have f1: "fresh_in view ok sid (a_steps a1)" using assms(2) on_prov_steps [OF r] by simp
  have f2: "fresh_in view ok sid (a_steps (if c \<noteq> [] then drop_steps h c a1 else a1))" for c
    using f1 fresh_remove assms(1) by (simp add: drop_steps_def)
  have f3: "fresh_in view ok sid (a_steps (snd (on_steps (completed (h_db h) now x) b)))"
    if "fresh_in view ok sid (a_steps b)" for x b
    using fresh_completed [OF that] assms(1) by (simp add: on_steps_snd)
  have f4: "fresh_in view ok sid (a_steps (drop_steps h x b))" if "fresh_in view ok sid (a_steps b)" for x b
    using fresh_remove [OF that] assms(1) by (simp add: drop_steps_def)
  show ?thesis
  proof (cases r)
    case (Inl e)
    then show ?thesis using r f1 by (simp add: make_room_def)
  next
    case (Inr x)
    obtain ex cl where x: "x = (ex, cl)" by (cases x)
    define a2 where "a2 = (if cl \<noteq> [] then drop_steps h cl a1 else a1)"
    obtain fin a3 where c: "(if ex \<noteq> [] then on_steps (completed (h_db h) now ex) a2 else (False, a2)) = (fin, a3)"
      by (metis prod.exhaust)
    have g3: "fresh_in view ok sid (a_steps a3)"
      using f3 [of a2 ex] f2 [of cl] c by (auto simp: a2_def split: if_splits)
    obtain d a4 where d: "on_prov (pv_Delete Q ex) a3 = (d, a4)" by (cases "on_prov (pv_Delete Q ex) a3")
    have g4: "fresh_in view ok sid (a_steps a4)" using g3 on_prov_steps [OF d] by simp
    have "snd (make_room h Q now uid a) \<in> {a3, a4, drop_steps h ex a4}"
      unfolding make_room_def r Inr x by (simp add: a2_def [symmetric] c d split: option.split)
    then show ?thesis using g3 g4 f4 [OF g4, of ex] by auto
  qed
qed

end

end
