(* ===== verification/Learning.thy ===== *)
theory Learning
  imports App
begin

text \<open>
  The leaderboard (\<open>src/apps/api/internal/api/handlers/leaderboard.go\<close>) and the learner's
  dashboard (\<open>dashboard.go\<close>).

  \<open>rankEntries\<close> collects its entries in a Go map and sorts them with \<open>sort.Slice\<close>, which is not
  stable: the order of entries that compare equal is not determined. The argument \<open>perm\<close> stands for
  it: some rearrangement of the entries, of which the stable sort is taken.
\<close>

section \<open>Ranking\<close>

definition difficultyWeight :: "string \<rightharpoonup> int" where
  "difficultyWeight = map_of [(''beginner'', 10), (''intermediate'', 25), (''advanced'', 50)]"

definition weightForLab :: "(string \<rightharpoonup> LabContent) \<Rightarrow> string \<Rightarrow> int" where
  "weightForLab labs labID =
     (case labs labID of
        None \<Rightarrow> 0
      | Some lc \<Rightarrow> (case difficultyWeight (lc_difficulty lc) of None \<Rightarrow> 10 | Some w \<Rightarrow> w))"

record leaderboardEntry =
  le_user_id :: string
  le_name :: string
  le_score :: int
  le_labs_completed :: int
  le_last_completed :: go_time
  le_rank :: int

definition bump :: "(string \<Rightarrow> int) \<Rightarrow> LeaderboardRow \<Rightarrow> leaderboardEntry \<Rightarrow> leaderboardEntry" where
  "bump weight r e =
     e\<lparr>le_score := le_score e + weight (lr_lab_id r), le_labs_completed := le_labs_completed e + 1,
       le_last_completed := (if lr_completed_at r > le_last_completed e then lr_completed_at r else le_last_completed e)\<rparr>"

definition new_entry :: "LeaderboardRow \<Rightarrow> leaderboardEntry" where
  "new_entry r = \<lparr>le_user_id = lr_user_id r, le_name = lr_name r, le_score = 0, le_labs_completed = 0,
     le_last_completed = zero_time, le_rank = 0\<rparr>"

definition aggregate :: "(string \<Rightarrow> int) \<Rightarrow> LeaderboardRow list \<Rightarrow> leaderboardEntry list" where
  "aggregate weight rows =
     foldl (\<lambda>es r. row_upsert le_user_id (bump weight r (new_entry r)) (bump weight r) es) [] rows"

definition entry_key :: "leaderboardEntry \<Rightarrow> int \<times> go_time" where
  "entry_key e = (- le_score e, le_last_completed e)"

fun number_from :: "int \<Rightarrow> leaderboardEntry list \<Rightarrow> leaderboardEntry list" where
  "number_from i [] = []"
| "number_from i (e # es) = e\<lparr>le_rank := i\<rparr> # number_from (i + 1) es"

definition rankEntries ::
  "(leaderboardEntry list \<Rightarrow> leaderboardEntry list) \<Rightarrow> LeaderboardRow list \<Rightarrow> (string \<Rightarrow> int) \<Rightarrow> leaderboardEntry list" where
  "rankEntries perm rows weight = number_from 1 (sort_key entry_key (perm (aggregate weight rows)))"

section \<open>The leaderboard\<close>

definition leaderboardTopN :: nat where
  "leaderboardTopN = 10"

definition recentWindow :: duration where
  "recentWindow = 7 * 24 * hour"

definition item_json :: "leaderboardEntry \<Rightarrow> json" where
  "item_json e = JObj [(''rank'', JInt (le_rank e)), (''name'', JStr (le_name e)), (''score'', JInt (le_score e)),
     (''labs_completed'', JInt (le_labs_completed e))]"

definition toItems :: "leaderboardEntry list \<Rightarrow> nat \<Rightarrow> json" where
  "toItems entries n = JArr (map item_json (if length entries > n then take n entries else entries))"

record myRank =
  mr_rank :: int
  mr_score :: int
  mr_labs_completed :: int
  mr_leaderboard_hidden :: bool

definition myRank_json :: "myRank \<Rightarrow> json" where
  "myRank_json m = JObj [(''rank'', JInt (mr_rank m)), (''score'', JInt (mr_score m)),
     (''labs_completed'', JInt (mr_labs_completed m)), (''leaderboard_hidden'', JBool (mr_leaderboard_hidden m))]"

fun find_entry :: "string \<Rightarrow> leaderboardEntry list \<Rightarrow> leaderboardEntry option" where
  "find_entry uid [] = None"
| "find_entry uid (e # es) = (if le_user_id e = uid then Some e else find_entry uid es)"

definition completions_score :: "(string \<rightharpoonup> LabContent) \<Rightarrow> Completion list \<Rightarrow> int" where
  "completions_score labs cs = foldl (\<lambda>s c. s + weightForLab labs (c_lab_id c)) 0 cs"

definition userScore ::
  "('d, 'p, 'x) handler \<Rightarrow> string \<Rightarrow> ('d, 'p, 'x) app \<Rightarrow> (int \<times> int) \<times> ('d, 'p, 'x) app" where
  "userScore h uid a =
     (case h_db h of
        None \<Rightarrow> ((0, 0), a)
      | Some P \<Rightarrow>
          if uid = [] then ((0, 0), a)
          else
            (let (r, a1) = on_db (p_ListCompletionsByUser P uid) a in
             (case r of
                Inl _ \<Rightarrow> (0, 0)
              | Inr cs \<Rightarrow> (completions_score (h_labs h) cs, int (length cs)), a1)))"

text \<open>The caller's own standing, also outside the top entries; without an entry the rank is 0.\<close>

definition my_standing ::
  "('d, 'p, 'x) handler \<Rightarrow> string \<Rightarrow> bool \<Rightarrow> leaderboardEntry list \<Rightarrow> ('d, 'p, 'x) app \<Rightarrow> myRank \<times> ('d, 'p, 'x) app" where
  "my_standing h uid hidden ranked a =
     (let me = (case find_entry uid ranked of
                  None \<Rightarrow> \<lparr>mr_rank = 0, mr_score = 0, mr_labs_completed = 0, mr_leaderboard_hidden = hidden\<rparr>
                | Some e \<Rightarrow> \<lparr>mr_rank = le_rank e, mr_score = le_score e,
                             mr_labs_completed = le_labs_completed e, mr_leaderboard_hidden = hidden\<rparr>)
      in if mr_rank me = 0
         then (let ((score, count), a1) = userScore h uid a
               in (me\<lparr>mr_score := score, mr_labs_completed := count\<rparr>, a1))
         else (me, a))"

definition GetLeaderboard ::
  "('d, 'p, 'x) handler \<Rightarrow> go_time \<Rightarrow> (leaderboardEntry list \<Rightarrow> leaderboardEntry list) \<Rightarrow>
   (leaderboardEntry list \<Rightarrow> leaderboardEntry list) \<Rightarrow> string \<Rightarrow> ('d, 'p, 'x) app \<Rightarrow> resp \<times> ('d, 'p, 'x) app" where
  "GetLeaderboard h now perm perm' uid a =
     (case h_db h of
        None \<Rightarrow> (err_resp 503 ''leaderboard store not configured'', a)
      | Some P \<Rightarrow>
     (let (r1, a1) = on_db (p_LeaderboardHidden P uid) a in
      case r1 of
        Inl _ \<Rightarrow> (err_resp 500 ''load leaderboard failed'', a1)
      | Inr hidden \<Rightarrow>
     (let (r2, a2) = on_db (p_LeaderboardRows P None) a1 in
      case r2 of
        Inl _ \<Rightarrow> (err_resp 500 ''load leaderboard failed'', a2)
      | Inr allRows \<Rightarrow>
     (let ranked = rankEntries perm allRows (weightForLab (h_labs h));
          (r3, a3) = on_db (p_LeaderboardRows P (Some (now - recentWindow))) a2 in
      case r3 of
        Inl _ \<Rightarrow> (err_resp 500 ''load leaderboard failed'', a3)
      | Inr recentRows \<Rightarrow>
          (let recent = rankEntries perm' recentRows (weightForLab (h_labs h));
               (me, a4) = my_standing h uid hidden ranked a3
           in (Resp 200 (JObj [(''hall_of_fame'', toItems ranked leaderboardTopN),
                (''recent_risers'', toItems recent leaderboardTopN), (''me'', myRank_json me)]), a4))))))"

definition completion_json :: "Completion \<Rightarrow> json" where
  "completion_json c = JObj [(''lab_id'', JStr (c_lab_id c)), (''session_id'', JStr (c_session_id c)),
     (''completed_at'', JTime (c_completed_at c))]"

text \<open>Counters by difficulty: the three known ones, and those the labs add; printed in key order.\<close>

definition count_difficulties :: "(string \<rightharpoonup> LabContent) \<Rightarrow> Completion list \<Rightarrow> (string \<times> int) list" where
  "count_difficulties labs cs =
     foldl (\<lambda>m c. case labs (c_lab_id c) of
                    None \<Rightarrow> m
                  | Some lc \<Rightarrow> row_upsert fst (lc_difficulty lc, 1) (\<lambda>(d, n). (d, n + 1)) m)
       [(''beginner'', 0), (''intermediate'', 0), (''advanced'', 0)] cs"

definition recent_completions :: "Completion list \<Rightarrow> json" where
  "recent_completions cs =
     JArr (map completion_json (if length cs > leaderboardTopN then take leaderboardTopN cs else cs))"

definition userRank ::
  "('d, 'p, 'x) handler \<Rightarrow> 'd persistence \<Rightarrow> (leaderboardEntry list \<Rightarrow> leaderboardEntry list) \<Rightarrow> string \<Rightarrow>
   ('d, 'p, 'x) app \<Rightarrow> int \<times> ('d, 'p, 'x) app" where
  "userRank h P perm uid a =
     (let (r, a1) = on_db (p_LeaderboardRows P None) a in
      (case r of
         Inl _ \<Rightarrow> 0
       | Inr rows \<Rightarrow>
           (case find_entry uid (rankEntries perm rows (weightForLab (h_labs h))) of
              None \<Rightarrow> 0 | Some e \<Rightarrow> le_rank e), a1))"

definition GetMyProgress ::
  "('d, 'p, 'x) handler \<Rightarrow> (leaderboardEntry list \<Rightarrow> leaderboardEntry list) \<Rightarrow> string \<Rightarrow>
   ('d, 'p, 'x) app \<Rightarrow> resp \<times> ('d, 'p, 'x) app" where
  "GetMyProgress h perm uid a =
     (case h_db h of
        None \<Rightarrow> (err_resp 503 ''leaderboard store not configured'', a)
      | Some P \<Rightarrow>
     (let (r1, a1) = on_db (p_ListCompletionsByUser P uid) a in
      case r1 of
        Inl _ \<Rightarrow> (err_resp 500 ''load progress failed'', a1)
      | Inr cs \<Rightarrow>
          (let (rank, a2) = userRank h P perm uid a1
           in (Resp 200 (JObj [(''score'', JInt (completions_score (h_labs h) cs)), (''rank'', JInt rank),
                (''labs_completed'', JInt (int (length cs))),
                (''by_difficulty'', JObj (map (\<lambda>(d, n). (d, JInt n)) (sort_key fst (count_difficulties (h_labs h) cs)))),
                (''recent_completions'', recent_completions cs)]), a2))))"

definition SetMyPreferences ::
  "('d, 'p, 'x) handler \<Rightarrow> go_time \<Rightarrow> string + bool \<Rightarrow> string \<Rightarrow> ('d, 'p, 'x) app \<Rightarrow> resp \<times> ('d, 'p, 'x) app" where
  "SetMyPreferences h now req uid a =
     (case h_db h of
        None \<Rightarrow> (err_resp 503 ''leaderboard store not configured'', a)
      | Some P \<Rightarrow>
          (case req of
             Inl _ \<Rightarrow> (err_resp 400 ''leaderboard_hidden is required'', a)
           | Inr hidden \<Rightarrow>
               (let (e, a1) = on_db (p_SetLeaderboardHidden P now uid hidden) a in
                (case e of
                   Some _ \<Rightarrow> err_resp 500 ''update preferences failed''
                 | None \<Rightarrow> Resp 200 (JObj [(''leaderboard_hidden'', JBool hidden)]), a1))))"

section \<open>The dashboard\<close>

record difficultyProgress =
  dp_done :: int
  dp_total :: int

record dashboardSummary =
  ds_score :: int
  ds_rank :: int
  ds_labs_completed :: int
  ds_total_labs :: int
  ds_completion_pct :: int
  ds_by_difficulty :: "(string \<times> difficultyProgress) list"

record dashboardLab =
  dl_lab_id :: string
  dl_title :: string
  dl_difficulty :: string
  dl_status :: string
  dl_session_id :: string
  dl_completed_at :: "go_time option"

definition dashboard_row ::
  "(string \<rightharpoonup> go_time) \<Rightarrow> (string \<rightharpoonup> string) \<Rightarrow> string \<Rightarrow> LabContent \<Rightarrow> dashboardLab" where
  "dashboard_row completedAt started labID lc =
     (let row = \<lparr>dl_lab_id = labID, dl_title = lc_title lc, dl_difficulty = lc_difficulty lc,
                 dl_status = ''not_started'', dl_session_id = [], dl_completed_at = None\<rparr> in
      case completedAt labID of
        Some ts \<Rightarrow> row\<lparr>dl_status := ''completed'', dl_completed_at := Some ts\<rparr>
      | None \<Rightarrow>
          (case started labID of
             Some sid \<Rightarrow> row\<lparr>dl_status := ''in_progress'', dl_session_id := sid\<rparr>
           | None \<Rightarrow> row))"

definition count_row :: "(string \<times> difficultyProgress) list \<Rightarrow> dashboardLab \<Rightarrow> (string \<times> difficultyProgress) list" where
  "count_row byDiff row =
     (let fin = (if dl_status row = ''completed'' then 1 else 0) in
      row_upsert fst (dl_difficulty row, \<lparr>dp_done = fin, dp_total = 1\<rparr>)
        (\<lambda>(d, p). (d, p\<lparr>dp_done := dp_done p + fin, dp_total := dp_total p + 1\<rparr>)) byDiff)"

definition completion_pct :: "int \<Rightarrow> int \<Rightarrow> int" where
  "completion_pct n total_labs =
     (if total_labs > 0 then (let pct = n * 100 div total_labs in if pct > 100 then 100 else pct) else 0)"

definition map_from :: "('r \<Rightarrow> string) \<Rightarrow> ('r \<Rightarrow> 'v) \<Rightarrow> 'r list \<Rightarrow> string \<rightharpoonup> 'v" where
  "map_from k v rows = foldl (\<lambda>m r. m(k r \<mapsto> v r)) Map.empty rows"

definition buildDashboard ::
  "(string \<rightharpoonup> LabContent) \<Rightarrow> string list \<Rightarrow> Completion list \<Rightarrow> InProgressLab list \<Rightarrow>
   dashboardSummary \<times> dashboardLab list" where
  "buildDashboard labs order cs inProgress =
     (let completedAt = map_from c_lab_id c_completed_at cs;
          started = map_from ip_lab_id ip_session_id inProgress;
          ids = sort order;
          rows = map (\<lambda>i. dashboard_row completedAt started i (the (labs i))) ids;
          zero = \<lparr>dp_done = 0, dp_total = 0\<rparr>
      in (\<lparr>ds_score = 0, ds_rank = 0, ds_labs_completed = int (length cs), ds_total_labs = int (length ids),
           ds_completion_pct = completion_pct (int (length cs)) (int (length ids)),
           ds_by_difficulty = foldl count_row [(''beginner'', zero), (''intermediate'', zero), (''advanced'', zero)] rows\<rparr>,
          rows))"

definition summary_json :: "dashboardSummary \<Rightarrow> json" where
  "summary_json s =
     JObj [(''score'', JInt (ds_score s)), (''rank'', JInt (ds_rank s)),
       (''labs_completed'', JInt (ds_labs_completed s)), (''total_labs'', JInt (ds_total_labs s)),
       (''completion_pct'', JInt (ds_completion_pct s)),
       (''by_difficulty'', JObj (map (\<lambda>(d, p). (d, JObj [(''done'', JInt (dp_done p)), (''total'', JInt (dp_total p))]))
          (sort_key fst (ds_by_difficulty s))))]"

definition dashboard_lab_json :: "dashboardLab \<Rightarrow> json" where
  "dashboard_lab_json l =
     JObj ([(''lab_id'', JStr (dl_lab_id l)), (''title'', JStr (dl_title l)), (''difficulty'', JStr (dl_difficulty l)),
            (''status'', JStr (dl_status l))]
           @ (if dl_session_id l \<noteq> [] then [(''session_id'', JStr (dl_session_id l))] else [])
           @ [(''completed_at'', case dl_completed_at l of None \<Rightarrow> JNull | Some t \<Rightarrow> JTime t)])"

definition GetMyDashboard ::
  "('d, 'p, 'x) handler \<Rightarrow> string list \<Rightarrow> (leaderboardEntry list \<Rightarrow> leaderboardEntry list) \<Rightarrow> string \<Rightarrow>
   ('d, 'p, 'x) app \<Rightarrow> resp \<times> ('d, 'p, 'x) app" where
  "GetMyDashboard h order perm uid a =
     (case h_db h of
        None \<Rightarrow> (err_resp 503 ''dashboard store not configured'', a)
      | Some P \<Rightarrow>
     (let (r1, a1) = on_db (p_ListCompletionsByUser P uid) a in
      case r1 of
        Inl _ \<Rightarrow> (err_resp 500 ''load dashboard failed'', a1)
      | Inr cs \<Rightarrow>
     (let (r2, a2) = on_db (p_ListInProgressLabsByUser P uid) a1;
          inProgress = (case r2 of Inl _ \<Rightarrow> [] | Inr x \<Rightarrow> x);
          (summary, rows) = buildDashboard (h_labs h) order cs inProgress;
          (rank, a3) = userRank h P perm uid a2;
          summary' = summary\<lparr>ds_score := completions_score (h_labs h) cs, ds_rank := rank\<rparr>;
          (r4, a4) = on_db (p_LeaderboardHidden P uid) a3
      in case r4 of
           Inl _ \<Rightarrow> (err_resp 500 ''load dashboard failed'', a4)
         | Inr hidden \<Rightarrow>
             (Resp 200 (JObj [(''summary'', summary_json summary'), (''labs'', JArr (map dashboard_lab_json rows)),
                (''recent_completions'', recent_completions cs), (''leaderboard_hidden'', JBool hidden)]), a4))))"

text \<open>
  The labs in progress that the catalogue shows: with a session provider only the one whose VM is
  alive, has not expired and belongs to the active session. \<open>None\<close> is an error of the provider.
\<close>

definition live_progress ::
  "('d, 'p, 'x) handler \<Rightarrow> go_time \<Rightarrow> string \<Rightarrow> InProgressLab list \<Rightarrow> ('d, 'p, 'x) app \<Rightarrow>
   InProgressLab list option \<times> ('d, 'p, 'x) app" where
  "live_progress h now uid inProgress a =
     (case h_sessions h of
        None \<Rightarrow> (Some inProgress, a)
      | Some Q \<Rightarrow>
          if length inProgress = 0 then (Some inProgress, a)
          else
            (let (r, a1) = on_prov (pv_FindActiveByUser Q uid) a in
             case r of
               Inl _ \<Rightarrow> (None, a1)
             | Inr active \<Rightarrow>
                 if active = [] then (Some [], a1)
                 else
                   (let (g, a2) = on_prov (pv_Get Q now active) a1 in
                    case g of
                      Inl e \<Rightarrow> if is_not_found e then (Some [], a2) else (None, a2)
                    | Inr s \<Rightarrow>
                        if s_ExpiresAt s > now \<and> (s_Status s = ''provisioning'' \<or> s_Status s = ''ready'')
                        then (Some (filter (\<lambda>p. ip_session_id p = active) inProgress), a2)
                        else (Some [], a2))))"

record labStatus =
  ls_lab_id :: string
  ls_status :: string
  ls_session_id :: string

definition lab_statuses ::
  "(string \<rightharpoonup> LabContent) \<Rightarrow> string list \<Rightarrow> Completion list \<Rightarrow> InProgressLab list \<Rightarrow> labStatus list" where
  "lab_statuses labs order cs inProgress =
     (let completedSessionByLab = map_from c_lab_id c_session_id cs;
          activeProgress = filter (\<lambda>p. \<not> ip_all_passed p \<or> completedSessionByLab (ip_lab_id p) = None) inProgress;
          rows = snd (buildDashboard labs order cs activeProgress);
          activeSessionByLab = map_from ip_lab_id ip_session_id activeProgress
      in map (\<lambda>row.
           (let status = \<lparr>ls_lab_id = dl_lab_id row, ls_status = dl_status row, ls_session_id = dl_session_id row\<rparr> in
            case activeSessionByLab (dl_lab_id row) of
              Some sid \<Rightarrow>
                if (case completedSessionByLab (dl_lab_id row) of None \<Rightarrow> [] | Some s \<Rightarrow> s) \<noteq> sid
                then status\<lparr>ls_status := ''in_progress'', ls_session_id := sid\<rparr> else status
            | None \<Rightarrow> status)) rows)"

definition status_json :: "labStatus \<Rightarrow> json" where
  "status_json s =
     JObj ([(''lab_id'', JStr (ls_lab_id s)), (''status'', JStr (ls_status s))]
           @ (if ls_session_id s \<noteq> [] then [(''session_id'', JStr (ls_session_id s))] else []))"

definition GetMyLabStatuses ::
  "('d, 'p, 'x) handler \<Rightarrow> go_time \<Rightarrow> string list \<Rightarrow> string \<Rightarrow> ('d, 'p, 'x) app \<Rightarrow> resp \<times> ('d, 'p, 'x) app" where
  "GetMyLabStatuses h now order uid a =
     (case h_db h of
        None \<Rightarrow> (err_resp 503 ''dashboard store not configured'', a)
      | Some P \<Rightarrow>
     (let (r1, a1) = on_db (p_ListCompletionsByUser P uid) a in
      case r1 of
        Inl _ \<Rightarrow> (err_resp 500 ''load lab statuses failed'', a1)
      | Inr cs \<Rightarrow>
     (let (r2, a2) = on_db (p_ListInProgressLabsByUser P uid) a1 in
      case r2 of
        Inl _ \<Rightarrow> (err_resp 500 ''load lab statuses failed'', a2)
      | Inr inProgress \<Rightarrow>
     (let (live, a3) = live_progress h now uid inProgress a2 in
      case live of
        None \<Rightarrow> (err_resp 500 ''load lab statuses failed'', a3)
      | Some progress \<Rightarrow>
          (let rows = lab_statuses (h_labs h) order cs progress
           in (Resp 200 (JObj [(''items'', JArr (map status_json rows)), (''total'', JInt (int (length rows)))]), a3))))))"

section \<open>What the ranking computes\<close>

lemma le_user_id_bump [simp]: "le_user_id (bump w r e) = le_user_id e"
  by (simp add: bump_def)

lemma le_user_id_new [simp]: "le_user_id (new_entry r) = lr_user_id r"
  by (simp add: new_entry_def)

lemma aggregate_snoc:
  "aggregate w (rows @ [r]) = row_upsert le_user_id (bump w r (new_entry r)) (bump w r) (aggregate w rows)"
  by (simp add: aggregate_def)

lemma aggregate_keyed: "keyed le_user_id (aggregate w rows)"
proof (induction rows rule: rev_induct)
  case Nil
  show ?case by (simp add: aggregate_def)
next
  case (snoc r rows)
  then show ?case by (simp add: aggregate_snoc keyed_row_upsert)
qed

lemma aggregate_find:
  "row_find le_user_id u (aggregate w rows) =
     (case filter (\<lambda>r. lr_user_id r = u) rows of
        [] \<Rightarrow> None
      | r # rs \<Rightarrow> Some (foldl (\<lambda>e r. bump w r e) (new_entry r) (r # rs)))"
proof (induction rows rule: rev_induct)
  case Nil
  show ?case by (simp add: aggregate_def)
next
  case (snoc r rows)
  then show ?case
    by (cases "filter (\<lambda>r. lr_user_id r = u) rows") (auto simp: aggregate_snoc row_find_upsert)
qed

lemma foldl_bump:
  "le_score (foldl (\<lambda>e r. bump w r e) e rs) = le_score e + (\<Sum>r\<leftarrow>rs. w (lr_lab_id r))"
  "le_labs_completed (foldl (\<lambda>e r. bump w r e) e rs) = le_labs_completed e + int (length rs)"
  "le_last_completed (foldl (\<lambda>e r. bump w r e) e rs) = foldl max (le_last_completed e) (map lr_completed_at rs)"
  by (induction rs arbitrary: e) (auto simp: bump_def max_def)

text \<open>The entry of a user is determined by the rows of that user.\<close>

definition entry_of :: "(string \<Rightarrow> int) \<Rightarrow> LeaderboardRow list \<Rightarrow> leaderboardEntry \<Rightarrow> bool" where
  "entry_of w rows e \<longleftrightarrow>
     (let own = filter (\<lambda>r. lr_user_id r = le_user_id e) rows in
      own \<noteq> [] \<and> le_score e = (\<Sum>r\<leftarrow>own. w (lr_lab_id r)) \<and> le_labs_completed e = int (length own)
      \<and> le_last_completed e = foldl max zero_time (map lr_completed_at own))"

lemma aggregate_entry:
  assumes "e \<in> set (aggregate w rows)"
  shows "entry_of w rows e"
proof -
  let ?own = "filter (\<lambda>r. lr_user_id r = le_user_id e) rows"
  have "row_find le_user_id (le_user_id e) (aggregate w rows) = Some e"
    using row_find_keyed [OF aggregate_keyed assms] .
  then obtain r rs where own: "?own = r # rs" and e: "e = foldl (\<lambda>e r. bump w r e) (new_entry r) ?own"
    by (auto simp: aggregate_find split: list.splits)
  have "le_score e = (\<Sum>r\<leftarrow>?own. w (lr_lab_id r))" "le_labs_completed e = int (length ?own)"
    "le_last_completed e = foldl max zero_time (map lr_completed_at ?own)"
    by (subst e, simp add: foldl_bump new_entry_def)+
  with own show ?thesis by (simp add: entry_of_def)
qed

lemma aggregate_users: "le_user_id ` set (aggregate w rows) = lr_user_id ` set rows"
proof (rule set_eqI)
  fix u
  have "u \<in> le_user_id ` set (aggregate w rows) \<longleftrightarrow> row_find le_user_id u (aggregate w rows) \<noteq> None"
    by (simp add: row_find_None)
  also have "\<dots> \<longleftrightarrow> filter (\<lambda>r. lr_user_id r = u) rows \<noteq> []"
    by (simp add: aggregate_find split: list.split)
  also have "\<dots> \<longleftrightarrow> u \<in> lr_user_id ` set rows"
    by (auto simp: filter_empty_conv)
  finally show "u \<in> le_user_id ` set (aggregate w rows) \<longleftrightarrow> u \<in> lr_user_id ` set rows" .
qed

lemma number_from_facts [simp]:
  "length (number_from i es) = length es"
  "map le_user_id (number_from i es) = map le_user_id es"
  "map entry_key (number_from i es) = map entry_key es"
  "map le_rank (number_from i es) = map (\<lambda>k. i + int k) [0..<length es]"
proof (induction i es rule: number_from.induct)
  case (2 i e es)
  { case 4 show ?case using 2(4) by (simp add: upt_conv_Cons map_Suc_upt [symmetric] del: upt_Suc) }
qed (simp_all add: entry_key_def)

lemma number_from_set: "e \<in> set (number_from i es) \<Longrightarrow> \<exists>e'\<in>set es. \<exists>k. e = e'\<lparr>le_rank := k\<rparr>"
  by (induction i es rule: number_from.induct) auto

lemma rankEntries_facts:
  assumes "\<And>xs. mset (perm xs) = mset xs"
  shows "mset (map le_user_id (rankEntries perm rows w)) = mset (map le_user_id (aggregate w rows))"
    and "sorted (map entry_key (rankEntries perm rows w))"
    and "e \<in> set (rankEntries perm rows w) \<Longrightarrow> entry_of w rows e"
proof -
  let ?s = "sort_key entry_key (perm (aggregate w rows))"
  have m: "mset ?s = mset (aggregate w rows)" using assms by simp
  then show "mset (map le_user_id (rankEntries perm rows w)) = mset (map le_user_id (aggregate w rows))"
    by (simp add: rankEntries_def)
  show "sorted (map entry_key (rankEntries perm rows w))"
    by (simp add: rankEntries_def)
  assume "e \<in> set (rankEntries perm rows w)"
  then obtain e' k where e': "e' \<in> set ?s" and e: "e = e'\<lparr>le_rank := k\<rparr>"
    using number_from_set [of e 1 ?s] by (auto simp: rankEntries_def)
  from e' have "e' \<in> set (aggregate w rows)" using m by (metis set_mset_mset)
  then show "entry_of w rows e" unfolding e using aggregate_entry by (simp add: entry_of_def)
qed

lemma rankEntries_users:
  assumes "\<And>xs. mset (perm xs) = mset xs"
  shows "le_user_id ` set (rankEntries perm rows w) = lr_user_id ` set rows"
    and "distinct (map le_user_id (rankEntries perm rows w))"
  using rankEntries_facts(1) [OF assms, of rows w] aggregate_users [of w rows] aggregate_keyed [of w rows]
  by (metis list.set_map set_mset_mset, metis keyed_def mset_eq_imp_distinct_iff)

text \<open>
  The leaderboard is right whatever order the map and the sort give to equal entries: it has
  one entry for every user with a completion, whose score is the sum of the weights of that user's
  completed labs and whose count is their number; scores never increase down the list and, among
  equal scores, the earlier last completion comes first; the ranks are 1, 2, ... without gaps.
\<close>

theorem leaderboard_ranking_correct:
  assumes "\<And>xs. mset (perm xs) = mset xs"
  shows "let out = rankEntries perm rows w;
             own = (\<lambda>e. filter (\<lambda>r. lr_user_id r = le_user_id e) rows) in
      le_user_id ` set out = lr_user_id ` set rows \<and> distinct (map le_user_id out)
    \<and> (\<forall>e\<in>set out. le_score e = (\<Sum>r\<leftarrow>own e. w (lr_lab_id r)) \<and> le_labs_completed e = int (length (own e)))
    \<and> (\<forall>i j. i < j \<longrightarrow> j < length out \<longrightarrow>
          le_score (out ! i) > le_score (out ! j)
          \<or> le_score (out ! i) = le_score (out ! j) \<and> le_last_completed (out ! i) \<le> le_last_completed (out ! j))
    \<and> (\<forall>i < length out. le_rank (out ! i) = int i + 1)"
proof -
  let ?out = "rankEntries perm rows w"
  have order: "le_score (?out ! i) > le_score (?out ! j)
      \<or> le_score (?out ! i) = le_score (?out ! j) \<and> le_last_completed (?out ! i) \<le> le_last_completed (?out ! j)"
    if "i < j" "j < length ?out" for i j
    using sorted_nth_mono [OF rankEntries_facts(2) [OF assms], of i j rows w] that
    by (auto simp: entry_key_def less_eq_prod_def)
  have rank: "le_rank (?out ! i) = int i + 1" if "i < length ?out" for i
  proof -
    have "map le_rank ?out = map (\<lambda>k. 1 + int k) [0..<length ?out]" by (simp add: rankEntries_def)
    then have "map le_rank ?out ! i = 1 + int i" using that by (simp only: nth_map length_upt) simp
    with that show ?thesis by simp
  qed
  show ?thesis
    using rankEntries_users [OF assms] rankEntries_facts(3) [OF assms] order rank
    by (simp add: Let_def entry_of_def)
qed

definition demo_rows :: "LeaderboardRow list" where
  "demo_rows =
     [\<lparr>lr_user_id = ''u1'', lr_name = ''A'', lr_lab_id = ''l1'', lr_completed_at = 5\<rparr>,
      \<lparr>lr_user_id = ''u2'', lr_name = ''B'', lr_lab_id = ''l2'', lr_completed_at = 7\<rparr>,
      \<lparr>lr_user_id = ''u1'', lr_name = ''A'', lr_lab_id = ''l2'', lr_completed_at = 9\<rparr>]"

theorem leaderboard_ranking_correct_witness:
  "let out = rankEntries rev demo_rows (\<lambda>l. if l = ''l1'' then 10 else 25) in
      le_user_id ` set out = lr_user_id ` set demo_rows \<and> distinct (map le_user_id out)
      \<and> map (\<lambda>e. (le_user_id e, le_score e, le_rank e)) out = [(''u1'', 35, 1), (''u2'', 25, 2)]"
proof -
  have run: "map (\<lambda>e. (le_user_id e, le_score e, le_rank e))
      (rankEntries rev demo_rows (\<lambda>l. if l = ''l1'' then 10 else 25)) = [(''u1'', 35, 1), (''u2'', 25, 2)]"
    by code_simp
  show ?thesis
    using leaderboard_ranking_correct [of rev demo_rows "\<lambda>l. if l = ''l1'' then 10 else 25"] run
    by (simp only: Let_def mset_rev)
qed

section \<open>The leaderboard and the tables\<close>

lemma find_entry_None: "find_entry uid es = None \<longleftrightarrow> uid \<notin> le_user_id ` set es"
  by (induction es) auto

lemma find_entry_Some: "find_entry uid es = Some e \<Longrightarrow> e \<in> set es \<and> le_user_id e = uid"
  by (induction es) (auto split: if_splits)

lemma LeaderboardRows_Inr: "LeaderboardRows f since t = Inr rows \<Longrightarrow> rows = leaderboard_join since t"
  by (cases f) (auto simp: LeaderboardRows_def split: if_splits)

lemma sum_list_mset_eq: "mset xs = mset ys \<Longrightarrow> sum_list (map f xs) = (sum_list (map f ys) :: int)"
  by (metis mset_map sum_mset_sum_list)

lemma completions_score_sum: "completions_score labs cs = (\<Sum>c\<leftarrow>cs. weightForLab labs (c_lab_id c))"
proof -
  have "foldl (\<lambda>s c. s + weightForLab labs (c_lab_id c)) n cs = n + (\<Sum>c\<leftarrow>cs. weightForLab labs (c_lab_id c))" for n
    by (induction cs arbitrary: n) auto
  then show ?thesis by (simp add: completions_score_def)
qed

abbreviation own_completions :: "string \<Rightarrow> tables \<Rightarrow> completion_row list" where
  "own_completions uid t \<equiv> filter (\<lambda>r. c_user_id r = uid) (lab_completions t)"

lemma ListCompletionsByUser_Inr:
  assumes "ListCompletionsByUser f uid t = Inr cs"
  shows "length cs = length (own_completions uid t)"
    and "completions_score labs cs = (\<Sum>r\<leftarrow>own_completions uid t. weightForLab labs (c_lab_id r))"
proof -
  let ?own = "own_completions uid t" and ?srt = "sort_key (\<lambda>r. - c_completed_at r) (own_completions uid t)"
  have cs: "cs = map Completion.truncate ?srt"
    using assms by (cases f) (auto simp: ListCompletionsByUser_def split: if_splits)
  then show "length cs = length ?own" by simp
  have "(\<Sum>c\<leftarrow>cs. weightForLab labs (c_lab_id c)) = (\<Sum>r\<leftarrow>?srt. weightForLab labs (c_lab_id r))"
    by (simp add: cs comp_def Completion.defs)
  also have "\<dots> = (\<Sum>r\<leftarrow>?own. weightForLab labs (c_lab_id r))"
    by (rule sum_list_mset_eq) simp
  finally show "completions_score labs cs = (\<Sum>r\<leftarrow>?own. weightForLab labs (c_lab_id r))"
    by (simp add: completions_score_sum)
qed

lemma keyed_filter_one:
  assumes "keyed key xs" and "x \<in> set xs"
  shows "filter (\<lambda>y. key y = key x \<and> Q y) xs = (if Q x then [x] else [])"
proof -
  have "filter (\<lambda>y. key y = key x \<and> Q y) xs = filter Q (filter (\<lambda>y. key x = key y) xs)"
    by (auto intro: filter_cong)
  also have "filter (\<lambda>y. key x = key y) xs = [x]"
    using filter_key_singleton [of key xs x] assms by (simp add: keyed_def)
  finally show ?thesis by simp
qed

text \<open>The rows of a user in the join: one per completion, none when the user is hidden.\<close>

lemma own_join:
  assumes "keyed u_id (users t)" and "u \<in> set (users t)"
  shows "filter (\<lambda>r. lr_user_id r = u_id u) (leaderboard_join None t) =
    (if u_leaderboard_hidden u then []
     else map (\<lambda>c. \<lparr>lr_user_id = c_user_id c, lr_name = u_name u, lr_lab_id = c_lab_id c,
            lr_completed_at = c_completed_at c\<rparr>) (own_completions (u_id u) t))"
proof -
  let ?J = "\<lambda>cs. concat (map (\<lambda>c. map (\<lambda>u. \<lparr>lr_user_id = c_user_id c, lr_name = u_name u, lr_lab_id = c_lab_id c,
      lr_completed_at = c_completed_at c\<rparr>) (filter (\<lambda>u. u_id u = c_user_id c \<and> \<not> u_leaderboard_hidden u) (users t))) cs)"
  have "filter (\<lambda>r. lr_user_id r = u_id u) (?J cs) = (if u_leaderboard_hidden u then []
     else map (\<lambda>c. \<lparr>lr_user_id = c_user_id c, lr_name = u_name u, lr_lab_id = c_lab_id c,
            lr_completed_at = c_completed_at c\<rparr>) (filter (\<lambda>r. c_user_id r = u_id u) cs))" for cs :: "completion_row list"
  proof (induction cs)
    case (Cons c cs)
    then show ?case
      using keyed_filter_one [OF assms, of "\<lambda>u. \<not> u_leaderboard_hidden u"]
      by (cases "c_user_id c = u_id u") (simp_all add: filter_map comp_def)
  qed simp
  then show ?thesis by (simp add: leaderboard_join_def)
qed

lemma joined_user:
  "r \<in> set (leaderboard_join since t) \<Longrightarrow>
   \<exists>u\<in>set (users t). u_id u = lr_user_id r \<and> \<not> u_leaderboard_hidden u"
  by (auto simp: leaderboard_join_def)

text \<open>The position of an entry in a sorted list lies between the number of those before it and of those not after it.\<close>

lemma sorted_position:
  assumes "sorted (map key xs)" "i < length xs"
  shows "length (filter (\<lambda>x. key x < key (xs ! i)) xs) \<le> i" and "i < length (filter (\<lambda>x. key x \<le> key (xs ! i)) xs)"
proof -
  have mono: "key (xs ! j) \<le> key (xs ! k)" if "j \<le> k" "k < length xs" for j k
    using sorted_nth_mono [OF assms(1), of j k] that by simp
  have "{j. j < length xs \<and> key (xs ! j) < key (xs ! i)} \<subseteq> {..<i}"
    using mono [of i] by (auto simp: not_less [symmetric] leD)
  from card_mono [OF _ this] show "length (filter (\<lambda>x. key x < key (xs ! i)) xs) \<le> i"
    by (simp add: length_filter_conv_card)
  have "{..i} \<subseteq> {j. j < length xs \<and> key (xs ! j) \<le> key (xs ! i)}" using mono assms(2) by auto
  from card_mono [OF _ this] show "i < length (filter (\<lambda>x. key x \<le> key (xs ! i)) xs)"
    by (simp add: length_filter_conv_card)
qed

lemma number_from_nth: "j < length es \<Longrightarrow> number_from i es ! j = (es ! j)\<lparr>le_rank := i + int j\<rparr>"
  by (induction i es arbitrary: j rule: number_from.induct) (auto simp: nth_Cons split: nat.split)

lemma find_entry_nth:
  "distinct (map le_user_id es) \<Longrightarrow> j < length es \<Longrightarrow> find_entry (le_user_id (es ! j)) es = Some (es ! j)"
proof (induction es arbitrary: j)
  case (Cons e es)
  then show ?case by (cases j) auto
qed simp

lemma same_length_filter: "mset xs = mset ys \<Longrightarrow> length (filter Q xs) = length (filter Q ys)"
  by (metis mset_filter size_mset)

definition ahead :: "leaderboardEntry list \<Rightarrow> leaderboardEntry \<Rightarrow> int" where
  "ahead es e = int (length (filter (\<lambda>x. entry_key x < entry_key e) es))"

definition not_behind :: "leaderboardEntry list \<Rightarrow> leaderboardEntry \<Rightarrow> int" where
  "not_behind es e = int (length (filter (\<lambda>x. entry_key x \<le> entry_key e) es))"

lemma rank_position:
  assumes "\<And>xs. mset (perm xs) = mset xs" and "find_entry uid (aggregate w rows) = Some e"
  shows "\<exists>r. find_entry uid (rankEntries perm rows w) = Some (e\<lparr>le_rank := r\<rparr>)
    \<and> ahead (aggregate w rows) e < r \<and> r \<le> not_behind (aggregate w rows) e"
proof -
  let ?es = "aggregate w rows" and ?s = "sort_key entry_key (perm (aggregate w rows))"
  have m: "mset ?s = mset ?es" using assms(1) by simp
  have e: "e \<in> set ?es" "le_user_id e = uid" using find_entry_Some [OF assms(2)] by simp_all
  then have "e \<in> set ?s" using mset_eq_setD [OF m] by simp
  then obtain i where i: "i < length ?s" "?s ! i = e" by (auto simp only: in_set_conv_nth)
  have d: "distinct (map le_user_id (number_from 1 ?s))"
    using rankEntries_users(2) [OF assms(1), of rows w] by (simp add: rankEntries_def)
  have n: "number_from 1 ?s ! i = e\<lparr>le_rank := 1 + int i\<rparr>" using number_from_nth [OF i(1)] i(2) by simp
  have "find_entry uid (rankEntries perm rows w) = Some (e\<lparr>le_rank := 1 + int i\<rparr>)"
    using find_entry_nth [OF d, of i] i(1) n e(2) by (simp add: rankEntries_def)
  moreover have "length (filter (\<lambda>x. entry_key x < entry_key e) ?es) \<le> i" "i < length (filter (\<lambda>x. entry_key x \<le> entry_key e) ?es)"
    using sorted_position [of entry_key ?s i] i same_length_filter [OF m] by simp_all
  ultimately show ?thesis by (intro exI [of _ "1 + int i"]) (simp add: ahead_def not_behind_def)
qed

lemma not_ranked:
  assumes "\<And>xs. mset (perm xs) = mset xs" and "find_entry uid (aggregate w rows) = None"
  shows "find_entry uid (rankEntries perm rows w) = None"
  using assms by (simp add: find_entry_None rankEntries_users(1) [OF assms(1)] aggregate_users)

lemma one_position:
  assumes "e \<in> set es" "distinct es" "\<forall>x\<in>set es. entry_key x = entry_key e \<longrightarrow> x = e"
  shows "not_behind es e = ahead es e + 1"
proof -
  have split: "length (filter (\<lambda>x. entry_key x \<le> entry_key e) xs)
      = length (filter (\<lambda>x. entry_key x < entry_key e) xs) + length (filter (\<lambda>x. entry_key x = entry_key e) xs)" for xs
    by (induction xs) auto
  have "filter (\<lambda>x. entry_key x = entry_key e) es = filter (\<lambda>x. e = x) es"
    using assms(1,3) by (intro filter_cong) auto
  also have "\<dots> = [e]" using filter_key_singleton [of "\<lambda>x. x" es e] assms(1,2) by simp
  finally show ?thesis using split [of es] by (simp add: ahead_def not_behind_def)
qed

definition board_tables :: tables where
  "board_tables = empty_tables\<lparr>
     users := [\<lparr>u_id = ''u1'', u_email = ''a@x'', u_name = ''A'', u_role = ''student'', u_created_at = 1,
       u_last_login_at = 1, u_leaderboard_hidden = False\<rparr>],
     lab_completions := [\<lparr>c_lab_id = ''l1'', c_session_id = ''s1'', c_completed_at = 5, c_user_id = ''u1''\<rparr>]\<rparr>"

definition board_labs :: "string \<rightharpoonup> LabContent" where
  "board_labs = [''l1'' \<mapsto> demo_lab\<lparr>lc_difficulty := ''intermediate''\<rparr>]"

lemma board_tables_ok [simp]: "tables_ok board_tables"
  by (simp add: board_tables_def empty_tables_def tables_ok_def keyed_def)

lemma on_db_writes:
  assumes "on_db (writes fs op) a = (r, a')"
  obtains t where "op (fs (calls (st_d (a_steps a)))) (tbls (st_d (a_steps a))) = (r, t)"
    and "tbls (st_d (a_steps a')) = t"
  using assms by (auto simp: on_db_def writes_def split: prod.splits)

lemma on_db_reads:
  assumes "on_db (reads fs op) a = (r, a')"
  shows "r = op (fs (calls (st_d (a_steps a)))) (tbls (st_d (a_steps a)))"
    and "tbls (st_d (a_steps a')) = tbls (st_d (a_steps a))"
  using assms by (auto simp: on_db_def reads_def)

lemma sp_leaderboard [simp]:
  "p_LeaderboardRows (store_persistence fs) since = reads fs (\<lambda>f. LeaderboardRows f since)"
  "p_LeaderboardHidden (store_persistence fs) uid = reads fs (\<lambda>f. LeaderboardHidden f uid)"
  "p_SetLeaderboardHidden (store_persistence fs) now uid h = writes fs (\<lambda>f. SetLeaderboardHidden f now uid h)"
  by (simp_all add: store_persistence_def)

lemma hidden_after_opt_out:
  assumes "SetLeaderboardHidden f now uid True t = (None, t')"
  shows "\<exists>u. row_find u_id uid (users t') = Some u \<and> u_leaderboard_hidden u"
proof -
  have "t' = t\<lparr>users := row_upsert u_id ((new_user now uid)\<lparr>u_leaderboard_hidden := True\<rparr>)
      (\<lambda>r. r\<lparr>u_leaderboard_hidden := True\<rparr>) (users t)\<rparr>"
    using assms by (cases f) (auto simp: SetLeaderboardHidden_def split: if_splits)
  then show ?thesis
    by (simp add: row_find_upsert new_user_def split: option.split)
qed

lemma hidden_not_joined:
  assumes "row_find u_id uid (users t) = Some u" and "u_leaderboard_hidden u" and "keyed u_id (users t)"
  shows "uid \<notin> lr_user_id ` set (leaderboard_join since t)"
proof
  assume "uid \<in> lr_user_id ` set (leaderboard_join since t)"
  then obtain u' where "u' \<in> set (users t)" "u_id u' = uid" "\<not> u_leaderboard_hidden u'"
    using joined_user by blast
  then show False using row_find_keyed [OF assms(3)] assms(1,2) by fastforce
qed

lemma opt_out_effect:
  assumes "h_db h = Some (store_persistence fs)" and "db_ok (st_d (a_steps a))"
    and "SetMyPreferences h now (Inr True) uid a = (Resp 200 b, a1)"
  shows "db_ok (st_d (a_steps a1))"
    and "\<exists>u. row_find u_id uid (users (tbls (st_d (a_steps a1)))) = Some u \<and> u_leaderboard_hidden u"
proof -
  obtain e a' where run: "on_db (p_SetLeaderboardHidden (store_persistence fs) now uid True) a = (e, a')"
    by fastforce
  with assms(1,3) have e: "e = None" and a1: "a1 = a'"
    by (auto simp: SetMyPreferences_def err_resp_def split: option.splits)
  from run e obtain t where t: "SetLeaderboardHidden (fs (calls (st_d (a_steps a)))) now uid True (tbls (st_d (a_steps a))) = (None, t)"
    and at: "tbls (st_d (a_steps a')) = t"
    by (auto elim: on_db_writes)
  show "db_ok (st_d (a_steps a1))"
    using SetLeaderboardHidden_ok [of _ "fs (calls (st_d (a_steps a)))" now uid True] assms(2) t at a1
    by (metis db_ok_def snd_conv)
  show "\<exists>u. row_find u_id uid (users (tbls (st_d (a_steps a1)))) = Some u \<and> u_leaderboard_hidden u"
    using hidden_after_opt_out [OF t] at a1 by simp
qed

text \<open>What the two handlers read, with the fault of each query, and what they answer.\<close>

definition read_score :: "(string \<rightharpoonup> LabContent) \<Rightarrow> fault \<Rightarrow> string \<Rightarrow> tables \<Rightarrow> int \<times> int" where
  "read_score labs f uid t =
     (if uid = [] then (0, 0)
      else case ListCompletionsByUser f uid t of
             Inl _ \<Rightarrow> (0, 0)
           | Inr cs \<Rightarrow> (completions_score labs cs, int (length cs)))"

definition standing ::
  "(string \<rightharpoonup> LabContent) \<Rightarrow> fault \<Rightarrow> string \<Rightarrow> bool \<Rightarrow> leaderboardEntry list \<Rightarrow> tables \<Rightarrow> myRank" where
  "standing labs f uid hidden ranked t =
     (let me = (case find_entry uid ranked of
                  None \<Rightarrow> \<lparr>mr_rank = 0, mr_score = 0, mr_labs_completed = 0, mr_leaderboard_hidden = hidden\<rparr>
                | Some e \<Rightarrow> \<lparr>mr_rank = le_rank e, mr_score = le_score e,
                             mr_labs_completed = le_labs_completed e, mr_leaderboard_hidden = hidden\<rparr>)
      in if mr_rank me = 0
         then me\<lparr>mr_score := fst (read_score labs f uid t), mr_labs_completed := snd (read_score labs f uid t)\<rparr>
         else me)"

definition board_of ::
  "(string \<rightharpoonup> LabContent) \<Rightarrow> (nat \<Rightarrow> fault) \<Rightarrow> go_time \<Rightarrow> (leaderboardEntry list \<Rightarrow> leaderboardEntry list) \<Rightarrow>
   (leaderboardEntry list \<Rightarrow> leaderboardEntry list) \<Rightarrow> string \<Rightarrow> tables \<Rightarrow> resp" where
  "board_of labs fs now perm perm' uid t =
     (case (LeaderboardHidden (fs 0) uid t, LeaderboardRows (fs 1) None t, LeaderboardRows (fs 2) (Some (now - recentWindow)) t) of
        (Inr hidden, Inr rows, Inr recentRows) \<Rightarrow>
          (let ranked = rankEntries perm rows (weightForLab labs)
           in Resp 200 (JObj [(''hall_of_fame'', toItems ranked leaderboardTopN),
                (''recent_risers'', toItems (rankEntries perm' recentRows (weightForLab labs)) leaderboardTopN),
                (''me'', myRank_json (standing labs (fs 3) uid hidden ranked t))]))
      | _ \<Rightarrow> err_resp 500 ''load leaderboard failed'')"

abbreviation db_tables :: "(db, 'p, 'x) app \<Rightarrow> tables" where
  "db_tables a \<equiv> tbls (st_d (a_steps a))"

lemma my_standing_reads:
  assumes "h_db h = Some (store_persistence fs)"
  shows "fst (my_standing h uid hidden ranked a) = standing (h_labs h) (fs (calls (st_d (a_steps a)))) uid hidden ranked (db_tables a)"
  using assms
  by (simp add: my_standing_def standing_def userScore_def read_score_def on_db_def store_persistence_def reads_def Let_def
      split: option.split sum.split)

lemma GetLeaderboard_reads:
  assumes "h_db h = Some (store_persistence fs)"
  shows "fst (GetLeaderboard h now perm perm' uid a)
    = board_of (h_labs h) (\<lambda>n. fs (calls (st_d (a_steps a)) + n)) now perm perm' uid (db_tables a)"
  using assms my_standing_reads [OF assms]
  by (simp add: GetLeaderboard_def board_of_def on_db_def reads_def Let_def numeral_2_eq_2 numeral_3_eq_3 split_beta
      split: sum.split)

lemma GetMyProgress_reads:
  assumes "h_db h = Some (store_persistence (\<lambda>_. Healthy))" and "ListCompletionsByUser Healthy uid (db_tables a) = Inr cs"
  shows "\<exists>rest. fst (GetMyProgress h perm uid a) = Resp 200 (JObj ([(''score'', JInt (completions_score (h_labs h) cs)),
      (''rank'', JInt (case find_entry uid (rankEntries perm (leaderboard_join None (db_tables a)) (weightForLab (h_labs h))) of
          None \<Rightarrow> 0 | Some e \<Rightarrow> le_rank e)),
      (''labs_completed'', JInt (int (length cs)))] @ rest))"
  using assms
  by (auto simp: GetMyProgress_def userRank_def on_db_def reads_def store_persistence_def LeaderboardRows_def Let_def)

text \<open>The entry of a user in the ranking is what the completions of that user give.\<close>

lemma entry_agrees:
  assumes "tables_ok t" and "ListCompletionsByUser f uid t = Inr cs"
    and "find_entry uid (aggregate (weightForLab labs) (leaderboard_join None t)) = Some e"
  shows "le_score e = completions_score labs cs \<and> le_labs_completed e = int (length cs)"
proof -
  have keyed: "keyed u_id (users t)" using assms(1) by (simp add: tables_ok_def)
  note cs = ListCompletionsByUser_Inr [OF assms(2)]
  let ?rows = "leaderboard_join None t"
  have e: "e \<in> set (aggregate (weightForLab labs) ?rows)" "le_user_id e = uid" using find_entry_Some [OF assms(3)] by simp_all
  then have "uid \<in> lr_user_id ` set ?rows" using aggregate_users [of "weightForLab labs" ?rows] by blast
  then obtain u where u: "u \<in> set (users t)" "u_id u = uid" "\<not> u_leaderboard_hidden u" using joined_user by blast
  have "entry_of (weightForLab labs) ?rows e" using aggregate_entry [OF e(1)] .
  then show ?thesis
    using own_join [OF keyed u(1)] u(2,3) e(2) cs by (simp add: entry_of_def Let_def comp_def)
qed

lemma no_entry:
  assumes "tables_ok t" and "find_entry uid (aggregate w (leaderboard_join None t)) = None"
  shows "own_completions uid t = [] \<or> \<not> (\<exists>u\<in>set (users t). u_id u = uid \<and> \<not> u_leaderboard_hidden u)"
proof -
  have keyed: "keyed u_id (users t)" using assms(1) by (simp add: tables_ok_def)
  have "filter (\<lambda>r. lr_user_id r = uid) (leaderboard_join None t) = []"
    using assms(2) by (auto simp: find_entry_None aggregate_users filter_empty_conv)
  then have "own_completions uid t = []" if "u \<in> set (users t)" "u_id u = uid" "\<not> u_leaderboard_hidden u" for u
    using own_join [OF keyed that(1)] that by simp
  then show ?thesis by blast
qed

text \<open>
  C34. The leaderboard and the progress page tell a learner the same. On a healthy database both always answer,
  with the same score and the same number of labs, the sums over the learner's completions. A learner without a
  completion or without a visible row has rank 0 on both. Everyone else has on both a rank that is greater than the number of
  learners strictly ahead (more points, or as many and finished earlier) and at most the number of those not behind; so both ranks are the
  same unless another learner has the same points and the same last completion, whose order \<open>sort.Slice\<close> leaves open.
\<close>

theorem leaderboard_agrees_with_progress:
  assumes "h_db h = Some (store_persistence (\<lambda>_. Healthy))" and "db_ok (st_d (a_steps a))" and "uid \<noteq> []"
    and perm: "\<And>xs. mset (perm xs) = mset xs" "\<And>xs. mset (perm2 xs) = mset xs"
    and same: "db_tables b = db_tables a"
  shows "\<exists>items recents me rank rest.
      fst (GetLeaderboard h now perm perm' uid a)
        = Resp 200 (JObj [(''hall_of_fame'', items), (''recent_risers'', recents), (''me'', myRank_json me)])
    \<and> fst (GetMyProgress h perm2 uid b)
        = Resp 200 (JObj ([(''score'', JInt (mr_score me)), (''rank'', JInt rank), (''labs_completed'', JInt (mr_labs_completed me))] @ rest))
    \<and> mr_score me = (\<Sum>c\<leftarrow>own_completions uid (db_tables a). weightForLab (h_labs h) (c_lab_id c))
    \<and> mr_labs_completed me = int (length (own_completions uid (db_tables a)))
    \<and> (let es = aggregate (weightForLab (h_labs h)) (leaderboard_join None (db_tables a)) in
        case find_entry uid es of
          None \<Rightarrow> mr_rank me = 0 \<and> rank = 0 \<and> (own_completions uid (db_tables a) = []
            \<or> \<not> (\<exists>u\<in>set (users (db_tables a)). u_id u = uid \<and> \<not> u_leaderboard_hidden u))
        | Some e \<Rightarrow> ahead es e < mr_rank me \<and> mr_rank me \<le> not_behind es e \<and> ahead es e < rank \<and> rank \<le> not_behind es e
            \<and> ((\<forall>x\<in>set es. entry_key x = entry_key e \<longrightarrow> x = e) \<longrightarrow> mr_rank me = rank))"
proof -
  let ?t = "db_tables a" and ?w = "weightForLab (h_labs h)"
  let ?rows = "leaderboard_join None ?t"
  let ?es = "aggregate ?w ?rows"
  have ok: "tables_ok ?t" using assms(2) by (simp add: db_ok_def)
  obtain cs where cs: "ListCompletionsByUser Healthy uid ?t = Inr cs" by (simp add: ListCompletionsByUser_def)
  note sums = ListCompletionsByUser_Inr [OF cs]
  obtain hidden recent where q: "LeaderboardHidden Healthy uid ?t = Inr hidden" "LeaderboardRows Healthy None ?t = Inr ?rows"
    "LeaderboardRows Healthy (Some (now - recentWindow)) ?t = Inr recent"
    by (simp add: LeaderboardHidden_def LeaderboardRows_def)
  define me where "me = standing (h_labs h) Healthy uid hidden (rankEntries perm ?rows ?w) ?t"
  define rank where "rank = (case find_entry uid (rankEntries perm2 ?rows ?w) of None \<Rightarrow> 0 | Some e \<Rightarrow> le_rank e)"
  have board: "\<exists>items recents. fst (GetLeaderboard h now perm perm' uid a)
      = Resp 200 (JObj [(''hall_of_fame'', items), (''recent_risers'', recents), (''me'', myRank_json me)])"
    by (simp add: GetLeaderboard_reads [OF assms(1)] board_of_def q me_def Let_def)
  have read: "read_score (h_labs h) Healthy uid ?t = (completions_score (h_labs h) cs, int (length cs))"
    using assms(3) by (simp add: read_score_def cs)
  have mine: "mr_score me = completions_score (h_labs h) cs \<and> mr_labs_completed me = int (length cs)
      \<and> (case find_entry uid ?es of
          None \<Rightarrow> mr_rank me = 0 \<and> rank = 0
        | Some e \<Rightarrow> ahead ?es e < mr_rank me \<and> mr_rank me \<le> not_behind ?es e \<and> ahead ?es e < rank \<and> rank \<le> not_behind ?es e
            \<and> ((\<forall>x\<in>set ?es. entry_key x = entry_key e \<longrightarrow> x = e) \<longrightarrow> mr_rank me = rank))"
  proof (cases "find_entry uid ?es")
    case None
    then show ?thesis
      using not_ranked [OF perm(1) None] not_ranked [OF perm(2) None] by (simp add: me_def rank_def standing_def read)
  next
    case (Some e)
    obtain r where r: "find_entry uid (rankEntries perm ?rows ?w) = Some (e\<lparr>le_rank := r\<rparr>)" "ahead ?es e < r" "r \<le> not_behind ?es e"
      using rank_position [OF perm(1) Some] by blast
    obtain r' where r': "find_entry uid (rankEntries perm2 ?rows ?w) = Some (e\<lparr>le_rank := r'\<rparr>)" "ahead ?es e < r'" "r' \<le> not_behind ?es e"
      using rank_position [OF perm(2) Some] by blast
    have "r > 0" using r(2) by (simp add: ahead_def)
    then have me: "me = \<lparr>mr_rank = r, mr_score = le_score e, mr_labs_completed = le_labs_completed e, mr_leaderboard_hidden = hidden\<rparr>"
      by (simp add: me_def standing_def r(1))
    have "distinct ?es" using aggregate_keyed [of ?w ?rows] by (simp add: keyed_def distinct_map)
    then have "r = r'" if "\<forall>x\<in>set ?es. entry_key x = entry_key e \<longrightarrow> x = e"
      using one_position [OF conjunct1 [OF find_entry_Some [OF Some]] _ that] r(2,3) r'(2,3) by simp
    then show ?thesis
      using Some me r r' entry_agrees [OF ok cs Some] by (simp add: rank_def)
  qed
  obtain rest where "fst (GetMyProgress h perm2 uid b) = Resp 200 (JObj ([(''score'', JInt (mr_score me)),
      (''rank'', JInt rank), (''labs_completed'', JInt (mr_labs_completed me))] @ rest))"
    using GetMyProgress_reads [OF assms(1), of uid b cs perm2] mine cs same by (auto simp: rank_def)
  moreover obtain items recents where "fst (GetLeaderboard h now perm perm' uid a)
      = Resp 200 (JObj [(''hall_of_fame'', items), (''recent_risers'', recents), (''me'', myRank_json me)])" using board by blast
  moreover have "mr_score me = (\<Sum>c\<leftarrow>own_completions uid ?t. ?w (c_lab_id c))" "mr_labs_completed me = int (length (own_completions uid ?t))"
    using mine sums by simp_all
  moreover have "case find_entry uid ?es of
          None \<Rightarrow> mr_rank me = 0 \<and> rank = 0 \<and> (own_completions uid ?t = []
            \<or> \<not> (\<exists>u\<in>set (users ?t). u_id u = uid \<and> \<not> u_leaderboard_hidden u))
        | Some e \<Rightarrow> ahead ?es e < mr_rank me \<and> mr_rank me \<le> not_behind ?es e \<and> ahead ?es e < rank \<and> rank \<le> not_behind ?es e
            \<and> ((\<forall>x\<in>set ?es. entry_key x = entry_key e \<longrightarrow> x = e) \<longrightarrow> mr_rank me = rank)"
    using mine no_entry [OF ok, of uid ?w] by (cases "find_entry uid ?es") auto
  ultimately show ?thesis unfolding Let_def by blast
qed

definition board_handler :: "(db, unit, unit) handler" where
  "board_handler = \<lparr>h_mode = None, h_provision_timeout_min = 10, h_labs = board_labs, h_sessions = None,
     h_db = Some (store_persistence (\<lambda>_. Healthy)), h_events = False,
     h_lock_acquire = (\<lambda>_ x. (True, x)), h_lock_release = (\<lambda>_ x. x), h_validator = None,
     h_redis_set = None, h_redis_getdel = None, h_ai = None, h_kc_admin = None, h_ec2_dial = False\<rparr>"

definition board_app :: "(db, unit, unit) app" where
  "board_app = \<lparr>a_steps = \<lparr>st_m = Map.empty, st_d = \<lparr>tbls = board_tables, calls = 0\<rparr>\<rparr>, a_prov = (), a_events = [], a_ext = ()\<rparr>"

lemma board_app_ok: "h_db board_handler = Some (store_persistence (\<lambda>_. Healthy))" "db_ok (st_d (a_steps board_app))"
  by (simp_all add: board_handler_def board_app_def db_ok_def)

theorem leaderboard_agrees_with_progress_witness:
  "\<exists>items recents me rest.
      fst (GetLeaderboard board_handler 10 rev rev ''u1'' board_app)
        = Resp 200 (JObj [(''hall_of_fame'', items), (''recent_risers'', recents), (''me'', myRank_json me)])
    \<and> fst (GetMyProgress board_handler rev ''u1'' board_app)
        = Resp 200 (JObj ([(''score'', JInt 25), (''rank'', JInt 1), (''labs_completed'', JInt 1)] @ rest))
    \<and> mr_rank me = 1 \<and> mr_score me = 25"
proof -
  let ?es = "aggregate (weightForLab board_labs) (leaderboard_join None board_tables)"
  let ?e = "\<lparr>le_user_id = ''u1'', le_name = ''A'', le_score = 25, le_labs_completed = 1, le_last_completed = 5, le_rank = 0\<rparr>"
  have es: "?es = [?e]" by code_simp
  have t: "db_tables board_app = board_tables" "h_labs board_handler = board_labs"
    by (simp_all add: board_app_def board_handler_def)
  have own: "(\<Sum>c\<leftarrow>own_completions ''u1'' board_tables. weightForLab board_labs (c_lab_id c)) = 25"
    "length (own_completions ''u1'' board_tables) = 1"
    by (simp_all add: board_tables_def board_labs_def empty_tables_def weightForLab_def difficultyWeight_def)
  have pos: "ahead ?es ?e = 0" "not_behind ?es ?e = 1" "find_entry ''u1'' ?es = Some ?e"
    unfolding es by (simp_all add: ahead_def not_behind_def)
  have "''u1'' \<noteq> []" by simp
  from leaderboard_agrees_with_progress [OF board_app_ok this mset_rev mset_rev refl, of 10 rev]
  obtain items recents me rank rest where
    "fst (GetLeaderboard board_handler 10 rev rev ''u1'' board_app)
       = Resp 200 (JObj [(''hall_of_fame'', items), (''recent_risers'', recents), (''me'', myRank_json me)])"
    "fst (GetMyProgress board_handler rev ''u1'' board_app)
       = Resp 200 (JObj ([(''score'', JInt (mr_score me)), (''rank'', JInt rank), (''labs_completed'', JInt (mr_labs_completed me))] @ rest))"
    "mr_score me = 25" "mr_labs_completed me = int 1" "0 < mr_rank me" "mr_rank me \<le> 1" "0 < rank" "rank \<le> 1"
    unfolding t own Let_def pos(3) option.case pos(1,2) by blast
  then show ?thesis by (intro exI [of _ items] exI [of _ recents] exI [of _ me] exI [of _ rest]) simp
qed

section \<open>Opting out\<close>

text \<open>The state without a learner: neither a row nor a completion.\<close>

definition without_user :: "string \<Rightarrow> tables \<Rightarrow> tables" where
  "without_user uid t =
     t\<lparr>users := filter (\<lambda>u. u_id u \<noteq> uid) (users t), lab_completions := filter (\<lambda>c. c_user_id c \<noteq> uid) (lab_completions t)\<rparr>"

definition without_learner :: "string \<Rightarrow> (db, 'p, 'x) app \<Rightarrow> (db, 'p, 'x) app" where
  "without_learner uid a =
     a\<lparr>a_steps := (a_steps a)\<lparr>st_d := (st_d (a_steps a))\<lparr>tbls := without_user uid (db_tables a)\<rparr>\<rparr>\<rparr>"

lemma join_without:
  assumes "\<And>u. u \<in> set (users t) \<Longrightarrow> u_id u = uid \<Longrightarrow> u_leaderboard_hidden u"
  shows "leaderboard_join since (without_user uid t) = leaderboard_join since t"
proof -
  let ?row = "\<lambda>us c. map (\<lambda>u. \<lparr>lr_user_id = c_user_id c, lr_name = u_name u, lr_lab_id = c_lab_id c,
      lr_completed_at = c_completed_at c\<rparr>) (filter (\<lambda>u. u_id u = c_user_id c \<and> \<not> u_leaderboard_hidden u
                     \<and> (case since of None \<Rightarrow> True | Some s \<Rightarrow> pg_time s \<le> c_completed_at c)) us)"
  have none: "?row (users t) c = []" if "c_user_id c = uid" for c :: completion_row
    using assms that by (auto simp: filter_empty_conv)
  have same: "?row (filter (\<lambda>u. u_id u \<noteq> uid) (users t)) c = ?row (users t) c" if "c_user_id c \<noteq> uid" for c :: completion_row
    using that by (auto intro!: arg_cong [where f = "map _"] filter_cong simp: filter_filter)
  have "concat (map (?row (filter (\<lambda>u. u_id u \<noteq> uid) (users t))) (filter (\<lambda>c. c_user_id c \<noteq> uid) cs)) = concat (map (?row (users t)) cs)"
    for cs :: "completion_row list"
  proof (induction cs)
    case (Cons c cs)
    then show ?case using none same by (cases "c_user_id c = uid") simp_all
  qed simp
  then show ?thesis by (simp add: leaderboard_join_def without_user_def)
qed

lemma reads_without:
  assumes "viewer \<noteq> uid"
  shows "LeaderboardHidden f viewer (without_user uid t) = LeaderboardHidden f viewer t"
    and "ListCompletionsByUser f viewer (without_user uid t) = ListCompletionsByUser f viewer t"
proof -
  have "row_find u_id viewer (filter (\<lambda>u. u_id u \<noteq> uid) us) = row_find u_id viewer us" for us :: "user_row list"
    using assms by (induction us) (auto simp: row_find_def)
  then show "LeaderboardHidden f viewer (without_user uid t) = LeaderboardHidden f viewer t"
    by (simp add: LeaderboardHidden_def without_user_def)
  have "filter (\<lambda>c. c_user_id c = viewer) (filter (\<lambda>c. c_user_id c \<noteq> uid) cs) = filter (\<lambda>c. c_user_id c = viewer) cs"
    for cs :: "completion_row list" using assms by (induction cs) auto
  then show "ListCompletionsByUser f viewer (without_user uid t) = ListCompletionsByUser f viewer t"
    by (simp add: ListCompletionsByUser_def without_user_def)
qed

text \<open>
  C35. Opting out works at once and for every viewer: after a learner's preference to be hidden was accepted, the
  leaderboard that the API serves from that state to anyone else is, to the last entry and whatever
  faults the database has, the one it would serve if the learner had no account and had never completed a lab. The learner
  is shown the same two lists as well, with the own rank 0.
\<close>

theorem opted_out_learner_never_listed:
  assumes "h_db h = Some (store_persistence fs)" and "db_ok (st_d (a_steps a))"
    and "\<And>xs. mset (perm xs) = mset xs"
    and "SetMyPreferences h now (Inr True) uid a = (Resp 200 b, a1)"
  shows "(viewer \<noteq> uid \<longrightarrow>
        fst (GetLeaderboard h now' perm perm' viewer a1) = fst (GetLeaderboard h now' perm perm' viewer (without_learner uid a1)))
    \<and> (resp_status (fst (GetLeaderboard h now' perm perm' uid a1)) = 200 \<longrightarrow>
        (\<exists>items recents me me'. mr_rank me = 0
         \<and> fst (GetLeaderboard h now' perm perm' uid a1)
             = Resp 200 (JObj [(''hall_of_fame'', items), (''recent_risers'', recents), (''me'', myRank_json me)])
         \<and> fst (GetLeaderboard h now' perm perm' uid (without_learner uid a1))
             = Resp 200 (JObj [(''hall_of_fame'', items), (''recent_risers'', recents), (''me'', myRank_json me')])))"
proof -
  let ?t = "db_tables a1" and ?w = "weightForLab (h_labs h)"
  obtain u where u: "row_find u_id uid (users ?t) = Some u" "u_leaderboard_hidden u"
    and keyed: "keyed u_id (users ?t)"
    using opt_out_effect [OF assms(1,2,4)] by (auto simp: db_ok_def tables_ok_def)
  have "u_leaderboard_hidden x" if "x \<in> set (users ?t)" "u_id x = uid" for x
    using row_find_keyed [OF keyed that(1)] that(2) u by simp
  then have rows: "LeaderboardRows f since (without_user uid ?t) = LeaderboardRows f since ?t" for f since
    using join_without [of ?t uid since] by (simp add: LeaderboardRows_def)
  have wt: "db_tables (without_learner uid a1) = without_user uid ?t"
    "calls (st_d (a_steps (without_learner uid a1))) = calls (st_d (a_steps a1))"
    by (simp_all add: without_learner_def)
  note reads = GetLeaderboard_reads [OF assms(1)]
  have other: "fst (GetLeaderboard h now' perm perm' viewer a1) = fst (GetLeaderboard h now' perm perm' viewer (without_learner uid a1))"
    if "viewer \<noteq> uid"
  proof -
    have st: "standing labs f viewer hidden ranked (without_user uid t) = standing labs f viewer hidden ranked t" for labs f hidden ranked t
      unfolding standing_def read_score_def reads_without [OF that] ..
    show ?thesis unfolding reads wt board_of_def rows reads_without [OF that] st ..
  qed
  have none: "find_entry uid (rankEntries perm (leaderboard_join None ?t) ?w) = None"
    using hidden_not_joined [OF u keyed] by (simp add: find_entry_None rankEntries_users(1) [OF assms(3)])
  have own: "\<exists>items recents me me'. mr_rank me = 0
         \<and> fst (GetLeaderboard h now' perm perm' uid a1)
             = Resp 200 (JObj [(''hall_of_fame'', items), (''recent_risers'', recents), (''me'', myRank_json me)])
         \<and> fst (GetLeaderboard h now' perm perm' uid (without_learner uid a1))
             = Resp 200 (JObj [(''hall_of_fame'', items), (''recent_risers'', recents), (''me'', myRank_json me')])"
    if st: "resp_status (fst (GetLeaderboard h now' perm perm' uid a1)) = 200"
  proof -
    let ?f = "\<lambda>n. fs (calls (st_d (a_steps a1)) + n)"
    obtain hidden rs recent where q: "LeaderboardHidden (?f 0) uid ?t = Inr hidden" "LeaderboardRows (?f 1) None ?t = Inr rs"
      "LeaderboardRows (?f 2) (Some (now' - recentWindow)) ?t = Inr recent"
      using st unfolding reads by (auto simp: board_of_def err_resp_def split: sum.splits)
    have rs: "rs = leaderboard_join None ?t" by (rule LeaderboardRows_Inr [OF q(2)])
    have "isl (LeaderboardHidden f uid (without_user uid t)) = isl (LeaderboardHidden f uid t)" for f t
      by (cases f) (simp_all add: LeaderboardHidden_def)
    then obtain hidden' where q': "LeaderboardHidden (?f 0) uid (without_user uid ?t) = Inr hidden'"
      using q(1) by (metis isl_def sum.exhaust sum.disc(2))
    have "mr_rank (standing (h_labs h) (?f 3) uid hidden (rankEntries perm rs ?w) ?t) = 0"
      using none rs by (simp add: standing_def)
    then show ?thesis unfolding reads wt board_of_def rows q q' by (auto simp: Let_def)
  qed
  from other own show ?thesis by blast
qed

theorem opted_out_learner_never_listed_witness:
  "\<exists>b a1. SetMyPreferences board_handler 9 (Inr True) ''u1'' board_app = (Resp 200 b, a1)
    \<and> fst (GetLeaderboard board_handler 10 rev rev ''u2'' a1) = fst (GetLeaderboard board_handler 10 rev rev ''u2'' (without_learner ''u1'' a1))"
proof -
  obtain b a1 where set: "SetMyPreferences board_handler 9 (Inr True) ''u1'' board_app = (Resp 200 b, a1)"
    by (auto simp: SetMyPreferences_def board_handler_def on_db_def writes_def SetLeaderboardHidden_def)
  from opted_out_learner_never_listed [OF board_app_ok mset_rev set, of "''u2''" 10 rev] set show ?thesis by auto
qed

section \<open>What the dashboard computes\<close>

lemma map_from_None: "map_from k v rows i = None \<longleftrightarrow> i \<notin> k ` set rows"
  by (induction rows rule: rev_induct) (auto simp: map_from_def)

lemma dashboard_row_simps [simp]:
  "dl_lab_id (dashboard_row c st i lc) = i"
  "dl_difficulty (dashboard_row c st i lc) = lc_difficulty lc"
  "dl_status (dashboard_row c st i lc) =
     (if c i \<noteq> None then ''completed'' else if st i \<noteq> None then ''in_progress'' else ''not_started'')"
  by (auto simp: dashboard_row_def Let_def split: option.splits)

text \<open>Totals over the difficulties.\<close>

lemma row_upsert_sum:
  assumes "\<And>r. f (upd r) = f r + (k :: int)" and "f new = k"
  shows "(\<Sum>r\<leftarrow>row_upsert key new upd rows. f r) = (\<Sum>r\<leftarrow>rows. f r) + k"
  using assms by (induction rows) auto

lemma count_row_totals:
  "(\<Sum>(d, p)\<leftarrow>foldl count_row m rows. dp_total p) = (\<Sum>(d, p)\<leftarrow>m. dp_total p) + int (length rows)"
  "(\<Sum>(d, p)\<leftarrow>foldl count_row m rows. dp_done p)
     = (\<Sum>(d, p)\<leftarrow>m. dp_done p) + int (length (filter (\<lambda>r. dl_status r = ''completed'') rows))"
proof (induction rows arbitrary: m)
  case (Cons r rows)
  have one: "(\<Sum>(d, p)\<leftarrow>count_row m r. dp_total p) = (\<Sum>(d, p)\<leftarrow>m. dp_total p) + 1"
    "(\<Sum>(d, p)\<leftarrow>count_row m r. dp_done p) = (\<Sum>(d, p)\<leftarrow>m. dp_done p) + (if dl_status r = ''completed'' then 1 else 0)"
    for m unfolding count_row_def Let_def by (rule row_upsert_sum; auto)+
  { case 1 show ?case using Cons(1) one by simp }
  { case 2 show ?case using Cons(2) one by simp }
qed simp_all

lemma completion_pct_bounds: "0 \<le> n \<Longrightarrow> 0 \<le> completion_pct n k \<and> completion_pct n k \<le> 100"
  by (auto simp: completion_pct_def Let_def pos_imp_zdiv_nonneg_iff)

text \<open>
  The dashboard shows every lab of the catalogue exactly once, in the order of the ids; a lab is
  completed exactly when the user completed it, in progress exactly when it is started and not
  completed, and not started otherwise. The counters by difficulty add up to the number of labs and
  of completed labs shown, and the percentage lies between 0 and 100 even when the user has
  completions of labs that are no longer in the catalogue.
\<close>

theorem dashboard_consistent:
  assumes "distinct order" and "set order = dom labs"
  shows "let (s, rows) = buildDashboard labs order cs inProgress in
      map dl_lab_id rows = sorted_list_of_set (dom labs)
    \<and> (\<forall>r\<in>set rows. dl_status r =
          (if dl_lab_id r \<in> c_lab_id ` set cs then ''completed''
           else if dl_lab_id r \<in> ip_lab_id ` set inProgress then ''in_progress'' else ''not_started''))
    \<and> (\<Sum>(d, p)\<leftarrow>ds_by_difficulty s. dp_total p) = int (card (dom labs))
    \<and> (\<Sum>(d, p)\<leftarrow>ds_by_difficulty s. dp_done p) = int (card (dom labs \<inter> c_lab_id ` set cs))
    \<and> 0 \<le> ds_completion_pct s \<and> ds_completion_pct s \<le> 100"
proof -
  let ?row = "\<lambda>i. dashboard_row (map_from c_lab_id c_completed_at cs) (map_from ip_lab_id ip_session_id inProgress) i (the (labs i))"
  have ids: "sort order = sorted_list_of_set (dom labs)" "length order = card (dom labs)"
    using assms by (metis sorted_list_of_set_sort_remdups distinct_remdups_id, metis distinct_card)
  have "length (filter (\<lambda>r. dl_status r = ''completed'') (map ?row (sort order)))
      = length (filter (\<lambda>i. i \<in> c_lab_id ` set cs) (sort order))"
    by (simp add: filter_map comp_def map_from_None)
  also have "\<dots> = card (dom labs \<inter> c_lab_id ` set cs)"
    using assms by (subst distinct_card [symmetric]) (auto intro: arg_cong [where f = card])
  finally have fin: "length (filter (\<lambda>r. dl_status r = ''completed'') (map ?row (sort order)))
      = card (dom labs \<inter> c_lab_id ` set cs)" .
  show ?thesis
    using ids fin assms
    by (auto simp: buildDashboard_def Let_def count_row_totals comp_def map_from_None completion_pct_bounds)
qed

theorem dashboard_consistent_witness:
  "let (s, rows) = buildDashboard board_labs [''l1''] [\<lparr>c_lab_id = ''l1'', c_session_id = ''s1'', c_completed_at = 5\<rparr>,
       \<lparr>c_lab_id = ''gone'', c_session_id = ''s0'', c_completed_at = 3\<rparr>] [] in
     map dl_lab_id rows = [''l1''] \<and> map dl_status rows = [''completed''] \<and> ds_completion_pct s \<le> 100"
proof -
  let ?cs = "[\<lparr>c_lab_id = ''l1'', c_session_id = ''s1'', c_completed_at = 5\<rparr>,
       \<lparr>c_lab_id = ''gone'', c_session_id = ''s0'', c_completed_at = 3\<rparr>]"
  have dom: "set [''l1''] = dom board_labs" by (simp add: board_labs_def)
  show ?thesis
    using dashboard_consistent [OF _ dom, of ?cs "[]"] by (auto simp: buildDashboard_def Let_def board_labs_def)
qed

end
