(* ===== verification/Access.thy ===== *)
theory Access
  imports Learning Complex_Main
begin

text \<open>
  Who may call what: identities from verified tokens (\<open>src/apps/api/internal/auth/oidc.go\<close>), the JWT and
  role middlewares (\<open>middleware/auth.go\<close>, \<open>middleware/rbac.go\<close>), the administration handlers of
  \<open>admin.go\<close> and the own profile (\<open>user.go\<close>).

  Verifying a signature is done by the OIDC library: the provider is a record of its functions over
  the outside state. Cookies, headers and query parameters of a request are maps.
\<close>

section \<open>Identities\<close>

record claims =
  cl_sub :: string
  cl_email :: string
  cl_name :: string
  cl_preferred_username :: string
  cl_groups :: "string list"
  cl_roles :: "string list"

record Identity =
  id_Subject :: string
  id_Email :: string
  id_Name :: string
  id_Roles :: "string list"
  id_Groups :: "string list"

definition identity :: "claims \<Rightarrow> Identity" where
  "identity c =
     \<lparr>id_Subject = cl_sub c, id_Email = cl_email c,
      id_Name = (if cl_name c = [] then cl_preferred_username c else cl_name c),
      id_Roles = cl_roles c, id_Groups = cl_groups c\<rparr>"

definition orgGroupPrefix :: string where
  "orgGroupPrefix = ''org-''"

fun first_org :: "string list \<Rightarrow> string" where
  "first_org [] = ''public''"
| "first_org (g # gs) =
     (let name = trim_prefix g ''/'' in if has_prefix name orgGroupPrefix then name else first_org gs)"

definition Org :: "Identity \<Rightarrow> string" where
  "Org i = first_org (id_Groups i)"

definition Role :: "Identity \<Rightarrow> string" where
  "Role i =
     (if ''admin'' \<in> set (id_Roles i) then ''admin''
      else if ''instructor'' \<in> set (id_Roles i) then ''instructor'' else ''student'')"

record oauth_token =
  ot_AccessToken :: string
  ot_RefreshToken :: string
  ot_Expiry :: go_time
  ot_id_token :: "string option"
  ot_refresh_expires_in :: "rat option"

record 'x Provider =
  ap_accessVerify :: "string \<Rightarrow> 'x \<Rightarrow> (string + string) \<times> 'x"
  ap_idVerify :: "string \<Rightarrow> 'x \<Rightarrow> (string + string \<times> string) \<times> 'x"
  ap_claims :: "string \<Rightarrow> string + claims"
  ap_exchange :: "string \<Rightarrow> string \<Rightarrow> 'x \<Rightarrow> (string + oauth_token) \<times> 'x"
  ap_refresh :: "string \<Rightarrow> 'x \<Rightarrow> (string + oauth_token) \<times> 'x"
  ap_authURL :: "string \<Rightarrow> string \<Rightarrow> string \<Rightarrow> string \<Rightarrow> string"
  ap_clientID :: string
  ap_endSessionURL :: string

definition VerifyAccessToken :: "'x Provider \<Rightarrow> string \<Rightarrow> 'x \<Rightarrow> (string + Identity) \<times> 'x" where
  "VerifyAccessToken p raw x =
     (let (r, x1) = ap_accessVerify p raw x in
      (case r of
         Inl e \<Rightarrow> Inl (''verify access_token: '' @ e)
       | Inr tok \<Rightarrow>
           (case ap_claims p tok of
              Inl e \<Rightarrow> Inl (''parse access_token claims: '' @ e)
            | Inr c \<Rightarrow> Inr (identity c)), x1))"

definition VerifyIDToken :: "'x Provider \<Rightarrow> oauth_token \<Rightarrow> string \<Rightarrow> 'x \<Rightarrow> (string + Identity) \<times> 'x" where
  "VerifyIDToken p token wantNonce x =
     (case ot_id_token token of
        None \<Rightarrow> (Inl ''token response missing id_token'', x)
      | Some raw \<Rightarrow>
          if raw = [] then (Inl ''token response missing id_token'', x)
          else
            (let (r, x1) = ap_idVerify p raw x in
             (case r of
                Inl e \<Rightarrow> Inl (''verify id_token: '' @ e)
              | Inr (nonce, tok) \<Rightarrow>
                  if nonce \<noteq> wantNonce then Inl ''nonce mismatch''
                  else
                    (case ap_claims p tok of
                       Inl e \<Rightarrow> Inl (''parse id_token claims: '' @ e)
                     | Inr c \<Rightarrow> Inr (identity c)), x1)))"

section \<open>The JWT middleware\<close>

record request =
  rq_cookies :: "string \<rightharpoonup> string"
  rq_headers :: "string \<rightharpoonup> string"
  rq_query :: "string \<rightharpoonup> string"

definition GetHeader :: "request \<Rightarrow> string \<Rightarrow> string" where
  "GetHeader rq k = (case rq_headers rq k of None \<Rightarrow> [] | Some v \<Rightarrow> v)"

definition Query :: "request \<Rightarrow> string \<Rightarrow> string" where
  "Query rq k = (case rq_query rq k of None \<Rightarrow> [] | Some v \<Rightarrow> v)"

definition extractToken :: "request \<Rightarrow> string" where
  "extractToken rq =
     (case rq_cookies rq ''access_token'' of
        Some cookie \<Rightarrow> cookie
      | None \<Rightarrow>
          (let h = GetHeader rq ''Authorization'' in
           if has_prefix h ''Bearer '' then trim_prefix h ''Bearer '' else Query rq ''token''))"

text \<open>What the middleware puts into the context of the request.\<close>

record user_ctx =
  uc_user_id :: string
  uc_user_email :: string
  uc_user_name :: string
  uc_user_role :: string
  uc_user_org :: string

definition dev_user :: user_ctx where
  "dev_user = \<lparr>uc_user_id = ''dev-user'', uc_user_email = ''dev@cledyu.local'', uc_user_name = ''Dev User'',
     uc_user_role = ''admin'', uc_user_org = ''public''\<rparr>"

definition user_of :: "Identity \<Rightarrow> user_ctx" where
  "user_of i = \<lparr>uc_user_id = id_Subject i, uc_user_email = id_Email i, uc_user_name = id_Name i,
     uc_user_role = Role i, uc_user_org = Org i\<rparr>"

definition JWT :: "'x Provider option \<Rightarrow> bool \<Rightarrow> request \<Rightarrow> 'x \<Rightarrow> (resp + user_ctx) \<times> 'x" where
  "JWT provider devFallback rq x =
     (case provider of
        None \<Rightarrow> (if devFallback then Inr dev_user else Inl (err_resp 503 ''auth provider unavailable''), x)
      | Some p \<Rightarrow>
          (let token = extractToken rq in
           if token = [] then (Inl (err_resp 401 ''missing token''), x)
           else
             (let (r, x1) = VerifyAccessToken p token x in
              (case r of Inl _ \<Rightarrow> Inl (err_resp 401 ''invalid token'') | Inr i \<Rightarrow> Inr (user_of i), x1))))"

section \<open>Roles\<close>

definition roleRank :: "string \<Rightarrow> nat" where
  "roleRank r = (if r = ''student'' then 1 else if r = ''instructor'' then 2 else if r = ''admin'' then 3 else 0)"

definition RequireMinRole :: "string \<Rightarrow> user_ctx \<Rightarrow> resp option" where
  "RequireMinRole minRole u =
     (let m = roleRank minRole in
      if m = 0 \<or> roleRank (uc_user_role u) < m then Some (code_resp 403 ''insufficient role'' ''forbidden'') else None)"

section \<open>Administration\<close>

definition user_json :: "User \<Rightarrow> json" where
  "user_json u = JObj [(''id'', JStr (u_id u)), (''email'', JStr (u_email u)), (''name'', JStr (u_name u)),
     (''role'', JStr (u_role u)), (''created_at'', JTime (u_created_at u)), (''last_login_at'', JTime (u_last_login_at u))]"

definition list_limit :: "string \<Rightarrow> int" where
  "list_limit v =
     (if v \<noteq> [] then (case Atoi v of Some n \<Rightarrow> if n > 0 \<and> n \<le> 500 then n else 50 | None \<Rightarrow> 50) else 50)"

definition admin_ListUsers ::
  "('d, 'p, 'x) handler \<Rightarrow> string \<Rightarrow> ('d, 'p, 'x) app \<Rightarrow> resp \<times> ('d, 'p, 'x) app" where
  "admin_ListUsers h limit a =
     (case h_db h of
        None \<Rightarrow> (err_resp 503 ''user store not configured'', a)
      | Some P \<Rightarrow>
          (let (r, a1) = on_db (p_ListUsers P (list_limit limit)) a in
           (case r of
              Inl _ \<Rightarrow> err_resp 500 ''list users failed''
            | Inr us \<Rightarrow> Resp 200 (JObj [(''items'', JArr (map user_json us)), (''total'', JInt (int (length us)))]), a1)))"

definition GetUserActivity ::
  "('d, 'p, 'x) handler \<Rightarrow> string \<Rightarrow> ('d, 'p, 'x) app \<Rightarrow> resp \<times> ('d, 'p, 'x) app" where
  "GetUserActivity h uid a =
     (case h_db h of
        None \<Rightarrow> (err_resp 503 ''user store not configured'', a)
      | Some P \<Rightarrow>
          (let (r, a1) = on_db (p_ListCompletionsByUser P uid) a in
           (case r of
              Inl _ \<Rightarrow> err_resp 500 ''load activity failed''
            | Inr cs \<Rightarrow> Resp 200 (JObj [(''completions'', JArr (map completion_json cs)), (''total'', JInt (int (length cs)))]), a1)))"

definition promotableRoles :: "string \<Rightarrow> bool" where
  "promotableRoles r \<longleftrightarrow> r = ''instructor'' \<or> r = ''admin''"

text \<open>The body is bound only when \<open>role\<close> is present and not empty.\<close>

definition admin_SetUserRole ::
  "('d, 'p, 'x) handler \<Rightarrow> string \<Rightarrow> string + string \<Rightarrow> ('d, 'p, 'x) app \<Rightarrow> resp \<times> ('d, 'p, 'x) app" where
  "admin_SetUserRole h uid req a =
     (case h_kc_admin h of
        None \<Rightarrow> (err_resp 501 ''role management not configured'', a)
      | Some assign \<Rightarrow>
          (case req of
             Inl _ \<Rightarrow> (err_resp 400 ''role is required'', a)
           | Inr role \<Rightarrow>
               if role = [] then (err_resp 400 ''role is required'', a)
               else if \<not> promotableRoles role then (err_resp 400 ''role must be instructor or admin'', a)
               else
                 (let (e, a1) = on_ext (assign uid role) a in
                  case e of
                    Some ErrUserNotFound \<Rightarrow> (err_resp 404 ''user not found'', a1)
                  | Some ErrRoleNotFound \<Rightarrow> (err_resp 500 ''realm role not provisioned'', a1)
                  | Some (KcOther _) \<Rightarrow> (err_resp 502 ''keycloak role assignment failed'', a1)
                  | None \<Rightarrow>
                      (Resp 200 (JObj [(''user_id'', JStr uid), (''role'', JStr role), (''status'', JStr ''promoted'')]),
                       case h_db h of None \<Rightarrow> a1 | Some P \<Rightarrow> snd (on_db (p_SetUserRole P uid role) a1)))))"

section \<open>The own profile\<close>

definition GetMe ::
  "('d, 'p, 'x) handler \<Rightarrow> user_ctx \<Rightarrow> ('d, 'p, 'x) app \<Rightarrow> resp \<times> ('d, 'p, 'x) app" where
  "GetMe h u a =
     (let ((points, _), a1) = (if h_db h \<noteq> None then userScore h (uc_user_id u) a else ((0, 0), a))
      in (Resp 200 (JObj [(''id'', JStr (uc_user_id u)), (''email'', JStr (uc_user_email u)), (''name'', JStr (uc_user_name u)),
            (''role'', JStr (uc_user_role u)), (''org'', JStr (uc_user_org u)), (''points'', JInt points), (''badges'', JArr [])]), a1))"

end
