(* ===== verification/Console.thy ===== *)
theory Console
  imports Access
begin

text \<open>
  The live terminal and the browser IDE: the registry of active consoles
  (\<open>src/apps/api/internal/api/handlers/console_registry.go\<close>), the terminal handlers and their proxy loops
  (\<open>console.go\<close>), and the reverse proxy to code-server (\<open>ide.go\<close>).

  WebSockets are named by numbers. Upgrading a request, connecting to a machine and forwarding a
  request are done by libraries: whether they succeed is an argument.
\<close>

section \<open>The registry of consoles\<close>

text \<open>\<open>cr_closed\<close> logs the sockets that were sent a normal close frame because a newer one took over.\<close>

record consoleRegistry =
  cr_active :: "string \<rightharpoonup> nat"
  cr_closed :: "nat list"

definition newConsoleRegistry :: consoleRegistry where
  "newConsoleRegistry = \<lparr>cr_active = Map.empty, cr_closed = []\<rparr>"

definition console_acquire :: "string \<Rightarrow> nat \<Rightarrow> consoleRegistry \<Rightarrow> consoleRegistry" where
  "console_acquire sid ws r =
     (let r1 = (case cr_active r sid of
                  Some prev \<Rightarrow> if prev \<noteq> ws then r\<lparr>cr_closed := cr_closed r @ [prev]\<rparr> else r
                | None \<Rightarrow> r)
      in r1\<lparr>cr_active := (cr_active r1)(sid \<mapsto> ws)\<rparr>)"

definition console_release :: "string \<Rightarrow> nat \<Rightarrow> consoleRegistry \<Rightarrow> consoleRegistry" where
  "console_release sid ws r =
     (case cr_active r sid of
        Some cur \<Rightarrow> if cur = ws then r\<lparr>cr_active := (cr_active r)(sid := None)\<rparr> else r
      | None \<Rightarrow> r)"

section \<open>Frames\<close>

definition serialConsoleCols :: int where "serialConsoleCols = 80"

definition serialConsoleRows :: int where "serialConsoleRows = 24"

definition maxTerminalDim :: int where "maxTerminalDim = 1000"

definition terminalSubprotocolV2 :: string where "terminalSubprotocolV2 = ''cledyu-term-v2''"

record resizeFrame =
  rf_Type :: string
  rf_Cols :: int
  rf_Rows :: int

text \<open>\<open>unmarshal\<close> decodes JSON into a frame.\<close>

definition parseResizeFrame :: "(string \<Rightarrow> resizeFrame option) \<Rightarrow> string \<Rightarrow> (int \<times> int) option" where
  "parseResizeFrame unmarshal data =
     (if data = [] \<or> hd data \<noteq> CHR ''{'' then None
      else
        (case unmarshal data of
           None \<Rightarrow> None
         | Some f \<Rightarrow>
             if rf_Type f \<noteq> ''resize'' \<or> rf_Cols f \<le> 0 \<or> rf_Rows f \<le> 0 \<or>
                rf_Cols f > maxTerminalDim \<or> rf_Rows f > maxTerminalDim
             then None else Some (rf_Cols f, rf_Rows f)))"

definition trim_suffix :: "string \<Rightarrow> string \<Rightarrow> string" where
  "trim_suffix s p = (if suffix p s then List.take (length s - length p) s else s)"

text \<open>\<open>frontend\<close> is the configured frontend, if there is a configuration.\<close>

definition browserOriginAllowed :: "string option \<Rightarrow> string \<Rightarrow> bool" where
  "browserOriginAllowed frontend origin =
     (origin = [] \<or> origin = ''http://localhost:3000'' \<or>
      (let frontendURL = (case frontend of Some u \<Rightarrow> trim_suffix u ''/'' | None \<Rightarrow> [])
       in frontendURL \<noteq> [] \<and> origin = frontendURL))"

section \<open>The proxy of a terminal\<close>

datatype ws_frame = TextMessage string | BinaryMessage string

fun payload :: "ws_frame \<Rightarrow> string" where
  "payload (TextMessage d) = d"
| "payload (BinaryMessage d) = d"

datatype vm_act = VmWrite string | VmResize int int

text \<open>
  From the browser to the machine. Each frame comes with whether writing to the machine would succeed;
  the end of the list is the read error that ends the connection. The result is what is done to the
  machine and whether the loop ended because the browser went away.
\<close>

fun browser_loop ::
  "bool \<Rightarrow> (string \<Rightarrow> resizeFrame option) \<Rightarrow> bool \<Rightarrow> (ws_frame \<times> bool) list \<Rightarrow> vm_act list \<times> bool" where
  "browser_loop v2 unmarshal canResize [] = ([], True)"
| "browser_loop v2 unmarshal canResize ((f, write_ok) # fs) =
     (case (case f of TextMessage d \<Rightarrow> if v2 then parseResizeFrame unmarshal d else None | BinaryMessage _ \<Rightarrow> None) of
        Some (cols, rows) \<Rightarrow>
          (let (acts, gone) = browser_loop v2 unmarshal canResize fs
           in ((if canResize then [VmResize cols rows] else []) @ acts, gone))
      | None \<Rightarrow>
          if write_ok
          then (let (acts, gone) = browser_loop v2 unmarshal canResize fs in (VmWrite (payload f) # acts, gone))
          else ([], False))"

text \<open>
  From the machine to the browser: one read gives bytes and perhaps an error; \<open>write_ok\<close> tells whether
  the socket takes them and \<open>gone\<close> whether the browser has disconnected by then. \<open>None\<close> stands for a
  loop still waiting for the machine.
\<close>

datatype read_err = EOF | ReadFailed

fun vm_loop :: "(string \<times> read_err option \<times> bool \<times> bool) list \<Rightarrow> ws_frame list \<times> string option" where
  "vm_loop [] = ([], None)"
| "vm_loop ((data, e, write_ok, gone) # rs) =
     (if data \<noteq> [] \<and> \<not> write_ok then ([], Some ''normal'')
      else
        (let out = (if data \<noteq> [] then [BinaryMessage data] else []) in
         case e of
           None \<Rightarrow> (let (frames, reason) = vm_loop rs in (out @ frames, reason))
         | Some x \<Rightarrow> (out, Some (if x = EOF \<or> gone then ''normal'' else ''error''))))"

definition pin_frame :: "bool \<Rightarrow> int \<Rightarrow> int \<Rightarrow> ws_frame list" where
  "pin_frame v2 pinnedCols pinnedRows =
     (if v2 \<and> pinnedCols > 0 \<and> pinnedRows > 0
      then [TextMessage (CHR ''{'' # CHR 0x22 # ''type'' @ CHR 0x22 # CHR '':'' # CHR 0x22 # ''resize'' @ CHR 0x22 # CHR '','' #
              CHR 0x22 # ''cols'' @ CHR 0x22 # CHR '':'' # Itoa pinnedCols @ CHR '','' #
              CHR 0x22 # ''rows'' @ CHR 0x22 # CHR '':'' # Itoa pinnedRows @ ''}'')]
      else [])"

text \<open>
  The two loops run side by side and share only the disconnect flag, which the reads carry. The result
  is what the machine was sent, what the browser was sent, and why the terminal ended.
\<close>

definition proxyTerminal ::
  "bool \<Rightarrow> (string \<Rightarrow> resizeFrame option) \<Rightarrow> bool \<Rightarrow> int \<Rightarrow> int \<Rightarrow> (ws_frame \<times> bool) list \<Rightarrow>
   (string \<times> read_err option \<times> bool \<times> bool) list \<Rightarrow> vm_act list \<times> ws_frame list \<times> string option" where
  "proxyTerminal v2 unmarshal canResize pinnedCols pinnedRows frames vmReads =
     (let (acts, gone) = browser_loop v2 unmarshal canResize frames; (out, reason) = vm_loop vmReads
      in (acts, pin_frame v2 pinnedCols pinnedRows @ out, reason))"

section \<open>The terminal handlers\<close>

text \<open>
  What a request for a terminal comes to: a response, a refused upgrade, or a proxy to the serial
  console of a virtual machine or to a shell at an address. The registry is beside the state of the
  handlers; the socket \<open>ws\<close> is the one the upgrade gives.
\<close>

datatype terminal = Refused resp | UpgradeFailed | Serial string string | Shell string

definition kubevirtConsole ::
  "bool \<Rightarrow> string option \<Rightarrow> request \<Rightarrow> string \<Rightarrow> nat \<Rightarrow> consoleRegistry \<Rightarrow> terminal \<times> consoleRegistry" where
  "kubevirtConsole virt frontend rq sid ws r =
     (if \<not> virt then (Refused (err_resp 503 ''live terminal unavailable (kube client not configured)''), r)
      else if \<not> browserOriginAllowed frontend (GetHeader rq ''Origin'') then (UpgradeFailed, r)
      else (Serial (''lab-'' @ sid) ''session-vm'', console_acquire sid ws r))"

definition ec2Console ::
  "'p provider \<Rightarrow> string option \<Rightarrow> request \<Rightarrow> string \<Rightarrow> ('d, 'p, 'x) app \<Rightarrow> terminal \<times> ('d, 'p, 'x) app" where
  "ec2Console P frontend rq sid a =
     (let (r, a1) = on_prov (pv_VMIAddress P sid) a in
      (case r of
         Inl e \<Rightarrow> Refused (if is_not_found e then err_resp 503 ''ec2 live terminal not ready (tailnet not joined)''
                           else err_resp 500 ''live terminal failed'')
       | Inr addr \<Rightarrow>
           if \<not> browserOriginAllowed frontend (GetHeader rq ''Origin'') then UpgradeFailed else Shell addr, a1))"

definition Console ::
  "('d, 'p, 'x) handler \<Rightarrow> bool \<Rightarrow> string option \<Rightarrow> go_time \<Rightarrow> request \<Rightarrow> string \<Rightarrow> string \<Rightarrow> nat \<Rightarrow>
   consoleRegistry \<Rightarrow> ('d, 'p, 'x) app \<Rightarrow> terminal \<times> consoleRegistry \<times> ('d, 'p, 'x) app" where
  "Console h virt frontend now rq sid uid ws reg a =
     (case h_sessions h of
        None \<Rightarrow> (Refused (err_resp 503 ''session manager not configured''), reg, a)
      | Some P \<Rightarrow>
          (let (r, a1) = on_prov (pv_Get P now sid) a in
           case r of
             Inl _ \<Rightarrow> (Refused not_found, reg, a1)
           | Inr s \<Rightarrow>
               (case denyIfNotSessionOwner uid s of
                  Some resp \<Rightarrow> (Refused resp, reg, a1)
                | None \<Rightarrow>
                    if s_Provider s = ProviderEC2
                    then (let (t, a2) = ec2Console P frontend rq sid a1 in (t, reg, a2))
                    else (let (t, reg1) = kubevirtConsole virt frontend rq sid ws reg in (t, reg1, a1)))))"

fun opened :: "terminal \<Rightarrow> bool" where
  "opened (Refused _) = False"
| "opened UpgradeFailed = False"
| "opened (Serial _ _) = True"
| "opened (Shell _) = True"

section \<open>The browser IDE\<close>

definition ideBackendPort :: string where "ideBackendPort = ''13337''"

text \<open>The request that the reverse proxy sends on.\<close>

record forwarded =
  fw_host :: string
  fw_path :: string
  fw_request :: request
  fw_tailnet :: bool

definition Director :: "string \<Rightarrow> string \<Rightarrow> bool \<Rightarrow> request \<Rightarrow> forwarded" where
  "Director ip backendPath tailnet rq =
     \<lparr>fw_host = ip @ '':'' @ ideBackendPort, fw_path = backendPath,
      fw_request = rq\<lparr>rq_cookies := Map.empty, rq_headers := (rq_headers rq)(''Cookie'' := None, ''Authorization'' := None)\<rparr>,
      fw_tailnet = tailnet\<rparr>"

definition IDE ::
  "('d, 'p, 'x) handler \<Rightarrow> go_time \<Rightarrow> request \<Rightarrow> string \<Rightarrow> string \<Rightarrow> string \<Rightarrow> ('d, 'p, 'x) app \<Rightarrow>
   (resp + forwarded) \<times> ('d, 'p, 'x) app" where
  "IDE h now rq url_path sid uid a =
     (case h_sessions h of
        None \<Rightarrow> (Inl (err_resp 503 ''kubevirt not configured''), a)
      | Some P \<Rightarrow>
          (let (r, a1) = on_prov (pv_Get P now sid) a in
           case r of
             Inl e \<Rightarrow> (Inl (if is_not_found e then not_found else err_resp 500 ''get session failed''), a1)
           | Inr s \<Rightarrow>
               if uid \<noteq> [] \<and> s_UserID s \<noteq> [] \<and> uid \<noteq> s_UserID s then (Inl not_found, a1)
               else
                 (case h_labs h (s_LabID s) of
                    None \<Rightarrow> (Inl (err_resp 404 ''ide not available for this lab''), a1)
                  | Some lc \<Rightarrow>
                      if \<not> lc_IDE lc then (Inl (err_resp 404 ''ide not available for this lab''), a1)
                      else
                        (let (v, a2) = on_prov (pv_VMIAddress P sid) a1 in
                         (case v of
                            Inl _ \<Rightarrow> Inl (err_resp 503 ''ide not ready'')
                          | Inr ip \<Rightarrow>
                              (let backendPath = trim_prefix url_path (''/api/v1/sessions/'' @ sid @ ''/ide'') in
                               Inr (Director ip (if backendPath = [] then ''/'' else backendPath)
                                     (s_Provider s = ProviderEC2 \<and> h_ec2_dial h) rq)), a2)))))"

section \<open>Consoles over time\<close>

text \<open>
  Terminals of all sessions come and go in any order: the log of connections with the session and the
  socket of each, and the sockets whose handler has returned.
\<close>

record consoles =
  cm_reg :: consoleRegistry
  cm_conns :: "(string \<times> nat) list"
  cm_done :: "nat set"

definition consoles_start :: consoles where
  "consoles_start = \<lparr>cm_reg = newConsoleRegistry, cm_conns = [], cm_done = {}\<rparr>"

inductive console_step :: "consoles \<Rightarrow> consoles \<Rightarrow> bool" where
  connect: "ws \<notin> snd ` set (cm_conns m) \<Longrightarrow>
    console_step m (m\<lparr>cm_reg := console_acquire sid ws (cm_reg m), cm_conns := cm_conns m @ [(sid, ws)]\<rparr>)"
| return: "(sid, ws) \<in> set (cm_conns m) \<Longrightarrow> ws \<notin> cm_done m \<Longrightarrow>
    console_step m (m\<lparr>cm_reg := console_release sid ws (cm_reg m), cm_done := insert ws (cm_done m)\<rparr>)"

inductive console_reachable :: "consoles \<Rightarrow> bool" where
  start: "console_reachable consoles_start"
| step: "console_reachable m \<Longrightarrow> console_step m m' \<Longrightarrow> console_reachable m'"

text \<open>The socket that connected last to a session.\<close>

definition latest :: "consoles \<Rightarrow> string \<Rightarrow> nat option" where
  "latest m sid = map_of (rev (cm_conns m)) sid"

definition conns_ok :: "consoles \<Rightarrow> bool" where
  "conns_ok m \<longleftrightarrow> distinct (map snd (cm_conns m)) \<and>
     cm_done m \<union> set (cr_closed (cm_reg m)) \<subseteq> snd ` set (cm_conns m)"

definition active_ok :: "consoles \<Rightarrow> bool" where
  "active_ok m \<longleftrightarrow> (\<forall>sid. cr_active (cm_reg m) sid =
     (case latest m sid of Some ws \<Rightarrow> if ws \<in> cm_done m then None else Some ws | None \<Rightarrow> None))"

definition closed_ok :: "consoles \<Rightarrow> bool" where
  "closed_ok m \<longleftrightarrow> (\<forall>sid ws. (sid, ws) \<in> set (cm_conns m) \<longrightarrow> ws \<notin> cm_done m \<longrightarrow>
     (ws \<in> set (cr_closed (cm_reg m)) \<longleftrightarrow> latest m sid \<noteq> Some ws))"

definition registry_inv :: "consoles \<Rightarrow> bool" where
  "registry_inv m \<longleftrightarrow> conns_ok m \<and> active_ok m \<and> closed_ok m"

lemma latest_connect:
  "latest (m\<lparr>cm_reg := r, cm_conns := cm_conns m @ [(sid, ws)]\<rparr>) s = (if s = sid then Some ws else latest m s)"
  by (simp add: latest_def)

lemma latest_done [simp]: "latest (m\<lparr>cm_reg := r, cm_done := D\<rparr>) = latest m"
  by (simp add: latest_def fun_eq_iff)

lemma latest_mem: "latest m sid = Some ws \<Longrightarrow> (sid, ws) \<in> set (cm_conns m)"
  unfolding latest_def by (drule map_of_SomeD) simp

lemma distinct_snd_eq:
  "distinct (map snd xs) \<Longrightarrow> (a, w) \<in> set xs \<Longrightarrow> (b, w) \<in> set xs \<Longrightarrow> a = b"
  by (induction xs) (auto simp: image_iff)

lemma conns_ok_same: "conns_ok m \<Longrightarrow> (a, w) \<in> set (cm_conns m) \<Longrightarrow> (b, w) \<in> set (cm_conns m) \<Longrightarrow> a = b"
  unfolding conns_ok_def by (blast dest: distinct_snd_eq)

lemma registry_inv_connect:
  fixes sid :: string
  assumes I: "registry_inv m" and fresh: "ws \<notin> snd ` set (cm_conns m)"
  defines "m' \<equiv> m\<lparr>cm_reg := console_acquire sid ws (cm_reg m), cm_conns := cm_conns m @ [(sid, ws)]\<rparr>"
  shows "registry_inv m'"
proof -
  have ok: "conns_ok m" "active_ok m" "closed_ok m"
    using I by (simp_all add: registry_inv_def)
  have mem: "latest m sid = Some w \<Longrightarrow> w \<in> snd ` set (cm_conns m)" for w
    using latest_mem by force
  then have other: "latest m sid = Some w \<Longrightarrow> w \<noteq> ws" for w
    using fresh by blast
  have active: "cr_active (cm_reg m') = (cr_active (cm_reg m))(sid \<mapsto> ws)"
    by (simp add: m'_def console_acquire_def Let_def split: option.split)
  have closed: "set (cr_closed (cm_reg m')) =
      set (cr_closed (cm_reg m)) \<union> {w. latest m sid = Some w \<and> w \<notin> cm_done m}"
    using ok(2) other by (auto simp: m'_def console_acquire_def Let_def active_ok_def split: option.splits)
  have latest': "latest m' s = (if s = sid then Some ws else latest m s)" for s
    by (simp add: m'_def latest_connect)
  have c: "conns_ok m'"
    using ok(1) fresh mem unfolding conns_ok_def closed by (auto simp: m'_def)
  have a: "active_ok m'"
    using ok(1,2) fresh unfolding active_ok_def active latest' by (auto simp: m'_def conns_ok_def split: option.splits)
  have "closed_ok m'"
    unfolding closed_ok_def
  proof (intro allI impI)
    fix s w assume "(s, w) \<in> set (cm_conns m')" "w \<notin> cm_done m'"
    then consider "s = sid" "w = ws" | "(s, w) \<in> set (cm_conns m)" "w \<notin> cm_done m" "w \<noteq> ws"
      using fresh by (force simp: m'_def)
    then show "w \<in> set (cr_closed (cm_reg m')) \<longleftrightarrow> latest m' s \<noteq> Some w"
    proof cases
      case 1
      then show ?thesis using ok(1) fresh other by (auto simp: closed latest' conns_ok_def)
    next
      case 2
      then show ?thesis
        using ok(3) conns_ok_same [OF ok(1) latest_mem [of m sid w], of s]
        by (auto simp: closed latest' closed_ok_def)
    qed
  qed
  then show ?thesis using c a by (simp add: registry_inv_def)
qed

lemma registry_inv_return:
  assumes I: "registry_inv m" and live: "(sid, ws) \<in> set (cm_conns m)" "ws \<notin> cm_done m"
  defines "m' \<equiv> m\<lparr>cm_reg := console_release sid ws (cm_reg m), cm_done := insert ws (cm_done m)\<rparr>"
  shows "registry_inv m'"
proof -
  have ok: "conns_ok m" "active_ok m" "closed_ok m"
    using I by (simp_all add: registry_inv_def)
  have closed: "cr_closed (cm_reg m') = cr_closed (cm_reg m)"
    by (simp add: m'_def console_release_def split: option.split)
  have active: "cr_active (cm_reg m') s =
      (if s = sid \<and> cr_active (cm_reg m) sid = Some ws then None else cr_active (cm_reg m) s)" for s
    by (auto simp: m'_def console_release_def split: option.split)
  have c: "conns_ok m'"
    using ok(1) live unfolding conns_ok_def closed by (force simp: m'_def)
  have same: "latest m s = Some ws \<Longrightarrow> s = sid" for s
    using conns_ok_same [OF ok(1) latest_mem live(1)] .
  have act: "cr_active (cm_reg m) s =
      (case latest m s of Some w \<Rightarrow> if w \<in> cm_done m then None else Some w | None \<Rightarrow> None)" for s
    using ok(2) by (simp add: active_ok_def)
  have "cr_active (cm_reg m') s =
      (case latest m' s of Some w \<Rightarrow> if w \<in> cm_done m' then None else Some w | None \<Rightarrow> None)" for s
  proof (cases "latest m s")
    case None
    then show ?thesis unfolding active act by (simp add: m'_def)
  next
    case (Some w)
    then show ?thesis using live(2) same [of s] unfolding active act by (auto simp: m'_def)
  qed
  then have "active_ok m'" by (simp add: active_ok_def)
  moreover have "closed_ok m'"
    using ok(3) unfolding closed_ok_def closed by (auto simp: m'_def)
  ultimately show ?thesis using c by (simp add: registry_inv_def)
qed

lemma registry_inv_reachable: "console_reachable m \<Longrightarrow> registry_inv m"
proof (induction rule: console_reachable.induct)
  case start
  show ?case by (simp add: registry_inv_def conns_ok_def active_ok_def closed_ok_def consoles_start_def newConsoleRegistry_def latest_def)
next
  case (step m m')
  from step(2,3) show ?case
    by cases (auto intro: registry_inv_connect registry_inv_return)
qed

text \<open>
  C31. However the terminals of all sessions connect and end, the active console of a session is the
  one that connected last, as long as it runs, and among the running terminals of a session exactly
  the superseded ones have been told to close: a handler that ends late never removes its successor.
\<close>

theorem console_last_wins:
  assumes "console_reachable m"
  shows "cr_active (cm_reg m) sid =
      (case latest m sid of Some ws \<Rightarrow> if ws \<in> cm_done m then None else Some ws | None \<Rightarrow> None) \<and>
    (\<forall>ws. (sid, ws) \<in> set (cm_conns m) \<and> ws \<notin> cm_done m \<longrightarrow>
       (cr_active (cm_reg m) sid = Some ws \<longleftrightarrow> ws \<notin> set (cr_closed (cm_reg m))))"
  using registry_inv_reachable [OF assms]
  by (auto simp: registry_inv_def active_ok_def closed_ok_def split: option.splits)

lemma demo_consoles: "console_reachable \<lparr>cm_reg = \<lparr>cr_active = [''s'' \<mapsto> 2], cr_closed = [1]\<rparr>,
    cm_conns = [(''s'', 1), (''s'', 2)], cm_done = {}\<rparr>"
proof -
  define m1 where "m1 = consoles_start\<lparr>cm_reg := console_acquire ''s'' 1 (cm_reg consoles_start), cm_conns := cm_conns consoles_start @ [(''s'', 1)]\<rparr>"
  have "console_reachable m1"
    unfolding m1_def by (rule console_reachable.step [OF console_reachable.start console_step.connect]) (simp add: consoles_start_def)
  moreover have "console_step m1 (m1\<lparr>cm_reg := console_acquire ''s'' 2 (cm_reg m1), cm_conns := cm_conns m1 @ [(''s'', 2)]\<rparr>)"
    by (rule console_step.connect) (simp add: m1_def consoles_start_def)
  ultimately have "console_reachable (m1\<lparr>cm_reg := console_acquire ''s'' 2 (cm_reg m1), cm_conns := cm_conns m1 @ [(''s'', 2)]\<rparr>)"
    by (rule console_reachable.step)
  then show ?thesis
    by (simp add: m1_def consoles_start_def newConsoleRegistry_def console_acquire_def)
qed

theorem console_last_wins_witness:
  "\<exists>m. console_reachable m \<and> cm_conns m = [(''s'', 1), (''s'', 2)] \<and> cr_active (cm_reg m) ''s'' = Some 2 \<and>
     (cr_active (cm_reg m) ''s'' = Some 2 \<longleftrightarrow> 2 \<notin> set (cr_closed (cm_reg m)))"
  using console_last_wins [OF demo_consoles, of "''s''"] demo_consoles
  by (intro exI [of _ "\<lparr>cm_reg = \<lparr>cr_active = [''s'' \<mapsto> 2], cr_closed = [1]\<rparr>,
        cm_conns = [(''s'', 1), (''s'', 2)], cm_done = {}\<rparr>"]) (simp add: latest_def)

section \<open>Input and gates\<close>

lemma parseResizeFrame_bounds: "parseResizeFrame u d = Some (c, r) \<Longrightarrow> 1 \<le> c \<and> c \<le> 1000 \<and> 1 \<le> r \<and> r \<le> 1000"
  by (auto simp: parseResizeFrame_def maxTerminalDim_def split: if_splits option.splits)

fun binary_payloads :: "ws_frame list \<Rightarrow> string list" where
  "binary_payloads [] = []"
| "binary_payloads (BinaryMessage d # fs) = d # binary_payloads fs"
| "binary_payloads (TextMessage d # fs) = binary_payloads fs"

text \<open>
  As long as the machine takes what is written, a terminal without the second protocol passes
  every frame on unchanged and in order; with it, every key press (a binary frame) still arrives in
  order, a text frame that is a valid resize never reaches the shell, and the sizes applied lie
  between 1 and 1000.
\<close>

theorem terminal_input_contract:
  "fst (browser_loop False u canResize (map (\<lambda>f. (f, True)) fs)) = map (\<lambda>f. VmWrite (payload f)) fs \<and>
   subseq (map VmWrite (binary_payloads fs)) (fst (browser_loop v2 u canResize (map (\<lambda>f. (f, True)) fs))) \<and>
   (VmWrite d \<in> set (fst (browser_loop True u canResize (map (\<lambda>f. (f, True)) fs))) \<longrightarrow>
      BinaryMessage d \<in> set fs \<or> parseResizeFrame u d = None) \<and>
   (VmResize c r \<in> set (fst (browser_loop v2 u canResize (map (\<lambda>f. (f, True)) fs))) \<longrightarrow>
      v2 \<and> canResize \<and> 1 \<le> c \<and> c \<le> 1000 \<and> 1 \<le> r \<and> r \<le> 1000)"
proof (induction fs)
  case (Cons f fs)
  show ?case
  proof (cases f)
    case (TextMessage t)
    then show ?thesis
      using Cons parseResizeFrame_bounds [of u t]
      by (cases "parseResizeFrame u t") (auto simp: split_beta Let_def intro: subseq_Cons')
  next
    case (BinaryMessage t)
    then show ?thesis using Cons by (auto simp: split_beta Let_def)
  qed
qed simp

theorem terminal_input_contract_witness:
  "let u = (\<lambda>_. Some \<lparr>rf_Type = ''resize'', rf_Cols = 120, rf_Rows = 40\<rparr>);
       fs = [BinaryMessage ''ls'', TextMessage ''{}'', TextMessage ''x''];
       acts = fst (browser_loop True u True (map (\<lambda>f. (f, True)) fs))
   in acts = [VmWrite ''ls'', VmResize 120 40, VmWrite ''x''] \<and> subseq [VmWrite ''ls''] acts \<and>
      parseResizeFrame u ''x'' = None \<and> (120::int) \<le> 1000"
  using terminal_input_contract [of "\<lambda>_. Some \<lparr>rf_Type = ''resize'', rf_Cols = 120, rf_Rows = 40\<rparr>" True
      "[BinaryMessage ''ls'', TextMessage ''{}'', TextMessage ''x'']" True "''x''" 120 40]
  by (simp add: Let_def parseResizeFrame_def maxTerminalDim_def)

text \<open>What every gate for a session machine asks of the session.\<close>

definition may_enter :: "string \<Rightarrow> Session \<Rightarrow> bool" where
  "may_enter uid s \<longleftrightarrow> uid = [] \<or> s_UserID s = [] \<or> s_UserID s = uid"

lemma may_enter_gate: "denyIfNotSessionOwner uid s = None \<longleftrightarrow> may_enter uid s"
  by (auto simp: denyIfNotSessionOwner_def denyIfNotOwner_def may_enter_def)

text \<open>
  C32. A live terminal is opened only when the session exists, belongs to the requesting user (or has
  no owner, or the request has no identity) and the page comes from the configured frontend, the local
  development server or no browser at all; otherwise no console is taken over. The terminal is the
  serial console of that session, or the address its provider gives.
\<close>

theorem terminal_only_for_owner:
  assumes "Console h virt frontend now rq sid uid ws reg a = (t, reg', a')"
    and "opened t"
  shows "\<exists>P s p1. h_sessions h = Some P \<and> pv_Get P now sid (a_prov a) = (Inr s, p1) \<and> may_enter uid s \<and>
    browserOriginAllowed frontend (GetHeader rq ''Origin'') \<and>
    (if s_Provider s = ProviderEC2 then reg' = reg \<and> (\<exists>addr p2. pv_VMIAddress P sid p1 = (Inr addr, p2) \<and> t = Shell addr)
     else reg' = console_acquire sid ws reg \<and> t = Serial (''lab-'' @ sid) ''session-vm'')"
  using assms
  by (auto simp: Console_def ec2Console_def kubevirtConsole_def on_prov_def may_enter_gate [symmetric] Let_def
      split: option.splits prod.splits sum.splits if_splits)

lemma refused_console_keeps_registry:
  "Console h virt frontend now rq sid uid ws reg a = (Refused resp, reg', a') \<Longrightarrow> reg' = reg"
  by (auto simp: Console_def ec2Console_def kubevirtConsole_def on_prov_def Let_def
      split: option.splits prod.splits sum.splits if_splits)

lemma IDE_InrE:
  assumes "IDE h now rq url_path sid uid a = (Inr fw, a')"
  obtains P s p1 lc ip p2 bp tn where "h_sessions h = Some P" "pv_Get P now sid (a_prov a) = (Inr s, p1)" "may_enter uid s"
    "h_labs h (s_LabID s) = Some lc" "lc_IDE lc" "pv_VMIAddress P sid p1 = (Inr ip, p2)" "fw = Director ip bp tn rq"
proof -
  obtain P where P: "h_sessions h = Some P" using assms by (cases "h_sessions h") (auto simp: IDE_def)
  obtain r p1 where get: "pv_Get P now sid (a_prov a) = (r, p1)" by (rule prod.exhaust)
  with assms P obtain s where s: "r = Inr s" by (cases r) (auto simp: IDE_def on_prov_def)
  with assms P get have own: "may_enter uid s"
    by (auto simp: IDE_def on_prov_def may_enter_def split: if_splits)
  then have pass: "\<not> (uid \<noteq> [] \<and> s_UserID s \<noteq> [] \<and> uid \<noteq> s_UserID s)" by (auto simp: may_enter_def)
  obtain lc where lc: "h_labs h (s_LabID s) = Some lc" "lc_IDE lc"
    using assms P get s pass by (cases "h_labs h (s_LabID s)") (auto simp: IDE_def on_prov_def split: if_splits)
  obtain v p2 where v: "pv_VMIAddress P sid p1 = (v, p2)" by (rule prod.exhaust)
  obtain ip bp tn where "v = Inr ip" "fw = Director ip bp tn rq"
    using assms P get s pass lc v by (cases v) (auto simp: IDE_def on_prov_def Let_def)
  then show ?thesis using that P get s own lc v by blast
qed

text \<open>
  The IDE proxy sends a request on only for a session that belongs to the requesting user (or has
  no owner, or comes without identity), whose lab has an IDE, and only to code-server on the machine
  of that session; cookies and the Authorization header never go with it.
\<close>

theorem ide_only_for_owner:
  assumes "IDE h now rq url_path sid uid a = (Inr fw, a')"
  shows "\<exists>P s p1 lc ip p2. h_sessions h = Some P \<and> pv_Get P now sid (a_prov a) = (Inr s, p1) \<and> may_enter uid s \<and>
    h_labs h (s_LabID s) = Some lc \<and> lc_IDE lc \<and> pv_VMIAddress P sid p1 = (Inr ip, p2) \<and>
    fw_host fw = ip @ '':13337'' \<and> rq_cookies (fw_request fw) = Map.empty \<and>
    GetHeader (fw_request fw) ''Cookie'' = [] \<and> GetHeader (fw_request fw) ''Authorization'' = []"
  using assms(1) by (rule IDE_InrE) (simp add: Director_def GetHeader_def ideBackendPort_def)

text \<open>
  The token that authenticates a request may also come in the query, and the IDE proxy sends the
  query on unchanged: a request without the cookie and the header hands its own valid platform token
  to the machine on which the learner is root.
\<close>

theorem ide_forwards_query_token:
  assumes "IDE h now rq url_path sid uid a = (Inr fw, a')"
    and "rq_cookies rq ''access_token'' = None" "\<not> has_prefix (GetHeader rq ''Authorization'') ''Bearer ''"
  shows "Query (fw_request fw) ''token'' = extractToken rq \<and> extractToken (fw_request fw) = extractToken rq"
  using assms(1)
  by (rule IDE_InrE) (use assms(2,3) in \<open>simp add: Director_def Query_def extractToken_def GetHeader_def has_prefix_def\<close>)

section \<open>A running session\<close>

definition demo_ide_session :: Session where
  "demo_ide_session = \<lparr>s_ID = ''s1'', s_LabID = ''tf'', s_UserID = ''u1'', s_Status = ''ready'', s_ProvisioningStage = [],
     s_StartedAt = 0, s_ExpiresAt = 1, s_Provider = ProviderKubeVirt, s_InstanceID = [], s_Region = [], s_TailnetEnabled = False\<rparr>"

definition demo_ide_provider :: "unit provider" where
  "demo_ide_provider = \<lparr>pv_Create = (\<lambda>_ _ _ _ _ p. (Inr demo_ide_session, p)), pv_Get = (\<lambda>_ _ p. (Inr demo_ide_session, p)),
     pv_Delete = (\<lambda>_ p. (None, p)), pv_FindActiveByUser = (\<lambda>_ p. (Inr ''s1'', p)), pv_CountActiveSessions = (\<lambda>p. (Inr 1, p)),
     pv_ReapStuckSessions = (\<lambda>_ _ p. (([], None), p)), pv_ReapExpiredSessions = (\<lambda>_ p. (([], None), p)),
     pv_VMIAddress = (\<lambda>_ p. (Inr ''10.0.0.1'', p)), pv_Capacity = 0\<rparr>"

definition demo_ide_handler :: "(db, unit, unit) handler" where
  "demo_ide_handler = board_handler\<lparr>h_sessions := Some demo_ide_provider,
     h_labs := [''tf'' \<mapsto> demo_lab\<lparr>lc_IDE := True\<rparr>]\<rparr>"

definition demo_ide_request :: request where
  "demo_ide_request = \<lparr>rq_cookies = Map.empty, rq_headers = [''Origin'' \<mapsto> ''https://app.cledyu.com''], rq_query = [''token'' \<mapsto> ''tok'']\<rparr>"

lemmas demo_ide_defs = demo_ide_handler_def demo_ide_provider_def demo_ide_session_def demo_ide_request_def
  board_handler_def board_app_def

lemma demo_ide_run:
  "\<exists>fw. IDE demo_ide_handler 0 demo_ide_request ''/api/v1/sessions/s1/ide'' ''s1'' ''u1'' board_app = (Inr fw, board_app)"
  by (simp add: IDE_def on_prov_def demo_ide_defs Let_def)

lemma demo_console_run:
  "Console demo_ide_handler True (Some ''https://app.cledyu.com/'') 0 demo_ide_request ''s1'' ''u1'' 7 newConsoleRegistry board_app
     = (Serial ''lab-s1'' ''session-vm'', console_acquire ''s1'' 7 newConsoleRegistry, board_app)"
proof -
  have "browserOriginAllowed (Some ''https://app.cledyu.com/'') ''https://app.cledyu.com''" by code_simp
  then show ?thesis
    by (simp add: Console_def kubevirtConsole_def on_prov_def demo_ide_defs denyIfNotSessionOwner_def denyIfNotOwner_def
        GetHeader_def ProviderKubeVirt_def ProviderEC2_def)
qed

theorem terminal_only_for_owner_witness:
  "\<exists>P s p1. h_sessions demo_ide_handler = Some P \<and> pv_Get P 0 ''s1'' () = (Inr s, p1) \<and> may_enter ''u1'' s \<and>
     browserOriginAllowed (Some ''https://app.cledyu.com/'') (GetHeader demo_ide_request ''Origin'')"
  using terminal_only_for_owner [OF demo_console_run] by (fastforce simp: board_app_def)

theorem ide_only_for_owner_witness:
  "\<exists>fw. IDE demo_ide_handler 0 demo_ide_request ''/api/v1/sessions/s1/ide'' ''s1'' ''u1'' board_app = (Inr fw, board_app) \<and>
     fw_host fw = ''10.0.0.1:13337'' \<and> GetHeader (fw_request fw) ''Authorization'' = []"
proof -
  obtain fw where run: "IDE demo_ide_handler 0 demo_ide_request ''/api/v1/sessions/s1/ide'' ''s1'' ''u1'' board_app = (Inr fw, board_app)"
    using demo_ide_run by blast
  show ?thesis using ide_only_for_owner [OF run] run by (auto simp: demo_ide_defs)
qed

theorem ide_forwards_query_token_witness:
  "\<exists>fw. IDE demo_ide_handler 0 demo_ide_request ''/api/v1/sessions/s1/ide'' ''s1'' ''u1'' board_app = (Inr fw, board_app) \<and>
     extractToken demo_ide_request = ''tok'' \<and> Query (fw_request fw) ''token'' = ''tok''"
proof -
  obtain fw where run: "IDE demo_ide_handler 0 demo_ide_request ''/api/v1/sessions/s1/ide'' ''s1'' ''u1'' board_app = (Inr fw, board_app)"
    using demo_ide_run by blast
  have req: "rq_cookies demo_ide_request ''access_token'' = None" "\<not> has_prefix (GetHeader demo_ide_request ''Authorization'') ''Bearer ''"
    "extractToken demo_ide_request = ''tok''"
    by (simp_all add: demo_ide_request_def GetHeader_def extractToken_def Query_def has_prefix_def)
  show ?thesis using ide_forwards_query_token [OF run req(1,2)] run req(3) by auto
qed

end
