(* ===== verification/Login.thy ===== *)
theory Login
  imports Access
begin

text \<open>
  The login flow of \<open>src/apps/api/internal/api/handlers/auth.go\<close> (authorization code with PKCE), with the
  URLs of \<open>auth/oidc.go\<close>. A handler returns what it writes (a redirect, an error body or no content)
  and the cookies it sets, in order. The mirroring of the identity into the database runs in the
  background in the source; here it is done at once.
\<close>

section \<open>Cookies and replies\<close>

record cookie =
  ck_name :: string
  ck_value :: string
  ck_maxAge :: int
  ck_path :: string
  ck_domain :: string
  ck_secure :: bool
  ck_httpOnly :: bool

datatype reply = Json resp | Redirect string | NoContent

record web_cfg =
  wc_mode :: string
  wc_cookie_domain :: string
  wc_frontend_url :: string

definition localFrontendURL :: string where "localFrontendURL = ''http://localhost:3000''"

definition cookieAccessToken :: string where "cookieAccessToken = ''access_token''"

definition cookieIDToken :: string where "cookieIDToken = ''id_token''"

definition cookieRefreshToken :: string where "cookieRefreshToken = ''refresh_token''"

definition cookieOAuthState :: string where "cookieOAuthState = ''oauth_state''"

definition cookieOAuthNonce :: string where "cookieOAuthNonce = ''oauth_nonce''"

definition cookiePKCE :: string where "cookiePKCE = ''oauth_pkce''"

definition oauthTempTTL :: int where "oauthTempTTL = 600"

definition refreshTTLFallback :: int where "refreshTTLFallback = 1800"

lemmas cookie_names = cookieAccessToken_def cookieIDToken_def cookieRefreshToken_def cookieOAuthState_def
  cookieOAuthNonce_def cookiePKCE_def

definition normalizeIDP :: "string \<Rightarrow> string" where
  "normalizeIDP raw = (if raw \<in> set [''google'', ''kakao'', ''naver''] then raw else [])"

definition secureCookie :: "web_cfg \<Rightarrow> bool" where
  "secureCookie cfg \<longleftrightarrow> wc_mode cfg = ''release''"

definition SetCookie :: "web_cfg \<Rightarrow> string \<Rightarrow> string \<Rightarrow> int \<Rightarrow> cookie" where
  "SetCookie cfg name v maxAge =
     \<lparr>ck_name = name, ck_value = v, ck_maxAge = maxAge, ck_path = ''/'', ck_domain = wc_cookie_domain cfg,
      ck_secure = secureCookie cfg, ck_httpOnly = True\<rparr>"

section \<open>URLs\<close>

definition query_plain :: "char \<Rightarrow> bool" where
  "query_plain c \<longleftrightarrow> (let n = of_char c :: nat in
     48 \<le> n \<and> n \<le> 57 \<or> 65 \<le> n \<and> n \<le> 90 \<or> 97 \<le> n \<and> n \<le> 122 \<or> c \<in> set ''-_.~'')"

definition percent :: "char \<Rightarrow> string" where
  "percent c = [CHR ''%'', hex_upper (of_char c div 16), hex_upper (of_char c mod 16)]"

definition QueryEscape :: "string \<Rightarrow> string" where
  "QueryEscape s = concat (map (\<lambda>c. if query_plain c then [c] else if c = CHR '' '' then ''+'' else percent c) s)"

text \<open>\<open>url.Values.Encode\<close>: the parameters in the order of their keys, separated by \<open>&\<close>.\<close>

fun join_amp :: "string list \<Rightarrow> string" where
  "join_amp [] = []"
| "join_amp [s] = s"
| "join_amp (s # t # ss) = s @ ''&'' @ join_amp (t # ss)"

definition Encode :: "(string \<times> string) list \<Rightarrow> string" where
  "Encode kvs = join_amp (map (\<lambda>(k, v). QueryEscape k @ ''='' @ QueryEscape v) (sort_key fst kvs))"

definition LogoutURL :: "'x Provider \<Rightarrow> string \<Rightarrow> string \<Rightarrow> string" where
  "LogoutURL p idTokenHint postLogoutRedirect =
     (if ap_endSessionURL p = [] then []
      else ap_endSessionURL p @ ''?'' @
        Encode ([(''client_id'', ap_clientID p)]
          @ (if postLogoutRedirect \<noteq> [] then [(''post_logout_redirect_uri'', postLogoutRedirect)] else [])
          @ (if idTokenHint \<noteq> [] then [(''id_token_hint'', idTokenHint)] else [])))"

text \<open>\<open>strings.Replace\<close> of the first occurrence.\<close>

fun replace_first :: "string \<Rightarrow> string \<Rightarrow> string \<Rightarrow> string" where
  "replace_first old new [] = (if old = [] then new else [])"
| "replace_first old new (c # s) =
     (if prefix old (c # s) then new @ drop (length old) (c # s) else c # replace_first old new s)"

definition AuthCodeURL :: "'x Provider \<Rightarrow> string \<Rightarrow> string \<Rightarrow> string \<Rightarrow> bool \<Rightarrow> string \<Rightarrow> string" where
  "AuthCodeURL p state nonce pkce register idp =
     (let u = ap_authURL p state nonce pkce idp in
      if register then replace_first ''/protocol/openid-connect/auth'' ''/protocol/openid-connect/registrations'' u else u)"

section \<open>Session cookies\<close>

definition setSessionCookies :: "web_cfg \<Rightarrow> go_time \<Rightarrow> oauth_token \<Rightarrow> cookie list" where
  "setSessionCookies cfg now token =
     (let secs = (ot_Expiry token - now) div second;
          maxAge = (if secs \<le> 0 then 900 else secs)
      in [SetCookie cfg cookieAccessToken (ot_AccessToken token) maxAge]
         @ (case ot_id_token token of
              None \<Rightarrow> []
            | Some raw \<Rightarrow> if raw \<noteq> [] then [SetCookie cfg cookieIDToken raw maxAge] else [])
         @ (if ot_RefreshToken token \<noteq> []
            then [SetCookie cfg cookieRefreshToken (ot_RefreshToken token)
                    (case ot_refresh_expires_in token of
                       Some v \<Rightarrow> if v > 0 then \<lfloor>v\<rfloor> else refreshTTLFallback
                     | None \<Rightarrow> refreshTTLFallback)]
            else []))"

definition clearSessionCookies :: "web_cfg \<Rightarrow> cookie list" where
  "clearSessionCookies cfg =
     map (\<lambda>n. SetCookie cfg n [] (- 1)) [cookieAccessToken, cookieIDToken, cookieRefreshToken]"

definition upsertUser ::
  "('d, 'p, 'x) handler \<Rightarrow> go_time \<Rightarrow> Identity \<Rightarrow> ('d, 'p, 'x) app \<Rightarrow> ('d, 'p, 'x) app" where
  "upsertUser h now i a =
     (case h_db h of
        None \<Rightarrow> a
      | Some P \<Rightarrow>
          if id_Subject i = [] then a
          else snd (on_db (p_UpsertUser P now (id_Subject i) (id_Email i) (id_Name i) (Role i)) a))"

section \<open>Login and callback\<close>

text \<open>\<open>state\<close>, \<open>nonce\<close> and \<open>pkce\<close> are the random values of the request.\<close>

definition Login :: "'x Provider option \<Rightarrow> web_cfg \<Rightarrow> string \<Rightarrow> string \<Rightarrow> string \<Rightarrow> request \<Rightarrow> reply \<times> cookie list" where
  "Login auth cfg state nonce pkce rq =
     (case auth of
        None \<Rightarrow> (Json (err_resp 503 ''auth provider not configured''), [])
      | Some p \<Rightarrow>
          (Redirect (AuthCodeURL p state nonce pkce (Query rq ''screen'' = ''register'') (normalizeIDP (Query rq ''idp''))),
           [SetCookie cfg cookieOAuthState state oauthTempTTL, SetCookie cfg cookieOAuthNonce nonce oauthTempTTL,
            SetCookie cfg cookiePKCE pkce oauthTempTTL]))"

definition cookie_or_empty :: "request \<Rightarrow> string \<Rightarrow> string" where
  "cookie_or_empty rq n = (case rq_cookies rq n of None \<Rightarrow> [] | Some v \<Rightarrow> v)"

definition finish_login ::
  "('d, 'p, 'x) handler \<Rightarrow> 'x Provider \<Rightarrow> web_cfg \<Rightarrow> go_time \<Rightarrow> string \<Rightarrow> string \<Rightarrow> string \<Rightarrow> ('d, 'p, 'x) app \<Rightarrow>
   (reply \<times> cookie list) \<times> ('d, 'p, 'x) app" where
  "finish_login h p cfg now code pkce nonce a =
     (let (r, a1) = on_ext (ap_exchange p code pkce) a in
      case r of
        Inl _ \<Rightarrow> ((Json (err_resp 401 ''token exchange failed''), []), a1)
      | Inr token \<Rightarrow>
          (let (v, a2) = on_ext (VerifyIDToken p token nonce) a1 in
           case v of
             Inl _ \<Rightarrow> ((Json (err_resp 401 ''token verification failed''), []), a2)
           | Inr i \<Rightarrow>
               ((Redirect (wc_frontend_url cfg @ ''/callback''),
                 map (\<lambda>n. SetCookie cfg n [] (- 1)) [cookieOAuthState, cookieOAuthNonce, cookiePKCE]
                 @ setSessionCookies cfg now token), upsertUser h now i a2)))"

definition Callback ::
  "('d, 'p, 'x) handler \<Rightarrow> 'x Provider option \<Rightarrow> web_cfg \<Rightarrow> go_time \<Rightarrow> request \<Rightarrow> ('d, 'p, 'x) app \<Rightarrow>
   (reply \<times> cookie list) \<times> ('d, 'p, 'x) app" where
  "Callback h auth cfg now rq a =
     (case auth of
        None \<Rightarrow> ((Json (err_resp 503 ''auth provider not configured''), []), a)
      | Some p \<Rightarrow>
          if Query rq ''error'' \<noteq> [] then ((Json (err_resp 401 ''authentication failed''), []), a)
          else
            (let state = cookie_or_empty rq cookieOAuthState; pkce = cookie_or_empty rq cookiePKCE;
                 code = Query rq ''code''
             in if state = [] \<or> state \<noteq> Query rq ''state'' then ((Json (err_resp 400 ''invalid oauth state''), []), a)
                else if pkce = [] then ((Json (err_resp 400 ''missing pkce verifier''), []), a)
                else if code = [] then ((Json (err_resp 400 ''missing authorization code''), []), a)
                else finish_login h p cfg now code pkce (cookie_or_empty rq cookieOAuthNonce) a))"

section \<open>Refresh and logout\<close>

definition Refresh ::
  "('d, 'p, 'x) handler \<Rightarrow> 'x Provider option \<Rightarrow> web_cfg \<Rightarrow> go_time \<Rightarrow> request \<Rightarrow> ('d, 'p, 'x) app \<Rightarrow>
   (reply \<times> cookie list) \<times> ('d, 'p, 'x) app" where
  "Refresh h auth cfg now rq a =
     (case auth of
        None \<Rightarrow> ((Json (err_resp 503 ''auth provider not configured''), []), a)
      | Some p \<Rightarrow>
          (let refresh = cookie_or_empty rq cookieRefreshToken in
           if refresh = []
           then ((Json (code_resp 401 ''no refresh token'' ''refresh_missing''), clearSessionCookies cfg), a)
           else
             (let (r, a1) = on_ext (ap_refresh p refresh) a in
              case r of
                Inl _ \<Rightarrow> ((Json (code_resp 401 ''session expired'' ''refresh_failed''), clearSessionCookies cfg), a1)
              | Inr token \<Rightarrow>
                  (let (v, a2) = on_ext (VerifyAccessToken p (ot_AccessToken token)) a1 in
                   case v of
                     Inl _ \<Rightarrow> ((Json (code_resp 401 ''session expired'' ''refresh_failed''), clearSessionCookies cfg), a2)
                   | Inr i \<Rightarrow> ((NoContent, setSessionCookies cfg now token), upsertUser h now i a2)))))"

text \<open>\<open>parse\<close> is \<open>url.Parse\<close>: the scheme and the host of a URL, or an error.\<close>

definition logoutRedirectURL :: "(string \<Rightarrow> (string \<times> string) option) \<Rightarrow> web_cfg \<Rightarrow> request \<Rightarrow> string" where
  "logoutRedirectURL parse cfg rq =
     (let fallback = trim_slashes (wc_frontend_url cfg) @ ''/'' in
      case parse (GetHeader rq ''Referer'') of
        None \<Rightarrow> fallback
      | Some (scheme, host) \<Rightarrow>
          if scheme @ ''://'' @ host = localFrontendURL then localFrontendURL @ ''/'' else fallback)"

definition Logout ::
  "(string \<Rightarrow> (string \<times> string) option) \<Rightarrow> 'x Provider option \<Rightarrow> web_cfg \<Rightarrow> request \<Rightarrow> reply \<times> cookie list" where
  "Logout parse auth cfg rq =
     (let postLogout = logoutRedirectURL parse cfg rq;
          u = (case auth of None \<Rightarrow> [] | Some p \<Rightarrow> LogoutURL p (cookie_or_empty rq cookieIDToken) postLogout)
      in (Redirect (if u \<noteq> [] then u else postLogout), clearSessionCookies cfg))"

section \<open>Properties\<close>

lemma VerifyIDToken_Inr:
  assumes "VerifyIDToken p token nonce x = (Inr i, x')"
  shows "\<exists>raw tok c. ot_id_token token = Some raw \<and> raw \<noteq> [] \<and> fst (ap_idVerify p raw x) = Inr (nonce, tok)
    \<and> ap_claims p tok = Inr c \<and> i = identity c"
  using assms
  by (auto simp: VerifyIDToken_def Let_def split: option.splits if_splits prod.splits sum.splits)

text \<open>
  A session is handed out only to the browser that started the login: whenever the callback sets
  any session cookie, the state of the query is the non-empty one of the browser's cookie, the code
  was redeemed with the PKCE verifier of that browser, and the ID token that came back was verified,
  carries the nonce of that browser and readable claims; the cookies are those of the token that was
  redeemed, HTTP-only and, in release mode, secure, and the browser is sent to the frontend.
\<close>

theorem callback_binds_session_to_browser:
  assumes "Callback h auth cfg now rq a = ((out, cookies), a')"
    and "c \<in> set cookies" and "ck_name c \<in> {cookieAccessToken, cookieIDToken, cookieRefreshToken}"
  shows "\<exists>p token raw tok cl x.
      auth = Some p \<and> Query rq ''state'' \<noteq> [] \<and> rq_cookies rq cookieOAuthState = Some (Query rq ''state'')
    \<and> fst (ap_exchange p (Query rq ''code'') (cookie_or_empty rq cookiePKCE) (a_ext a)) = Inr token
    \<and> cookie_or_empty rq cookiePKCE \<noteq> []
    \<and> ot_id_token token = Some raw \<and> fst (ap_idVerify p raw x) = Inr (cookie_or_empty rq cookieOAuthNonce, tok)
    \<and> ap_claims p tok = Inr cl
    \<and> c \<in> set (setSessionCookies cfg now token) \<and> ck_httpOnly c \<and> ck_secure c = (wc_mode cfg = ''release'')
    \<and> out = Redirect (wc_frontend_url cfg @ ''/callback'')"
proof -
  let ?state = "cookie_or_empty rq cookieOAuthState" and ?pkce = "cookie_or_empty rq cookiePKCE"
    and ?nonce = "cookie_or_empty rq cookieOAuthNonce"
  obtain p where p: "auth = Some p" and st: "?state \<noteq> []" "?state = Query rq ''state''" and pk: "?pkce \<noteq> []"
    and fin: "finish_login h p cfg now (Query rq ''code'') ?pkce ?nonce a = ((out, cookies), a')"
    using assms(1,2) by (auto simp: Callback_def Let_def split: option.splits if_splits)
  obtain r a1 where ex: "on_ext (ap_exchange p (Query rq ''code'') ?pkce) a = (r, a1)" by fastforce
  with fin assms(2) obtain token where token: "r = Inr token" by (cases r) (auto simp: finish_login_def)
  obtain v a2 where ver: "on_ext (VerifyIDToken p token ?nonce) a1 = (v, a2)" by fastforce
  with fin assms(2) ex token obtain i where i: "v = Inr i" by (cases v) (auto simp: finish_login_def)
  obtain x' where "VerifyIDToken p token ?nonce (a_ext a1) = (Inr i, x')"
    using ver i by (auto simp: on_ext_def split: prod.splits)
  from VerifyIDToken_Inr [OF this] obtain raw tok cl where id: "ot_id_token token = Some raw"
    "fst (ap_idVerify p raw (a_ext a1)) = Inr (?nonce, tok)" "ap_claims p tok = Inr cl" by blast
  have out: "out = Redirect (wc_frontend_url cfg @ ''/callback'')"
    and cs: "c \<in> set (setSessionCookies cfg now token)"
    using fin ex token ver i assms(2,3) by (auto simp: finish_login_def SetCookie_def cookie_names)
  have "ck_httpOnly c \<and> ck_secure c = (wc_mode cfg = ''release'')"
    using cs by (auto simp: setSessionCookies_def SetCookie_def secureCookie_def Let_def split: option.splits if_splits)
  moreover have "fst (ap_exchange p (Query rq ''code'') ?pkce (a_ext a)) = Inr token"
    using ex token by (auto simp: on_ext_def split: prod.splits)
  moreover have "rq_cookies rq cookieOAuthState = Some (Query rq ''state'')"
    using st by (auto simp: cookie_or_empty_def split: option.splits)
  ultimately show ?thesis using p st pk id out cs by metis
qed

definition demo_token :: oauth_token where
  "demo_token = \<lparr>ot_AccessToken = ''at'', ot_RefreshToken = ''rt'', ot_Expiry = 60 * second, ot_id_token = Some ''idt'',
     ot_refresh_expires_in = None\<rparr>"

definition demo_claims :: claims where
  "demo_claims = \<lparr>cl_sub = ''u1'', cl_email = ''a@x'', cl_name = [], cl_preferred_username = ''alice'',
     cl_groups = [''/org-kt''], cl_roles = [''student'']\<rparr>"

definition demo_auth :: "unit Provider" where
  "demo_auth = \<lparr>ap_accessVerify = (\<lambda>t x. (if t = ''at'' then Inr ''tok'' else Inl ''bad'', x)),
     ap_idVerify = (\<lambda>t x. (Inr (''n1'', ''tok''), x)), ap_claims = (\<lambda>_. Inr demo_claims),
     ap_exchange = (\<lambda>code v x. (if v = ''v1'' then Inr demo_token else Inl ''pkce'', x)),
     ap_refresh = (\<lambda>r x. (Inl ''no'', x)), ap_authURL = (\<lambda>_ _ _ _. ''https://kc/auth''), ap_clientID = ''web'',
     ap_endSessionURL = ''https://kc/logout''\<rparr>"

definition demo_web :: web_cfg where
  "demo_web = \<lparr>wc_mode = ''release'', wc_cookie_domain = ''.cledyu.com'', wc_frontend_url = ''https://app.cledyu.com''\<rparr>"

definition demo_callback :: request where
  "demo_callback = \<lparr>rq_cookies = [''oauth_state'' \<mapsto> ''s1'', ''oauth_nonce'' \<mapsto> ''n1'', ''oauth_pkce'' \<mapsto> ''v1''],
     rq_headers = Map.empty, rq_query = [''state'' \<mapsto> ''s1'', ''code'' \<mapsto> ''c1'']\<rparr>"

theorem callback_binds_session_to_browser_witness:
  "\<exists>out cookies a'. Callback board_handler (Some demo_auth) demo_web 0 demo_callback board_app = ((out, cookies), a')
     \<and> SetCookie demo_web cookieAccessToken ''at'' 60 \<in> set cookies
     \<and> rq_cookies demo_callback cookieOAuthState = Some (Query demo_callback ''state'')
     \<and> out = Redirect ''https://app.cledyu.com/callback''"
proof -
  let ?c = "SetCookie demo_web cookieAccessToken ''at'' 60"
  obtain out cookies a' where run: "Callback board_handler (Some demo_auth) demo_web 0 demo_callback board_app = ((out, cookies), a')"
    by (metis surj_pair)
  then have c: "?c \<in> set cookies"
    by (auto simp: Callback_def finish_login_def demo_auth_def demo_callback_def demo_token_def Query_def cookie_or_empty_def
        cookie_names on_ext_def VerifyIDToken_def setSessionCookies_def second_def)
  have "ck_name ?c \<in> {cookieAccessToken, cookieIDToken, cookieRefreshToken}" by (simp add: SetCookie_def)
  from callback_binds_session_to_browser [OF run c this] run c show ?thesis by (auto simp: demo_web_def)
qed

text \<open>
  Logging out never sends the browser anywhere but home: whatever the Referer header and the
  cookies of the request are, the target is the frontend, the local development frontend, or the
  end-session endpoint of Keycloak with one of these two as the only return address; and all three
  session cookies are expired.
\<close>

theorem logout_redirects_only_home:
  "let home = {localFrontendURL @ ''/'', trim_slashes (wc_frontend_url cfg) @ ''/''} in
   \<exists>target cookies. Logout parse auth cfg rq = (Redirect target, cookies)
    \<and> (target \<in> home \<or> (\<exists>p hint post. auth = Some p \<and> post \<in> home \<and> target = LogoutURL p hint post
         \<and> prefix (ap_endSessionURL p @ ''?'') target))
    \<and> (\<forall>n\<in>{cookieAccessToken, cookieIDToken, cookieRefreshToken}. SetCookie cfg n [] (- 1) \<in> set cookies)"
proof -
  let ?post = "logoutRedirectURL parse cfg rq"
  have home: "?post \<in> {localFrontendURL @ ''/'', trim_slashes (wc_frontend_url cfg) @ ''/''}"
    by (auto simp: logoutRedirectURL_def Let_def split: option.splits)
  show ?thesis
  proof (cases "\<exists>p. auth = Some p \<and> ap_endSessionURL p \<noteq> []")
    case True
    then obtain p where p: "auth = Some p" "ap_endSessionURL p \<noteq> []" by blast
    let ?u = "LogoutURL p (cookie_or_empty rq cookieIDToken) ?post"
    have u: "?u \<noteq> []" "prefix (ap_endSessionURL p @ ''?'') ?u" using p(2) by (auto simp: LogoutURL_def)
    have "Logout parse auth cfg rq = (Redirect ?u, clearSessionCookies cfg)"
      using p u by (simp add: Logout_def Let_def)
    moreover have "\<forall>n\<in>{cookieAccessToken, cookieIDToken, cookieRefreshToken}. SetCookie cfg n [] (- 1) \<in> set (clearSessionCookies cfg)"
      by (simp add: clearSessionCookies_def)
    ultimately show ?thesis unfolding Let_def using p home u(2) by blast
  next
    case False
    then have "(case auth of None \<Rightarrow> [] | Some p \<Rightarrow> LogoutURL p (cookie_or_empty rq cookieIDToken) ?post) = []"
      by (auto simp: LogoutURL_def split: option.splits)
    then show ?thesis using home by (simp add: Logout_def Let_def clearSessionCookies_def)
  qed
qed

end
