(* ===== verification/Vm_Files.thy ===== *)
theory Vm_Files
  imports App
begin

text \<open>
  Reading the files of a session machine: paths and listings
  (\<open>src/apps/api/internal/vmfiles/snapshot.go\<close>), the service with its limit of concurrent work
  (\<open>service.go\<close>), the restricted SSH runner (\<open>ssh_runner.go\<close>) and the handlers of \<open>vm_files.go\<close>.

  The learner is root on the machine, so everything that comes back from it is untrusted. The SSH
  library and the strict JSON decoder are arguments. Requests for the same session that arrive
  together share one listing in the source; here every request is served on its own.
\<close>

section \<open>Paths\<close>

fun split_on :: "char \<Rightarrow> string \<Rightarrow> string list" where
  "split_on c [] = [[]]"
| "split_on c (d # s) =
     (if d = c then [] # split_on c s
      else (case split_on c s of [] \<Rightarrow> [[d]] | w # ws \<Rightarrow> (d # w) # ws))"

fun join_with :: "char \<Rightarrow> string list \<Rightarrow> string" where
  "join_with c [] = []"
| "join_with c [w] = w"
| "join_with c (w # u # ws) = w @ c # join_with c (u # ws)"

text \<open>\<open>path.Clean\<close>, on the segments: the kept ones are collected in reverse.\<close>

fun clean_segs :: "bool \<Rightarrow> string list \<Rightarrow> string list \<Rightarrow> string list" where
  "clean_segs rooted acc [] = rev acc"
| "clean_segs rooted acc (s # ss) =
     (if s = [] \<or> s = ''.'' then clean_segs rooted acc ss
      else if s = ''..''
      then (case acc of
              [] \<Rightarrow> clean_segs rooted (if rooted then [] else [s]) ss
            | t # ts \<Rightarrow> if t = ''..'' then clean_segs rooted (s # acc) ss else clean_segs rooted ts ss)
      else clean_segs rooted (s # acc) ss)"

definition IsAbs :: "string \<Rightarrow> bool" where
  "IsAbs p \<longleftrightarrow> has_prefix p ''/''"

definition Clean :: "string \<Rightarrow> string" where
  "Clean p =
     (let out = join_with CHR ''/'' (clean_segs (IsAbs p) [] (split_on CHR ''/'' p)) in
      if IsAbs p then CHR ''/'' # out else if out = [] then ''.'' else out)"

text \<open>\<open>path.Base\<close>\<close>

definition Base :: "string \<Rightarrow> string" where
  "Base p =
     (if p = [] then ''.''
      else (let q = rev (dropWhile (\<lambda>c. c = CHR ''/'') (rev p)) in
            if q = [] then ''/'' else last (split_on CHR ''/'' q)))"

text \<open>A control character, as its UTF-8 encoding: U+0000 to U+001F, U+007F, and U+0080 to U+009F.\<close>

fun has_control :: "string \<Rightarrow> bool" where
  "has_control [] = False"
| "has_control (c # s) =
     (let n = of_char c :: nat in
      n < 32 \<or> n = 127 \<or>
      n = 194 \<and> (case s of [] \<Rightarrow> False | d # _ \<Rightarrow> 128 \<le> (of_char d :: nat) \<and> (of_char d :: nat) < 160) \<or>
      has_control s)"

datatype snap_err =
    TooLarge | BadJson string | WrongRoot string | TooManyEntries nat
  | UnsupportedType string | UnsafePath string | UnsafeSegment string | DepthMismatch int string | NameMismatch string string

definition bad_segment :: "string \<Rightarrow> bool" where
  "bad_segment s \<longleftrightarrow> s = [] \<or> has_prefix s ''.'' \<or> has_control s"

definition validateRelativePath :: "string \<Rightarrow> snap_err + string list" where
  "validateRelativePath p =
     (if p = [] \<or> IsAbs p \<or> Clean p \<noteq> p then Inl (UnsafePath p)
      else if CHR 0x5C \<in> set p then Inl (UnsafePath p)
      else
        (let segments = split_on CHR ''/'' p in
         case find bad_segment segments of
           Some s \<Rightarrow> Inl (UnsafeSegment s)
         | None \<Rightarrow> Inr segments))"

section \<open>Listings\<close>

definition RootPath :: string where "RootPath = ''/home/lab''"

definition MaxDepth :: nat where "MaxDepth = 4"

definition MaxEntries :: nat where "MaxEntries = 500"

definition MaxPayloadBytes :: int where "MaxPayloadBytes = 256 * 1024"

definition MaxReadPayloadBytes :: int where "MaxReadPayloadBytes = 1024 * 1024"

record Entry =
  en_path :: string
  en_name :: string
  en_type :: string
  en_depth :: int

record Snapshot =
  sn_root :: string
  sn_items :: "Entry list"
  sn_truncated :: bool

definition validateEntry :: "Entry \<Rightarrow> snap_err option" where
  "validateEntry e =
     (if en_type e \<noteq> ''file'' \<and> en_type e \<noteq> ''directory'' then Some (UnsupportedType (en_type e))
      else
        (case validateRelativePath (en_path e) of
           Inl x \<Rightarrow> Some x
         | Inr segments \<Rightarrow>
             if length segments > MaxDepth \<or> en_depth e \<noteq> int (length segments)
             then Some (DepthMismatch (en_depth e) (en_path e))
             else if en_name e \<noteq> Base (en_path e) then Some (NameMismatch (en_name e) (en_path e))
             else None))"

fun first_error :: "('a \<Rightarrow> 'e option) \<Rightarrow> 'a list \<Rightarrow> 'e option" where
  "first_error f [] = None"
| "first_error f (x # xs) = (case f x of Some e \<Rightarrow> Some e | None \<Rightarrow> first_error f xs)"

text \<open>
  \<open>decode\<close> is the strict decoder with the check that nothing follows; a missing or null list of items
  decodes as the empty one. Items with equal paths may come in any order from \<open>sort.Slice\<close>; the
  stable order is taken.
\<close>

definition ParseSnapshot :: "(string \<Rightarrow> string + Snapshot) \<Rightarrow> string \<Rightarrow> snap_err + Snapshot" where
  "ParseSnapshot decode raw =
     (if int (length raw) > MaxPayloadBytes then Inl TooLarge
      else
        (case decode raw of
           Inl e \<Rightarrow> Inl (BadJson e)
         | Inr s \<Rightarrow>
             if sn_root s \<noteq> RootPath then Inl (WrongRoot (sn_root s))
             else if length (sn_items s) > MaxEntries then Inl (TooManyEntries (length (sn_items s)))
             else
               (case first_error validateEntry (sn_items s) of
                  Some e \<Rightarrow> Inl e
                | None \<Rightarrow> Inr (s\<lparr>sn_items := sort_key en_path (sn_items s)\<rparr>))))"

section \<open>The SSH runner\<close>

text \<open>
  \<open>ssh\<close> connects to the machine of a session and starts one command there: it fails, or gives what the
  command writes and the error of waiting for it. The reader stops one byte after the limit.
\<close>

type_synonym 'v ssh = "string \<Rightarrow> string \<Rightarrow> 'v \<Rightarrow> (string + string \<times> string option) \<times> 'v"

definition fixedListCommand :: string where "fixedListCommand = ''list''"

datatype vf_err = ErrBusy | ErrFileNotListed | VfOther string | VfSnapshot snap_err

definition runCommand_ssh :: "'v ssh \<Rightarrow> string \<Rightarrow> string \<Rightarrow> int \<Rightarrow> 'v \<Rightarrow> (vf_err + string) \<times> 'v" where
  "runCommand_ssh ssh sid command outputLimit v =
     (let (r, v1) = ssh sid command v in
      (case r of
         Inl e \<Rightarrow> Inl (VfOther e)
       | Inr (stdout, wait) \<Rightarrow>
           (let output = List.take (nat outputLimit + 1) stdout in
            if int (length output) > outputLimit
            then Inl (VfOther (''VM file-list output exceeds '' @ Itoa outputLimit @ '' bytes''))
            else (case wait of
                    Some e \<Rightarrow> Inl (VfOther (''wait for VM file-list command: '' @ e))
                  | None \<Rightarrow> Inr output)), v1))"

definition readCommand :: "string \<Rightarrow> vf_err + string" where
  "readCommand p =
     (case validateRelativePath p of
        Inl _ \<Rightarrow> Inl (VfOther (''unsafe VM file read path '' @ p))
      | Inr _ \<Rightarrow> Inr (''read '' @ p))"

definition runner_Run :: "'v ssh \<Rightarrow> string \<Rightarrow> 'v \<Rightarrow> (vf_err + string) \<times> 'v" where
  "runner_Run ssh sid = runCommand_ssh ssh sid fixedListCommand MaxPayloadBytes"

definition runner_Read :: "'v ssh \<Rightarrow> string \<Rightarrow> string \<Rightarrow> 'v \<Rightarrow> (vf_err + string) \<times> 'v" where
  "runner_Read ssh sid p v =
     (case readCommand p of
        Inl e \<Rightarrow> (Inl e, v)
      | Inr command \<Rightarrow> runCommand_ssh ssh sid command MaxReadPayloadBytes v)"

section \<open>The service\<close>

text \<open>The slots in use, and the rest of the outside.\<close>

record 'v vmf =
  vf_used :: nat
  vf_rest :: 'v

record file_service =
  fs_timeout :: duration
  fs_limit :: nat

definition NewService :: "duration \<Rightarrow> int \<Rightarrow> file_service" where
  "NewService timeout maxConcurrent =
     \<lparr>fs_timeout = (if timeout \<le> 0 then 5 * second else timeout),
      fs_limit = (if maxConcurrent \<le> 0 then 1 else nat maxConcurrent)\<rparr>"

definition with_slot ::
  "file_service \<Rightarrow> ('v \<Rightarrow> (vf_err + 'r) \<times> 'v) \<Rightarrow> 'v vmf \<Rightarrow> (vf_err + 'r) \<times> 'v vmf" where
  "with_slot s f v =
     (if vf_used v < fs_limit s
      then (let v1 = v\<lparr>vf_used := Suc (vf_used v)\<rparr>; (r, rest) = f (vf_rest v1)
            in (r, v1\<lparr>vf_rest := rest, vf_used := vf_used v1 - 1\<rparr>))
      else (Inl ErrBusy, v))"

definition list_work ::
  "(string \<Rightarrow> string + Snapshot) \<Rightarrow> 'v ssh \<Rightarrow> string \<Rightarrow> 'v \<Rightarrow> (vf_err + Snapshot) \<times> 'v" where
  "list_work decode ssh sid v =
     (let (r, v1) = runner_Run ssh sid v in
      (case r of
         Inl e \<Rightarrow> Inl e
       | Inr raw \<Rightarrow> (case ParseSnapshot decode raw of Inl e \<Rightarrow> Inl (VfSnapshot e) | Inr s \<Rightarrow> Inr s), v1))"

definition service_List ::
  "file_service \<Rightarrow> (string \<Rightarrow> string + Snapshot) \<Rightarrow> 'v ssh \<Rightarrow> string \<Rightarrow> 'v vmf \<Rightarrow> (vf_err + Snapshot) \<times> 'v vmf" where
  "service_List s decode ssh sid v =
     (if sid = [] then (Inl (VfOther ''session ID is required''), v)
      else with_slot s (list_work decode ssh sid) v)"

fun snapshotContainsFile :: "Entry list \<Rightarrow> string \<Rightarrow> bool" where
  "snapshotContainsFile [] p = False"
| "snapshotContainsFile (e # es) p = (en_path e = p \<and> en_type e = ''file'' \<or> snapshotContainsFile es p)"

definition service_Read ::
  "file_service \<Rightarrow> (string \<Rightarrow> string + Snapshot) \<Rightarrow> 'v ssh \<Rightarrow> string \<Rightarrow> string \<Rightarrow> 'v vmf \<Rightarrow> (vf_err + string) \<times> 'v vmf" where
  "service_Read s decode ssh sid p v =
     (let (r, v1) = service_List s decode ssh sid v in
      case r of
        Inl e \<Rightarrow> (Inl e, v1)
      | Inr snapshot \<Rightarrow>
          if \<not> snapshotContainsFile (sn_items snapshot) p then (Inl ErrFileNotListed, v1)
          else with_slot s (runner_Read ssh sid p) v1)"

section \<open>The handlers\<close>

record FilePreview =
  fp_path :: string
  fp_content :: string
  fp_truncated :: bool

record 'x vm_files =
  vm_List :: "string \<Rightarrow> 'x \<Rightarrow> (vf_err + Snapshot) \<times> 'x"
  vm_Read :: "string \<Rightarrow> string \<Rightarrow> 'x \<Rightarrow> (vf_err + string) \<times> 'x"

definition service_files :: "file_service \<Rightarrow> (string \<Rightarrow> string + Snapshot) \<Rightarrow> 'v ssh \<Rightarrow> 'v vmf vm_files" where
  "service_files s decode ssh = \<lparr>vm_List = service_List s decode ssh, vm_Read = service_Read s decode ssh\<rparr>"

definition handleVMFileError :: "vf_err \<Rightarrow> resp" where
  "handleVMFileError e =
     (case e of
        ErrBusy \<Rightarrow> err_resp 429 ''VM file access is busy''
      | ErrFileNotListed \<Rightarrow> err_resp 404 ''file not found''
      | _ \<Rightarrow> err_resp 502 ''VM file access failed'')"

definition readyFileSession ::
  "('d, 'p, 'x) handler \<Rightarrow> 'x vm_files option \<Rightarrow> go_time \<Rightarrow> string \<Rightarrow> string \<Rightarrow> ('d, 'p, 'x) app \<Rightarrow>
   (resp + Session) \<times> ('d, 'p, 'x) app" where
  "readyFileSession h vmf now sid uid a =
     (case h_sessions h of
        None \<Rightarrow> (Inl (err_resp 503 ''kubevirt not configured''), a)
      | Some P \<Rightarrow>
          if vmf = None then (Inl (err_resp 503 ''VM file access is not configured''), a)
          else
            (let (r, a1) = on_prov (pv_Get P now sid) a in
             (case r of
                Inl e \<Rightarrow> Inl (if is_not_found e then not_found else err_resp 500 ''get session failed'')
              | Inr s \<Rightarrow>
                  (case denyIfNotSessionOwner uid s of
                     Some resp \<Rightarrow> Inl resp
                   | None \<Rightarrow>
                       if s_Provider s \<noteq> [] \<and> s_Provider s \<noteq> ProviderKubeVirt
                       then Inl (err_resp 409 ''VM file access is only available for KubeVirt sessions'')
                       else if s_Status s \<noteq> ''ready'' then Inl (err_resp 409 ''session is not ready'')
                       else Inr s), a1)))"

definition entry_json :: "Entry \<Rightarrow> json" where
  "entry_json e = JObj [(''path'', JStr (en_path e)), (''name'', JStr (en_name e)), (''type'', JStr (en_type e)),
     (''depth'', JInt (en_depth e))]"

definition snapshot_json :: "Snapshot \<Rightarrow> json" where
  "snapshot_json s = JObj [(''root'', JStr (sn_root s)), (''items'', JArr (map entry_json (sn_items s))),
     (''truncated'', JBool (sn_truncated s))]"

definition ListSessionFiles ::
  "('d, 'p, 'x) handler \<Rightarrow> 'x vm_files option \<Rightarrow> go_time \<Rightarrow> string \<Rightarrow> string \<Rightarrow> ('d, 'p, 'x) app \<Rightarrow> resp \<times> ('d, 'p, 'x) app" where
  "ListSessionFiles h vmf now sid uid a =
     (let (r, a1) = readyFileSession h vmf now sid uid a in
      case r of
        Inl resp \<Rightarrow> (resp, a1)
      | Inr s \<Rightarrow>
          (let (x, a2) = on_ext (vm_List (the vmf) (s_ID s)) a1 in
           (case x of Inl e \<Rightarrow> handleVMFileError e | Inr snap \<Rightarrow> Resp 200 (snapshot_json snap), a2)))"

text \<open>\<open>decode\<close> is the strict decoder of the preview.\<close>

definition parseFilePreview :: "(string \<Rightarrow> string + FilePreview) \<Rightarrow> string \<Rightarrow> string \<Rightarrow> string + FilePreview" where
  "parseFilePreview decode raw requestedPath =
     (case decode raw of
        Inl e \<Rightarrow> Inl (''decode file preview: '' @ e)
      | Inr p \<Rightarrow>
          if fp_path p = [] \<or> fp_path p \<noteq> requestedPath then Inl ''preview path does not match requested path''
          else Inr p)"

definition preview_json :: "FilePreview \<Rightarrow> json" where
  "preview_json p = JObj [(''path'', JStr (fp_path p)), (''content'', JStr (fp_content p)), (''truncated'', JBool (fp_truncated p))]"

definition PreviewSessionFile ::
  "('d, 'p, 'x) handler \<Rightarrow> 'x vm_files option \<Rightarrow> (string \<Rightarrow> string + FilePreview) \<Rightarrow> go_time \<Rightarrow> string \<Rightarrow> string \<Rightarrow> string \<Rightarrow>
   ('d, 'p, 'x) app \<Rightarrow> resp \<times> ('d, 'p, 'x) app" where
  "PreviewSessionFile h vmf decode now sid p uid a =
     (let (r, a1) = readyFileSession h vmf now sid uid a in
      case r of
        Inl resp \<Rightarrow> (resp, a1)
      | Inr s \<Rightarrow>
          if p = [] then (err_resp 400 ''file path is required'', a1)
          else
            (let (x, a2) = on_ext (vm_Read (the vmf) (s_ID s) p) a1 in
             (case x of
                Inl e \<Rightarrow> handleVMFileError e
              | Inr raw \<Rightarrow>
                  (case parseFilePreview decode raw p of
                     Inl _ \<Rightarrow> err_resp 502 ''preview VM session file failed''
                   | Inr preview \<Rightarrow> Resp 200 (preview_json preview)), a2)))"

section \<open>Safe paths\<close>

lemma split_on_not_Nil [simp]: "split_on c s \<noteq> []"
  by (cases s) (auto split: list.splits)

lemma join_split: "join_with c (split_on c s) = s"
proof (induction s)
  case (Cons d s)
  obtain w ws where "split_on c s = w # ws" by (cases "split_on c s") simp_all
  then show ?case using Cons by (cases ws) auto
qed simp

lemma split_on_pieces: "w \<in> set (split_on c s) \<Longrightarrow> c \<notin> set w"
  by (induction s arbitrary: w) (auto split: if_splits list.splits)

lemma split_on_plain: "c \<notin> set w \<Longrightarrow> split_on c w = [w]"
  by (induction w) auto

lemma split_on_append: "c \<notin> set w \<Longrightarrow> split_on c (w @ c # s) = w # split_on c s"
  by (induction w) auto

lemma split_join: "ws \<noteq> [] \<Longrightarrow> (\<And>w. w \<in> set ws \<Longrightarrow> c \<notin> set w) \<Longrightarrow> split_on c (join_with c ws) = ws"
  by (induction c ws rule: join_with.induct) (auto simp: split_on_plain split_on_append)

lemma split_on_sep: "split_on c (s @ [c]) = split_on c s @ [[]]"
  by (induction s) (auto split: list.splits)

lemma bad_segment_kept: "\<not> bad_segment s \<Longrightarrow> s \<noteq> [] \<and> s \<noteq> ''.'' \<and> s \<noteq> ''..''"
  by (auto simp: bad_segment_def has_prefix_def)

lemma clean_segs_good: "list_all (\<lambda>s. \<not> bad_segment s) ss \<Longrightarrow> clean_segs b acc ss = rev acc @ ss"
  by (induction ss arbitrary: acc) (auto dest: bad_segment_kept)

lemma good_not_abs: "list_all (\<lambda>s. \<not> bad_segment s) (split_on CHR ''/'' p) \<Longrightarrow> p \<noteq> [] \<and> \<not> IsAbs p"
  by (cases p) (auto simp: IsAbs_def has_prefix_def bad_segment_def)

lemma good_clean: "list_all (\<lambda>s. \<not> bad_segment s) (split_on CHR ''/'' p) \<Longrightarrow> Clean p = p"
  using good_not_abs [of p] by (simp add: Clean_def clean_segs_good join_split)

lemma good_Base:
  assumes "list_all (\<lambda>s. \<not> bad_segment s) (split_on CHR ''/'' p)"
  shows "Base p = last (split_on CHR ''/'' p)"
proof (cases p rule: rev_cases)
  case (snoc q d)
  have "\<not> bad_segment (last (split_on CHR ''/'' p))"
    using assms by (simp add: list_all_iff)
  then have "d \<noteq> CHR ''/''"
    using snoc by (auto simp: split_on_sep bad_segment_def)
  then show ?thesis using snoc by (simp add: Base_def)
qed (use assms in \<open>simp add: bad_segment_def\<close>)

text \<open>
  The paths that \<open>validateRelativePath\<close> accepts are exactly those without a backslash whose
  segments between slashes are all non-empty, do not start with a dot and hold no control character:
  the tests for absolute and unclean paths reject nothing more. The result lists these segments, and
  joining them gives back the path.
\<close>

theorem validateRelativePath_reference:
  "validateRelativePath p = Inr segments \<longleftrightarrow>
     p = join_with CHR ''/'' segments \<and> segments \<noteq> [] \<and> CHR 0x5C \<notin> set p \<and>
     list_all (\<lambda>s. s \<noteq> [] \<and> CHR ''/'' \<notin> set s \<and> hd s \<noteq> CHR ''.'' \<and> \<not> has_control s) segments"
  (is "?l \<longleftrightarrow> ?r")
proof -
  have bad: "bad_segment s \<longleftrightarrow> \<not> (s \<noteq> [] \<and> hd s \<noteq> CHR ''.'' \<and> \<not> has_control s)" for s
    by (cases s) (auto simp: bad_segment_def has_prefix_def)
  have l: "?l \<longleftrightarrow> segments = split_on CHR ''/'' p \<and> CHR 0x5C \<notin> set p \<and> list_all (\<lambda>s. \<not> bad_segment s) segments"
  proof (cases "find bad_segment (split_on CHR ''/'' p)")
    case None
    then have "list_all (\<lambda>s. \<not> bad_segment s) (split_on CHR ''/'' p)"
      by (simp add: find_None_iff list_all_iff)
    then show ?thesis
      using good_not_abs [of p] good_clean [of p] None by (auto simp: validateRelativePath_def)
  next
    case (Some s)
    then have "\<not> list_all (\<lambda>s. \<not> bad_segment s) (split_on CHR ''/'' p)"
      by (auto simp: find_Some_iff list_all_length)
    then show ?thesis using Some by (auto simp: validateRelativePath_def)
  qed
  show ?thesis
  proof
    assume ?l
    then show ?r
      unfolding l by (auto simp: join_split list_all_iff bad dest: split_on_pieces)
  next
    assume r: ?r
    then have "split_on CHR ''/'' p = segments"
      by (auto simp: list_all_iff intro: split_join)
    then show ?l
      using r unfolding l by (auto simp: list_all_iff bad)
  qed
qed

section \<open>Listings from an untrusted machine\<close>

definition safe_entry :: "Entry \<Rightarrow> bool" where
  "safe_entry e \<longleftrightarrow>
     en_type e \<in> {''file'', ''directory''} \<and>
     (\<exists>segments. validateRelativePath (en_path e) = Inr segments \<and>
        en_depth e = int (length segments) \<and> length segments \<le> MaxDepth \<and> en_name e = last segments)"

lemma validateRelativePath_InrD:
  assumes "validateRelativePath p = Inr segments"
  shows "segments = split_on CHR ''/'' p" "list_all (\<lambda>s. \<not> bad_segment s) segments" "CHR 0x5C \<notin> set p"
  using assms
  by (auto simp: validateRelativePath_def Let_def find_None_iff list_all_iff split: if_splits option.splits)

lemma validateEntry_safe: "validateEntry e = None \<longleftrightarrow> safe_entry e"
proof (cases "validateRelativePath (en_path e)")
  case (Inr segments)
  then have "Base (en_path e) = last segments"
    using validateRelativePath_InrD good_Base by metis
  then show ?thesis using Inr by (auto simp: validateEntry_def safe_entry_def)
qed (auto simp: validateEntry_def safe_entry_def)

lemma first_error_None: "first_error f xs = None \<longleftrightarrow> (\<forall>x\<in>set xs. f x = None)"
  by (induction xs) (auto split: option.splits)

lemma ParseSnapshot_InrE:
  assumes "ParseSnapshot decode raw = Inr s"
  obtains s0 where "decode raw = Inr s0" "s = s0\<lparr>sn_items := sort_key en_path (sn_items s0)\<rparr>"
    "sn_root s0 = RootPath" "length (sn_items s0) \<le> MaxEntries" "\<forall>e\<in>set (sn_items s0). safe_entry e"
    "int (length raw) \<le> MaxPayloadBytes"
  using assms
  by (auto simp: ParseSnapshot_def first_error_None validateEntry_safe split: if_splits sum.splits option.splits)

lemma safe_entryD:
  assumes "safe_entry e"
  shows "en_type e \<in> {''file'', ''directory''} \<and> 1 \<le> en_depth e \<and> en_depth e \<le> 4 \<and>
    (let segments = split_on CHR ''/'' (en_path e) in
     en_depth e = int (length segments) \<and> en_name e = last segments \<and>
     (\<forall>w\<in>set segments. w \<noteq> [] \<and> hd w \<noteq> CHR ''.'' \<and> \<not> has_control w))"
proof -
  obtain segments where s: "validateRelativePath (en_path e) = Inr segments"
    "en_depth e = int (length segments)" "length segments \<le> MaxDepth" "en_name e = last segments"
    and ty: "en_type e \<in> {''file'', ''directory''}"
    using assms by (auto simp: safe_entry_def)
  have good: "w \<noteq> [] \<and> hd w \<noteq> CHR ''.'' \<and> \<not> has_control w" if "w \<in> set segments" for w
    using validateRelativePath_InrD(2) [OF s(1)] that
    by (cases w) (auto simp: list_all_iff bad_segment_def has_prefix_def)
  have "split_on CHR ''/'' (en_path e) = segments"
    using validateRelativePath_InrD(1) [OF s(1)] by simp
  moreover from this [symmetric] have "Suc 0 \<le> length segments"
    by (simp add: Suc_le_eq)
  ultimately show ?thesis using s(2-4) ty good by (auto simp: MaxDepth_def)
qed

text \<open>
  C30. Whatever a machine under the control of its learner answers, a listing that passes
  \<open>ParseSnapshot\<close> is rooted at the home directory of the lab, holds at most 500 entries, sorted by
  path and with nothing added or lost, each of them a file or a directory one to four levels deep
  whose path has only visible segments without control characters, and whose depth and name are those
  of its path.
\<close>

theorem snapshot_bounded:
  assumes "ParseSnapshot decode raw = Inr s"
  shows "length raw \<le> 262144 \<and> sn_root s = ''/home/lab'' \<and> length (sn_items s) \<le> 500 \<and>
    sorted (map en_path (sn_items s)) \<and>
    (\<exists>s0. decode raw = Inr s0 \<and> mset (sn_items s) = mset (sn_items s0) \<and> sn_truncated s = sn_truncated s0) \<and>
    (\<forall>e\<in>set (sn_items s). en_type e \<in> {''file'', ''directory''} \<and> 1 \<le> en_depth e \<and> en_depth e \<le> 4 \<and>
       (let segments = split_on CHR ''/'' (en_path e) in
        en_depth e = int (length segments) \<and> en_name e = last segments \<and>
        (\<forall>w\<in>set segments. w \<noteq> [] \<and> hd w \<noteq> CHR ''.'' \<and> \<not> has_control w)))"
proof -
  show ?thesis
    using assms
    by (rule ParseSnapshot_InrE) (use safe_entryD in \<open>auto simp: RootPath_def MaxEntries_def MaxPayloadBytes_def\<close>)
qed

text \<open>Two entries out of order, as the decoder gives them.\<close>

definition demo_snapshot :: Snapshot where
  "demo_snapshot = \<lparr>sn_root = ''/home/lab'',
     sn_items = [\<lparr>en_path = ''work/app.log'', en_name = ''app.log'', en_type = ''file'', en_depth = 2\<rparr>,
                 \<lparr>en_path = ''work'', en_name = ''work'', en_type = ''directory'', en_depth = 1\<rparr>],
     sn_truncated = False\<rparr>"

lemma demo_snapshot_parsed:
  "ParseSnapshot (\<lambda>_. Inr demo_snapshot) ''{}'' = Inr (demo_snapshot\<lparr>sn_items := rev (sn_items demo_snapshot)\<rparr>)"
  by code_simp

theorem snapshot_bounded_witness:
  "map en_path (sn_items (demo_snapshot\<lparr>sn_items := rev (sn_items demo_snapshot)\<rparr>)) = [''work'', ''work/app.log''] \<and>
   sorted [''work'', ''work/app.log'']"
  using snapshot_bounded [OF demo_snapshot_parsed] by (simp add: demo_snapshot_def)

section \<open>What reaches the machine\<close>

text \<open>The commands started on machines, in a log beside the state.\<close>

definition logged :: "'v ssh \<Rightarrow> ('v \<times> (string \<times> string) list) ssh" where
  "logged ssh sid command v =
     (let (r, v1) = ssh sid command (fst v) in (r, (v1, snd v @ [(sid, command)])))"

lemma with_slot_used: "with_slot s f v = (r, v') \<Longrightarrow> vf_used v' = vf_used v"
  by (auto simp: with_slot_def Let_def split: if_splits prod.splits)

lemma with_slot_cases:
  assumes "with_slot s f v = (r, v')"
  obtains "r = Inl ErrBusy" "v' = v"
  | "vf_used v < fs_limit s" "f (vf_rest v) = (r, vf_rest v')" "vf_used v' = vf_used v"
  using assms by (auto simp: with_slot_def Let_def split: if_splits prod.splits)

lemma runCommand_logged:
  "runCommand_ssh (logged ssh) sid command limit v = (r, v') \<Longrightarrow> snd v' = snd v @ [(sid, command)]"
  by (auto simp: runCommand_ssh_def logged_def Let_def split: prod.splits)

lemma runCommand_Inr:
  "runCommand_ssh (logged ssh) sid command limit v = (Inr out, v') \<Longrightarrow> 0 \<le> limit \<Longrightarrow>
   fst (ssh sid command (fst v)) = Inr (out, None)"
  by (auto simp: runCommand_ssh_def logged_def Let_def split: prod.splits sum.splits if_splits option.splits)

lemma list_work_logged:
  assumes "list_work decode (logged ssh) sid v = (r, v')"
  shows "snd v' = snd v @ [(sid, ''list'')]"
    and "r = Inr snap \<Longrightarrow> \<exists>out. fst (ssh sid ''list'' (fst v)) = Inr (out, None) \<and> ParseSnapshot decode out = Inr snap"
proof -
  obtain r0 where run: "runCommand_ssh (logged ssh) sid ''list'' MaxPayloadBytes v = (r0, v')"
    and r: "r = (case r0 of Inl e \<Rightarrow> Inl e
       | Inr raw \<Rightarrow> (case ParseSnapshot decode raw of Inl e \<Rightarrow> Inl (VfSnapshot e) | Inr s \<Rightarrow> Inr s))"
    using assms by (auto simp: list_work_def runner_Run_def fixedListCommand_def Let_def split: prod.splits)
  from run show "snd v' = snd v @ [(sid, ''list'')]" by (rule runCommand_logged)
  show "\<exists>out. fst (ssh sid ''list'' (fst v)) = Inr (out, None) \<and> ParseSnapshot decode out = Inr snap" if "r = Inr snap"
    using that run r by (auto split: sum.splits dest!: runCommand_Inr simp: MaxPayloadBytes_def)
qed

lemma service_List_logged:
  assumes "service_List s decode (logged ssh) sid v = (r, v')"
  shows "vf_used v' = vf_used v \<and>
    (snd (vf_rest v') = snd (vf_rest v) \<and> (\<exists>e. r = Inl e) \<or>
     vf_used v < fs_limit s \<and> snd (vf_rest v') = snd (vf_rest v) @ [(sid, ''list'')] \<and>
     (\<forall>snap. r = Inr snap \<longrightarrow> (\<exists>out. fst (ssh sid ''list'' (fst (vf_rest v))) = Inr (out, None) \<and>
        ParseSnapshot decode out = Inr snap)))"
  using assms
  by (auto simp: service_List_def split: if_splits elim!: with_slot_cases dest: list_work_logged)

lemma runner_Read_logged:
  assumes "runner_Read (logged ssh) sid p v = (r, v')"
  shows "snd v' = snd v \<and> (\<exists>e. r = Inl e) \<or>
    snd v' = snd v @ [(sid, ''read '' @ p)] \<and> (\<exists>segments. validateRelativePath p = Inr segments)"
  using assms
  by (auto simp: runner_Read_def readCommand_def split: sum.splits dest: runCommand_logged)

lemma gate:
  assumes "readyFileSession h vmf now sid uid a = (r, a1)"
  shows "a_ext a1 = a_ext a"
    and "r = Inr s \<Longrightarrow> s_Status s = ''ready'' \<and> s_Provider s \<in> {[], ProviderKubeVirt} \<and>
      (uid = [] \<or> s_UserID s = [] \<or> s_UserID s = uid)"
    and "r = Inl resp \<Longrightarrow> resp_status resp \<in> {404, 409, 500, 503}"
  using assms
  by (auto simp: readyFileSession_def on_prov_def denyIfNotSessionOwner_def denyIfNotOwner_def not_found_def
      split: option.splits prod.splits sum.splits if_splits)

text \<open>
  What the handlers rely on: a listing starts at most the list command, and a read starts the list
  command and, when the file is listed, a read of that file; only a read that started both answers.
\<close>

locale file_access =
  fixes vmf :: "'x vm_files"
    and sent :: "'x \<Rightarrow> (string \<times> string) list"
    and listed :: "'x \<Rightarrow> string \<Rightarrow> string \<Rightarrow> bool"
  assumes List_sent: "vm_List vmf sid x = (l, x') \<Longrightarrow>
      sent x' = sent x \<and> (\<exists>e. l = Inl e) \<or> sent x' = sent x @ [(sid, ''list'')]"
    and Read_sent: "vm_Read vmf sid p x = (r, x') \<Longrightarrow>
      (sent x' = sent x \<or> sent x' = sent x @ [(sid, ''list'')]) \<and> (\<exists>e. r = Inl e) \<or>
      sent x' = sent x @ [(sid, ''list''), (sid, ''read '' @ p)] \<and> listed x sid p"
begin

lemma failure_not_ok: "resp_status (handleVMFileError e) \<noteq> 200"
  by (simp add: handleVMFileError_def split: vf_err.split)

lemma listing_sent:
  assumes run: "ListSessionFiles h (Some vmf) now sid uid a = (resp, a')"
  shows "sent (a_ext a') = sent (a_ext a) \<and> resp_status resp \<noteq> 200 \<or>
    (\<exists>s a1. readyFileSession h (Some vmf) now sid uid a = (Inr s, a1) \<and>
       sent (a_ext a') = sent (a_ext a) @ [(s_ID s, ''list'')])"
proof (cases "readyFileSession h (Some vmf) now sid uid a")
  case (Pair r a1)
  note g = gate [OF Pair]
  show ?thesis
  proof (cases r)
    case (Inl e)
    then show ?thesis using run Pair g(1) g(3) [of e] by (auto simp: ListSessionFiles_def)
  next
    case (Inr s)
    obtain x y where l: "vm_List vmf (s_ID s) (a_ext a) = (x, y)" by (rule prod.exhaust)
    then have "sent (a_ext a') = sent y" "(\<exists>e. x = Inl e) \<Longrightarrow> resp_status resp \<noteq> 200"
      using run Pair Inr g(1) failure_not_ok by (auto simp: ListSessionFiles_def on_ext_def)
    then show ?thesis using List_sent [OF l] Pair Inr by auto
  qed
qed

lemma preview_sent:
  assumes run: "PreviewSessionFile h (Some vmf) decode now sid p uid a = (resp, a')"
  shows "sent (a_ext a') = sent (a_ext a) \<and> resp_status resp \<noteq> 200 \<or>
    (\<exists>s a1. readyFileSession h (Some vmf) now sid uid a = (Inr s, a1) \<and> s_Status s = ''ready'' \<and>
       s_Provider s \<in> {[], ProviderKubeVirt} \<and> (uid = [] \<or> s_UserID s = [] \<or> s_UserID s = uid) \<and>
       (sent (a_ext a') = sent (a_ext a) @ [(s_ID s, ''list'')] \<and> resp_status resp \<noteq> 200 \<or>
        sent (a_ext a') = sent (a_ext a) @ [(s_ID s, ''list''), (s_ID s, ''read '' @ p)] \<and>
        listed (a_ext a) (s_ID s) p))"
proof (cases "readyFileSession h (Some vmf) now sid uid a")
  case (Pair r a1)
  note g = gate [OF Pair]
  show ?thesis
  proof (cases r)
    case (Inl e)
    then show ?thesis using run Pair g(1) g(3) [of e] by (auto simp: PreviewSessionFile_def)
  next
    case (Inr s)
    show ?thesis
    proof (cases "p = []")
      case True
      then show ?thesis using run Pair Inr g(1) by (auto simp: PreviewSessionFile_def)
    next
      case False
      obtain x y where read: "vm_Read vmf (s_ID s) p (a_ext a) = (x, y)" by (rule prod.exhaust)
      then have "sent (a_ext a') = sent y" "(\<exists>e. x = Inl e) \<Longrightarrow> resp_status resp \<noteq> 200"
        using run Pair Inr False g(1) failure_not_ok by (auto simp: PreviewSessionFile_def on_ext_def)
      then show ?thesis using Read_sent [OF read] Pair Inr g(2) by auto
    qed
  qed
qed

end

text \<open>The listing a machine would give now.\<close>

definition lists_file :: "(string \<Rightarrow> string + Snapshot) \<Rightarrow> 'v ssh \<Rightarrow> 'v \<Rightarrow> string \<Rightarrow> string \<Rightarrow> bool" where
  "lists_file decode ssh v sid p \<longleftrightarrow>
     (\<exists>out snap. fst (ssh sid ''list'' v) = Inr (out, None) \<and> ParseSnapshot decode out = Inr snap \<and>
        snapshotContainsFile (sn_items snap) p)"

lemma service_Read_logged:
  assumes "service_Read s decode (logged ssh) sid p v = (r, v')"
  shows "vf_used v' = vf_used v"
    and "(snd (vf_rest v') = snd (vf_rest v) \<or> snd (vf_rest v') = snd (vf_rest v) @ [(sid, ''list'')]) \<and> (\<exists>e. r = Inl e) \<or>
      snd (vf_rest v') = snd (vf_rest v) @ [(sid, ''list''), (sid, ''read '' @ p)] \<and>
      lists_file decode ssh (fst (vf_rest v)) sid p"
proof -
  obtain rl v1 where l: "service_List s decode (logged ssh) sid v = (rl, v1)" by (rule prod.exhaust)
  note L = service_List_logged [OF l]
  show "vf_used v' = vf_used v"
    using assms l L by (auto simp: service_Read_def split: sum.splits if_splits dest: with_slot_used)
  show "(snd (vf_rest v') = snd (vf_rest v) \<or> snd (vf_rest v') = snd (vf_rest v) @ [(sid, ''list'')]) \<and> (\<exists>e. r = Inl e) \<or>
      snd (vf_rest v') = snd (vf_rest v) @ [(sid, ''list''), (sid, ''read '' @ p)] \<and>
      lists_file decode ssh (fst (vf_rest v)) sid p"
  proof (cases "\<exists>snap. rl = Inr snap \<and> snapshotContainsFile (sn_items snap) p")
    case True
    then have slot: "with_slot s (runner_Read (logged ssh) sid p) v1 = (r, v')"
      using assms l by (auto simp: service_Read_def)
    have "snd (vf_rest v1) = snd (vf_rest v) @ [(sid, ''list'')]" "lists_file decode ssh (fst (vf_rest v)) sid p"
      using L True by (auto simp: lists_file_def)
    then show ?thesis
      using slot by (auto elim!: with_slot_cases dest!: runner_Read_logged)
  next
    case False
    then show ?thesis
      using assms l L by (cases rl) (auto simp: service_Read_def)
  qed
qed

interpretation ssh_files: file_access "service_files s decode (logged ssh)"
    "\<lambda>x. snd (vf_rest x)" "\<lambda>x. lists_file decode ssh (fst (vf_rest x))"
  for s decode ssh
  by unfold_locales (auto simp: service_files_def dest: service_List_logged service_Read_logged(2))

text \<open>
  C29. A preview request starts commands only on the machine of a ready KubeVirt session that belongs
  to the requesting user (or has no owner, or comes without identity): first the fixed list command
  and then, only when that machine lists the requested path as a file, the read of that path. An
  answer 200 means both were started, and every slot taken is given back.
\<close>

theorem preview_reads_only_listed_files:
  fixes a a' :: "('d, 'p, ('v \<times> (string \<times> string) list) vmf) app"
  assumes run: "PreviewSessionFile h (Some (service_files s decode (logged ssh))) decodeP now sid p uid a = (resp, a')"
  defines "sent \<equiv> \<lambda>b :: ('d, 'p, ('v \<times> (string \<times> string) list) vmf) app. snd (vf_rest (a_ext b))"
  shows "vf_used (a_ext a') = vf_used (a_ext a) \<and>
    (sent a' = sent a \<and> resp_status resp \<noteq> 200 \<or>
     (\<exists>sess a1. readyFileSession h (Some (service_files s decode (logged ssh))) now sid uid a = (Inr sess, a1) \<and>
       s_Status sess = ''ready'' \<and> s_Provider sess \<in> {[], ProviderKubeVirt} \<and>
       (uid = [] \<or> s_UserID sess = [] \<or> s_UserID sess = uid) \<and>
       (sent a' = sent a @ [(s_ID sess, ''list'')] \<and> resp_status resp \<noteq> 200 \<or>
        sent a' = sent a @ [(s_ID sess, ''list''), (s_ID sess, ''read '' @ p)] \<and>
        lists_file decode ssh (fst (vf_rest (a_ext a))) (s_ID sess) p)))"
proof -
  have "vf_used (a_ext a') = vf_used (a_ext a)"
    using run
    by (auto simp: PreviewSessionFile_def on_ext_def service_files_def Let_def
        split: prod.splits sum.splits if_splits dest!: gate(1) service_Read_logged(1))
  then show ?thesis
    using ssh_files.preview_sent [OF run] by (simp add: sent_def)
qed

text \<open>A ready session of learner u1 whose machine lists two entries and answers a read.\<close>

definition demo_session :: Session where
  "demo_session = \<lparr>s_ID = ''s1'', s_LabID = ''lab'', s_UserID = ''u1'', s_Status = ''ready'', s_ProvisioningStage = [],
     s_StartedAt = 0, s_ExpiresAt = 1, s_Provider = ProviderKubeVirt, s_InstanceID = [], s_Region = [], s_TailnetEnabled = False\<rparr>"

definition demo_files_provider :: "unit provider" where
  "demo_files_provider = \<lparr>pv_Create = (\<lambda>_ _ _ _ _ p. (Inr demo_session, p)), pv_Get = (\<lambda>_ _ p. (Inr demo_session, p)),
     pv_Delete = (\<lambda>_ p. (None, p)), pv_FindActiveByUser = (\<lambda>_ p. (Inr ''s1'', p)), pv_CountActiveSessions = (\<lambda>p. (Inr 1, p)),
     pv_ReapStuckSessions = (\<lambda>_ _ p. (([], None), p)), pv_ReapExpiredSessions = (\<lambda>_ p. (([], None), p)),
     pv_VMIAddress = (\<lambda>_ p. (Inr ''10.0.0.1'', p)), pv_Capacity = 0\<rparr>"

definition demo_files_handler :: "(unit, unit, (unit \<times> (string \<times> string) list) vmf) handler" where
  "demo_files_handler = \<lparr>h_mode = None, h_provision_timeout_min = 10, h_labs = Map.empty,
     h_sessions = Some demo_files_provider, h_db = None, h_events = False,
     h_lock_acquire = (\<lambda>_ x. (True, x)), h_lock_release = (\<lambda>_ x. x), h_validator = None,
     h_redis_set = None, h_redis_getdel = None, h_ai = None, h_kc_admin = None, h_ec2_dial = False\<rparr>"

definition demo_files_app :: "(unit, unit, (unit \<times> (string \<times> string) list) vmf) app" where
  "demo_files_app = \<lparr>a_steps = \<lparr>st_m = Map.empty, st_d = ()\<rparr>, a_prov = (), a_events = [],
     a_ext = \<lparr>vf_used = 0, vf_rest = ((), [])\<rparr>\<rparr>"

definition demo_ssh :: "unit ssh" where
  "demo_ssh sid command v = (Inr (''{}'', None), v)"

definition demo_preview :: FilePreview where
  "demo_preview = \<lparr>fp_path = ''work/app.log'', fp_content = ''ok'', fp_truncated = False\<rparr>"

lemma demo_gate:
  "readyFileSession demo_files_handler (Some vmf) now sid ''u1'' demo_files_app = (Inr demo_session, demo_files_app)"
  by (simp add: readyFileSession_def demo_files_handler_def demo_files_provider_def on_prov_def demo_files_app_def
      demo_session_def denyIfNotSessionOwner_def denyIfNotOwner_def)

lemma demo_parts:
  "a_ext demo_files_app = \<lparr>vf_used = 0, vf_rest = ((), [])\<rparr>" "s_ID demo_session = ''s1''"
  by (simp_all add: demo_files_app_def demo_session_def)

lemma demo_read:
  "service_Read (NewService 0 1) (\<lambda>_. Inr demo_snapshot) (logged demo_ssh) ''s1'' ''work/app.log'' \<lparr>vf_used = 0, vf_rest = ((), [])\<rparr> =
     (Inr ''{}'', \<lparr>vf_used = 0, vf_rest = ((), [(''s1'', ''list''), (''s1'', ''read work/app.log'')])\<rparr>)"
proof -
  have path: "validateRelativePath ''work/app.log'' = Inr [''work'', ''app.log'']" by code_simp
  show ?thesis
    by (simp add: service_Read_def service_List_def with_slot_def NewService_def list_work_def runner_Run_def
        runner_Read_def readCommand_def path runCommand_ssh_def logged_def demo_ssh_def demo_snapshot_parsed
        fixedListCommand_def MaxPayloadBytes_def MaxReadPayloadBytes_def)
      (simp add: demo_snapshot_def)
qed

lemma demo_preview_run:
  "\<exists>b a'. PreviewSessionFile demo_files_handler
      (Some (service_files (NewService 0 1) (\<lambda>_. Inr demo_snapshot) (logged demo_ssh))) (\<lambda>_. Inr demo_preview) 0 ''s1''
      ''work/app.log'' ''u1'' demo_files_app = (Resp 200 b, a')"
proof -
  have "on_ext (vm_Read (service_files (NewService 0 1) (\<lambda>_. Inr demo_snapshot) (logged demo_ssh)) (s_ID demo_session) ''work/app.log'') demo_files_app =
     (Inr ''{}'', demo_files_app\<lparr>a_ext := \<lparr>vf_used = 0, vf_rest = ((), [(''s1'', ''list''), (''s1'', ''read work/app.log'')])\<rparr>\<rparr>)"
    by (simp add: on_ext_def service_files_def demo_parts demo_read)
  then show ?thesis
    by (simp add: PreviewSessionFile_def demo_gate parseFilePreview_def) (simp add: demo_preview_def)
qed

theorem preview_reads_only_listed_files_witness:
  "\<exists>b a' :: (unit, unit, (unit \<times> (string \<times> string) list) vmf) app.
     PreviewSessionFile demo_files_handler
      (Some (service_files (NewService 0 1) (\<lambda>_. Inr demo_snapshot) (logged demo_ssh))) (\<lambda>_. Inr demo_preview) 0 ''s1''
      ''work/app.log'' ''u1'' demo_files_app = (Resp 200 b, a') \<and>
     snd (vf_rest (a_ext a')) = [(''s1'', ''list''), (''s1'', ''read work/app.log'')] \<and>
     lists_file (\<lambda>_. Inr demo_snapshot) demo_ssh () ''s1'' ''work/app.log''"
proof -
  obtain b a' where run: "PreviewSessionFile demo_files_handler
      (Some (service_files (NewService 0 1) (\<lambda>_. Inr demo_snapshot) (logged demo_ssh))) (\<lambda>_. Inr demo_preview) 0 ''s1''
      ''work/app.log'' ''u1'' demo_files_app = (Resp 200 b, a')"
    using demo_preview_run by blast
  show ?thesis
    using preview_reads_only_listed_files [OF run] run by (auto simp: demo_gate demo_parts)
qed

end
