(* ===== verification/Step_Handlers.thy ===== *)
theory Step_Handlers
  imports App
begin

text \<open>
  The handlers that act on the steps of a session: \<open>GetSessionSteps\<close>, \<open>ValidateStep\<close> and
  \<open>ApplyValidationResult\<close> of \<open>session.go\<close>, \<open>RequestHint\<close> of \<open>hint.go\<close>.

  A request body is the decoded value, or the decoding error; \<open>ApplyValidationResult\<close> is called
  by the consumer of the validation results. The trace id of a request and the traceparent that
  OpenTelemetry injects are arguments.
\<close>

section \<open>Guards\<close>

text \<open>
  Every handler on the steps of a session starts alike: \<open>ensureStepSession\<close>, then
  \<open>denyIfNotStoreOwner\<close>, then the rest of the handler.
\<close>

definition guarded ::
  "('d, 'p, 'x) handler \<Rightarrow> go_time \<Rightarrow> string \<Rightarrow> string \<Rightarrow> (('d, 'p, 'x) app \<Rightarrow> resp \<times> ('d, 'p, 'x) app) \<Rightarrow>
   ('d, 'p, 'x) app \<Rightarrow> resp \<times> ('d, 'p, 'x) app" where
  "guarded h now uid sid k a =
     (let (r, a1) = ensureStepSession h now uid sid a in
      case r of
        Some resp \<Rightarrow> (resp, a1)
      | None \<Rightarrow>
          (let (d, a2) = denyIfNotStoreOwner h now uid sid a1 in
           case d of Some resp \<Rightarrow> (resp, a2) | None \<Rightarrow> k a2))"

section \<open>Progress of a session\<close>

definition check_json :: "checkOutcome \<Rightarrow> json" where
  "check_json ck = JObj [(''type'', JStr (ck_type ck)), (''passed'', JBool (ck_passed ck)), (''detail'', JStr (ck_detail ck))]"

definition step_json :: "stepState \<Rightarrow> json" where
  "step_json st =
     JObj ([(''step_id'', JInt (step_id st)), (''status'', JStr (step_status st)), (''attempts'', JInt (step_attempts st))]
           @ (if length (step_checks st) > 0 then [(''checks'', JArr (map check_json (step_checks st)))] else []))"

definition GetSessionSteps ::
  "('d, 'p, 'x) handler \<Rightarrow> go_time \<Rightarrow> string \<Rightarrow> string \<Rightarrow> ('d, 'p, 'x) app \<Rightarrow> resp \<times> ('d, 'p, 'x) app" where
  "GetSessionSteps h now sid uid =
     guarded h now uid sid (\<lambda>a.
       (let (r, a1) = on_steps (withSession (h_db h) now sid (\<lambda>ss. (map step_json (ss_steps ss), False, ss))) a in
        case r of
          None \<Rightarrow> (not_found, a1)
        | Some items \<Rightarrow>
            (Resp 200 (JObj [(''items'', JArr items), (''total'', JInt (int (length items)))]), a1)))"

section \<open>Completions\<close>

definition recordLabCompletion ::
  "('d, 'p, 'x) handler \<Rightarrow> go_time \<Rightarrow> string \<Rightarrow> string \<Rightarrow> string \<Rightarrow> ('d, 'p, 'x) app \<Rightarrow> ('d, 'p, 'x) app" where
  "recordLabCompletion h now sid uid lab a =
     (if lab = [] \<or> uid = [] then a
      else (case h_db h of
              None \<Rightarrow> a
            | Some P \<Rightarrow> snd (on_db (p_RecordCompletion P now uid lab sid) a)))"

section \<open>Requesting a validation\<close>

definition validation_start_key :: "string \<Rightarrow> string" where
  "validation_start_key traceID = ''validation:start:'' @ traceID"

definition mock_passed :: resp where
  "mock_passed = Resp 200 (JObj [(''status'', JStr ''passed''), (''message'', JStr (
     utf8 [234, 178, 128, 236, 166, 157, 236, 157, 132, 32, 237, 134, 181, 234, 179, 188, 237, 150, 136,
       236, 138, 181, 235, 139, 136, 235, 139, 164, 32, 40, 109, 111, 99, 107, 41]))])"

definition accepted :: "string \<Rightarrow> resp" where
  "accepted traceID = Resp 202 (JObj [(''status'', JStr ''validating''), (''message'', JStr (
     utf8 [234, 178, 128, 236, 166, 157, 32, 236, 154, 148, 236, 178, 173, 236, 157, 132, 32, 236, 160,
       145, 236, 136, 152, 237, 150, 136, 236, 138, 181, 235, 139, 136, 235, 139, 164])),
     (''trace_id'', JStr traceID)])"

text \<open>Without a publisher: a mock pass, refused in release mode.\<close>

definition mock_validate ::
  "('d, 'p, 'x) handler \<Rightarrow> go_time \<Rightarrow> string \<Rightarrow> int \<Rightarrow> ('d, 'p, 'x) app \<Rightarrow> resp \<times> ('d, 'p, 'x) app" where
  "mock_validate h now sid idx a =
     (if h_mode h = Some ''release'' then (err_resp 503 ''validation engine not available'', a)
      else
        (let ((uid', lab), a1) = on_steps (markStepPassed (h_db h) now sid idx) a
         in (mock_passed, recordLabCompletion h now sid uid' lab a1)))"

text \<open>The request for the validation engine, from the session and the content of its lab.\<close>

definition build_request ::
  "('d, 'p, 'x) handler \<Rightarrow> string \<Rightarrow> string \<Rightarrow> string \<Rightarrow> int \<Rightarrow> Session \<Rightarrow> resp + ValidationRequest" where
  "build_request h traceID traceparent sid stepID s =
     (case h_labs h (s_LabID s) of
        None \<Rightarrow> Inl (err_resp 404 ''lab content not found'')
      | Some lc \<Rightarrow>
          (case findContentStep lc stepID of
             None \<Rightarrow> Inl (err_resp 404 ''step content not found'')
           | Some step \<Rightarrow>
               if length (cs_checks step) = 0 then Inl (err_resp 400 ''step has no validation checks'')
               else Inr \<lparr>vq_trace_id = traceID, vq_traceparent = traceparent, vq_session_id = sid,
                         vq_step_id = stepID, vq_vm = vmSpecForSession s sid,
                         vq_checks = toValidationChecks (cs_checks step)\<rparr>))"

text \<open>Publish, note the start time in Redis, and only then mark the step as validating.\<close>

definition publish_validation ::
  "('d, 'p, 'x) handler \<Rightarrow> (ValidationRequest \<Rightarrow> 'x \<Rightarrow> string option \<times> 'x) \<Rightarrow> go_time \<Rightarrow> int \<Rightarrow>
   ValidationRequest \<Rightarrow> ('d, 'p, 'x) app \<Rightarrow> resp \<times> ('d, 'p, 'x) app" where
  "publish_validation h pub now idx msg a =
     (let (e, a1) = on_ext (pub msg) a in
      case e of
        Some _ \<Rightarrow> (err_resp 502 ''publish validation request failed'', a1)
      | None \<Rightarrow>
          (let a2 = (case h_redis_set h of
                 None \<Rightarrow> a1
               | Some store \<Rightarrow> a1\<lparr>a_ext := store (validation_start_key (vq_trace_id msg)) (now div 1000000) (5 * minute) (a_ext a1)\<rparr>)
           in (accepted (vq_trace_id msg),
               a2\<lparr>a_steps := markStepValidating (h_db h) now (vq_session_id msg) idx (a_steps a2)\<rparr>)))"

definition engine_validate ::
  "('d, 'p, 'x) handler \<Rightarrow> (ValidationRequest \<Rightarrow> 'x \<Rightarrow> string option \<times> 'x) \<Rightarrow> go_time \<Rightarrow> string \<Rightarrow> string \<Rightarrow> string \<Rightarrow>
   int \<Rightarrow> int \<Rightarrow> ('d, 'p, 'x) app \<Rightarrow> resp \<times> ('d, 'p, 'x) app" where
  "engine_validate h pub now traceID traceparent sid stepID idx a =
     (case h_sessions h of
        None \<Rightarrow> (err_resp 503 ''kubevirt not configured'', a)
      | Some P \<Rightarrow>
          (let (r, a1) = on_prov (pv_Get P now sid) a in
           case r of
             Inl e \<Rightarrow> (if is_not_found e then not_found else err_resp 500 ''get session failed'', a1)
           | Inr s \<Rightarrow>
               (case build_request h traceID traceparent sid stepID s of
                  Inl resp \<Rightarrow> (resp, a1)
                | Inr msg \<Rightarrow> publish_validation h pub now idx msg a1)))"

definition ValidateStep ::
  "('d, 'p, 'x) handler \<Rightarrow> go_time \<Rightarrow> string \<Rightarrow> string \<Rightarrow> string \<Rightarrow> string + int \<Rightarrow> string \<Rightarrow>
   ('d, 'p, 'x) app \<Rightarrow> resp \<times> ('d, 'p, 'x) app" where
  "ValidateStep h now traceID traceparent sid req uid a =
     (case req of
        Inl _ \<Rightarrow> (err_resp 400 ''step_id is required'', a)
      | Inr stepID \<Rightarrow>
          if stepID < 1 then (err_resp 400 ''step_id is required'', a)
          else guarded h now uid sid (\<lambda>a.
            (let (r, a1) = on_steps (findValidatableStepIndex (h_db h) now sid stepID) a in
             case r of
               Inl errStepSessionNotFound \<Rightarrow> (not_found, a1)
             | Inl errStepNotFound \<Rightarrow> (err_resp 404 ''step not found'', a1)
             | Inl errStepOrderBlocked \<Rightarrow>
                 (err_resp 409 ''previous step must be passed before validating this step'', a1)
             | Inr idx \<Rightarrow>
                 (case h_validator h of
                    None \<Rightarrow> mock_validate h now sid idx a1
                  | Some pub \<Rightarrow> engine_validate h pub now traceID traceparent sid stepID idx a1))) a)"

section \<open>Results of the validation engine\<close>

definition ApplyValidationResult ::
  "('d, 'p, 'x) handler \<Rightarrow> go_time \<Rightarrow> ValidationResult \<Rightarrow> ('d, 'p, 'x) app \<Rightarrow> ('d, 'p, 'x) app" where
  "ApplyValidationResult h now r a =
     (let a1 = (case h_redis_getdel h of
            None \<Rightarrow> a
          | Some getdel \<Rightarrow>
              if vr_trace_id r \<noteq> [] then a\<lparr>a_ext := getdel (validation_start_key (vr_trace_id r)) (a_ext a)\<rparr> else a);
          (x, a2) = on_steps (withSession (h_db h) now (vr_session_id r) (apply_result_fn r)) a1
      in case x of
           None \<Rightarrow> a2
         | Some (evs, uid, lab) \<Rightarrow>
             recordLabCompletion h now (vr_session_id r) uid lab (fold (emit h now) evs a2))"

section \<open>Hints\<close>

record hint_body =
  hb_step_id :: int
  hb_level :: int
  hb_terminal_tail :: string

text \<open>The binding rules: \<open>step_id\<close> at least 1, \<open>level\<close> absent (0) or from 1 to 3.\<close>

definition hint_body_ok :: "hint_body \<Rightarrow> bool" where
  "hint_body_ok b \<longleftrightarrow> 1 \<le> hb_step_id b \<and> (hb_level b = 0 \<or> 1 \<le> hb_level b \<and> hb_level b \<le> 3)"

definition clip_tail :: "string \<Rightarrow> string" where
  "clip_tail t = (if length t > 4000 then drop (length t - 4000) t else t)"

definition hint_event :: "string \<Rightarrow> string \<Rightarrow> string \<Rightarrow> int \<Rightarrow> int \<Rightarrow> string \<Rightarrow> Event" where
  "hint_event uid sid lab stepID level src =
     (mk_event HintRequested uid sid lab stepID)\<lparr>ev_hint_level := level, ev_hint_source := src\<rparr>"

definition source_json :: "DocSource \<Rightarrow> json" where
  "source_json d = JObj ((''title'', JStr (ds_title d)) # (if ds_url d \<noteq> [] then [(''url'', JStr (ds_url d))] else []))"

definition ai_hint_resp :: "HintResponse \<Rightarrow> resp" where
  "ai_hint_resp r =
     Resp 200 (JObj [(''hint'', JStr (hr_hint r)), (''hint_level'', JInt (hr_hint_level r)),
       (''source'', JStr ''ai''), (''model'', JStr (hr_model r)),
       (''sources'', case hr_sources r of None \<Rightarrow> JNull | Some ds \<Rightarrow> JArr (map source_json ds))])"

definition rate_limited :: resp where
  "rate_limited = code_resp 429 (
     utf8 [237, 158, 140, 237, 138, 184, 32, 236, 130, 172, 236, 154, 169, 32, 237, 149, 156, 235, 143,
       132, 236, 151, 144, 32, 235, 143, 132, 235, 139, 172, 237, 150, 136, 236, 138, 181, 235, 139,
       136, 235, 139, 164, 46, 32, 236, 158, 160, 236, 139, 156, 32, 237, 155, 132, 32, 235, 139,
       164, 236, 139, 156, 32, 236, 139, 156, 235, 143, 132, 237, 149, 152, 236, 132, 184, 236, 154,
       148, 46])
     ''hint_rate_limited''"

definition static_hint ::
  "('d, 'p, 'x) handler \<Rightarrow> go_time \<Rightarrow> string \<Rightarrow> string \<Rightarrow> string \<Rightarrow> Step \<Rightarrow> int \<Rightarrow>
   ('d, 'p, 'x) app \<Rightarrow> resp \<times> ('d, 'p, 'x) app" where
  "static_hint h now uid sid lab step level a =
     (let hint = StaticHint step level in
      if hint = [] then (err_resp 404 ''no hint available for this step'', a)
      else (Resp 200 (JObj [(''hint'', JStr hint), (''hint_level'', JInt level), (''source'', JStr ''static'')]),
            emit h now (hint_event uid sid lab (cs_ID step) level ''static'') a))"

definition ai_request :: "string \<Rightarrow> string \<Rightarrow> string \<Rightarrow> string \<Rightarrow> Step \<Rightarrow> int \<Rightarrow> string \<Rightarrow> HintRequest" where
  "ai_request uid sid lab org step level tail =
     \<lparr>hq_user_id = uid, hq_session_id = sid, hq_lab_id = lab, hq_org_id = (if org = [] then ''public'' else org),
      hq_step = \<lparr>si_id = cs_ID step, si_title = cs_title step, si_description = cs_description step,
                 si_commands = cs_commands step\<rparr>,
      hq_hint_level = level, hq_terminal_tail = tail\<rparr>"

definition RequestHint ::
  "('d, 'p, 'x) handler \<Rightarrow> go_time \<Rightarrow> string \<Rightarrow> string + hint_body \<Rightarrow> string \<Rightarrow> string \<Rightarrow>
   ('d, 'p, 'x) app \<Rightarrow> resp \<times> ('d, 'p, 'x) app" where
  "RequestHint h now sid req uid org a =
     (case req of
        Inl _ \<Rightarrow> (err_resp 400 ''step_id is required'', a)
      | Inr b \<Rightarrow>
          if \<not> hint_body_ok b then (err_resp 400 ''step_id is required'', a)
          else guarded h now uid sid (\<lambda>a.
            (let (r, a1) = on_steps (nextHint (h_db h) now sid (hb_step_id b) (hb_level b)) a in
             case r of
               None \<Rightarrow> (not_found, a1)
             | Some (lab, level) \<Rightarrow>
                 (case h_labs h lab of
                    None \<Rightarrow> (err_resp 404 ''lab content not found'', a1)
                  | Some lc \<Rightarrow>
                      (case findContentStep lc (hb_step_id b) of
                         None \<Rightarrow> (err_resp 404 ''step content not found'', a1)
                       | Some step \<Rightarrow>
                           (case h_ai h of
                              None \<Rightarrow> static_hint h now uid sid lab step level a1
                            | Some ask \<Rightarrow>
                                (let (x, a2) = on_ext (ask (ai_request uid sid lab org step level (clip_tail (hb_terminal_tail b)))) a1 in
                                 case x of
                                   Inr out \<Rightarrow>
                                     (ai_hint_resp out, emit h now (hint_event uid sid lab (hb_step_id b) level ''ai'') a2)
                                 | Inl ErrRateLimited \<Rightarrow> (rate_limited, a2)
                                 | Inl (ErrUnavailable _) \<Rightarrow> static_hint h now uid sid lab step level a2)))))) a)"

end
