(* ===== verification/Cloud_Init.thy ===== *)
theory Cloud_Init
  imports Session_Provider
begin

text \<open>
  The cloud-init user data of a session VM: \<open>src/apps/api/internal/kubevirt/cloudinit.go\<close> and
  \<open>src/apps/api/internal/ec2/cloudinit.go\<close>. The fixed parts of the templates are the lines of the
  source; a line with characters outside plain ASCII text is given by its UTF-8 bytes.
  \<open>strconv.Quote\<close> and \<open>%q\<close> are modelled on bytes: bytes from 128 on (printable UTF-8 text) are
  kept. \<open>strings.TrimSpace\<close> and \<open>strings.Fields\<close> separate at ASCII white space.
\<close>

section \<open>Quoting\<close>

definition newline :: char where "newline = CHR 0x0A"

definition dquote :: char where "dquote = CHR 0x22"

definition backslash :: char where "backslash = CHR 0x5C"

lemmas char_names = newline_def dquote_def backslash_def

fun unlines :: "string list \<Rightarrow> string" where
  "unlines [] = []"
| "unlines (l # ls) = l @ newline # unlines ls"

definition hex_digit :: "nat \<Rightarrow> char" where
  "hex_digit n = char_of (if n < 10 then 48 + n else 87 + n)"

definition quote_char :: "char \<Rightarrow> string" where
  "quote_char c =
     (let n = of_char c :: nat in
      if c = dquote \<or> c = backslash then [backslash, c]
      else if n = 7 then [backslash, CHR ''a''] else if n = 8 then [backslash, CHR ''b'']
      else if n = 9 then [backslash, CHR ''t''] else if n = 10 then [backslash, CHR ''n'']
      else if n = 11 then [backslash, CHR ''v''] else if n = 12 then [backslash, CHR ''f'']
      else if n = 13 then [backslash, CHR ''r'']
      else if n < 32 \<or> n = 127
      then [backslash, CHR ''x'', hex_digit (n div 16), hex_digit (n mod 16)]
      else [c])"

definition go_quote :: "string \<Rightarrow> string" where
  "go_quote s = dquote # concat (map quote_char s) @ [dquote]"

definition yamlScalar :: "string \<Rightarrow> string" where
  "yamlScalar s =
     dquote # concat (map (\<lambda>c. if c = backslash then [backslash, backslash]
                               else if c = dquote then [backslash, dquote] else [c]) s) @ [dquote]"

section \<open>White space\<close>

definition is_space :: "char \<Rightarrow> bool" where
  "is_space c \<longleftrightarrow> (of_char c :: nat) \<in> {9, 10, 11, 12, 13, 32}"

definition TrimSpace :: "string \<Rightarrow> string" where
  "TrimSpace s = rev (dropWhile is_space (rev (dropWhile is_space s)))"

fun Fields_aux :: "string \<Rightarrow> string \<Rightarrow> string list" where
  "Fields_aux acc [] = (if acc = [] then [] else [acc])"
| "Fields_aux acc (c # s) =
     (if is_space c then (if acc = [] then Fields_aux [] s else acc # Fields_aux [] s)
      else Fields_aux (acc @ [c]) s)"

definition Fields :: "string \<Rightarrow> string list" where
  "Fields s = Fields_aux [] s"

section \<open>SSH keys\<close>

definition sshPublicKeyMaterial :: "string \<Rightarrow> (string \<times> string) option" where
  "sshPublicKeyMaterial key =
     (let fields = Fields (TrimSpace key) in
      if length fields < 2 then None else Some (fields ! 0, fields ! 1))"

definition sameSSHPublicKeyMaterial :: "string \<Rightarrow> string \<Rightarrow> bool" where
  "sameSSHPublicKeyMaterial a b =
     (case (sshPublicKeyMaterial a, sshPublicKeyMaterial b) of
        (Some x, Some y) \<Rightarrow> fst x = fst y \<and> snd x = snd y
      | _ \<Rightarrow> False)"

section \<open>KubeVirt user data\<close>

definition kv_head :: "string \<Rightarrow> string" where
  \<open>kv_head hostname = unlines [''#cloud-config'', ''hostname: '' @ hostname,
     ''ssh_pwauth: true'',
     ''users:'',
     ''  - name: lab'',
     ''    lock_passwd: false'',
     ''    shell: /bin/bash'',
     ''    sudo: ALL=(ALL) NOPASSWD:ALL'']\<close>

definition kv_chpasswd :: string where
  \<open>kv_chpasswd = unlines [
     ''chpasswd:'',
     ''  expire: false'',
     ''  list: |'',
     ''    lab:lab'',
     ''bootcmd:'',
     ''  - "mkdir -p /etc/systemd/resolved.conf.d"'',
     utf8 [32, 32, 45, 32, 34, 112, 114, 105, 110, 116, 102, 32, 39, 37, 115, 92, 92, 110, 39, 32,
       39, 91, 82, 101, 115, 111, 108, 118, 101, 93, 39, 32, 39, 68, 78, 83, 61, 56, 46, 56, 46,
       56, 46, 56, 32, 49, 46, 49, 46, 49, 46, 49, 39, 32, 39, 70, 97, 108, 108, 98, 97, 99, 107,
       68, 78, 83, 61, 56, 46, 56, 46, 52, 46, 52, 32, 49, 46, 48, 46, 48, 46, 49, 39, 32, 39, 68,
       111, 109, 97, 105, 110, 115, 61, 126, 46, 39, 32, 62, 32, 47, 101, 116, 99, 47, 115, 121,
       115, 116, 101, 109, 100, 47, 114, 101, 115, 111, 108, 118, 101, 100, 46, 99, 111, 110, 102,
       46, 100, 47, 99, 108, 101, 100, 121, 117, 45, 108, 97, 98, 46, 99, 111, 110, 102, 34],
     ''  - "systemctl restart systemd-resolved || true"'',
     ''  - "systemctl stop serial-getty@ttyS0.service || true"'']\<close>

definition kv_getty :: string where
  \<open>kv_getty = unlines [
     ''write_files:'',
     ''  - path: /etc/systemd/system/serial-getty@ttyS0.service.d/override.conf'',
     ''    permissions: "0644"'',
     ''    content: |'',
     ''      [Service]'',
     ''      ExecStart='',
     ''      ExecStart=-/sbin/agetty --autologin lab --noclear --keep-baud 115200,38400,9600 ttyS0 xterm-256color'']\<close>

definition kv_list_files :: string where
  \<open>kv_list_files = unlines [
     ''  - path: /usr/local/libexec/cledyu-list-files'',
     ''    owner: root:root'',
     ''    permissions: "0755"'',
     ''    content: |'',
     ''      #!/usr/bin/env python3'',
     ''      import json'',
     ''      import os'',
     ''      import stat'',
     ''      import sys'',
     [],
     ''      ROOT = "/home/lab"'',
     ''      MAX_DEPTH = 4'',
     ''      MAX_ENTRIES = 500'',
     ''      MAX_READ_BYTES = 131072'',
     ''      items = []'',
     ''      truncated = False'',
     [],
     ''      def fail(message, code=64):'',
     utf8 [32, 32, 32, 32, 32, 32, 32, 32, 32, 32, 115, 121, 115, 46, 115, 116, 100, 101, 114, 114,
       46, 119, 114, 105, 116, 101, 40, 109, 101, 115, 115, 97, 103, 101, 32, 43, 32, 34, 92, 110,
       34, 41],
     ''          raise SystemExit(code)'',
     [],
     ''      def normalize_relative(relative_path):'',
     ''          if not relative_path:'',
     ''              fail("path is required")'',
     ''          normalized = os.path.normpath(relative_path)'',
     ''          if ('',
     ''              normalized == "."'',
     ''              or os.path.isabs(normalized)'',
     ''              or normalized.startswith("../")'',
     ''              or normalized == ".."'',
     utf8 [32, 32, 32, 32, 32, 32, 32, 32, 32, 32, 32, 32, 32, 32, 111, 114, 32, 34, 92, 92, 34,
       32, 105, 110, 32, 110, 111, 114, 109, 97, 108, 105, 122, 101, 100],
     utf8 [32, 32, 32, 32, 32, 32, 32, 32, 32, 32, 32, 32, 32, 32, 111, 114, 32, 34, 92, 120, 48,
       48, 34, 32, 105, 110, 32, 110, 111, 114, 109, 97, 108, 105, 122, 101, 100],
     ''          ):'',
     ''              fail("unsafe path")'',
     ''          for segment in normalized.split(os.sep):'',
     ''              if not segment or segment.startswith("."):'',
     ''                  fail("hidden or unsafe path")'',
     ''          return normalized'',
     [],
     ''      def resolve_under_root(relative_path):'',
     ''          normalized = normalize_relative(relative_path)'',
     ''          root_real = os.path.realpath(ROOT)'',
     ''          requested = os.path.join(ROOT, normalized)'',
     ''          cursor = ROOT'',
     ''          for segment in normalized.split(os.sep):'',
     ''              cursor = os.path.join(cursor, segment)'',
     ''              if os.path.islink(cursor):'',
     ''                  fail("not a regular file", 66)'',
     ''          target = os.path.realpath(requested)'',
     ''          if target != root_real and not target.startswith(root_real + os.sep):'',
     ''              fail("path escapes root")'',
     ''          return normalized, requested, target'',
     [],
     ''      def walk(directory, relative, depth):'',
     ''          global truncated'',
     ''          try:'',
     ''              entries = sorted(os.scandir(directory), key=lambda entry: entry.name)'',
     ''          except OSError:'',
     ''              return'',
     ''          for entry in entries:'',
     ''              if entry.name.startswith(".") or entry.is_symlink():'',
     ''                  continue'',
     ''              child_relative = f"{relative}/{entry.name}" if relative else entry.name'',
     ''              try:'',
     ''                  if entry.is_dir(follow_symlinks=False):'',
     ''                      entry_type = "directory"'',
     ''                  elif entry.is_file(follow_symlinks=False):'',
     ''                      entry_type = "file"'',
     ''                  else:'',
     ''                      continue'',
     ''              except OSError:'',
     ''                  continue'',
     ''              if len(items) >= MAX_ENTRIES:'',
     ''                  truncated = True'',
     ''                  return'',
     ''              items.append({'',
     ''                  "path": child_relative,'',
     ''                  "name": entry.name,'',
     ''                  "type": entry_type,'',
     ''                  "depth": depth,'',
     ''              })'',
     ''              if entry_type == "directory" and depth < MAX_DEPTH:'',
     ''                  walk(entry.path, child_relative, depth + 1)'',
     ''                  if truncated:'',
     ''                      return'',
     [],
     ''      def list_files():'',
     ''          walk(ROOT, "", 1)'',
     ''          json.dump({"root": ROOT, "items": items, "truncated": truncated}, sys.stdout)'',
     utf8 [32, 32, 32, 32, 32, 32, 32, 32, 32, 32, 115, 121, 115, 46, 115, 116, 100, 111, 117, 116,
       46, 119, 114, 105, 116, 101, 40, 34, 92, 110, 34, 41],
     [],
     ''      def read_file(relative_path):'',
     ''          normalized, requested, _ = resolve_under_root(relative_path)'',
     ''          flags = os.O_RDONLY | getattr(os, "O_NOFOLLOW", 0)'',
     ''          try:'',
     ''              fd = os.open(requested, flags)'',
     ''          except OSError:'',
     ''              fail("not a regular file", 66)'',
     ''          try:'',
     ''              if not stat.S_ISREG(os.fstat(fd).st_mode):'',
     ''                  fail("not a regular file", 66)'',
     ''              with os.fdopen(fd, "rb") as handle:'',
     ''                  fd = None'',
     ''                  data = handle.read(MAX_READ_BYTES + 1)'',
     ''          finally:'',
     ''              if fd is not None:'',
     ''                  os.close(fd)'',
     ''          truncated = len(data) > MAX_READ_BYTES'',
     ''          if truncated:'',
     ''              data = data[:MAX_READ_BYTES]'',
     ''          try:'',
     ''              content = data.decode("utf-8")'',
     ''          except UnicodeDecodeError:'',
     ''              fail("binary file preview is unavailable", 65)'',
     ''          json.dump({"path": normalized, "content": content, "truncated": truncated}, sys.stdout)'',
     utf8 [32, 32, 32, 32, 32, 32, 32, 32, 32, 32, 115, 121, 115, 46, 115, 116, 100, 111, 117, 116,
       46, 119, 114, 105, 116, 101, 40, 34, 92, 110, 34, 41],
     [],
     ''      command = os.environ.get("SSH_ORIGINAL_COMMAND", "").strip() or "list"'',
     ''      action, _, argument = command.partition(" ")'',
     ''      if action == "list" and not argument:'',
     ''          list_files()'',
     ''      elif action == "read" and argument:'',
     ''          read_file(argument.strip())'',
     ''      else:'',
     ''          fail("unsupported command")'']\<close>

definition kv_profile :: string where
  \<open>kv_profile = unlines [
     ''  - path: /home/lab/.hushlogin'',
     ''    owner: lab:lab'',
     ''    permissions: "0644"'',
     ''    defer: true'',
     ''    content: ""'',
     ''  - path: /home/lab/.bash_profile'',
     ''    owner: lab:lab'',
     ''    permissions: "0644"'',
     ''    defer: true'',
     ''    content: |'',
     ''      if [ -f /home/lab/.bashrc ]; then'',
     ''        . /home/lab/.bashrc'',
     ''      fi'',
     utf8 [32, 32, 32, 32, 32, 32, 35, 32, 235, 182, 128, 237, 140, 133, 32, 236, 139, 156, 32,
       235, 179, 180, 236, 157, 180, 235, 141, 152, 32, 99, 108, 111, 117, 100, 45, 105, 110, 105,
       116, 47, 236, 139, 156, 235, 166, 172, 236, 150, 188, 32, 236, 189, 152, 236, 134, 148, 32,
       236, 138, 164, 237, 129, 172, 235, 161, 164, 235, 176, 177, 236, 157, 132, 32, 236, 167,
       128, 236, 154, 180, 235, 139, 164, 32, 40, 67, 108, 101, 97, 114, 32, 116, 104, 101, 32, 75,
       117, 98, 101, 86, 105, 114, 116],
     ''      # serial-console boot scrollback before showing the lab prompt).'',
     utf8 [32, 32, 32, 32, 32, 32, 112, 114, 105, 110, 116, 102, 32, 39, 92, 48, 51, 51, 91, 72,
       92, 48, 51, 51, 91, 50, 74, 92, 48, 51, 51, 91, 51, 74, 39],
     ''      cd /home/lab'',
     utf8 [32, 32, 32, 32, 32, 32, 35, 32, 87, 101, 98, 32, 237, 132, 176, 235, 175, 184, 235, 132,
       144, 236, 157, 180, 32, 98, 111, 111, 116, 32, 108, 111, 103, 32, 235, 165, 188, 32, 235,
       178, 132, 235, 166, 172, 234, 179, 160, 32, 236, 164, 128, 235, 185, 132, 32, 236, 153, 132,
       235, 163, 140, 32, 236, 139, 156, 236, 160, 144, 236, 151, 144, 32, 235, 176, 148, 235, 161,
       156, 32, 237, 145, 156, 236, 139, 156, 237, 149, 160, 32, 236, 136, 152, 32, 236, 158, 136,
       235, 143, 132, 235, 161, 157, 32, 235, 179, 180, 236, 157, 180, 236, 167, 128, 32, 236, 149,
       138, 235, 138, 148, 32, 79, 83, 67, 32, 236, 139, 160, 237, 152, 184, 235, 165, 188, 32,
       235, 130, 184, 235, 139, 164, 46],
     utf8 [32, 32, 32, 32, 32, 32, 112, 114, 105, 110, 116, 102, 32, 39, 92, 48, 51, 51, 93, 49,
       51, 51, 55, 59, 67, 108, 101, 100, 121, 117, 84, 101, 114, 109, 105, 110, 97, 108, 82, 101,
       97, 100, 121, 61, 49, 92, 97, 39],
     ''  - path: /home/lab/.bashrc'',
     ''    owner: lab:lab'',
     ''    permissions: "0644"'',
     ''    defer: true'',
     ''    append: true'',
     ''    content: |'',
     utf8 [32, 32, 32, 32, 32, 32, 35, 32, 237, 149, 153, 236, 138, 181, 236, 158, 144, 32, 237,
       153, 148, 235, 169, 180, 236, 151, 144, 235, 138, 148, 32, 235, 130, 180, 235, 182, 128, 32,
       115, 101, 115, 115, 105, 111, 110, 32, 104, 111, 115, 116, 110, 97, 109, 101, 32, 235, 140,
       128, 236, 139, 160, 32, 67, 108, 101, 100, 121, 117, 32, 235, 157, 188, 235, 178, 168, 235,
       167, 140, 32, 235, 179, 180, 236, 151, 172, 236, 164, 128, 235, 139, 164, 46],
     utf8 [32, 32, 32, 32, 32, 32, 80, 83, 49, 61, 39, 92, 91, 92, 48, 51, 51, 91, 49, 59, 51, 50,
       109, 92, 93, 67, 108, 101, 100, 121, 117, 92, 91, 92, 48, 51, 51, 91, 48, 109, 92, 93, 32,
       92, 119, 32, 226, 158, 156, 32, 39],
     ''runcmd:'']\<close>

definition kv_tail :: string where
  \<open>kv_tail = unlines [
     ''  - systemctl daemon-reload'',
     ''  - systemctl restart serial-getty@ttyS0.service'']\<close>

definition forced_command :: string where
  \<open>forced_command = ''command="/usr/local/libexec/cledyu-list-files",restrict ''\<close>

text \<open>The authorized keys: the validation key unless it is the file list key, then the restricted one.\<close>

definition kv_ssh_keys :: "string \<Rightarrow> string \<Rightarrow> string list" where
  "kv_ssh_keys labSSHPublicKey fileListSSHPublicKey =
     (let labKey = TrimSpace labSSHPublicKey; fileListKey = TrimSpace fileListSSHPublicKey in
      (if labKey \<noteq> [] \<and> \<not> sameSSHPublicKeyMaterial labKey fileListKey then [labKey] else [])
      @ (if fileListKey \<noteq> [] then [forced_command @ fileListKey] else []))"

definition kv_renderCloudInitWithAccess :: "string \<Rightarrow> string \<Rightarrow> string \<Rightarrow> BootInit \<Rightarrow> string" where
  "kv_renderCloudInitWithAccess sessionID labSSHPublicKey fileListSSHPublicKey init =
     (let sshKeys = kv_ssh_keys labSSHPublicKey fileListSSHPublicKey in
      kv_head (''session-'' @ sessionID)
      @ (if length sshKeys > 0
         then unlines (''    ssh_authorized_keys:'' # map (\<lambda>key. ''      - '' @ go_quote key) sshKeys)
         else [])
      @ kv_chpasswd
      @ (if length (bi_packages init) > 0
         then unlines (''packages:'' # map (\<lambda>p. ''  - '' @ p) (bi_packages init))
         else [])
      @ kv_getty
      @ (if TrimSpace fileListSSHPublicKey \<noteq> [] then kv_list_files else [])
      @ kv_profile
      @ unlines (map (\<lambda>cmd. ''  - '' @ go_quote cmd) (bi_runcmd init))
      @ kv_tail)"

section \<open>EC2 user data\<close>

definition tailnetHostname :: "string \<Rightarrow> string \<Rightarrow> string" where
  "tailnetHostname pfx sessionID = (if pfx = [] then ''lab'' else pfx) @ ''-'' @ sessionID"

definition ec2_users :: string where
  \<open>ec2_users = unlines [
     ''users:'',
     ''  - name: lab'',
     ''    lock_passwd: false'',
     ''    shell: /bin/bash'',
     ''    sudo: ALL=(ALL) NOPASSWD:ALL'',
     ''chpasswd:'',
     ''  expire: false'',
     ''  list: |'',
     ''    lab:lab'']\<close>

definition ec2_cli :: string where
  \<open>ec2_cli = unlines [
     utf8 [32, 32, 45, 32, 115, 104, 32, 45, 99, 32, 39, 109, 105, 115, 115, 61, 59, 32, 102, 111,
       114, 32, 99, 32, 105, 110, 32, 99, 117, 114, 108, 32, 117, 110, 122, 105, 112, 59, 32, 100,
       111, 32, 99, 111, 109, 109, 97, 110, 100, 32, 45, 118, 32, 36, 99, 32, 62, 47, 100, 101,
       118, 47, 110, 117, 108, 108, 32, 50, 62, 38, 49, 32, 124, 124, 32, 109, 105, 115, 115, 61,
       34, 36, 109, 105, 115, 115, 32, 36, 99, 34, 59, 32, 100, 111, 110, 101, 59, 32, 91, 32, 45,
       110, 32, 34, 36, 109, 105, 115, 115, 34, 32, 93, 32, 38, 38, 32, 123, 32, 97, 112, 116, 45,
       103, 101, 116, 32, 117, 112, 100, 97, 116, 101, 59, 32, 68, 69, 66, 73, 65, 78, 95, 70, 82,
       79, 78, 84, 69, 78, 68, 61, 110, 111, 110, 105, 110, 116, 101, 114, 97, 99, 116, 105, 118,
       101, 32, 97, 112, 116, 45, 103, 101, 116, 32, 105, 110, 115, 116, 97, 108, 108, 32, 45, 121,
       32, 36, 109, 105, 115, 115, 59, 32, 125, 59, 32, 116, 114, 117, 101, 39]]\<close>

definition ec2_ssm :: string where
  \<open>ec2_ssm = unlines [
     ''  - if systemctl enable --now amazon-ssm-agent 2>/dev/null; then :; else snap install amazon-ssm-agent --classic 2>/dev/null || true; systemctl enable --now snap.amazon-ssm-agent.amazon-ssm-agent.service 2>/dev/null || true; fi'']\<close>

definition ec2_tailscale :: string where
  \<open>ec2_tailscale = unlines [
     ''  - curl -fsSL https://tailscale.com/install.sh | sh || true'']\<close>

definition ec2_code_server :: string where
  \<open>ec2_code_server = unlines [
     ''  - curl -fsSL https://code-server.dev/install.sh | sh || true'']\<close>

definition ec2_renderCloudInit :: "string \<Rightarrow> string \<Rightarrow> BootInit \<Rightarrow> string \<Rightarrow> string" where
  "ec2_renderCloudInit sessionID pfx init authKey =
     unlines [''#cloud-config'']
     @ ec2_users
     @ (if length (bi_packages init) > 0
        then unlines ([''package_update: true'', ''packages:'']
               @ map (\<lambda>p. ''  - '' @ yamlScalar p) (bi_packages init))
        else [])
     @ unlines [''runcmd:'']
     @ ec2_cli
     @ ec2_ssm
     @ (if authKey \<noteq> []
        then ec2_tailscale
             @ unlines [''  - tailscale up --ssh --hostname='' @ yamlScalar (tailnetHostname pfx sessionID)
                        @ '' --authkey='' @ yamlScalar authKey]
        else [])
     @ unlines (map (\<lambda>cmd. ''  - '' @ yamlScalar cmd) (bi_runcmd init))
     @ (if authKey \<noteq> [] then ec2_code_server else [])"

section \<open>Properties\<close>

text \<open>
  The double-quoted scalar of YAML, as far as \<open>yamlScalar\<close> uses it: a backslash escapes a
  backslash or a quote, and the first unescaped quote ends the scalar.
\<close>

fun yaml_body :: "string \<Rightarrow> (string \<times> string) option" where
  "yaml_body [] = None"
| "yaml_body (c # s) =
     (if c = dquote then Some ([], s)
      else if c = backslash then
        (case s of
           [] \<Rightarrow> None
         | d # s' \<Rightarrow> if d = backslash \<or> d = dquote
                    then map_option (\<lambda>(v, rest). (d # v, rest)) (yaml_body s') else None)
      else map_option (\<lambda>(v, rest). (c # v, rest)) (yaml_body s))"

definition yaml_parse :: "string \<Rightarrow> (string \<times> string) option" where
  "yaml_parse s = (case s of [] \<Rightarrow> None | c # s' \<Rightarrow> if c = dquote then yaml_body s' else None)"

lemma yaml_body_escaped:
  "yaml_body (concat (map (\<lambda>c. if c = backslash then [backslash, backslash]
                               else if c = dquote then [backslash, dquote] else [c]) s) @ dquote # rest)
   = Some (s, rest)"
  by (induction s) (auto simp: char_names)

text \<open>
  A value written with \<open>yamlScalar\<close> is read back unchanged: no content of a package name, a
  command or an auth key can close its quotes and inject further YAML on the line.
\<close>

theorem yamlScalar_roundtrip: "yaml_parse (yamlScalar s @ rest) = Some (s, rest)"
  using yaml_body_escaped [of s rest] by (simp add: yamlScalar_def yaml_parse_def char_names)

lemma hex_digit_not_newline: "n < 16 \<Longrightarrow> hex_digit n \<noteq> newline"
proof -
  assume n: "n < 16"
  then have "of_char (hex_digit n) = (if n < 10 then 48 + n else 87 + n)"
    by (simp add: hex_digit_def)
  moreover have "of_char newline = (10 :: nat)" by (simp add: newline_def)
  ultimately show ?thesis using n by (auto split: if_splits)
qed

lemma quote_char_no_newline: "newline \<notin> set (quote_char c)"
proof -
  have "(of_char c :: nat) div 16 < 16" "(of_char c :: nat) mod 16 < 16"
    using nat_of_char_less_256 [of c] by (simp_all add: less_mult_imp_div_less)
  then have "hex_digit (of_char c div 16) \<noteq> newline" "hex_digit (of_char c mod 16) \<noteq> newline"
    by (simp_all add: hex_digit_not_newline)
  moreover have "c = newline \<Longrightarrow> (of_char c :: nat) = 10" by (simp add: newline_def)
  moreover have "newline \<noteq> backslash" "newline \<noteq> dquote" "newline \<notin> set ''abtnvfrx''"
    by (simp_all add: char_names)
  ultimately show ?thesis
    by (auto simp: quote_char_def Let_def)
qed

lemma go_quote_no_newline: "newline \<notin> set (go_quote s)"
  using quote_char_no_newline by (auto simp: go_quote_def char_names)

text \<open>
  The two renderers differ on commands with line breaks: a \<open>runcmd\<close> entry of the KubeVirt user
  data is always one line, while \<open>yamlScalar\<close> copies a line break into the EC2 user data, where
  a double-quoted scalar folds it into a space.
\<close>

theorem runcmd_line_breaks:
  "newline \<notin> set (go_quote s) \<and> (newline \<in> set (yamlScalar s) \<longleftrightarrow> newline \<in> set s)"
  using go_quote_no_newline by (auto simp: yamlScalar_def char_names split: if_splits)

text \<open>
  The file list key never opens a shell: an authorized key entry of a session VM either carries
  the forced command, or it is the validation key and its key material is not that of the file
  list key.
\<close>

theorem file_list_key_restricted:
  assumes "k \<in> set (kv_ssh_keys labKey fileListKey)"
  shows "prefix forced_command k
    \<or> k = TrimSpace labKey \<and> (sshPublicKeyMaterial k = None
         \<or> sshPublicKeyMaterial k \<noteq> sshPublicKeyMaterial (TrimSpace fileListKey))"
  using assms
  by (auto simp: kv_ssh_keys_def Let_def sameSSHPublicKeyMaterial_def split: if_splits option.splits)

theorem file_list_key_restricted_witness:
  "kv_ssh_keys ''ssh-rsa AAA lab'' ''ssh-rsa AAA files'' = [forced_command @ ''ssh-rsa AAA files'']
   \<and> kv_ssh_keys ''ssh-rsa BBB lab'' ''ssh-rsa AAA files'' = [''ssh-rsa BBB lab'', forced_command @ ''ssh-rsa AAA files'']
   \<and> sshPublicKeyMaterial ''ssh-rsa BBB lab'' \<noteq> sshPublicKeyMaterial ''ssh-rsa AAA files''"
proof -
  have k: "kv_ssh_keys ''ssh-rsa AAA lab'' ''ssh-rsa AAA files'' = [forced_command @ ''ssh-rsa AAA files'']"
    "kv_ssh_keys ''ssh-rsa BBB lab'' ''ssh-rsa AAA files'' = [''ssh-rsa BBB lab'', forced_command @ ''ssh-rsa AAA files'']"
    "\<not> prefix forced_command ''ssh-rsa BBB lab''" "TrimSpace ''ssh-rsa AAA files'' = ''ssh-rsa AAA files''"
    "sshPublicKeyMaterial ''ssh-rsa BBB lab'' \<noteq> None"
    by (simp_all add: kv_ssh_keys_def sameSSHPublicKeyMaterial_def sshPublicKeyMaterial_def Fields_def
        TrimSpace_def is_space_def forced_command_def)
  with file_list_key_restricted [of "''ssh-rsa BBB lab''" "''ssh-rsa BBB lab''" "''ssh-rsa AAA files''"]
  show ?thesis by simp
qed

end
