(* ===== verification/Vm_Metrics.thy ===== *)
theory Vm_Metrics
  imports Prelude
begin

text \<open>
  The boot counters of \<open>src/apps/api/internal/vmmetrics/vmmetrics.go\<close>: a counter or histogram with
  labels is a function from label values; a nil \<open>*Recorder\<close> is \<open>None\<close>. Durations are kept in
  nanoseconds, so the sentinel \<open>-1.0\<close> (seconds) is \<open>- second\<close>.
\<close>

definition ResultSuccess :: string where "ResultSuccess = ''success''"

definition ResultFailed :: string where "ResultFailed = ''failed''"

definition LabEnvOnprem :: string where "LabEnvOnprem = ''onprem''"

definition LabEnvEC2 :: string where "LabEnvEC2 = ''ec2''"

definition LabReasonReady :: string where "LabReasonReady = ''ready''"

definition LabReasonVMFailed :: string where "LabReasonVMFailed = ''vm_failed''"

definition LabReasonTimeout :: string where "LabReasonTimeout = ''timeout''"

record Recorder =
  vmBootTotal :: "string \<times> string \<Rightarrow> nat"
  labStartTotal :: "string \<times> string \<times> string \<Rightarrow> nat"
  labStartupDuration :: "string \<times> string \<Rightarrow> duration list"

definition new_recorder :: Recorder where
  "new_recorder = \<lparr>vmBootTotal = (\<lambda>_. 0), labStartTotal = (\<lambda>_. 0), labStartupDuration = (\<lambda>_. [])\<rparr>"

definition RecordBoot :: "string \<Rightarrow> string \<Rightarrow> Recorder option \<Rightarrow> Recorder option" where
  "RecordBoot result env r =
     map_option (\<lambda>m. m\<lparr>vmBootTotal := (vmBootTotal m)((result, env) := vmBootTotal m (result, env) + 1)\<rparr>) r"

definition RecordLabStart ::
  "string \<Rightarrow> string \<Rightarrow> string \<Rightarrow> duration \<Rightarrow> Recorder option \<Rightarrow> Recorder option" where
  "RecordLabStart result env reason dur r =
     map_option (\<lambda>m.
       (let m1 = m\<lparr>labStartTotal := (labStartTotal m)((result, env, reason) :=
                    labStartTotal m (result, env, reason) + 1)\<rparr> in
        if dur \<ge> 0
        then m1\<lparr>labStartupDuration := (labStartupDuration m1)((result, env) :=
                    labStartupDuration m1 (result, env) @ [dur])\<rparr>
        else m1)) r"

text \<open>The number of boots counted for an environment, whatever their result.\<close>

definition boots :: "string \<Rightarrow> Recorder option \<Rightarrow> nat" where
  "boots env r = (case r of None \<Rightarrow> 0 | Some m \<Rightarrow> vmBootTotal m (ResultSuccess, env) + vmBootTotal m (ResultFailed, env))"

lemma RecordLabStart_boot [simp]:
  "map_option vmBootTotal (RecordLabStart a b c d r) = map_option vmBootTotal r"
  by (cases r) (simp_all add: RecordLabStart_def Let_def)

lemma boots_RecordLabStart [simp]: "boots env (RecordLabStart a b c d r) = boots env r"
  by (cases r) (simp_all add: RecordLabStart_def boots_def Let_def)

lemma boots_RecordBoot:
  "a \<in> {ResultSuccess, ResultFailed} \<Longrightarrow>
   boots env (RecordBoot a env' r) = boots env r + (if env' = env \<and> r \<noteq> None then 1 else 0)"
  by (cases r) (auto simp: RecordBoot_def boots_def ResultSuccess_def ResultFailed_def)

end
