(* ===== verification/Kubevirt.thy ===== *)
theory Kubevirt
  imports Cloud_Init Vm_Metrics
begin

text \<open>
  The on-premises provider: \<open>src/apps/api/internal/kubevirt/session.go\<close> and the boot watcher of
  \<open>src/apps/api/internal/kubevirt/watcher.go\<close>.

  The Kubernetes API server is not part of the repository: it is the parameter \<open>api\<close>, a record of
  the calls the manager makes over an arbitrary cluster state \<open>'w\<close>. An API error is either
  \<open>NotFound\<close> (\<open>k8serr.IsNotFound\<close>) or another error with its message. The state of the manager
  is the cluster with the metrics recorder.
\<close>

section \<open>The Kubernetes objects\<close>

datatype k8s_err = K8sNotFound string | K8sOther string

fun k8s_msg :: "k8s_err \<Rightarrow> string" where
  "k8s_msg (K8sNotFound m) = m"
| "k8s_msg (K8sOther m) = m"

fun IsNotFound :: "k8s_err \<Rightarrow> bool" where
  "IsNotFound (K8sNotFound m) = True"
| "IsNotFound (K8sOther m) = False"

record Namespace =
  ns_name :: string
  ns_labels :: "string \<rightharpoonup> string"
  ns_annotations :: "string \<rightharpoonup> meta"
  ns_phase :: string
  ns_deletion :: "go_time option"
  ns_created :: go_time

text \<open>
  A virtual machine instance: its \<open>status.phase\<close> (empty when absent) and for each entry of
  \<open>status.interfaces\<close> the string at \<open>ipAddress\<close>, if the entry is a map that has one.
\<close>

record VMI =
  vmi_phase :: string
  vmi_interfaces :: "string option list"

record 'w k8s =
  k_ns_create :: "string \<Rightarrow> (string \<rightharpoonup> string) \<Rightarrow> (string \<rightharpoonup> meta) \<Rightarrow> 'w \<Rightarrow> k8s_err option \<times> 'w"
  k_ns_get :: "string \<Rightarrow> 'w \<Rightarrow> (k8s_err + Namespace) \<times> 'w"
  k_ns_list :: "string \<Rightarrow> 'w \<Rightarrow> (k8s_err + Namespace list) \<times> 'w"
  k_ns_update :: "Namespace \<Rightarrow> 'w \<Rightarrow> k8s_err option \<times> 'w"
  k_ns_delete :: "string \<Rightarrow> 'w \<Rightarrow> k8s_err option \<times> 'w"
  k_secret_create :: "string \<Rightarrow> string \<Rightarrow> (string \<rightharpoonup> string) \<Rightarrow> 'w \<Rightarrow> k8s_err option \<times> 'w"
  k_vm_create :: "string \<Rightarrow> json \<Rightarrow> 'w \<Rightarrow> k8s_err option \<times> 'w"
  k_vmi_get :: "string \<Rightarrow> string \<Rightarrow> 'w \<Rightarrow> (k8s_err + VMI) \<times> 'w"
  k_pvc_phase :: "string \<Rightarrow> string \<Rightarrow> 'w \<Rightarrow> (k8s_err + string) \<times> 'w"

record kv_config =
  kc_SessionTTLHours :: int
  kc_LabSSHPublicKey :: string
  kc_FileListSSHPublicKey :: string
  kc_BaseImageNS :: string
  kc_BaseImageName :: string
  kc_StorageClass :: string
  kc_MaxActiveSessions :: int
  kc_ProvisionTimeoutMinutes :: int

record 'w manager =
  kv_world :: 'w
  kv_met :: "Recorder option"

text \<open>An API call on the cluster part of the state.\<close>

definition api_call :: "('w \<Rightarrow> 'r \<times> 'w) \<Rightarrow> 'w manager \<Rightarrow> 'r \<times> 'w manager" where
  "api_call f m = (let (r, w) = f (kv_world m) in (r, m\<lparr>kv_world := w\<rparr>))"

section \<open>Constants\<close>

definition annUserID :: string where "annUserID = ''cledyu.io/user-id''"

definition labelManagedBy :: string where "labelManagedBy = ''cledyu.io/managed-by''"

definition managedByValue :: string where "managedByValue = ''cledyu-session''"

definition annLabID :: string where "annLabID = ''cledyu.io/lab-id''"

definition annStartedAt :: string where "annStartedAt = ''cledyu.io/started-at''"

definition annExpiresAt :: string where "annExpiresAt = ''cledyu.io/expires-at''"

definition annReadyAt :: string where "annReadyAt = ''cledyu.io/ready-at''"

definition annBootResult :: string where "annBootResult = ''cledyu.io/boot-result-recorded''"

lemmas ann_defs = annUserID_def labelManagedBy_def managedByValue_def annLabID_def annStartedAt_def
  annExpiresAt_def annReadyAt_def annBootResult_def

definition ns_of :: "string \<Rightarrow> string" where
  "ns_of sessionID = ''lab-'' @ sessionID"

definition labVMType :: "string \<rightharpoonup> string" where
  "labVMType = map_of [(''lab-k8s-basics'', ''lab-small''), (''lab-docker-basics'', ''lab-small''),
     (''lab-ansible-basics'', ''lab-small''), (''lab-terraform-basics'', ''lab-small''),
     (''lab-helm-advanced'', ''lab-medium'')]"

definition vm_type_for :: "string \<Rightarrow> string" where
  "vm_type_for labID = (case labVMType labID of None \<Rightarrow> ''lab-small'' | Some t \<Rightarrow> t)"

section \<open>Boot status\<close>

text \<open>\<open>ann[key] != ""\<close> for a key of the annotation map.\<close>

definition ann_set :: "Namespace \<Rightarrow> string \<Rightarrow> bool" where
  "ann_set ns k \<longleftrightarrow> meta_get (ns_annotations ns) k \<noteq> Text []"

definition started_at :: "Namespace \<Rightarrow> go_time" where
  "started_at ns = parse_or_zero (meta_get (ns_annotations ns) annStartedAt)"

definition annotate :: "string \<Rightarrow> meta \<Rightarrow> Namespace \<Rightarrow> Namespace" where
  "annotate k v ns = ns\<lparr>ns_annotations := (ns_annotations ns)(k \<mapsto> v)\<rparr>"

definition syncBootStatus ::
  "'w k8s \<Rightarrow> go_time \<Rightarrow> string \<Rightarrow> string \<Rightarrow> 'w manager \<Rightarrow> string option \<times> 'w manager" where
  "syncBootStatus api now ns phase m =
     (let (r, m1) = api_call (k_ns_get api ns) m in
      case r of
        Inl e \<Rightarrow> if IsNotFound e then (None, m1) else (Some (''get namespace: '' @ k8s_msg e), m1)
      | Inr nsObj \<Rightarrow>
          if ns_labels nsObj labelManagedBy \<noteq> Some managedByValue then (None, m1)
          else if phase = ''Running'' then
            (if ann_set nsObj annReadyAt then (None, m1)
             else
               (let (e, m2) = api_call (k_ns_update api (annotate annReadyAt (format_rfc3339 now) nsObj)) m1 in
                case e of
                  Some e' \<Rightarrow> (Some (''update ready-at annotation: '' @ k8s_msg e'), m2)
                | None \<Rightarrow>
                    if is_zero (started_at nsObj) then (None, m2)
                    else (None, m2\<lparr>kv_met :=
                      RecordLabStart ResultSuccess LabEnvOnprem LabReasonReady (now - started_at nsObj)
                        (RecordBoot ResultSuccess ProviderKubeVirt (kv_met m2))\<rparr>)))
          else if phase \<in> {''Failed'', ''Succeeded'', ''TimedOut''} then
            (if ann_set nsObj annReadyAt \<or> ann_set nsObj annBootResult then (None, m1)
             else
               (let (e, m2) = api_call (k_ns_update api (annotate annBootResult (Text ''true'') nsObj)) m1 in
                case e of
                  Some e' \<Rightarrow> (Some (''update boot-result-recorded annotation: '' @ k8s_msg e'), m2)
                | None \<Rightarrow>
                    (None, m2\<lparr>kv_met :=
                      RecordLabStart ResultFailed LabEnvOnprem
                        (if phase = ''TimedOut'' then LabReasonTimeout else LabReasonVMFailed)
                        (if is_zero (started_at nsObj) then - second else now - started_at nsObj)
                        (RecordBoot ResultFailed ProviderKubeVirt (kv_met m2))\<rparr>)))
          else (None, m1))"

definition handleVMIEvent ::
  "'w k8s \<Rightarrow> go_time \<Rightarrow> string \<Rightarrow> string \<Rightarrow> 'w manager \<Rightarrow> 'w manager" where
  "handleVMIEvent api now ns phase m =
     (if phase = [] then m else snd (syncBootStatus api now ns phase m))"

section \<open>Create\<close>

definition vm_object :: "kv_config \<Rightarrow> string \<Rightarrow> string \<Rightarrow> json" where
  "vm_object cfg ns vmType =
     JObj [
       (''apiVersion'', JStr ''kubevirt.io/v1''),
       (''kind'', JStr ''VirtualMachine''),
       (''metadata'', JObj [(''name'', JStr ''session-vm''), (''namespace'', JStr ns)]),
       (''spec'', JObj [
         (''running'', JBool True),
         (''instancetype'', JObj [(''kind'', JStr ''VirtualMachineClusterInstancetype''),
                                  (''name'', JStr vmType)]),
         (''preference'', JObj [(''kind'', JStr ''VirtualMachineClusterPreference''),
                                (''name'', JStr ''cledyu-ubuntu'')]),
         (''dataVolumeTemplates'', JArr [JObj [
            (''metadata'', JObj [(''name'', JStr ''session-rootdisk'')]),
            (''spec'', JObj [
               (''source'', JObj [(''pvc'', JObj [(''namespace'', JStr (kc_BaseImageNS cfg)),
                                                  (''name'', JStr (kc_BaseImageName cfg))])]),
               (''storage'', JObj [
                  (''accessModes'', JArr [JStr ''ReadWriteOnce'']),
                  (''resources'', JObj [(''requests'', JObj [(''storage'', JStr ''10Gi'')])]),
                  (''storageClassName'', JStr (kc_StorageClass cfg))])])]]),
         (''template'', JObj [(''spec'', JObj [
            (''terminationGracePeriodSeconds'', JInt 30),
            (''domain'', JObj [(''devices'', JObj [
               (''disks'', JArr [
                  JObj [(''name'', JStr ''rootdisk''), (''disk'', JObj [(''bus'', JStr ''virtio'')])],
                  JObj [(''name'', JStr ''cloudinitdisk''), (''disk'', JObj [(''bus'', JStr ''virtio'')])]]),
               (''interfaces'', JArr [JObj [(''name'', JStr ''default''), (''masquerade'', JObj [])]])])]),
            (''networks'', JArr [JObj [(''name'', JStr ''default''), (''pod'', JObj [])]]),
            (''volumes'', JArr [
               JObj [(''name'', JStr ''rootdisk''),
                     (''dataVolume'', JObj [(''name'', JStr ''session-rootdisk'')])],
               JObj [(''name'', JStr ''cloudinitdisk''),
                     (''cloudInitNoCloud'', JObj [(''secretRef'',
                        JObj [(''name'', JStr ''session-cloudinit'')])])]])])])])]"

definition kv_Create ::
  "'w k8s \<Rightarrow> kv_config \<Rightarrow> go_time \<Rightarrow> string \<Rightarrow> string \<Rightarrow> string \<Rightarrow> BootInit \<Rightarrow>
   'w manager \<Rightarrow> (err + Session) \<times> 'w manager" where
  "kv_Create api cfg now sessionID labID userID init m =
     (let ns = ns_of sessionID;
          expires = now + kc_SessionTTLHours cfg * hour;
          (e1, m1) = api_call (k_ns_create api ns [labelManagedBy \<mapsto> managedByValue]
             [annLabID \<mapsto> Text labID, annUserID \<mapsto> Text userID,
              annStartedAt \<mapsto> format_rfc3339 now, annExpiresAt \<mapsto> format_rfc3339 expires]) m
      in case e1 of
        Some e \<Rightarrow> (Inl (ErrOther (''create namespace: '' @ k8s_msg e)), m1)
      | None \<Rightarrow>
     (let (e2, m2) = api_call (k_secret_create api ns ''session-cloudinit''
             [''userdata'' \<mapsto> kv_renderCloudInitWithAccess sessionID (kc_LabSSHPublicKey cfg)
                (kc_FileListSSHPublicKey cfg) init]) m1
      in case e2 of
        Some e \<Rightarrow> (Inl (ErrOther (''create cloud-init secret: '' @ k8s_msg e)), m2)
      | None \<Rightarrow>
     (let (e3, m3) = api_call (k_vm_create api ns (vm_object cfg ns (vm_type_for labID))) m2
      in case e3 of
        Some e \<Rightarrow> (Inl (ErrOther (''create vm: '' @ k8s_msg e)), m3)
      | None \<Rightarrow>
          (Inr \<lparr>s_ID = sessionID, s_LabID = labID, s_UserID = userID, s_Status = ''provisioning'',
                s_ProvisioningStage = [], s_StartedAt = now, s_ExpiresAt = expires,
                s_Provider = ProviderKubeVirt, s_InstanceID = [], s_Region = [],
                s_TailnetEnabled = False\<rparr>, m3))))"

section \<open>Listing\<close>

definition session_selector :: string where
  "session_selector = labelManagedBy @ ''='' @ managedByValue"

definition namespaceDeleting :: "Namespace \<Rightarrow> bool" where
  "namespaceDeleting ns \<longleftrightarrow> ns_phase ns = ''Terminating'' \<or> ns_deletion ns \<noteq> None"

definition session_of_ns :: "Namespace \<Rightarrow> string" where
  "session_of_ns ns = trim_prefix (ns_name ns) ''lab-''"

definition list_error :: "k8s_err \<Rightarrow> err" where
  "list_error e = ErrOther (''list session namespaces: '' @ k8s_msg e)"

definition kv_FindActiveByUser :: "'w k8s \<Rightarrow> string \<Rightarrow> 'w manager \<Rightarrow> (err + string) \<times> 'w manager" where
  "kv_FindActiveByUser api userID m =
     (if userID = [] then (Inr [], m)
      else
        (let (r, m1) = api_call (k_ns_list api session_selector) m in
         case r of
           Inl e \<Rightarrow> (Inl (list_error e), m1)
         | Inr items \<Rightarrow>
             (Inr (case find (\<lambda>ns. text_of (meta_get (ns_annotations ns) annUserID) = userID
                                   \<and> \<not> namespaceDeleting ns) items of
                     None \<Rightarrow> []
                   | Some ns \<Rightarrow> session_of_ns ns), m1)))"

definition kv_CountActiveSessions :: "'w k8s \<Rightarrow> 'w manager \<Rightarrow> (err + int) \<times> 'w manager" where
  "kv_CountActiveSessions api m =
     (let (r, m1) = api_call (k_ns_list api session_selector) m in
      case r of
        Inl e \<Rightarrow> (Inl (list_error e), m1)
      | Inr items \<Rightarrow> (Inr (int (length (filter (\<lambda>ns. \<not> namespaceDeleting ns) items))), m1))"

section \<open>Reading a session\<close>

definition vmiPhase :: "'w k8s \<Rightarrow> string \<Rightarrow> 'w manager \<Rightarrow> string \<times> 'w manager" where
  "vmiPhase api ns m =
     (let (r, m1) = api_call (k_vmi_get api ns ''session-vm'') m in
      (case r of Inl e \<Rightarrow> [] | Inr vmi \<Rightarrow> vmi_phase vmi, m1))"

fun first_ip :: "string option list \<Rightarrow> string option" where
  "first_ip [] = None"
| "first_ip (x # xs) = (case x of Some ip \<Rightarrow> if ip \<noteq> [] then Some ip else first_ip xs | None \<Rightarrow> first_ip xs)"

definition kv_VMIAddress :: "'w k8s \<Rightarrow> string \<Rightarrow> 'w manager \<Rightarrow> (err + string) \<times> 'w manager" where
  "kv_VMIAddress api sessionID m =
     (let (r, m1) = api_call (k_vmi_get api (ns_of sessionID) ''session-vm'') m in
      case r of
        Inl e \<Rightarrow> if IsNotFound e then (Inl ErrNotFound, m1)
                 else (Inl (ErrOther (''get vmi: '' @ k8s_msg e)), m1)
      | Inr vmi \<Rightarrow>
          (case first_ip (vmi_interfaces vmi) of
             Some ip \<Rightarrow> (Inr ip, m1)
           | None \<Rightarrow> (Inl ErrNotFound, m1)))"

definition provisioningStage ::
  "'w k8s \<Rightarrow> string \<Rightarrow> string \<Rightarrow> 'w manager \<Rightarrow> string \<times> 'w manager" where
  "provisioningStage api ns phase m =
     (let (r, m1) = api_call (k_pvc_phase api ns ''session-rootdisk'') m in
      (if r = Inr ''Bound'' then ''vm_starting''
       else if phase \<noteq> [] then ''vm_starting'' else ''disk_cloning'', m1))"

definition provisioningTimedOut :: "kv_config \<Rightarrow> go_time \<Rightarrow> go_time \<Rightarrow> bool" where
  "provisioningTimedOut cfg now startedAt =
     (if kc_ProvisionTimeoutMinutes cfg \<le> 0 \<or> is_zero startedAt then False
      else now - startedAt \<ge> kc_ProvisionTimeoutMinutes cfg * minute)"

text \<open>
  The status from the VMI: the status, the stage and the state after the boot status sync, whose
  error is only logged.
\<close>

definition vmi_status ::
  "'w k8s \<Rightarrow> go_time \<Rightarrow> string \<Rightarrow> 'w manager \<Rightarrow> string \<times> string \<times> 'w manager" where
  "vmi_status api now ns m =
     (let (r, m1) = api_call (k_vmi_get api ns ''session-vm'') m in
      case r of
        Inl e \<Rightarrow> (let (stage, m2) = provisioningStage api ns [] m1 in (''provisioning'', stage, m2))
      | Inr vmi \<Rightarrow>
          (let phase = vmi_phase vmi in
           if phase = ''Running'' then (''ready'', [], snd (syncBootStatus api now ns phase m1))
           else if phase = ''Failed'' \<or> phase = ''Succeeded''
           then (''failed'', [], snd (syncBootStatus api now ns phase m1))
           else (let (stage, m2) = provisioningStage api ns phase m1 in (''provisioning'', stage, m2))))"

definition kv_Get ::
  "'w k8s \<Rightarrow> kv_config \<Rightarrow> go_time \<Rightarrow> string \<Rightarrow> 'w manager \<Rightarrow> (err + Session) \<times> 'w manager" where
  "kv_Get api cfg now sessionID m =
     (let ns = ns_of sessionID; (r, m1) = api_call (k_ns_get api ns) m in
      case r of
        Inl e \<Rightarrow> if IsNotFound e then (Inl ErrNotFound, m1)
                 else (Inl (ErrOther (''get namespace: '' @ k8s_msg e)), m1)
      | Inr nsObj \<Rightarrow>
          (let ann = meta_get (ns_annotations nsObj);
               startedAt = parse_or_zero (ann annStartedAt);
               expiresAt = parse_or_zero (ann annExpiresAt);
               (st, stage, m2) = vmi_status api now ns m1;
               timed_out = (st = ''provisioning'' \<and> provisioningTimedOut cfg now startedAt);
               m3 = (if timed_out then snd (syncBootStatus api now ns ''TimedOut'' m2) else m2)
           in (Inr \<lparr>s_ID = sessionID, s_LabID = text_of (ann annLabID), s_UserID = text_of (ann annUserID),
                    s_Status = (if timed_out then ''failed'' else st),
                    s_ProvisioningStage = (if timed_out then [] else stage),
                    s_StartedAt = startedAt, s_ExpiresAt = expiresAt, s_Provider = ProviderKubeVirt,
                    s_InstanceID = [], s_Region = [], s_TailnetEnabled = False\<rparr>, m3)))"

definition kv_Delete :: "'w k8s \<Rightarrow> string \<Rightarrow> 'w manager \<Rightarrow> err option \<times> 'w manager" where
  "kv_Delete api sessionID m =
     (let (e, m1) = api_call (k_ns_delete api (ns_of sessionID)) m in
      case e of
        None \<Rightarrow> (None, m1)
      | Some e' \<Rightarrow> if IsNotFound e' then (Some ErrNotFound, m1)
                   else (Some (ErrOther (''delete namespace: '' @ k8s_msg e')), m1))"

section \<open>Reapers\<close>

text \<open>
  The loops of the reapers over the listed namespaces. A namespace is deleted by the API call
  whose error, other than \<open>NotFound\<close>, leaves it for the next period. (\<open>reap_loop\<close> is shared
  with the EC2 provider.)
\<close>

definition reap_ns :: "'w k8s \<Rightarrow> Namespace \<Rightarrow> 'w manager \<Rightarrow> string list \<times> 'w manager" where
  "reap_ns api ns m =
     (let (e, m1) = api_call (k_ns_delete api (ns_name ns)) m in
      (case e of
         Some e' \<Rightarrow> if IsNotFound e' then [session_of_ns ns] else []
       | None \<Rightarrow> [session_of_ns ns], m1))"

definition reap_stuck_one ::
  "'w k8s \<Rightarrow> go_time \<Rightarrow> duration \<Rightarrow> Namespace \<Rightarrow> 'w manager \<Rightarrow> string list \<times> 'w manager" where
  "reap_stuck_one api now timeout ns m =
     (if namespaceDeleting ns then ([], m)
      else
        (let started = (if is_zero (started_at ns) then ns_created ns else started_at ns) in
         if now - started < timeout then ([], m)
         else
           (let (phase, m1) = vmiPhase api (ns_name ns) m in
            if phase = ''Running'' then ([], m1)
            else
              (let recordPhase = (if phase = ''Failed'' \<or> phase = ''Succeeded'' then phase else ''TimedOut'');
                   (e, m2) = syncBootStatus api now (ns_name ns) recordPhase m1
               in case e of Some _ \<Rightarrow> ([], m2) | None \<Rightarrow> reap_ns api ns m2))))"

definition reap_expired_one ::
  "'w k8s \<Rightarrow> go_time \<Rightarrow> Namespace \<Rightarrow> 'w manager \<Rightarrow> string list \<times> 'w manager" where
  "reap_expired_one api now ns m =
     (if namespaceDeleting ns then ([], m)
      else
        (case parse_rfc3339 (meta_get (ns_annotations ns) annExpiresAt) of
           None \<Rightarrow> ([], m)
         | Some expires \<Rightarrow>
             if is_zero expires then ([], m)
             else if now < expires then ([], m)
             else reap_ns api ns m))"

definition kv_reap ::
  "'w k8s \<Rightarrow> (Namespace \<Rightarrow> 'w manager \<Rightarrow> string list \<times> 'w manager) \<Rightarrow>
   'w manager \<Rightarrow> (string list \<times> err option) \<times> 'w manager" where
  "kv_reap api one m =
     (let (r, m1) = api_call (k_ns_list api session_selector) m in
      case r of
        Inl e \<Rightarrow> (([], Some (list_error e)), m1)
      | Inr items \<Rightarrow> (let (reaped, m2) = reap_loop one items m1 in ((reaped, None), m2)))"

definition kv_ReapStuckSessions ::
  "'w k8s \<Rightarrow> go_time \<Rightarrow> duration \<Rightarrow> 'w manager \<Rightarrow> (string list \<times> err option) \<times> 'w manager" where
  "kv_ReapStuckSessions api now timeout m = kv_reap api (reap_stuck_one api now timeout) m"

definition kv_ReapExpiredSessions ::
  "'w k8s \<Rightarrow> go_time \<Rightarrow> 'w manager \<Rightarrow> (string list \<times> err option) \<times> 'w manager" where
  "kv_ReapExpiredSessions api now m = kv_reap api (reap_expired_one api now) m"

definition kubevirt_provider :: "'w k8s \<Rightarrow> kv_config \<Rightarrow> 'w manager provider" where
  "kubevirt_provider api cfg =
     \<lparr>pv_Create = kv_Create api cfg, pv_Get = kv_Get api cfg, pv_Delete = kv_Delete api,
      pv_FindActiveByUser = kv_FindActiveByUser api, pv_CountActiveSessions = kv_CountActiveSessions api,
      pv_ReapStuckSessions = kv_ReapStuckSessions api, pv_ReapExpiredSessions = kv_ReapExpiredSessions api,
      pv_VMIAddress = kv_VMIAddress api, pv_Capacity = kc_MaxActiveSessions cfg\<rparr>"

lemma vmi_status_cases: "fst (vmi_status api now ns m) \<in> {''provisioning'', ''ready'', ''failed''}"
  by (auto simp: vmi_status_def Let_def split: prod.split sum.split)

interpretation kv: session_provider "kubevirt_provider api cfg" for api :: "'w k8s" and cfg
proof
  fix now sid lab uid init s x s'
  show "pv_Create (kubevirt_provider api cfg) now sid lab uid init s = (Inr x, s') \<Longrightarrow>
      s_ID x = sid \<and> s_LabID x = lab \<and> s_UserID x = uid \<and> s_Status x = ''provisioning''
      \<and> s_Provider x \<in> {ProviderKubeVirt, ProviderEC2}"
    by (auto simp: kubevirt_provider_def kv_Create_def Let_def split: prod.splits option.splits)
next
  fix now sid s x s'
  show "pv_Get (kubevirt_provider api cfg) now sid s = (Inr x, s') \<Longrightarrow>
      s_Status x \<in> {''provisioning'', ''ready'', ''failed''} \<and> s_Provider x \<in> {ProviderKubeVirt, ProviderEC2}"
    using vmi_status_cases [of api now "ns_of sid"]
    by (auto simp: kubevirt_provider_def kv_Get_def Let_def split: prod.splits sum.splits if_splits)
       (metis fst_conv insertE singletonD)+
next
  fix s sid s'
  show "pv_FindActiveByUser (kubevirt_provider api cfg) [] s = (Inr sid, s') \<Longrightarrow> sid = []"
    by (simp add: kubevirt_provider_def kv_FindActiveByUser_def)
next
  fix s n s'
  show "pv_CountActiveSessions (kubevirt_provider api cfg) s = (Inr n, s') \<Longrightarrow> 0 \<le> n"
    by (auto simp: kubevirt_provider_def kv_CountActiveSessions_def split: prod.splits sum.splits)
qed

section \<open>Properties\<close>

lemma reap_ns_mem: "x \<in> set (fst (reap_ns api ns m)) \<Longrightarrow> x = session_of_ns ns"
  by (auto simp: reap_ns_def split: prod.splits option.splits if_splits)

lemma reap_stuck_one_mem:
  assumes "x \<in> set (fst (reap_stuck_one api now timeout ns m))"
  shows "x = session_of_ns ns \<and> \<not> namespaceDeleting ns
    \<and> timeout \<le> now - (if is_zero (started_at ns) then ns_created ns else started_at ns)
    \<and> fst (vmiPhase api (ns_name ns) m) \<noteq> ''Running''"
  using assms
  by (auto simp: reap_stuck_one_def Let_def split: prod.splits option.splits if_splits dest: reap_ns_mem)

lemma reap_expired_one_mem:
  assumes "x \<in> set (fst (reap_expired_one api now ns m))"
  shows "x = session_of_ns ns \<and> \<not> namespaceDeleting ns
    \<and> (\<exists>t. parse_rfc3339 (meta_get (ns_annotations ns) annExpiresAt) = Some t \<and> t \<le> now)"
  using assms
  by (auto simp: reap_expired_one_def split: option.splits if_splits dest: reap_ns_mem)

text \<open>
  The stuck reaper of the on-premises provider protects ready sessions: it reaps only sessions
  of listed namespaces that are not being deleted, are past the provisioning timeout, and whose VM
  was not running when it looked.
\<close>

theorem kv_reap_stuck_only_overdue:
  assumes "api_call (k_ns_list api session_selector) m = (Inr items, m1)"
    and "x \<in> set (fst (fst (kv_ReapStuckSessions api now timeout m)))"
  shows "\<exists>ns\<in>set items. x = session_of_ns ns \<and> \<not> namespaceDeleting ns
    \<and> timeout \<le> now - (if is_zero (started_at ns) then ns_created ns else started_at ns)
    \<and> (\<exists>m'. fst (vmiPhase api (ns_name ns) m') \<noteq> ''Running'')"
proof -
  have "x \<in> set (fst (reap_loop (reap_stuck_one api now timeout) items m1))"
    using assms by (auto simp: kv_ReapStuckSessions_def kv_reap_def split: prod.splits)
  then obtain ns m' where "ns \<in> set items" "x \<in> set (fst (reap_stuck_one api now timeout ns m'))"
    using reap_loop_mem by meson
  from this(1) reap_stuck_one_mem [OF this(2)] show ?thesis by auto
qed

text \<open>
  The expiry reaper of the on-premises provider reaps a session only after the expiry time
  written in its namespace, and never one whose namespace is already being deleted.
\<close>

theorem kv_reap_expired_only_expired:
  assumes "api_call (k_ns_list api session_selector) m = (Inr items, m1)"
    and "x \<in> set (fst (fst (kv_ReapExpiredSessions api now m)))"
  shows "\<exists>ns\<in>set items. x = session_of_ns ns \<and> \<not> namespaceDeleting ns
    \<and> (\<exists>t. parse_rfc3339 (meta_get (ns_annotations ns) annExpiresAt) = Some t \<and> t \<le> now)"
proof -
  have "x \<in> set (fst (reap_loop (reap_expired_one api now) items m1))"
    using assms by (auto simp: kv_ReapExpiredSessions_def kv_reap_def split: prod.splits)
  then obtain ns m' where "ns \<in> set items" "x \<in> set (fst (reap_expired_one api now ns m'))"
    using reap_loop_mem by meson
  from this(1) reap_expired_one_mem [OF this(2)] show ?thesis by auto
qed

text \<open>
  The part of the API server's behaviour that the boot record relies on: a namespace is found under
  its name, a read changes nothing, and a read after a successful update returns the updated object.
\<close>

definition k8s_reads_back :: "'w k8s \<Rightarrow> bool" where
  "k8s_reads_back api \<longleftrightarrow>
     (\<forall>n w r w'. k_ns_get api n w = (r, w') \<longrightarrow> w' = w)
     \<and> (\<forall>n w ns w'. k_ns_get api n w = (Inr ns, w') \<longrightarrow> ns_name ns = n)
     \<and> (\<forall>ns w w'. k_ns_update api ns w = (None, w') \<longrightarrow> k_ns_get api (ns_name ns) w' = (Inr ns, w'))"

definition failure_phases :: "string set" where
  "failure_phases = {''Failed'', ''Succeeded'', ''TimedOut''}"

lemma annotate_simps [simp]:
  "ns_name (annotate k v ns) = ns_name ns" "ns_labels (annotate k v ns) = ns_labels ns"
  by (simp_all add: annotate_def)

lemma ann_set_annotate: "ann_set (annotate k v ns) k \<longleftrightarrow> v \<noteq> Text []"
  by (simp add: ann_set_def annotate_def meta_get_def)

lemma sync_recorded:
  assumes "k_ns_get api n (kv_world m) = (Inr ns, kv_world m)"
    and "phase \<in> failure_phases \<Longrightarrow> ann_set ns annReadyAt \<or> ann_set ns annBootResult"
    and "phase = ''Running'' \<Longrightarrow> ann_set ns annReadyAt"
  shows "syncBootStatus api now n phase m = (None, m)"
  using assms by (auto simp: syncBootStatus_def api_call_def failure_phases_def)

lemma sync_failure_recorded:
  assumes law: "k8s_reads_back api" and phase: "phase \<in> failure_phases"
    and get: "k_ns_get api n (kv_world m) = (Inr ns, kv_world m)"
    and managed: "ns_labels ns labelManagedBy = Some managedByValue"
    and sync: "syncBootStatus api now n phase m = (None, m')"
  shows "\<exists>ns'. k_ns_get api n (kv_world m') = (Inr ns', kv_world m')
    \<and> (ann_set ns' annReadyAt \<or> ann_set ns' annBootResult)"
proof (cases "ann_set ns annReadyAt \<or> ann_set ns annBootResult")
  case True
  then have "m' = m"
    using sync sync_recorded [OF get, of phase now] phase by (auto simp: failure_phases_def)
  with get True show ?thesis by blast
next
  case False
  let ?ns = "annotate annBootResult (Text ''true'') ns"
  obtain e w where up: "k_ns_update api ?ns (kv_world m) = (e, w)"
    by (cases "k_ns_update api ?ns (kv_world m)")
  have nr: "phase \<noteq> ''Running''" using phase by (auto simp: failure_phases_def)
  have e: "e = None" and m': "kv_world m' = w"
    using sync get managed phase False up nr
    by (auto simp: syncBootStatus_def api_call_def failure_phases_def split: option.splits)
  have "ns_name ns = n" using law get unfolding k8s_reads_back_def by meson
  then have "k_ns_get api n w = (Inr ?ns, w)"
    using law up e unfolding k8s_reads_back_def by (metis annotate_simps(1))
  then show ?thesis using m' by (auto simp: ann_set_annotate)
qed

text \<open>
  A failed boot is counted once: after the failure of a managed session has been recorded, every
  further failure report for it (from the watcher, a poll, a timeout or the reaper) changes nothing.
\<close>

theorem kv_failure_counted_once:
  assumes "k8s_reads_back api" and "phase \<in> failure_phases" and "phase' \<in> failure_phases"
    and "k_ns_get api n (kv_world m) = (Inr ns, kv_world m)"
    and "ns_labels ns labelManagedBy = Some managedByValue"
    and "syncBootStatus api now n phase m = (None, m')"
  shows "syncBootStatus api now' n phase' m' = (None, m')"
proof -
  obtain ns' where "k_ns_get api n (kv_world m') = (Inr ns', kv_world m')"
    and "ann_set ns' annReadyAt \<or> ann_set ns' annBootResult"
    using sync_failure_recorded [OF assms(1,2,4-6)] by blast
  then show ?thesis
    using assms(3) by (intro sync_recorded) (auto simp: failure_phases_def)
qed

section \<open>A concrete cluster\<close>

text \<open>
  An API server over a list of namespaces and the instances running in them, to evaluate the
  provider on and to show that the hypotheses above can hold.
\<close>

record cluster =
  cl_namespaces :: "Namespace list"
  cl_vmis :: "string \<rightharpoonup> VMI"

definition cluster_api :: "cluster k8s" where
  "cluster_api =
     \<lparr>k_ns_create = (\<lambda>n ls an c.
        if row_find ns_name n (cl_namespaces c) \<noteq> None then (Some (K8sOther ''already exists''), c)
        else (None, c\<lparr>cl_namespaces := cl_namespaces c @ [\<lparr>ns_name = n, ns_labels = ls,
               ns_annotations = an, ns_phase = ''Active'', ns_deletion = None, ns_created = 0\<rparr>]\<rparr>)),
      k_ns_get = (\<lambda>n c. (case row_find ns_name n (cl_namespaces c) of
        None \<Rightarrow> Inl (K8sNotFound ''namespace not found'') | Some ns \<Rightarrow> Inr ns, c)),
      k_ns_list = (\<lambda>sel c. (Inr (filter (\<lambda>ns. sel = session_selector
        \<and> ns_labels ns labelManagedBy = Some managedByValue) (cl_namespaces c)), c)),
      k_ns_update = (\<lambda>ns c. if row_find ns_name (ns_name ns) (cl_namespaces c) = None
        then (Some (K8sNotFound ''namespace not found''), c)
        else (None, c\<lparr>cl_namespaces := row_update ns_name (ns_name ns) (\<lambda>_. ns) (cl_namespaces c)\<rparr>)),
      k_ns_delete = (\<lambda>n c. if row_find ns_name n (cl_namespaces c) = None
        then (Some (K8sNotFound ''namespace not found''), c)
        else (None, c\<lparr>cl_namespaces := row_delete ns_name n (cl_namespaces c), cl_vmis := (cl_vmis c)(n := None)\<rparr>)),
      k_secret_create = (\<lambda>n s d c. (None, c)),
      k_vm_create = (\<lambda>n obj c. (None, c\<lparr>cl_vmis := (cl_vmis c)(n \<mapsto> \<lparr>vmi_phase = ''Pending'', vmi_interfaces = []\<rparr>)\<rparr>)),
      k_vmi_get = (\<lambda>n v c. (case cl_vmis c n of
        None \<Rightarrow> Inl (K8sNotFound ''vmi not found'') | Some v \<Rightarrow> Inr v, c)),
      k_pvc_phase = (\<lambda>n p c. (Inr ''Bound'', c))\<rparr>"

lemma row_find_replace:
  "row_find key (key r) rows \<noteq> None \<Longrightarrow> row_find key (key r) (row_update key (key r) (\<lambda>_. r) rows) = Some r"
  by (induction rows) (auto simp: row_update_def)

lemma cluster_reads_back: "k8s_reads_back cluster_api"
  by (auto simp: k8s_reads_back_def cluster_api_def row_find_replace
      split: option.splits if_splits dest: row_find_Some)

definition demo_cfg :: kv_config where
  "demo_cfg = \<lparr>kc_SessionTTLHours = 4, kc_LabSSHPublicKey = [], kc_FileListSSHPublicKey = [],
     kc_BaseImageNS = ''images'', kc_BaseImageName = ''base'', kc_StorageClass = ''fast'',
     kc_MaxActiveSessions = 24, kc_ProvisionTimeoutMinutes = 10\<rparr>"

definition demo_ns :: Namespace where
  "demo_ns = \<lparr>ns_name = ''lab-s1'', ns_labels = [labelManagedBy \<mapsto> managedByValue],
     ns_annotations = [annUserID \<mapsto> Text ''u'', annStartedAt \<mapsto> Stamp (1000 * second),
       annExpiresAt \<mapsto> Stamp (9000 * second)], ns_phase = ''Active'', ns_deletion = None, ns_created = 0\<rparr>"

definition demo_manager :: "cluster manager" where
  "demo_manager = \<lparr>kv_world = \<lparr>cl_namespaces = [demo_ns],
     cl_vmis = [''lab-s1'' \<mapsto> \<lparr>vmi_phase = ''Scheduling'', vmi_interfaces = []\<rparr>]\<rparr>, kv_met = Some new_recorder\<rparr>"

lemmas demo_kv = demo_manager_def demo_ns_def cluster_api_def api_call_def session_selector_def
  namespaceDeleting_def session_of_ns_def started_at_def vmiPhase_def reap_ns_def
  syncBootStatus_def ann_set_def annotate_def meta_get_def parse_or_zero_def row_delete_def
  row_update_def time_units ann_defs kv_reap_def trim_prefix_def

lemma demo_list:
  "api_call (k_ns_list cluster_api session_selector) demo_manager = (Inr [demo_ns], demo_manager)"
  by (simp add: demo_kv)

lemma demo_reap_stuck:
  "fst (fst (kv_ReapStuckSessions cluster_api (2000 * second) (600 * second) demo_manager)) = [''s1'']"
  by (simp add: kv_ReapStuckSessions_def reap_stuck_one_def demo_kv)

theorem kv_reap_stuck_only_overdue_witness:
  "\<exists>ns\<in>set [demo_ns]. ''s1'' = session_of_ns ns \<and> \<not> namespaceDeleting ns
    \<and> 600 * second \<le> 2000 * second - (if is_zero (started_at ns) then ns_created ns else started_at ns)
    \<and> (\<exists>m'. fst (vmiPhase cluster_api (ns_name ns) m') \<noteq> ''Running'')"
  by (rule kv_reap_stuck_only_overdue [OF demo_list]) (simp add: demo_reap_stuck)

lemma demo_reap_expired:
  "fst (fst (kv_ReapExpiredSessions cluster_api (9001 * second) demo_manager)) = [''s1'']"
  by (simp add: kv_ReapExpiredSessions_def reap_expired_one_def demo_kv)

theorem kv_reap_expired_only_expired_witness:
  "\<exists>ns\<in>set [demo_ns]. ''s1'' = session_of_ns ns \<and> \<not> namespaceDeleting ns
    \<and> (\<exists>t. parse_rfc3339 (meta_get (ns_annotations ns) annExpiresAt) = Some t \<and> t \<le> 9001 * second)"
  by (rule kv_reap_expired_only_expired [OF demo_list]) (simp add: demo_reap_expired)

definition demo_failed :: "cluster manager" where
  "demo_failed = snd (syncBootStatus cluster_api (1100 * second) ''lab-s1'' ''Failed'' demo_manager)"

lemma demo_get: "k_ns_get cluster_api ''lab-s1'' (kv_world demo_manager) = (Inr demo_ns, kv_world demo_manager)"
  by (simp add: demo_kv)

lemma demo_failed_sync:
  "syncBootStatus cluster_api (1100 * second) ''lab-s1'' ''Failed'' demo_manager = (None, demo_failed)"
  by (simp add: demo_failed_def prod_eq_iff) (simp add: demo_kv)

theorem kv_failure_counted_once_witness:
  "syncBootStatus cluster_api (1200 * second) ''lab-s1'' ''TimedOut'' demo_failed = (None, demo_failed)"
  by (rule kv_failure_counted_once [OF cluster_reads_back _ _ demo_get _ demo_failed_sync])
    (simp_all add: failure_phases_def demo_ns_def)

text \<open>
  The two results are not exclusive: a session whose boot was counted as failed (here by the
  timeout of a poll) and whose VM runs afterwards is counted again as a success, so that one boot
  counts twice although \<open>syncBootStatus\<close> is documented to record the result once.
\<close>

theorem kv_boot_counted_twice:
  "boots ProviderKubeVirt (kv_met (snd (syncBootStatus cluster_api (1200 * second) ''lab-s1'' ''Running''
     (snd (syncBootStatus cluster_api (1100 * second) ''lab-s1'' ''TimedOut'' demo_manager))))) = 2"
  by (simp add: demo_kv format_rfc3339_def boots_def RecordBoot_def RecordLabStart_def new_recorder_def
      ResultSuccess_def ResultFailed_def ProviderKubeVirt_def LabEnvOnprem_def)

end
