(* ===== verification/Ec2.thy ===== *)
theory Ec2
  imports Cloud_Init Vm_Metrics
begin

text \<open>
  The EC2 overflow provider, \<open>src/apps/api/internal/ec2/provisioner.go\<close>. The AWS and Redis services
  and the key minter are the parameter \<open>aws\<close>: a record of the calls the provisioner makes over an
  arbitrary outside state \<open>'w\<close>. \<open>a_describe\<close> gives what the SDK's paginator yields, page by page
  (a page is the list of its reservations, each a list of instances).
\<close>

section \<open>Types\<close>

record Instance =
  i_id :: string
  i_state :: "string option"
  i_tags :: "(string \<times> meta) list"

type_synonym ec2_filter = "string \<times> string list"

record run_input =
  ri_launch_template :: string
  ri_version :: string
  ri_min_count :: int
  ri_max_count :: int
  ri_user_data :: string
  ri_tags :: "(string \<times> meta) list"
  ri_instance_type :: string

record 'w aws =
  a_run :: "run_input \<Rightarrow> 'w \<Rightarrow> (string + Instance list) \<times> 'w"
  a_describe :: "ec2_filter list \<Rightarrow> 'w \<Rightarrow> (string + Instance list list) list \<times> 'w"
  a_terminate :: "string list \<Rightarrow> 'w \<Rightarrow> string option \<times> 'w"
  a_create_tags :: "string list \<Rightarrow> (string \<times> meta) list \<Rightarrow> 'w \<Rightarrow> string option \<times> 'w"
  a_setnx :: "(string \<Rightarrow> string \<Rightarrow> duration \<Rightarrow> 'w \<Rightarrow> (string + bool) \<times> 'w) option"
  a_del :: "string \<Rightarrow> 'w \<Rightarrow> 'w"
  a_mint :: "('w \<Rightarrow> (string + string) \<times> 'w) option"

record aws_config =
  ac_Region :: string
  ac_LaunchTemplateID :: string
  ac_InstanceType :: string
  ac_SessionTTLHours :: int
  ac_MaxActiveSessions :: int
  ac_TailscaleAuthKey :: string
  ac_TailnetHostnamePrefix :: string

record 'w provisioner =
  e_world :: 'w
  e_met :: "Recorder option"

definition aws_call :: "('w \<Rightarrow> 'r \<times> 'w) \<Rightarrow> 'w provisioner \<Rightarrow> 'r \<times> 'w provisioner" where
  "aws_call f p = (let (r, w) = f (e_world p) in (r, p\<lparr>e_world := w\<rparr>))"

section \<open>Tags and filters\<close>

definition tagManagedBy :: string where "tagManagedBy = ''cledyu.io/managed-by''"

definition managedValue :: string where "managedValue = ''cledyu-session''"

definition tagSessionID :: string where "tagSessionID = ''cledyu.io/session-id''"

definition tagUserID :: string where "tagUserID = ''cledyu.io/user-id''"

definition tagLabID :: string where "tagLabID = ''cledyu.io/lab-id''"

definition tagStartedAt :: string where "tagStartedAt = ''cledyu.io/started-at''"

definition tagExpiresAt :: string where "tagExpiresAt = ''cledyu.io/expires-at''"

definition tagBootResultRecorded :: string where
  "tagBootResultRecorded = ''cledyu.io/boot-result-recorded''"

definition tagTailnet :: string where "tagTailnet = ''cledyu.io/tailnet''"

lemmas tag_defs = tagManagedBy_def managedValue_def tagSessionID_def tagUserID_def tagLabID_def
  tagStartedAt_def tagExpiresAt_def tagBootResultRecorded_def tagTailnet_def

definition tagLookup :: "Instance \<Rightarrow> string \<Rightarrow> meta option" where
  "tagLookup inst key = map_of (i_tags inst) key"

definition tagValue :: "Instance \<Rightarrow> string \<Rightarrow> meta" where
  "tagValue inst key = (case tagLookup inst key of None \<Rightarrow> Text [] | Some v \<Rightarrow> v)"

definition activeStateFilter :: ec2_filter where
  "activeStateFilter = (''instance-state-name'', [''pending'', ''running''])"

definition tagFilter :: "string \<Rightarrow> string \<Rightarrow> ec2_filter" where
  "tagFilter key value = (''tag:'' @ key, [value])"

definition managedFilter :: ec2_filter where
  "managedFilter = tagFilter tagManagedBy managedValue"

section \<open>Describe and terminate\<close>

fun collect_pages :: "(string + Instance list list) list \<Rightarrow> string + Instance list" where
  "collect_pages [] = Inr []"
| "collect_pages (Inl e # ps) = Inl (''describe instances: '' @ e)"
| "collect_pages (Inr rs # ps) =
     (case collect_pages ps of Inl e \<Rightarrow> Inl e | Inr is \<Rightarrow> Inr (concat rs @ is))"

definition describe ::
  "'w aws \<Rightarrow> ec2_filter list \<Rightarrow> 'w provisioner \<Rightarrow> (err + Instance list) \<times> 'w provisioner" where
  "describe aws filters p =
     (let (pages, p1) = aws_call (a_describe aws filters) p in
      (case collect_pages pages of Inl e \<Rightarrow> Inl (ErrOther e) | Inr is \<Rightarrow> Inr is, p1))"

definition listActive :: "'w aws \<Rightarrow> 'w provisioner \<Rightarrow> (err + Instance list) \<times> 'w provisioner" where
  "listActive aws p = describe aws [managedFilter, activeStateFilter] p"

definition findActiveInstance ::
  "'w aws \<Rightarrow> ec2_filter \<Rightarrow> 'w provisioner \<Rightarrow> (err + Instance option) \<times> 'w provisioner" where
  "findActiveInstance aws extra p =
     (let (r, p1) = describe aws [managedFilter, activeStateFilter, extra] p in
      (case r of Inl e \<Rightarrow> Inl e | Inr [] \<Rightarrow> Inr None | Inr (i # is) \<Rightarrow> Inr (Some i), p1))"

definition terminate :: "'w aws \<Rightarrow> string \<Rightarrow> 'w provisioner \<Rightarrow> err option \<times> 'w provisioner" where
  "terminate aws instanceID p =
     (let (e, p1) = aws_call (a_terminate aws [instanceID]) p in
      (map_option (\<lambda>m. ErrOther (''terminate instance '' @ instanceID @ '': '' @ m)) e, p1))"

section \<open>Instances as sessions\<close>

definition instanceStatus :: "Instance \<Rightarrow> string" where
  "instanceStatus inst =
     (case i_state inst of
        None \<Rightarrow> ''provisioning''
      | Some n \<Rightarrow> if n = ''running'' then ''ready''
                  else if n = ''pending'' then ''provisioning'' else ''failed'')"

definition sessionTailnetEnabled :: "aws_config \<Rightarrow> Instance \<Rightarrow> bool" where
  "sessionTailnetEnabled cfg inst =
     (case tagLookup inst tagTailnet of
        Some v \<Rightarrow> v = Text ''1''
      | None \<Rightarrow> ac_TailscaleAuthKey cfg \<noteq> [])"

definition instanceToSession :: "aws_config \<Rightarrow> Instance \<Rightarrow> Session" where
  "instanceToSession cfg inst =
     \<lparr>s_ID = text_of (tagValue inst tagSessionID), s_LabID = text_of (tagValue inst tagLabID),
      s_UserID = text_of (tagValue inst tagUserID), s_Status = instanceStatus inst,
      s_ProvisioningStage = [], s_StartedAt = parse_or_zero (tagValue inst tagStartedAt),
      s_ExpiresAt = parse_or_zero (tagValue inst tagExpiresAt), s_Provider = ProviderEC2,
      s_InstanceID = i_id inst, s_Region = ac_Region cfg,
      s_TailnetEnabled = sessionTailnetEnabled cfg inst\<rparr>"

section \<open>Boot record\<close>

definition bootRecordLockTTL :: duration where
  "bootRecordLockTTL = 5 * minute"

definition record_boot_metrics ::
  "go_time \<Rightarrow> Instance \<Rightarrow> string \<Rightarrow> Recorder option \<Rightarrow> Recorder option" where
  "record_boot_metrics now inst result met =
     RecordLabStart result LabEnvEC2 (if result = ResultFailed then LabReasonTimeout else LabReasonReady)
       (case parse_rfc3339 (tagValue inst tagStartedAt) of None \<Rightarrow> - second | Some s \<Rightarrow> now - s)
       (RecordBoot result ProviderEC2 met)"

definition recordBootOnce ::
  "'w aws \<Rightarrow> go_time \<Rightarrow> Instance \<Rightarrow> string \<Rightarrow> 'w provisioner \<Rightarrow> 'w provisioner" where
  "recordBootOnce aws now inst result p =
     (case (e_met p, a_setnx aws) of
        (Some met, Some setnx) \<Rightarrow>
          if tagValue inst tagBootResultRecorded \<noteq> Text [] then p
          else
            (let lockKey = ''cledyu:lock:vm_boot:'' @ i_id inst;
                 (r, p1) = aws_call (setnx lockKey ''true'' bootRecordLockTTL) p
             in if r \<noteq> Inr True then p1
                else
                  (let (e, p2) = aws_call (a_create_tags aws [i_id inst]
                         [(tagBootResultRecorded, Text ''true'')]) p1
                   in case e of
                        Some _ \<Rightarrow> p2\<lparr>e_world := a_del aws lockKey (e_world p2)\<rparr>
                      | None \<Rightarrow> p2\<lparr>e_met := record_boot_metrics now inst result (e_met p2)\<rparr>))
      | _ \<Rightarrow> p)"

section \<open>Operations\<close>

definition resolveSessionAuthKey ::
  "'w aws \<Rightarrow> aws_config \<Rightarrow> 'w provisioner \<Rightarrow> string \<times> 'w provisioner" where
  "resolveSessionAuthKey aws cfg p =
     (case a_mint aws of
        None \<Rightarrow> (ac_TailscaleAuthKey cfg, p)
      | Some mint \<Rightarrow>
          (let (r, p1) = aws_call mint p in (case r of Inl e \<Rightarrow> [] | Inr key \<Rightarrow> key, p1)))"

text \<open>\<open>base64.StdEncoding\<close>.\<close>

definition b64_char :: "nat \<Rightarrow> char" where
  "b64_char n = char_of (if n < 26 then 65 + n else if n < 52 then 71 + n else if n < 62 then n - 4
     else if n = 62 then 43 else 47)"

fun b64 :: "string \<Rightarrow> string" where
  "b64 [] = []"
| "b64 [a] =
     (let x = of_char a in [b64_char (x div 4), b64_char (x mod 4 * 16), CHR ''='', CHR ''=''])"
| "b64 [a, b] =
     (let x = of_char a; y = of_char b in
      [b64_char (x div 4), b64_char (x mod 4 * 16 + y div 16), b64_char (y mod 16 * 4), CHR ''=''])"
| "b64 (a # b # c # s) =
     (let x = of_char a; y = of_char b; z = of_char c in
      b64_char (x div 4) # b64_char (x mod 4 * 16 + y div 16) # b64_char (y mod 16 * 4 + z div 64)
      # b64_char (z mod 64) # b64 s)"

definition run_instances_input ::
  "aws_config \<Rightarrow> go_time \<Rightarrow> string \<Rightarrow> string \<Rightarrow> string \<Rightarrow> BootInit \<Rightarrow> string \<Rightarrow> run_input" where
  "run_instances_input cfg now sessionID labID userID init authKey =
     \<lparr>ri_launch_template = ac_LaunchTemplateID cfg, ri_version = ''$Latest'',
      ri_min_count = 1, ri_max_count = 1,
      ri_user_data = b64 (ec2_renderCloudInit sessionID (ac_TailnetHostnamePrefix cfg) init authKey),
      ri_tags = [(tagManagedBy, Text managedValue), (tagSessionID, Text sessionID),
        (tagUserID, Text userID), (tagLabID, Text labID), (tagStartedAt, format_rfc3339 now),
        (tagExpiresAt, format_rfc3339 (now + ac_SessionTTLHours cfg * hour)),
        (tagTailnet, Text (if authKey \<noteq> [] then ''1'' else ''0'')),
        (''Name'', Text (tailnetHostname (ac_TailnetHostnamePrefix cfg) sessionID))],
      ri_instance_type = ac_InstanceType cfg\<rparr>"

definition ec2_Create ::
  "'w aws \<Rightarrow> aws_config \<Rightarrow> go_time \<Rightarrow> string \<Rightarrow> string \<Rightarrow> string \<Rightarrow> BootInit \<Rightarrow>
   'w provisioner \<Rightarrow> (err + Session) \<times> 'w provisioner" where
  "ec2_Create aws cfg now sessionID labID userID init p =
     (let (authKey, p1) = resolveSessionAuthKey aws cfg p;
          (r, p2) = aws_call (a_run aws (run_instances_input cfg now sessionID labID userID init authKey)) p1
      in case r of
           Inl e \<Rightarrow> (Inl (ErrOther (''run instance: '' @ e)), p2)
         | Inr [] \<Rightarrow> (Inl (ErrOther ''run instance: no instance returned''), p2)
         | Inr (i # is) \<Rightarrow>
             (Inr \<lparr>s_ID = sessionID, s_LabID = labID, s_UserID = userID, s_Status = ''provisioning'',
                   s_ProvisioningStage = [], s_StartedAt = now,
                   s_ExpiresAt = now + ac_SessionTTLHours cfg * hour, s_Provider = ProviderEC2,
                   s_InstanceID = i_id i, s_Region = ac_Region cfg, s_TailnetEnabled = False\<rparr>, p2))"

definition ec2_Get ::
  "'w aws \<Rightarrow> aws_config \<Rightarrow> go_time \<Rightarrow> string \<Rightarrow> 'w provisioner \<Rightarrow> (err + Session) \<times> 'w provisioner" where
  "ec2_Get aws cfg now sessionID p =
     (let (r, p1) = findActiveInstance aws (tagFilter tagSessionID sessionID) p in
      case r of
        Inl e \<Rightarrow> (Inl e, p1)
      | Inr None \<Rightarrow> (Inl ErrNotFound, p1)
      | Inr (Some inst) \<Rightarrow>
          (let sess = instanceToSession cfg inst in
           (Inr sess, if s_Status sess = ''ready'' then recordBootOnce aws now inst ResultSuccess p1 else p1)))"

definition ec2_Delete :: "'w aws \<Rightarrow> string \<Rightarrow> 'w provisioner \<Rightarrow> err option \<times> 'w provisioner" where
  "ec2_Delete aws sessionID p =
     (let (r, p1) = findActiveInstance aws (tagFilter tagSessionID sessionID) p in
      case r of
        Inl e \<Rightarrow> (Some e, p1)
      | Inr None \<Rightarrow> (Some ErrNotFound, p1)
      | Inr (Some inst) \<Rightarrow> terminate aws (i_id inst) p1)"

definition ec2_FindActiveByUser :: "'w aws \<Rightarrow> string \<Rightarrow> 'w provisioner \<Rightarrow> (err + string) \<times> 'w provisioner" where
  "ec2_FindActiveByUser aws userID p =
     (if userID = [] then (Inr [], p)
      else
        (let (r, p1) = findActiveInstance aws (tagFilter tagUserID userID) p in
         (case r of
            Inl e \<Rightarrow> Inl e
          | Inr None \<Rightarrow> Inr []
          | Inr (Some inst) \<Rightarrow> Inr (text_of (tagValue inst tagSessionID)), p1)))"

definition ec2_CountActiveSessions :: "'w aws \<Rightarrow> 'w provisioner \<Rightarrow> (err + int) \<times> 'w provisioner" where
  "ec2_CountActiveSessions aws p =
     (let (r, p1) = listActive aws p in
      (case r of Inl e \<Rightarrow> Inl e | Inr is \<Rightarrow> Inr (int (length is)), p1))"

definition ec2_reap_one :: "'w aws \<Rightarrow> Instance \<Rightarrow> 'w provisioner \<Rightarrow> string list \<times> 'w provisioner" where
  "ec2_reap_one aws inst p =
     (let (e, p1) = terminate aws (i_id inst) p in
      (case e of Some _ \<Rightarrow> [] | None \<Rightarrow> [text_of (tagValue inst tagSessionID)], p1))"

definition ec2_reap_stuck_one ::
  "'w aws \<Rightarrow> go_time \<Rightarrow> duration \<Rightarrow> Instance \<Rightarrow> 'w provisioner \<Rightarrow> string list \<times> 'w provisioner" where
  "ec2_reap_stuck_one aws now timeout inst p =
     (if i_state inst = Some ''running'' then ([], p)
      else
        (case parse_rfc3339 (tagValue inst tagStartedAt) of
           None \<Rightarrow> ([], p)
         | Some started \<Rightarrow>
             if now - started < timeout then ([], p)
             else ec2_reap_one aws inst (recordBootOnce aws now inst ResultFailed p)))"

definition ec2_reap_expired_one ::
  "'w aws \<Rightarrow> go_time \<Rightarrow> Instance \<Rightarrow> 'w provisioner \<Rightarrow> string list \<times> 'w provisioner" where
  "ec2_reap_expired_one aws now inst p =
     (case parse_rfc3339 (tagValue inst tagExpiresAt) of
        None \<Rightarrow> ([], p)
      | Some expires \<Rightarrow> if now < expires then ([], p) else ec2_reap_one aws inst p)"

definition ec2_reap ::
  "'w aws \<Rightarrow> (Instance \<Rightarrow> 'w provisioner \<Rightarrow> string list \<times> 'w provisioner) \<Rightarrow>
   'w provisioner \<Rightarrow> (string list \<times> err option) \<times> 'w provisioner" where
  "ec2_reap aws one p =
     (let (r, p1) = listActive aws p in
      case r of
        Inl e \<Rightarrow> (([], Some e), p1)
      | Inr is \<Rightarrow> (let (reaped, p2) = reap_loop one is p1 in ((reaped, None), p2)))"

definition ec2_ReapStuckSessions ::
  "'w aws \<Rightarrow> go_time \<Rightarrow> duration \<Rightarrow> 'w provisioner \<Rightarrow> (string list \<times> err option) \<times> 'w provisioner" where
  "ec2_ReapStuckSessions aws now timeout p = ec2_reap aws (ec2_reap_stuck_one aws now timeout) p"

definition ec2_ReapExpiredSessions ::
  "'w aws \<Rightarrow> go_time \<Rightarrow> 'w provisioner \<Rightarrow> (string list \<times> err option) \<times> 'w provisioner" where
  "ec2_ReapExpiredSessions aws now p = ec2_reap aws (ec2_reap_expired_one aws now) p"

definition ec2_VMIAddress ::
  "'w aws \<Rightarrow> aws_config \<Rightarrow> string \<Rightarrow> 'w provisioner \<Rightarrow> (err + string) \<times> 'w provisioner" where
  "ec2_VMIAddress aws cfg sessionID p =
     (let (r, p1) = findActiveInstance aws (tagFilter tagSessionID sessionID) p in
      case r of
        Inl e \<Rightarrow> (Inl e, p1)
      | Inr None \<Rightarrow> (Inl ErrNotFound, p1)
      | Inr (Some inst) \<Rightarrow>
          if i_state inst \<noteq> Some ''running'' then (Inl ErrNotFound, p1)
          else if \<not> sessionTailnetEnabled cfg inst then (Inl ErrNotFound, p1)
          else (Inr (tailnetHostname (ac_TailnetHostnamePrefix cfg) sessionID), p1))"

definition ec2_provider :: "'w aws \<Rightarrow> aws_config \<Rightarrow> 'w provisioner provider" where
  "ec2_provider aws cfg =
     \<lparr>pv_Create = ec2_Create aws cfg, pv_Get = ec2_Get aws cfg, pv_Delete = ec2_Delete aws,
      pv_FindActiveByUser = ec2_FindActiveByUser aws, pv_CountActiveSessions = ec2_CountActiveSessions aws,
      pv_ReapStuckSessions = ec2_ReapStuckSessions aws, pv_ReapExpiredSessions = ec2_ReapExpiredSessions aws,
      pv_VMIAddress = ec2_VMIAddress aws cfg, pv_Capacity = ac_MaxActiveSessions cfg\<rparr>"

lemma instanceStatus_cases: "instanceStatus inst \<in> {''provisioning'', ''ready'', ''failed''}"
  by (simp add: instanceStatus_def split: option.split)

lemma ec2_Get_instance:
  "ec2_Get aws cfg now sid p = (Inr x, p') \<Longrightarrow> \<exists>inst. x = instanceToSession cfg inst"
  by (auto simp: ec2_Get_def Let_def split: prod.splits sum.splits option.splits)

interpretation ec2: session_provider "ec2_provider aws cfg" for aws :: "'w aws" and cfg
proof
  fix now sid lab uid init s x s'
  show "pv_Create (ec2_provider aws cfg) now sid lab uid init s = (Inr x, s') \<Longrightarrow>
      s_ID x = sid \<and> s_LabID x = lab \<and> s_UserID x = uid \<and> s_Status x = ''provisioning''
      \<and> s_Provider x \<in> {ProviderKubeVirt, ProviderEC2}"
    by (auto simp: ec2_provider_def ec2_Create_def Let_def split: prod.splits sum.splits list.splits)
next
  fix now sid s x s'
  show "pv_Get (ec2_provider aws cfg) now sid s = (Inr x, s') \<Longrightarrow>
      s_Status x \<in> {''provisioning'', ''ready'', ''failed''} \<and> s_Provider x \<in> {ProviderKubeVirt, ProviderEC2}"
    using ec2_Get_instance [of aws cfg now sid s x s'] instanceStatus_cases
    by (force simp: ec2_provider_def instanceToSession_def)
next
  fix s sid s'
  show "pv_FindActiveByUser (ec2_provider aws cfg) [] s = (Inr sid, s') \<Longrightarrow> sid = []"
    by (simp add: ec2_provider_def ec2_FindActiveByUser_def)
next
  fix s n s'
  show "pv_CountActiveSessions (ec2_provider aws cfg) s = (Inr n, s') \<Longrightarrow> 0 \<le> n"
    by (auto simp: ec2_provider_def ec2_CountActiveSessions_def split: prod.splits sum.splits)
qed

section \<open>Properties\<close>

lemmas run_tags = run_instances_input_def tagLookup_def tagValue_def tag_defs

text \<open>
  The tags written at creation carry the session: an instance that has them is read back as the
  session that was created, with the times at a resolution of one second, and its terminal is
  advertised as reachable exactly when the instance was given a tailnet key.
\<close>

theorem ec2_tags_roundtrip:
  "instanceToSession cfg \<lparr>i_id = iid, i_state = Some ''running'',
      i_tags = ri_tags (run_instances_input cfg now sid lab uid init key)\<rparr>
   = \<lparr>s_ID = sid, s_LabID = lab, s_UserID = uid, s_Status = ''ready'', s_ProvisioningStage = [],
      s_StartedAt = now div second * second,
      s_ExpiresAt = (now + ac_SessionTTLHours cfg * hour) div second * second,
      s_Provider = ProviderEC2, s_InstanceID = iid, s_Region = ac_Region cfg,
      s_TailnetEnabled = (key \<noteq> [])\<rparr>"
  by (simp add: instanceToSession_def instanceStatus_def sessionTailnetEnabled_def run_tags
      parse_or_zero_def parse_format)

text \<open>
  Key minting fails secure: when a minter is configured and cannot issue a key, the instance is
  started without any tailnet key, never with the static reusable one, and is tagged as not
  reachable through the tailnet.
\<close>

theorem ec2_mint_failure_fails_secure:
  assumes "a_mint aws = Some mint" and "aws_call mint p = (Inl e, p1)"
  shows "ec2_Create aws cfg now sid lab uid init p
       = (let (r, p2) = aws_call (a_run aws (run_instances_input cfg now sid lab uid init [])) p1 in
          case r of
            Inl e \<Rightarrow> (Inl (ErrOther (''run instance: '' @ e)), p2)
          | Inr [] \<Rightarrow> (Inl (ErrOther ''run instance: no instance returned''), p2)
          | Inr (i # is) \<Rightarrow>
             (Inr \<lparr>s_ID = sid, s_LabID = lab, s_UserID = uid, s_Status = ''provisioning'',
                   s_ProvisioningStage = [], s_StartedAt = now,
                   s_ExpiresAt = now + ac_SessionTTLHours cfg * hour, s_Provider = ProviderEC2,
                   s_InstanceID = i_id i, s_Region = ac_Region cfg, s_TailnetEnabled = False\<rparr>, p2))
     \<and> map_of (ri_tags (run_instances_input cfg now sid lab uid init [])) tagTailnet = Some (Text ''0'')"
  using assms by (simp_all add: ec2_Create_def resolveSessionAuthKey_def run_tags)

lemma ec2_reap_one_mem:
  "x \<in> set (fst (ec2_reap_one aws inst p)) \<Longrightarrow> x = text_of (tagValue inst tagSessionID)"
  by (auto simp: ec2_reap_one_def split: prod.splits option.splits)

lemma ec2_reap_mem:
  assumes "listActive aws p = (Inr is, p1)" and "x \<in> set (fst (fst (ec2_reap aws one p)))"
  shows "\<exists>i\<in>set is. \<exists>p'. x \<in> set (fst (one i p'))"
proof -
  have "x \<in> set (fst (reap_loop one is p1))"
    using assms by (auto simp: ec2_reap_def split: prod.splits)
  then show ?thesis by (rule reap_loop_mem)
qed

text \<open>
  The EC2 reapers terminate only what they should: the stuck reaper no running instance and none
  within the timeout, the expiry reaper none before the expiry time of its tag.
\<close>

theorem ec2_reapers_only_overdue:
  assumes "listActive aws p = (Inr is, p1)"
  shows "(\<forall>x\<in>set (fst (fst (ec2_ReapStuckSessions aws now timeout p))).
           \<exists>i\<in>set is. x = text_of (tagValue i tagSessionID) \<and> i_state i \<noteq> Some ''running''
             \<and> (\<exists>t. parse_rfc3339 (tagValue i tagStartedAt) = Some t \<and> timeout \<le> now - t))
     \<and> (\<forall>x\<in>set (fst (fst (ec2_ReapExpiredSessions aws now p))).
           \<exists>i\<in>set is. x = text_of (tagValue i tagSessionID)
             \<and> (\<exists>t. parse_rfc3339 (tagValue i tagExpiresAt) = Some t \<and> t \<le> now))"
proof -
  have stuck: "x = text_of (tagValue i tagSessionID) \<and> i_state i \<noteq> Some ''running''
      \<and> (\<exists>t. parse_rfc3339 (tagValue i tagStartedAt) = Some t \<and> timeout \<le> now - t)"
    if "x \<in> set (fst (ec2_reap_stuck_one aws now timeout i p'))" for x i p'
    using that by (auto simp: ec2_reap_stuck_one_def split: option.splits if_splits dest: ec2_reap_one_mem)
  have expired: "x = text_of (tagValue i tagSessionID)
      \<and> (\<exists>t. parse_rfc3339 (tagValue i tagExpiresAt) = Some t \<and> t \<le> now)"
    if "x \<in> set (fst (ec2_reap_expired_one aws now i p'))" for x i p'
    using that by (auto simp: ec2_reap_expired_one_def split: option.splits if_splits dest: ec2_reap_one_mem)
  show ?thesis
  proof (intro conjI ballI)
    fix x assume "x \<in> set (fst (fst (ec2_ReapStuckSessions aws now timeout p)))"
    then obtain i p' where "i \<in> set is" "x \<in> set (fst (ec2_reap_stuck_one aws now timeout i p'))"
      unfolding ec2_ReapStuckSessions_def using ec2_reap_mem [OF assms] by blast
    with stuck show "\<exists>i\<in>set is. x = text_of (tagValue i tagSessionID) \<and> i_state i \<noteq> Some ''running''
        \<and> (\<exists>t. parse_rfc3339 (tagValue i tagStartedAt) = Some t \<and> timeout \<le> now - t)" by blast
  next
    fix x assume "x \<in> set (fst (fst (ec2_ReapExpiredSessions aws now p)))"
    then obtain i p' where "i \<in> set is" "x \<in> set (fst (ec2_reap_expired_one aws now i p'))"
      unfolding ec2_ReapExpiredSessions_def using ec2_reap_mem [OF assms] by blast
    with expired show "\<exists>i\<in>set is. x = text_of (tagValue i tagSessionID)
        \<and> (\<exists>t. parse_rfc3339 (tagValue i tagExpiresAt) = Some t \<and> t \<le> now)" by blast
  qed
qed

section \<open>A concrete account\<close>

text \<open>
  An account over a list of instances, with the documented filter semantics of
  \<open>DescribeInstances\<close>: an instance matches when every filter has a value that matches, and in a
  value \<open>*\<close> stands for any text and \<open>?\<close> for one character.
\<close>

fun glob :: "string \<Rightarrow> string \<Rightarrow> bool" where
  "glob [] s = (s = [])"
| "glob (c # pat) [] = (c = CHR ''*'' \<and> glob pat [])"
| "glob (c # pat) (d # s) =
     (if c = CHR ''*'' then glob pat (d # s) \<or> glob (c # pat) s
      else (c = CHR ''?'' \<or> c = d) \<and> glob pat s)"

definition filter_matches :: "Instance \<Rightarrow> ec2_filter \<Rightarrow> bool" where
  "filter_matches i f =
     (if fst f = ''instance-state-name''
      then (case i_state i of None \<Rightarrow> False | Some s \<Rightarrow> list_ex (\<lambda>v. glob v s) (snd f))
      else (case tagLookup i (trim_prefix (fst f) ''tag:'') of
              None \<Rightarrow> False | Some v \<Rightarrow> list_ex (\<lambda>pat. glob pat (text_of v)) (snd f)))"

definition account_api :: "Instance list aws" where
  "account_api =
     \<lparr>a_run = (\<lambda>inp w. let i = \<lparr>i_id = ''i-new'', i_state = Some ''pending'', i_tags = ri_tags inp\<rparr>
               in (Inr [i], w @ [i])),
      a_describe = (\<lambda>fs w. ([Inr [List.filter (\<lambda>i. list_all (filter_matches i) fs) w]], w)),
      a_terminate = (\<lambda>ids w. (None, List.filter (\<lambda>i. i_id i \<notin> set ids) w)),
      a_create_tags = (\<lambda>ids ts w. (None, w)),
      a_setnx = None,
      a_del = (\<lambda>k w. w),
      a_mint = Some (\<lambda>w. (Inl ''tailscale unavailable'', w))\<rparr>"

definition demo_aws_cfg :: aws_config where
  "demo_aws_cfg = \<lparr>ac_Region = ''ap-northeast-2'', ac_LaunchTemplateID = ''lt-1'', ac_InstanceType = [],
     ac_SessionTTLHours = 4, ac_MaxActiveSessions = 5, ac_TailscaleAuthKey = ''static'',
     ac_TailnetHostnamePrefix = []\<rparr>"

definition demo_instance :: Instance where
  "demo_instance = \<lparr>i_id = ''i-1'', i_state = Some ''pending'',
     i_tags = [(tagManagedBy, Text managedValue), (tagSessionID, Text ''e1''), (tagUserID, Text ''u''),
       (tagStartedAt, Stamp 0), (tagExpiresAt, Stamp (9000 * second))]\<rparr>"

definition demo_prov :: "Instance list provisioner" where
  "demo_prov = \<lparr>e_world = [demo_instance], e_met = None\<rparr>"

lemmas demo_ec2 = demo_prov_def demo_instance_def account_api_def listActive_def describe_def aws_call_def
  managedFilter_def activeStateFilter_def tagFilter_def filter_matches_def tagLookup_def tagValue_def
  tag_defs trim_prefix_def findActiveInstance_def terminate_def

lemma demo_active: "listActive account_api demo_prov = (Inr [demo_instance], demo_prov)"
  by (simp add: demo_ec2)

theorem ec2_reapers_only_overdue_witness:
  "fst (fst (ec2_ReapStuckSessions account_api (700 * second) (600 * second) demo_prov)) = [''e1'']
   \<and> (\<exists>i\<in>set [demo_instance]. ''e1'' = text_of (tagValue i tagSessionID) \<and> i_state i \<noteq> Some ''running''
        \<and> (\<exists>t. parse_rfc3339 (tagValue i tagStartedAt) = Some t \<and> 600 * second \<le> 700 * second - t))"
proof -
  have r: "fst (fst (ec2_ReapStuckSessions account_api (700 * second) (600 * second) demo_prov)) = [''e1'']"
    by (simp add: ec2_ReapStuckSessions_def ec2_reap_def ec2_reap_stuck_one_def ec2_reap_one_def
        recordBootOnce_def demo_ec2 time_units)
  then show ?thesis
    using ec2_reapers_only_overdue [OF demo_active, of "700 * second" "600 * second"] by simp
qed

theorem ec2_mint_failure_fails_secure_witness:
  "fst (ec2_Create account_api demo_aws_cfg 0 ''e2'' ''lab'' ''u'' \<lparr>bi_packages = [], bi_runcmd = []\<rparr> demo_prov)
     = Inr \<lparr>s_ID = ''e2'', s_LabID = ''lab'', s_UserID = ''u'', s_Status = ''provisioning'',
            s_ProvisioningStage = [], s_StartedAt = 0, s_ExpiresAt = 4 * hour, s_Provider = ProviderEC2,
            s_InstanceID = ''i-new'', s_Region = ''ap-northeast-2'', s_TailnetEnabled = False\<rparr>"
proof -
  have "a_mint account_api = Some (\<lambda>w. (Inl ''tailscale unavailable'', w))"
    by (simp add: account_api_def)
  then show ?thesis
    using ec2_mint_failure_fails_secure [of account_api _ demo_prov "''tailscale unavailable''" demo_prov
        demo_aws_cfg 0 "''e2''" "''lab''" "''u''" "\<lparr>bi_packages = [], bi_runcmd = []\<rparr>"]
    by (simp add: aws_call_def demo_prov_def) (simp add: account_api_def demo_aws_cfg_def Let_def)
qed

text \<open>
  A session id reaches the filters of \<open>DescribeInstances\<close> unescaped, where \<open>*\<close> is a wildcard:
  reading or deleting the session \<open>*\<close> acts on a session with another id.
\<close>

theorem ec2_session_id_wildcard:
  "\<exists>x p1 p2. ec2_Get account_api demo_aws_cfg 0 ''*'' demo_prov = (Inr x, p1) \<and> s_ID x = ''e1''
     \<and> ec2_Delete account_api ''*'' demo_prov = (None, p2) \<and> e_world p2 = []"
  by (simp add: ec2_Get_def ec2_Delete_def instanceToSession_def instanceStatus_def demo_ec2 Let_def)

end
