(* ===== verification/Dispatch.thy ===== *)
theory Dispatch
  imports Kubevirt Ec2
begin

text \<open>
  The dispatcher over the two providers of the repository: the interpretation of the
  \<open>two_providers\<close> contract on the KubeVirt manager and the EC2 provisioner, whatever cluster and
  account they talk to, and the properties of its routing.
\<close>

interpretation overflow: two_providers "kubevirt_provider api kcfg" "ec2_provider aws acfg" cap
  for api :: "'w k8s" and kcfg and aws :: "'v aws" and acfg and cap
  by unfold_locales

section \<open>Routing\<close>

text \<open>
  On-premises first: a session is created on the on-premises provider while its active sessions
  are below the cap and on EC2 otherwise, one provider only; when the count fails nothing is created.
\<close>

theorem dispatcher_create_routes:
  "pv_Create (NewDispatcher onprem (Some ov) cap) now sid lab uid init (a, b) =
     (case pv_CountActiveSessions onprem a of
        (Inl e, a1) \<Rightarrow> (Inl e, (a1, b))
      | (Inr n, a1) \<Rightarrow>
          if n < cap
          then (case pv_Create onprem now sid lab uid init a1 of (r, a2) \<Rightarrow> (r, (a2, b)))
          else (case pv_Create ov now sid lab uid init b of (r, b2) \<Rightarrow> (r, (a1, b2))))"
  by (simp add: NewDispatcher_def dispatcher_ops split: prod.split sum.split)

text \<open>
  The overflow provider is asked about a session only when the on-premises provider does not
  know it: any other error of the on-premises provider is returned as it is and leaves the overflow
  provider alone, for reading, deleting and addressing a session alike.
\<close>

theorem dispatcher_falls_back_only_on_not_found:
  "pv_Get (NewDispatcher onprem (Some ov) cap) now sid (a, b) =
     (case pv_Get onprem now sid a of
        (Inr x, a1) \<Rightarrow> (Inr x, (a1, b))
      | (Inl ErrNotFound, a1) \<Rightarrow> (case pv_Get ov now sid b of (r, b1) \<Rightarrow> (r, (a1, b1)))
      | (Inl (ErrOther m), a1) \<Rightarrow> (Inl (ErrOther m), (a1, b)))
   \<and> pv_Delete (NewDispatcher onprem (Some ov) cap) sid (a, b) =
     (case pv_Delete onprem sid a of
        (None, a1) \<Rightarrow> (None, (a1, b))
      | (Some ErrNotFound, a1) \<Rightarrow> (case pv_Delete ov sid b of (r, b1) \<Rightarrow> (r, (a1, b1)))
      | (Some (ErrOther m), a1) \<Rightarrow> (Some (ErrOther m), (a1, b)))
   \<and> pv_VMIAddress (NewDispatcher onprem (Some ov) cap) sid (a, b) =
     (case pv_VMIAddress onprem sid a of
        (Inr x, a1) \<Rightarrow> (Inr x, (a1, b))
      | (Inl ErrNotFound, a1) \<Rightarrow> (case pv_VMIAddress ov sid b of (r, b1) \<Rightarrow> (r, (a1, b1)))
      | (Inl (ErrOther m), a1) \<Rightarrow> (Inl (ErrOther m), (a1, b)))"
  by (intro conjI)
    (auto simp: NewDispatcher_def dispatcher_ops is_not_found_iff split: prod.split sum.split option.split err.split)

text \<open>
  Both providers are reaped whatever happens: the ids of both are returned even when one of
  them fails, and the error is that of the overflow provider if it has one.
\<close>

theorem dispatcher_reaps_both:
  "pv_ReapExpiredSessions (NewDispatcher onprem (Some ov) cap) now (a, b) =
     (case (pv_ReapExpiredSessions onprem now a, pv_ReapExpiredSessions ov now b) of
        (((r1, e1), a1), ((r2, e2), b1)) \<Rightarrow> ((r1 @ r2, case e2 of None \<Rightarrow> e1 | Some e \<Rightarrow> Some e), (a1, b1)))
   \<and> pv_ReapStuckSessions (NewDispatcher onprem (Some ov) cap) now timeout (a, b) =
     (case (pv_ReapStuckSessions onprem now timeout a, pv_ReapStuckSessions ov now timeout b) of
        (((r1, e1), a1), ((r2, e2), b1)) \<Rightarrow> ((r1 @ r2, case e2 of None \<Rightarrow> e1 | Some e \<Rightarrow> Some e), (a1, b1)))"
  by (simp add: NewDispatcher_def reapBoth_def dispatcher_ops split: prod.split option.split)

section \<open>Capacity\<close>

text \<open>
  The global quota matches the routing: when the active sessions of both providers together are
  below the capacity the dispatcher reports, the provider that a new session is routed to is below
  its own cap.
\<close>

theorem dispatcher_quota_leaves_room:
  assumes "pv_CountActiveSessions onprem a = (Inr n, a)" and "pv_CountActiveSessions ov b = (Inr m, b)"
    and "pv_CountActiveSessions (NewDispatcher onprem (Some ov) cap) (a, b) = (Inr active, s)"
    and "active < pv_Capacity (NewDispatcher onprem (Some ov) cap)"
  shows "pv_Create (NewDispatcher onprem (Some ov) cap) now sid lab uid init (a, b) =
      (if n < cap then (case pv_Create onprem now sid lab uid init a of (r, a2) \<Rightarrow> (r, (a2, b)))
       else (case pv_Create ov now sid lab uid init b of (r, b2) \<Rightarrow> (r, (a, b2))))
    \<and> (n < cap \<or> m < pv_Capacity ov)"
  using assms by (auto simp: NewDispatcher_def dispatcher_ops d_Capacity_def split: prod.split)

definition demo_dispatcher :: "(cluster manager \<times> Instance list provisioner) provider" where
  "demo_dispatcher = NewDispatcher (kubevirt_provider cluster_api demo_cfg)
     (Some (ec2_provider account_api demo_aws_cfg)) 1"

theorem dispatcher_quota_leaves_room_witness:
  "fst (pv_CountActiveSessions demo_dispatcher (demo_manager, demo_prov)) = Inr 2
   \<and> pv_Capacity demo_dispatcher = 6 \<and> 1 < pv_Capacity (ec2_provider account_api demo_aws_cfg)"
proof -
  have n: "pv_CountActiveSessions (kubevirt_provider cluster_api demo_cfg) demo_manager = (Inr 1, demo_manager)"
    by (simp add: kubevirt_provider_def kv_CountActiveSessions_def demo_list)
      (simp add: demo_ns_def namespaceDeleting_def)
  have m: "pv_CountActiveSessions (ec2_provider account_api demo_aws_cfg) demo_prov = (Inr 1, demo_prov)"
    by (simp add: ec2_provider_def ec2_CountActiveSessions_def demo_active)
  have both: "pv_CountActiveSessions demo_dispatcher (demo_manager, demo_prov) = (Inr 2, (demo_manager, demo_prov))"
    using n m by (simp add: demo_dispatcher_def NewDispatcher_def dispatcher_ops)
  have cap: "pv_Capacity demo_dispatcher = 6"
    by (simp add: demo_dispatcher_def NewDispatcher_def d_Capacity_def ec2_provider_def demo_aws_cfg_def)
  show ?thesis
    using dispatcher_quota_leaves_room [OF n m, of 1 2 "(demo_manager, demo_prov)"] both cap
    by (simp add: demo_dispatcher_def)
qed

text \<open>
  A provider's capacity of 0 means unlimited, but the dispatcher adds capacities: with an
  unlimited overflow provider it reports the on-premises cap alone, so that the quota stops new
  sessions exactly when the overflow would take over.
\<close>

theorem dispatcher_unlimited_overflow_unused:
  assumes "pv_Capacity ov = 0" and "pv_CountActiveSessions onprem a = (Inr n, a)" and "cap \<le> n"
    and "pv_CountActiveSessions ov b = (Inr m, b)" and "0 \<le> m"
  shows "\<exists>active s. pv_CountActiveSessions (NewDispatcher onprem (Some ov) cap) (a, b) = (Inr active, s)
    \<and> pv_Capacity (NewDispatcher onprem (Some ov) cap) \<le> active"
  using assms by (auto simp: NewDispatcher_def dispatcher_ops d_Capacity_def)

theorem dispatcher_unlimited_overflow_unused_witness:
  "\<exists>active s. pv_CountActiveSessions (NewDispatcher (kubevirt_provider cluster_api demo_cfg)
       (Some (ec2_provider account_api (demo_aws_cfg\<lparr>ac_MaxActiveSessions := 0\<rparr>))) 1) (demo_manager, demo_prov)
       = (Inr active, s)
    \<and> pv_Capacity (NewDispatcher (kubevirt_provider cluster_api demo_cfg)
       (Some (ec2_provider account_api (demo_aws_cfg\<lparr>ac_MaxActiveSessions := 0\<rparr>))) 1) \<le> active"
proof (rule dispatcher_unlimited_overflow_unused)
  show "pv_CountActiveSessions (kubevirt_provider cluster_api demo_cfg) demo_manager = (Inr 1, demo_manager)"
    by (simp add: kubevirt_provider_def kv_CountActiveSessions_def demo_list)
      (simp add: demo_ns_def namespaceDeleting_def)
  show "pv_CountActiveSessions (ec2_provider account_api (demo_aws_cfg\<lparr>ac_MaxActiveSessions := 0\<rparr>)) demo_prov
      = (Inr 1, demo_prov)"
    by (simp add: ec2_provider_def ec2_CountActiveSessions_def demo_active)
qed (simp_all add: ec2_provider_def)

end
