(* ===== verification/Session_Safety.thy ===== *)
theory Session_Safety
  imports App Dispatch
begin

text \<open>
  Properties of the session handlers of \<open>session.go\<close> and \<open>admin.go\<close>: what a successful creation
  guarantees of the database, the provider and the quota, what a failed one leaves behind, what a
  user sees of the sessions of others, and what the reapers do to the progress of reaped sessions.

  The theorems on the database hold for the model of \<open>store.Store\<close> and every script of faults
  unless they say that the database is healthy.
\<close>

section \<open>Responses of the parts of \<open>CreateSession\<close>\<close>

lemma check_capacity_Some: "check_capacity Q a = (Some r, a') \<Longrightarrow> resp_status r \<in> {429, 500}"
  by (auto simp: check_capacity_def Let_def err_resp_def code_resp_def split: prod.splits sum.splits if_splits)

lemma check_capacity_steps: "a_steps (snd (check_capacity Q a)) = a_steps a"
  by (simp add: check_capacity_def on_defs split: prod.split sum.split)

lemma check_capacity_None:
  assumes "check_capacity Q a = (None, a')" and "0 < pv_Capacity Q"
  shows "\<exists>n. pv_CountActiveSessions Q (a_prov a) = (Inr n, a_prov a') \<and> n < pv_Capacity Q"
  using assms by (auto simp: check_capacity_def on_defs split: prod.splits sum.splits if_splits)

lemma make_room_Some: "make_room h Q now uid a = (Some r, a') \<Longrightarrow> resp_status r \<in> {409, 500}"
  by (auto simp: make_room_def Let_def err_resp_def split: prod.splits sum.splits option.splits if_splits)

lemma create_checked_201:
  assumes "create_checked h Q now sid lab lc uid a = (Resp 201 b, a')"
  obtains a1 where "check_capacity Q a = (None, a1)" and "provision h Q now sid lab lc uid a1 = (Resp 201 b, a')"
  using assms check_capacity_Some [of Q a]
  by (fastforce simp: create_checked_def split: prod.splits option.splits)

lemma provision_201:
  assumes "provision h Q now sid lab lc uid a = (Resp 201 b, a')"
  obtains a1 x p where "on_steps (put (h_db h) now sid (init_session lab uid (step_ids lc))) a = (None, a1)"
    and "pv_Create Q now sid lab uid (lc_init lc) (a_prov a) = (Inr x, p)"
    and "a_prov a' = p"
    and "a_steps a' = snd (withSession (h_db h) now (s_ID x) (\<lambda>ss. (ss_current_step ss, False, ss)) (a_steps a1))"
  using assms
  by (auto simp: provision_def err_resp_def on_defs emit_def sessionResponse_def Let_def
      split: prod.splits option.splits sum.splits)


lemma create_locked_201:
  assumes "create_locked h Q now sid lab lc uid a = (Resp 201 b, a')"
  obtains a1 a2 a3 where "on_ext (h_lock_acquire h (''session-create:'' @ uid)) a = (True, a1)"
    and "make_room h Q now uid a1 = (None, a2)"
    and "create_checked h Q now sid lab lc uid a2 = (Resp 201 b, a3)"
    and "a' = a3\<lparr>a_ext := h_lock_release h (''session-create:'' @ uid) (a_ext a3)\<rparr>"
  using assms make_room_Some [of h Q now uid]
  by (fastforce simp: create_locked_def Let_def code_resp_def split: prod.splits option.splits if_splits)

text \<open>The successful creation of a session, from its last phase outwards.\<close>

lemma CreateSession_201:
  assumes "CreateSession h now sid req uid a = (Resp 201 b, a')"
  obtains Q labID lc a1 where "h_sessions h = Some Q" and "req = Inr labID" and "h_labs h labID = Some lc"
    and "on_db (ensureLabEntitlement (h_db h) (h_mode h) now uid lc) a = (None, a1)"
    and "uid \<noteq> [] \<and> create_locked h Q now sid labID lc uid a1 = (Resp 201 b, a')
       \<or> uid = [] \<and> create_checked h Q now sid labID lc uid a1 = (Resp 201 b, a')"
  using assms
  by (auto simp: CreateSession_def err_resp_def
      split: option.splits sum.splits prod.splits entitlement_err.splits if_splits)

lemma on_steps_eq: "on_steps f a = (r, a') \<longleftrightarrow> (\<exists>s. f (a_steps a) = (r, s) \<and> a' = a\<lparr>a_steps := s\<rparr>)"
  by (auto simp: on_steps_def split: prod.splits)

context progress_persistence
begin

lemma put_view:
  assumes "fresh_in view ok sid st" and "sorted (map step_id (ss_steps ss))"
    and "distinct (map step_id (ss_steps ss))" and "put (Some P) now sid ss st = (None, st')"
  shows "store_inv view ok st'" and "view (st_d st') = (view (st_d st))(sid \<mapsto> toStoreProgress ss)"
proof -
  have f: "fits (toStoreProgress ss) (view (st_d st) sid)"
    using assms(1-3) by (simp add: fits_def fresh_in_def del: map_map)
  have inv: "store_inv view ok st" using assms(1) by (simp add: fresh_in_def)
  then have okd: "ok (st_d st)" by (simp add: store_inv_def)
  show "store_inv view ok st'" by (rule put_spec(2) [OF inv f assms(4)])
  show "view (st_d st') = (view (st_d st))(sid \<mapsto> toStoreProgress ss)"
    using assms(4) save_ok [OF okd f, of now] by (auto simp: put_def split: prod.splits option.splits)
qed

lemma provision_durable:
  assumes "h_db h = Some P" and "fresh_in view ok sid (a_steps a)"
    and "sorted (step_ids lc)" and "distinct (step_ids lc)"
    and "provision h Q now sid lab lc uid a = (Resp 201 b, a')"
  shows "view (st_d (a_steps a')) sid = Some (toStoreProgress (init_session lab uid (step_ids lc)))"
proof -
  let ?ss = "init_session lab uid (step_ids lc)"
  obtain a1 and x :: Session where put: "on_steps (put (h_db h) now sid ?ss) a = (None, a1)"
    and a': "a_steps a' = snd (withSession (h_db h) now (s_ID x) (\<lambda>ss. (ss_current_step ss, False, ss)) (a_steps a1))"
    using assms(5) by (elim provision_201) blast
  have ids: "map step_id (ss_steps ?ss) = step_ids lc" by (simp add: init_session_def Let_def)
  have p: "put (Some P) now sid ?ss (a_steps a) = (None, a_steps a1)"
    using put assms(1) by (auto simp: on_steps_eq)
  have v: "store_inv view ok (a_steps a1)"
    "view (st_d (a_steps a1)) = (view (st_d (a_steps a)))(sid \<mapsto> toStoreProgress ?ss)"
    using put_view [OF assms(2) _ _ p] assms(3,4) ids by simp_all
  have "view (st_d (a_steps a')) = view (st_d (a_steps a1))"
    using read_frame(2) [OF v(1) surjective_pairing] a' assms(1) by simp
  with v(2) show ?thesis by simp
qed

lemma create_checked_durable:
  assumes "h_db h = Some P" and "fresh_in view ok sid (a_steps a)"
    and "sorted (step_ids lc)" and "distinct (step_ids lc)"
    and "create_checked h Q now sid lab lc uid a = (Resp 201 b, a')"
  shows "view (st_d (a_steps a')) sid = Some (toStoreProgress (init_session lab uid (step_ids lc)))"
proof -
  from assms(5) obtain a1 where "check_capacity Q a = (None, a1)"
    and p: "provision h Q now sid lab lc uid a1 = (Resp 201 b, a')"
    by (rule create_checked_201)
  then have "fresh_in view ok sid (a_steps a1)" using assms(2) check_capacity_steps [of Q a] by simp
  from provision_durable [OF assms(1) this assms(3,4) p] show ?thesis .
qed

lemma CreateSession_durable:
  assumes "h_db h = Some P" and "fresh_in view ok sid (a_steps a)"
    and "h_labs h labID = Some lc" and "sorted (step_ids lc)" and "distinct (step_ids lc)"
    and "CreateSession h now sid (Inr labID) uid a = (Resp 201 b, a')"
  shows "view (st_d (a_steps a')) sid = Some (toStoreProgress (init_session labID uid (step_ids lc)))"
proof -
  from assms(6) obtain Q lc' a1 where lc: "h_labs h labID = Some lc'"
    and e: "on_db (ensureLabEntitlement (h_db h) (h_mode h) now uid lc') a = (None, a1)"
    and c: "uid \<noteq> [] \<and> create_locked h Q now sid labID lc' uid a1 = (Resp 201 b, a')
       \<or> uid = [] \<and> create_checked h Q now sid labID lc' uid a1 = (Resp 201 b, a')"
    by (rule CreateSession_201) auto
  have lc': "lc' = lc" using lc assms(3) by simp
  have f1: "fresh_in view ok sid (a_steps a1)"
    using fresh_entitlement [OF assms(2), of "h_mode h" now uid lc'] e assms(1) by simp
  note durable = create_checked_durable [OF assms(1) _ assms(4,5)]
  from c show ?thesis
  proof (elim disjE conjE)
    assume "create_checked h Q now sid labID lc' uid a1 = (Resp 201 b, a')"
    with durable [OF f1] lc' show ?thesis by simp
  next
    assume "create_locked h Q now sid labID lc' uid a1 = (Resp 201 b, a')"
    then obtain b1 b2 b3 where l: "on_ext (h_lock_acquire h (''session-create:'' @ uid)) a1 = (True, b1)"
      "make_room h Q now uid b1 = (None, b2)" "create_checked h Q now sid labID lc' uid b2 = (Resp 201 b, b3)"
      "a' = b3\<lparr>a_ext := h_lock_release h (''session-create:'' @ uid) (a_ext b3)\<rparr>"
      by (rule create_locked_201)
    have "fresh_in view ok sid (a_steps b1)" using f1 l(1) a_steps_simps(2) [of "h_lock_acquire h (''session-create:'' @ uid)" a1] by simp
    then have "fresh_in view ok sid (a_steps b2)"
      using fresh_make_room [OF assms(1), of sid b1 Q now uid] l(2) by simp
    with durable l(3,4) lc' show ?thesis by simp
  qed
qed

end


context healthy_persistence
begin

lemma remove_view_None:
  assumes "ok (st_d st)"
  shows "view (st_d (remove_session (Some P) sid st)) sid = None"
proof -
  obtain y d1 where tl: "take_lookup P sid st = (y, d1)" by (cases "take_lookup P sid st")
  with take_lookup_spec [OF assms, of sid] have "ok d1" by simp
  then obtain d where del: "p_DeleteProgress P sid d1 = (None, d)" using delete_succeeds by blast
  with delete_ok [OF \<open>ok d1\<close> del] tl show ?thesis by (simp add: remove_session_def take_session_def)
qed

lemma provision_no_residue:
  assumes "h_db h = Some P" and "fresh_in view ok sid (a_steps a)"
    and "sorted (step_ids lc)" and "distinct (step_ids lc)"
    and "resp_status (fst (provision h Q now sid lab lc uid a)) \<noteq> 201"
  shows "view (st_d (a_steps (snd (provision h Q now sid lab lc uid a)))) sid = None"
proof -
  let ?ss = "init_session lab uid (step_ids lc)"
  have okd: "ok (st_d (a_steps a))" using assms(2) by (simp add: fresh_in_def store_inv_def)
  obtain d where "p_SaveProgress P now sid (toStoreProgress ?ss) (st_d (a_steps a)) = (None, d)"
    using save_succeeds [OF okd] by blast
  then obtain st1 where p: "put (Some P) now sid ?ss (a_steps a) = (None, st1)"
    by (auto simp: put_def)
  have ids: "map step_id (ss_steps ?ss) = step_ids lc" by (simp add: init_session_def Let_def)
  have "ok (st_d st1)"
    using put_view(1) [OF assms(2) _ _ p] assms(3,4) ids by (simp add: store_inv_def)
  from remove_view_None [OF this, of sid] show ?thesis
    using assms(1,5) p
    by (auto simp: provision_def on_defs drop_steps_def split: prod.splits sum.splits)
qed

lemma create_checked_no_residue:
  assumes "h_db h = Some P" and "fresh_in view ok sid (a_steps a)"
    and "sorted (step_ids lc)" and "distinct (step_ids lc)"
    and "resp_status (fst (create_checked h Q now sid lab lc uid a)) \<noteq> 201"
  shows "view (st_d (a_steps (snd (create_checked h Q now sid lab lc uid a)))) sid = None"
proof -
  obtain r a1 where c: "check_capacity Q a = (r, a1)" by (cases "check_capacity Q a")
  then have f: "fresh_in view ok sid (a_steps a1)" using assms(2) check_capacity_steps [of Q a] by simp
  from c show ?thesis
    using provision_no_residue [OF assms(1) f assms(3,4), of Q now lab uid] assms(5) f
    by (cases r) (simp_all add: create_checked_def fresh_in_def)
qed

lemma create_locked_no_residue:
  assumes "h_db h = Some P" and "fresh_in view ok sid (a_steps a)"
    and "sorted (step_ids lc)" and "distinct (step_ids lc)"
    and "resp_status (fst (create_locked h Q now sid lab lc uid a)) \<noteq> 201"
  shows "view (st_d (a_steps (snd (create_locked h Q now sid lab lc uid a)))) sid = None"
proof -
  obtain b a1 where l: "on_ext (h_lock_acquire h (''session-create:'' @ uid)) a = (b, a1)"
    by (cases "on_ext (h_lock_acquire h (''session-create:'' @ uid)) a")
  then have f1: "fresh_in view ok sid (a_steps a1)"
    using assms(2) a_steps_simps(2) [of "h_lock_acquire h (''session-create:'' @ uid)" a] by simp
  obtain r a2 where m: "make_room h Q now uid a1 = (r, a2)" by (cases "make_room h Q now uid a1")
  then have f2: "fresh_in view ok sid (a_steps a2)"
    using fresh_make_room [OF assms(1) f1, of Q now uid] by simp
  obtain x a3 where c: "create_checked h Q now sid lab lc uid a2 = (x, a3)"
    by (cases "create_checked h Q now sid lab lc uid a2")
  show ?thesis
    using create_checked_no_residue [OF assms(1) f2 assms(3,4), of Q now lab uid] assms(5) l m f1 f2 c
    by (auto simp: create_locked_def fresh_in_def Let_def split: option.splits if_splits)
qed

lemma CreateSession_no_residue:
  assumes "h_db h = Some P" and "fresh_in view ok sid (a_steps a)"
    and "\<And>lab lc. h_labs h lab = Some lc \<Longrightarrow> sorted (step_ids lc) \<and> distinct (step_ids lc)"
    and "resp_status (fst (CreateSession h now sid req uid a)) \<noteq> 201"
  shows "view (st_d (a_steps (snd (CreateSession h now sid req uid a)))) sid = None"
proof (cases "\<exists>Q lab lc. h_sessions h = Some Q \<and> req = Inr lab \<and> h_labs h lab = Some lc")
  case False
  then show ?thesis
    using assms(2) by (auto simp: CreateSession_def fresh_in_def split: option.split sum.split)
next
  case True
  then obtain Q lab lc where q: "h_sessions h = Some Q" "req = Inr lab" "h_labs h lab = Some lc" by blast
  note wf = assms(3) [OF q(3), THEN conjunct1] assms(3) [OF q(3), THEN conjunct2]
  obtain e a1 where e: "on_db (ensureLabEntitlement (h_db h) (h_mode h) now uid lc) a = (e, a1)"
    by (cases "on_db (ensureLabEntitlement (h_db h) (h_mode h) now uid lc) a")
  then have f: "fresh_in view ok sid (a_steps a1)"
    using fresh_entitlement [OF assms(2), of "h_mode h" now uid lc] assms(1) by simp
  show ?thesis
  proof (cases e)
    case None
    then show ?thesis
      using create_locked_no_residue [OF assms(1) f wf] create_checked_no_residue [OF assms(1) f wf] assms(4) q e
      by (simp add: CreateSession_def split: if_splits)
  next
    case (Some x)
    then show ?thesis using q e f by (cases x) (simp_all add: CreateSession_def fresh_in_def)
  qed
qed

end


section \<open>A concrete application\<close>

text \<open>
  A handler object over the demonstration cluster, one lab of two steps, an empty database and
  locks that are always free, to evaluate the handlers on.
\<close>

definition demo_handler :: "(nat \<Rightarrow> fault) \<Rightarrow> (db, cluster manager, unit) handler" where
  "demo_handler fs =
     \<lparr>h_mode = Some ''debug'', h_provision_timeout_min = 10,
      h_labs = [''lab-linux-basics'' \<mapsto> sort_steps demo_lab],
      h_sessions = Some (kubevirt_provider cluster_api demo_cfg), h_db = Some (store_persistence fs),
      h_events = True, h_lock_acquire = (\<lambda>k x. (True, x)), h_lock_release = (\<lambda>k x. x),
      h_validator = None, h_redis_set = None, h_redis_getdel = None, h_ai = None, h_kc_admin = None,
      h_ec2_dial = False\<rparr>"

definition demo_app :: "(db, cluster manager, unit) app" where
  "demo_app = \<lparr>a_steps = \<lparr>st_m = Map.empty, st_d = empty_db\<rparr>, a_prov = demo_manager, a_events = [], a_ext = ()\<rparr>"

lemma demo_fresh: "fresh_in db_view db_ok sid (a_steps demo_app)"
  by (simp add: fresh_in_def store_inv_def demo_app_def db_ok_def db_view_def empty_db_def
      empty_tables_def tables_ok_def keyed_def progress_of_def row_find_def)

lemma demo_step_ids: "step_ids (sort_steps demo_lab) = [1, 2]"
  by (simp add: step_ids_def sort_steps_def demo_lab_def)

lemma demo_find: "kv_FindActiveByUser cluster_api ''v'' demo_manager = (Inr [], demo_manager)"
  by (simp add: kv_FindActiveByUser_def demo_list) (simp add: demo_ns_def meta_get_def ann_defs)

lemma demo_count: "kv_CountActiveSessions cluster_api demo_manager = (Inr 1, demo_manager)"
  by (simp add: kv_CountActiveSessions_def demo_list) (simp add: demo_ns_def namespaceDeleting_def)

lemma demo_create:
  "\<exists>x m. kv_Create cluster_api demo_cfg 0 ''s2'' lab ''v'' init demo_manager = (Inr x, m)"
  by (simp add: kv_Create_def demo_kv ns_of_def Let_def)

lemma demo_put:
  "\<exists>st. put (Some (store_persistence (\<lambda>_. Healthy))) now sid ss (a_steps demo_app) = (None, st)"
  using healthy_pgdb.save_succeeds [of empty_db now sid "toStoreProgress ss"]
  by (auto simp: put_def demo_app_def db_ok_def empty_db_def empty_tables_def tables_ok_def keyed_def)

lemma demo_room:
  "make_room (demo_handler fs) (kubevirt_provider cluster_api demo_cfg) now ''v'' demo_app = (None, demo_app)"
  by (simp add: make_room_def prepareSessionCreation_def kubevirt_provider_def on_defs demo_app_def demo_find)

lemma demo_capacity: "check_capacity (kubevirt_provider cluster_api demo_cfg) demo_app = (None, demo_app)"
  by (simp add: check_capacity_def kubevirt_provider_def on_defs demo_app_def demo_count) (simp add: demo_cfg_def)

lemma demo_entitled:
  "on_db (ensureLabEntitlement db (Some ''debug'') now uid (sort_steps demo_lab)) demo_app = (None, demo_app)"
  by (simp add: ensureLabEntitlement_def on_db_def demo_app_def labRequiresPaidPlan_def demo_lab_def sort_steps_def)

lemma demo_provision:
  "\<exists>b a'. provision (demo_handler (\<lambda>_. Healthy)) (kubevirt_provider cluster_api demo_cfg) 0 ''s2''
     ''lab-linux-basics'' (sort_steps demo_lab) ''v'' demo_app = (Resp 201 b, a')"
proof -
  let ?init = "lc_init (sort_steps demo_lab)"
  obtain st where st: "put (Some (store_persistence (\<lambda>_. Healthy))) 0 ''s2''
      (init_session ''lab-linux-basics'' ''v'' (step_ids (sort_steps demo_lab))) (a_steps demo_app) = (None, st)"
    using demo_put by blast
  obtain x m where "kv_Create cluster_api demo_cfg 0 ''s2'' ''lab-linux-basics'' ''v'' ?init demo_manager = (Inr x, m)"
    using demo_create by blast
  moreover have "a_prov demo_app = demo_manager" by (simp add: demo_app_def)
  ultimately show ?thesis
    using st by (simp add: provision_def on_defs demo_handler_def kubevirt_provider_def split: prod.split)
qed

lemma demo_created:
  "\<exists>b a'. CreateSession (demo_handler (\<lambda>_. Healthy)) 0 ''s2'' (Inr ''lab-linux-basics'') ''v'' demo_app = (Resp 201 b, a')"
proof -
  have h: "h_sessions (demo_handler (\<lambda>_. Healthy)) = Some (kubevirt_provider cluster_api demo_cfg)"
    "h_labs (demo_handler (\<lambda>_. Healthy)) ''lab-linux-basics'' = Some (sort_steps demo_lab)"
    "h_mode (demo_handler (\<lambda>_. Healthy)) = Some ''debug''"
    "on_ext (h_lock_acquire (demo_handler (\<lambda>_. Healthy)) k) a = (True, a)" for k a
    by (simp_all add: demo_handler_def on_ext_def)
  obtain b a' where "provision (demo_handler (\<lambda>_. Healthy)) (kubevirt_provider cluster_api demo_cfg) 0 ''s2''
     ''lab-linux-basics'' (sort_steps demo_lab) ''v'' demo_app = (Resp 201 b, a')"
    using demo_provision by blast
  then show ?thesis
    by (simp add: CreateSession_def h demo_entitled create_locked_def demo_room create_checked_def demo_capacity)
qed

section \<open>Creating a session\<close>

text \<open>
  C2. A session that was created has durable progress: whatever faults the database has, a 201
  response means that the database holds the initial progress of the new session, with its first
  step active, so that a restart of the API does not lose it.
\<close>

theorem create_session_durable:
  assumes "h_db h = Some (store_persistence fs)" and "fresh_in db_view db_ok sid (a_steps a)"
    and "h_labs h labID = Some lc" and "sorted (step_ids lc)" and "distinct (step_ids lc)"
    and "CreateSession h now sid (Inr labID) uid a = (Resp 201 b, a')"
  shows "db_view (st_d (a_steps a')) sid = Some (toStoreProgress (init_session labID uid (step_ids lc)))"
  using assms by (rule pgdb.CreateSession_durable)

theorem create_session_durable_witness:
  "\<exists>b a'. CreateSession (demo_handler (\<lambda>_. Healthy)) 0 ''s2'' (Inr ''lab-linux-basics'') ''v'' demo_app = (Resp 201 b, a')
    \<and> db_view (st_d (a_steps a')) ''s2'' = Some (toStoreProgress (init_session ''lab-linux-basics'' ''v'' [1, 2]))"
proof -
  obtain b a' where c: "CreateSession (demo_handler (\<lambda>_. Healthy)) 0 ''s2'' (Inr ''lab-linux-basics'') ''v'' demo_app
      = (Resp 201 b, a')"
    using demo_created by blast
  have "db_view (st_d (a_steps a')) ''s2''
      = Some (toStoreProgress (init_session ''lab-linux-basics'' ''v'' (step_ids (sort_steps demo_lab))))"
    by (rule create_session_durable [OF _ demo_fresh _ _ _ c]) (simp_all add: demo_step_ids, simp_all add: demo_handler_def)
  with c show ?thesis by (simp add: demo_step_ids)
qed

text \<open>
  C7. A creation that fails leaves nothing behind: with a healthy database, every other response
  means that the database holds no progress for the new session, also when the VM could not be
  created after the progress had been stored.
\<close>

theorem create_session_no_residue:
  assumes "h_db h = Some (store_persistence (\<lambda>_. Healthy))" and "fresh_in db_view db_ok sid (a_steps a)"
    and "\<And>lab lc. h_labs h lab = Some lc \<Longrightarrow> sorted (step_ids lc) \<and> distinct (step_ids lc)"
    and "resp_status (fst (CreateSession h now sid req uid a)) \<noteq> 201"
  shows "db_view (st_d (a_steps (snd (CreateSession h now sid req uid a)))) sid = None"
  using assms by (rule healthy_pgdb.CreateSession_no_residue)

text \<open>A lab of which the cluster already has the namespace of the new session: the VM cannot be created.\<close>

theorem create_session_no_residue_witness:
  "db_view (st_d (a_steps (snd (CreateSession (demo_handler (\<lambda>_. Healthy)) 0 ''s1'' (Inr ''lab-linux-basics'') ''v'' demo_app)))) ''s1'' = None"
proof (rule create_session_no_residue [OF _ demo_fresh])
  let ?h = "demo_handler (\<lambda>_. Healthy)"
  have h: "h_sessions ?h = Some (kubevirt_provider cluster_api demo_cfg)"
    "h_labs ?h ''lab-linux-basics'' = Some (sort_steps demo_lab)" "h_mode ?h = Some ''debug''"
    "on_ext (h_lock_acquire ?h k) a = (True, a)" "h_db ?h = Some (store_persistence (\<lambda>_. Healthy))" for k a
    by (simp_all add: demo_handler_def on_ext_def)
  obtain st where st: "put (Some (store_persistence (\<lambda>_. Healthy))) 0 ''s1''
      (init_session ''lab-linux-basics'' ''v'' (step_ids (sort_steps demo_lab))) (a_steps demo_app) = (None, st)"
    using demo_put by blast
  have "\<exists>e m. kv_Create cluster_api demo_cfg 0 ''s1'' lab ''v'' init demo_manager = (Inl e, m)" for lab init
    by (simp add: kv_Create_def demo_kv ns_of_def Let_def)
  then obtain e m where m: "kv_Create cluster_api demo_cfg 0 ''s1'' ''lab-linux-basics'' ''v''
      (lc_init (sort_steps demo_lab)) demo_manager = (Inl e, m)" by blast
  have p: "a_prov demo_app = demo_manager" by (simp add: demo_app_def)
  have c: "pv_Create (kubevirt_provider cluster_api demo_cfg) = kv_Create cluster_api demo_cfg"
    by (simp add: kubevirt_provider_def)
  show "resp_status (fst (CreateSession ?h 0 ''s1'' (Inr ''lab-linux-basics'') ''v'' demo_app)) \<noteq> 201"
    using st m by (simp add: CreateSession_def h demo_entitled create_locked_def demo_room create_checked_def
        demo_capacity provision_def on_steps_def on_prov_def c p err_resp_def)
  show "h_labs ?h lab = Some lc \<Longrightarrow> sorted (step_ids lc) \<and> distinct (step_ids lc)" for lab lc
    by (auto simp: demo_handler_def demo_step_ids split: if_splits)
qed (simp add: demo_handler_def)


section \<open>Quota and one session per user\<close>

text \<open>What \<open>prepareSessionCreation\<close> and the replacement of a completed session establish.\<close>

lemma prepare_cases:
  assumes "prepareSessionCreation Q now uid p = (Inr (ex, cl), p')"
  shows "\<exists>sid p1. pv_FindActiveByUser Q uid p = (Inr sid, p1)
    \<and> (sid = [] \<and> ex = [] \<and> p' = p1
       \<or> ex = [] \<and> fst (pv_Get Q now sid p1) = Inl ErrNotFound
       \<or> ex = [] \<and> (\<exists>s p2. pv_Get Q now sid p1 = (Inr s, p2) \<and> s_Status s = ''failed''
            \<and> fst (pv_Delete Q sid p2) \<in> {None, Some ErrNotFound})
       \<or> ex = sid \<and> sid \<noteq> [] \<and> cl = [] \<and> (\<exists>s. pv_Get Q now sid p1 = (Inr s, p') \<and> s_Status s \<noteq> ''failed''))"
  using assms
  by (auto simp: prepareSessionCreation_def is_not_found_iff
      split: prod.splits sum.splits option.splits if_splits)

lemma make_room_None:
  assumes "make_room h Q now uid a = (None, a')"
  shows "\<exists>sid p1. pv_FindActiveByUser Q uid (a_prov a) = (Inr sid, p1)
    \<and> (sid = [] \<or> fst (pv_Get Q now sid p1) = Inl ErrNotFound
       \<or> (\<exists>s p2. pv_Get Q now sid p1 = (Inr s, p2)
            \<and> (s_Status s = ''failed'' \<or> fst (completed (h_db h) now sid (a_steps a)))
            \<and> fst (pv_Delete Q sid p2) \<in> {None, Some ErrNotFound}))"
proof -
  obtain ex cl a1 where p: "on_prov (prepareSessionCreation Q now uid) a = (Inr (ex, cl), a1)"
    using assms by (auto simp: make_room_def split: prod.splits sum.splits)
  then have prep: "prepareSessionCreation Q now uid (a_prov a) = (Inr (ex, cl), a_prov a1)"
    and st: "a_steps a1 = a_steps a" by (auto simp: on_prov_def split: prod.splits)
  have gone: "fst (completed (h_db h) now ex (a_steps a)) \<and> fst (pv_Delete Q ex (a_prov a1)) \<in> {None, Some ErrNotFound}"
    if "ex \<noteq> []" "cl = []"
    using assms [unfolded make_room_def p] that st
    by (auto simp: on_steps_def on_prov_def is_not_found_iff split: prod.splits option.splits if_splits)
  from prepare_cases [OF prep] gone show ?thesis by blast
qed

lemma on_ext_simps: "on_ext f a = (r, a') \<Longrightarrow> a_prov a' = a_prov a \<and> a_steps a' = a_steps a"
  by (auto simp: on_ext_def split: prod.splits)

lemma on_db_simps: "on_db f a = (r, a') \<Longrightarrow> a_prov a' = a_prov a \<and> a_ext a' = a_ext a \<and> st_m (a_steps a') = st_m (a_steps a)"
  by (auto simp: on_db_def split: prod.splits)

text \<open>The entitlement check reads only subscriptions, and a read of the store says what it holds.\<close>

context progress_persistence
begin

lemma entitlement_view:
  assumes "store_inv view ok (a_steps a)" and "on_db (ensureLabEntitlement (Some P) mode now uid lc) a = (e, a1)"
  shows "store_inv view ok (a_steps a1) \<and> store_abs view (a_steps a1) = store_abs view (a_steps a)"
proof -
  have okd: "ok (st_d (a_steps a))" using assms(1) by (simp add: store_inv_def)
  have "ok d' \<and> view d' = view (st_d (a_steps a))"
    if "ensureLabEntitlement (Some P) mode now uid lc (st_d (a_steps a)) = (e, d')" for e d'
    using that okd subscription_frame [OF okd, of uid]
    by (auto simp: ensureLabEntitlement_def split: prod.splits if_splits)
  then show ?thesis
    using assms by (auto simp: on_db_def store_inv_def store_abs_def fun_eq_iff split: prod.splits option.split)
qed

lemma completed_view:
  assumes "store_inv view ok st" and "fst (completed (Some P) now sid st)"
  shows "\<exists>ss. store_abs view st sid = Some ss \<and> allPassed ss"
proof -
  obtain st' where w: "withSession (Some P) now sid (\<lambda>ss. (allPassed ss, False, ss)) st = (Some True, st')"
    using assms(2) by (auto simp: completed_def split: prod.splits option.splits)
  show ?thesis by (rule withSession_found [OF assms(1) read_well_behaved w]) auto
qed

end

lemma completed_cached:
  assumes "fst (completed None now sid st)"
  shows "\<exists>ss. st_m st sid = Some ss \<and> allPassed ss"
  using assms
  by (auto simp: completed_def withSession_def lock_phase_def load_on_miss_def split: prod.splits option.splits)

text \<open>
  The progress of a session that the process knows: the cached one, or, with a database, else the stored one.
\<close>

definition known_progress :: "(db, 'p, 'x) handler \<Rightarrow> (db, 'p, 'x) app \<Rightarrow> string \<Rightarrow> sessionSteps option" where
  "known_progress h a sid =
     (case h_db h of None \<Rightarrow> st_m (a_steps a) sid | Some _ \<Rightarrow> store_abs db_view (a_steps a) sid)"

text \<open>
  C6. One session per user, without a database or with one that may fail in any way: a session is created
  for a user only under the user's lock, and only if the provider has no active session of that user, or the
  one it has does not exist any more, or has failed, or has been finished (all the steps of its progress, in
  the cache or else in the database as it was when the request came in, are passed) and was
  deleted by this request. A user with a live, unfinished session never gets a second one.
\<close>

theorem create_session_one_per_user:
  assumes "h_sessions h = Some Q" and "uid \<noteq> []"
    and db: "h_db h = None \<or> h_db h = Some (store_persistence fs) \<and> store_inv db_view db_ok (a_steps a)"
    and "CreateSession h now newID req uid a = (Resp 201 b, a')"
  shows "fst (h_lock_acquire h (''session-create:'' @ uid) (a_ext a))
    \<and> (\<exists>sid p1. pv_FindActiveByUser Q uid (a_prov a) = (Inr sid, p1)
       \<and> (sid = [] \<or> fst (pv_Get Q now sid p1) = Inl ErrNotFound
          \<or> (\<exists>s p2. pv_Get Q now sid p1 = (Inr s, p2)
               \<and> (s_Status s = ''failed'' \<or> (\<exists>ss. known_progress h a sid = Some ss \<and> allPassed ss))
               \<and> fst (pv_Delete Q sid p2) \<in> {None, Some ErrNotFound})))"
proof -
  obtain labID lc a1 where e: "on_db (ensureLabEntitlement (h_db h) (h_mode h) now uid lc) a = (None, a1)"
    and c: "create_locked h Q now newID labID lc uid a1 = (Resp 201 b, a')"
    using assms(1,2,4) by (auto elim!: CreateSession_201)
  obtain a2 a3 where l: "on_ext (h_lock_acquire h (''session-create:'' @ uid)) a1 = (True, a2)"
    and m: "make_room h Q now uid a2 = (None, a3)" using c by (rule create_locked_201)
  note s = on_db_simps [OF e] on_ext_simps [OF l]
  have "fst (h_lock_acquire h (''session-create:'' @ uid) (a_ext a))"
    using l s by (auto simp: on_ext_def split: prod.splits)
  moreover have "\<exists>ss. known_progress h a sid = Some ss \<and> allPassed ss" if "fst (completed (h_db h) now sid (a_steps a2))" for sid
  proof (cases "h_db h")
    case None
    then show ?thesis using completed_cached that s by (fastforce simp: known_progress_def)
  next
    case (Some P)
    then have P: "h_db h = Some (store_persistence fs)" "store_inv db_view db_ok (a_steps a)" using db by auto
    note v = pgdb.entitlement_view [OF P(2) e [unfolded P(1)]]
    show ?thesis using pgdb.completed_view [of "a_steps a1" fs now sid] v that s P(1) by (simp add: known_progress_def)
  qed
  moreover have "a_prov a2 = a_prov a" using s by simp
  ultimately show ?thesis using make_room_None [OF m] by metis
qed

theorem create_session_one_per_user_witness:
  "\<exists>sid p1. pv_FindActiveByUser (kubevirt_provider cluster_api demo_cfg) ''v'' demo_manager = (Inr sid, p1)
     \<and> (sid = [] \<or> fst (pv_Get (kubevirt_provider cluster_api demo_cfg) 0 sid p1) = Inl ErrNotFound
        \<or> (\<exists>s p2. pv_Get (kubevirt_provider cluster_api demo_cfg) 0 sid p1 = (Inr s, p2)
             \<and> (s_Status s = ''failed'' \<or> (\<exists>ss. known_progress (demo_handler (\<lambda>_. Healthy)) demo_app sid = Some ss \<and> allPassed ss))
             \<and> fst (pv_Delete (kubevirt_provider cluster_api demo_cfg) sid p2) \<in> {None, Some ErrNotFound}))"
proof -
  let ?h = "demo_handler (\<lambda>_. Healthy)"
  obtain b a' where c: "CreateSession ?h 0 ''s2'' (Inr ''lab-linux-basics'') ''v'' demo_app = (Resp 201 b, a')"
    using demo_created by blast
  have h: "h_sessions ?h = Some (kubevirt_provider cluster_api demo_cfg)"
    "h_db ?h = None \<or> h_db ?h = Some (store_persistence (\<lambda>_. Healthy)) \<and> store_inv db_view db_ok (a_steps demo_app)"
    "a_prov demo_app = demo_manager"
    using demo_fresh by (simp_all add: demo_app_def demo_handler_def fresh_in_def)
  from create_session_one_per_user [OF h(1) _ h(2) c] show ?thesis unfolding h(3) by simp
qed

text \<open>
  The quota: a session is created only after the provider counted its active sessions and found
  fewer than its capacity, and the provider's creation is the next thing that happens to it.
\<close>

theorem create_session_respects_quota:
  assumes "h_sessions h = Some Q" and "0 < pv_Capacity Q"
    and "CreateSession h now newID req uid a = (Resp 201 b, a')"
  shows "\<exists>lab lc p n p1 x. req = Inr lab \<and> h_labs h lab = Some lc
    \<and> pv_CountActiveSessions Q p = (Inr n, p1) \<and> n < pv_Capacity Q
    \<and> pv_Create Q now newID lab uid (lc_init lc) p1 = (Inr x, a_prov a')"
proof -
  have checked: "\<exists>p n p1 x. pv_CountActiveSessions Q p = (Inr n, p1) \<and> n < pv_Capacity Q
      \<and> pv_Create Q now newID lab uid (lc_init lc) p1 = (Inr x, a_prov a2)"
    if created: "create_checked h Q now newID lab lc uid a1 = (Resp 201 b, a2)" for lab lc a1 a2
  proof -
    obtain a3 where c: "check_capacity Q a1 = (None, a3)"
      and p: "provision h Q now newID lab lc uid a3 = (Resp 201 b, a2)"
      using created by (rule create_checked_201)
    have "\<exists>x. pv_Create Q now newID lab uid (lc_init lc) (a_prov a3) = (Inr x, a_prov a2)"
      using p by (elim provision_201) simp
    with check_capacity_None [OF c assms(2)] show ?thesis by blast
  qed
  obtain lab lc a1 where r: "req = Inr lab" "h_labs h lab = Some lc"
    and c: "uid \<noteq> [] \<and> create_locked h Q now newID lab lc uid a1 = (Resp 201 b, a')
       \<or> uid = [] \<and> create_checked h Q now newID lab lc uid a1 = (Resp 201 b, a')"
    using assms(1,3) by (auto elim!: CreateSession_201)
  obtain a2 a3 where "create_checked h Q now newID lab lc uid a2 = (Resp 201 b, a3)" "a_prov a3 = a_prov a'"
    using c by (auto elim: create_locked_201)
  from checked [OF this(1)] this(2) r show ?thesis by metis
qed


theorem create_session_respects_quota_witness:
  "\<exists>p n p1. pv_CountActiveSessions (kubevirt_provider cluster_api demo_cfg) p = (Inr n, p1)
    \<and> n < pv_Capacity (kubevirt_provider cluster_api demo_cfg)"
proof -
  obtain b a' where c: "CreateSession (demo_handler (\<lambda>_. Healthy)) 0 ''s2'' (Inr ''lab-linux-basics'') ''v'' demo_app
      = (Resp 201 b, a')"
    using demo_created by blast
  have "h_sessions (demo_handler (\<lambda>_. Healthy)) = Some (kubevirt_provider cluster_api demo_cfg)"
    "0 < pv_Capacity (kubevirt_provider cluster_api demo_cfg)"
    by (simp_all add: demo_handler_def kubevirt_provider_def demo_cfg_def)
  from create_session_respects_quota [OF this c] show ?thesis by blast
qed

section \<open>Sessions of other users\<close>

text \<open>
  C14. To a user who is not its owner a session looks exactly like one that does not exist: reading
  and deleting it give the 404 of a missing session, and neither the VM nor the progress nor the
  event stream is touched.
\<close>

theorem foreign_session_looks_missing:
  assumes "h_sessions h = Some Q" and "pv_Get Q now sid (a_prov a) = (Inr s, p)"
    and "pv_Get Q now missing (a_prov a) = (Inl ErrNotFound, p')"
    and "uid \<noteq> []" and "s_UserID s \<noteq> []" and "uid \<noteq> s_UserID s"
  shows "GetSession h now sid uid a = (not_found, a\<lparr>a_prov := p\<rparr>)
    \<and> DeleteSession h now sid uid a = (not_found, a\<lparr>a_prov := p\<rparr>)
    \<and> fst (GetSession h now missing uid a) = fst (GetSession h now sid uid a)
    \<and> fst (DeleteSession h now missing uid a) = fst (DeleteSession h now sid uid a)"
  using assms
  by (simp add: GetSession_def DeleteSession_def on_prov_def denyIfNotSessionOwner_def denyIfNotOwner_def)

lemma demo_get_session:
  "\<exists>s. kv_Get cluster_api demo_cfg (1000 * second) ''s1'' demo_manager = (Inr s, demo_manager) \<and> s_UserID s = ''u''"
  "kv_Get cluster_api demo_cfg (1000 * second) ''s9'' demo_manager = (Inl ErrNotFound, demo_manager)"
  by (simp_all add: kv_Get_def vmi_status_def provisioningStage_def provisioningTimedOut_def demo_cfg_def
      ns_of_def demo_kv Let_def)

theorem foreign_session_looks_missing_witness:
  "fst (DeleteSession (demo_handler (\<lambda>_. Healthy)) (1000 * second) ''s1'' ''v'' demo_app) = not_found
   \<and> fst (GetSession (demo_handler (\<lambda>_. Healthy)) (1000 * second) ''s9'' ''v'' demo_app) = not_found"
proof -
  let ?Q = "kubevirt_provider cluster_api demo_cfg"
  obtain s where s: "pv_Get ?Q (1000 * second) ''s1'' (a_prov demo_app) = (Inr s, demo_manager)" "s_UserID s = ''u''"
    using demo_get_session(1) by (auto simp: kubevirt_provider_def demo_app_def)
  have m: "pv_Get ?Q (1000 * second) ''s9'' (a_prov demo_app) = (Inl ErrNotFound, demo_manager)"
    using demo_get_session(2) by (simp add: kubevirt_provider_def demo_app_def)
  have h: "h_sessions (demo_handler (\<lambda>_. Healthy)) = Some ?Q" by (simp add: demo_handler_def)
  show ?thesis using foreign_session_looks_missing [OF h s(1) m, of "''v''"] s(2) by simp
qed

section \<open>Reaping and progress\<close>

text \<open>The events that the end of a session calls for, given the progress before it.\<close>

definition abandonment ::
  "('d, 'p, 'x) handler \<Rightarrow> go_time \<Rightarrow> (string \<Rightarrow> sessionSteps option) \<Rightarrow> string \<Rightarrow> Event list" where
  "abandonment h now A sid =
     (case A sid of
        None \<Rightarrow> []
      | Some ss \<Rightarrow>
          if allPassed ss \<or> \<not> h_events h then []
          else [(mk_event LabAbandoned (ss_user_id ss) sid (ss_lab_id ss) 0)\<lparr>ev_timestamp := now\<rparr>])"

context healthy_persistence
begin

lemma abandon_spec:
  assumes "h_db h = Some P" and "store_inv view ok (a_steps a)" and "coherent view (a_steps a)"
  shows "store_abs view (a_steps (abandon h now sid a)) = (store_abs view (a_steps a))(sid := None)
    \<and> store_inv view ok (a_steps (abandon h now sid a)) \<and> coherent view (a_steps (abandon h now sid a))
    \<and> a_prov (abandon h now sid a) = a_prov a
    \<and> a_events (abandon h now sid a) = a_events a @ abandonment h now (store_abs view (a_steps a)) sid"
proof -
  obtain r st where t: "take_session (Some P) sid (a_steps a) = (r, st)"
    by (cases "take_session (Some P) sid (a_steps a)")
  have "r = store_abs view (a_steps a) sid" "store_abs view st = (store_abs view (a_steps a))(sid := None)"
    "store_inv view ok st" "coherent view st"
    using take_refines [OF assms(2,3), of sid] t by simp_all
  moreover have "abandon h now sid a = (case r of None \<Rightarrow> a\<lparr>a_steps := st\<rparr>
      | Some ss \<Rightarrow> if \<not> allPassed ss then emit h now (mk_event LabAbandoned (ss_user_id ss) sid (ss_lab_id ss) 0)
           (a\<lparr>a_steps := st\<rparr>) else a\<lparr>a_steps := st\<rparr>)"
    using t assms(1) by (simp add: abandon_def on_steps_def)
  ultimately show ?thesis
    by (simp add: abandonment_def emit_def emitEvent_def split: option.split)
qed

lemma abandon_fold:
  assumes "h_db h = Some P" and "store_inv view ok (a_steps a)" and "coherent view (a_steps a)" and "distinct ids"
  shows "store_abs view (a_steps (fold (abandon h now) ids a)) = store_abs view (a_steps a) |` (- set ids)
    \<and> a_prov (fold (abandon h now) ids a) = a_prov a
    \<and> a_events (fold (abandon h now) ids a)
        = a_events a @ concat (map (abandonment h now (store_abs view (a_steps a))) ids)"
  using assms(2-4)
proof (induction ids arbitrary: a)
  case Nil
  then show ?case by (simp add: restrict_map_def fun_eq_iff)
next
  case (Cons i ids)
  let ?a = "abandon h now i a"
  have s: "store_abs view (a_steps ?a) = (store_abs view (a_steps a))(i := None)"
    "store_inv view ok (a_steps ?a)" "coherent view (a_steps ?a)" "a_prov ?a = a_prov a"
    "a_events ?a = a_events a @ abandonment h now (store_abs view (a_steps a)) i"
    using abandon_spec [OF assms(1) Cons.prems(1,2), of now i] by blast+
  have "map (abandonment h now ((store_abs view (a_steps a))(i := None))) ids
      = map (abandonment h now (store_abs view (a_steps a))) ids"
    using Cons.prems(3) by (auto simp: abandonment_def)
  moreover have "(store_abs view (a_steps a))(i := None) |` (- set ids) = store_abs view (a_steps a) |` (- set (i # ids))"
    by (auto simp: restrict_map_def)
  ultimately show ?case
    using Cons.IH [OF s(2,3)] Cons.prems(3) s(1,4,5) by (simp del: map_eq_conv fun_upd_apply)
qed

end

text \<open>
  The expiry reaper ends sessions completely: with a healthy database and no error from the
  provider, the progress of exactly the reaped sessions is gone, and for each of them that was not
  completed one abandonment event is published, in the order in which they were reaped.
\<close>

theorem reap_expired_drops_progress:
  assumes "h_db h = Some (store_persistence (\<lambda>_. Healthy))" and "h_sessions h = Some Q"
    and "store_inv db_view db_ok (a_steps a)" and "coherent db_view (a_steps a)"
    and "pv_ReapExpiredSessions Q now (a_prov a) = ((reaped, None), p)" and "distinct reaped"
  shows "store_abs db_view (a_steps (ReapExpiredSessions h now a)) = store_abs db_view (a_steps a) |` (- set reaped)
    \<and> a_events (ReapExpiredSessions h now a)
        = a_events a @ concat (map (abandonment h now (store_abs db_view (a_steps a))) reaped)
    \<and> a_prov (ReapExpiredSessions h now a) = p"
proof -
  have "ReapExpiredSessions h now a = fold (abandon h now) reaped (a\<lparr>a_prov := p\<rparr>)"
    using assms(2,5) by (simp add: ReapExpiredSessions_def on_prov_def)
  with healthy_pgdb.abandon_fold [OF assms(1) _ _ assms(6), of "a\<lparr>a_prov := p\<rparr>" now] assms(3,4) show ?thesis by simp
qed

definition demo_progress :: "(db, cluster manager, unit) app" where
  "demo_progress = demo_app\<lparr>a_steps := snd (put (Some (store_persistence (\<lambda>_. Healthy))) 0 ''s1''
     (init_session ''lab-linux-basics'' ''u'' [1, 2]) (a_steps demo_app))\<rparr>"

lemma demo_progress_spec:
  "store_inv db_view db_ok (a_steps demo_progress)" "coherent db_view (a_steps demo_progress)"
  "store_abs db_view (a_steps demo_progress) ''s1'' = Some (init_session ''lab-linux-basics'' ''u'' [1, 2])"
proof -
  have inv: "store_inv db_view db_ok (a_steps demo_app)" "coherent db_view (a_steps demo_app)"
    using demo_fresh [of "''s1''"] by (simp_all add: fresh_in_def coherent_def demo_app_def)
  have f: "fits (toStoreProgress (init_session ''lab-linux-basics'' ''u'' [1, 2])) (db_view (st_d (a_steps demo_app)) ''s1'')"
    using demo_fresh [of "''s1''"] by (simp add: fresh_in_def fits_def init_session_def toStoreProgress_def)
  note p = healthy_pgdb.put_refines [OF inv f, of 0]
  show "store_inv db_view db_ok (a_steps demo_progress)" "coherent db_view (a_steps demo_progress)"
    "store_abs db_view (a_steps demo_progress) ''s1'' = Some (init_session ''lab-linux-basics'' ''u'' [1, 2])"
    using p(2-4) by (simp_all add: demo_progress_def)
qed

theorem reap_expired_drops_progress_witness:
  "map ev_type (a_events (ReapExpiredSessions (demo_handler (\<lambda>_. Healthy)) (9001 * second) demo_progress)) = [LabAbandoned]
   \<and> store_abs db_view (a_steps (ReapExpiredSessions (demo_handler (\<lambda>_. Healthy)) (9001 * second) demo_progress)) ''s1'' = None"
proof -
  let ?h = "demo_handler (\<lambda>_. Healthy)" and ?Q = "kubevirt_provider cluster_api demo_cfg"
  obtain p where p: "pv_ReapExpiredSessions ?Q (9001 * second) (a_prov demo_progress) = (([''s1''], None), p)"
    by (simp add: kubevirt_provider_def demo_progress_def demo_app_def kv_ReapExpiredSessions_def
        reap_expired_one_def demo_kv)
  have h: "h_db ?h = Some (store_persistence (\<lambda>_. Healthy))" "h_sessions ?h = Some ?Q" "h_events ?h"
    by (simp_all add: demo_handler_def)
  from reap_expired_drops_progress [OF h(1,2) demo_progress_spec(1,2) p] show ?thesis
    using h(3) by (simp add: abandonment_def demo_progress_spec(3) init_session_not_passed mk_event_def)
      (simp add: demo_progress_def demo_app_def)
qed

text \<open>
  When one provider of the dispatcher fails to reap, the ids that the other one reaped are
  thrown away with the error: the handler returns before it drops any progress, so the progress of
  those sessions stays in the store although their VMs are gone, and no abandonment is published.
\<close>

theorem reap_error_orphans_progress:
  assumes "h_sessions h = Some (NewDispatcher onprem (Some ov) cap)"
    and "pv_ReapExpiredSessions onprem now (fst (a_prov a)) = ((r1, Some e), p1)"
    and "pv_ReapExpiredSessions ov now (snd (a_prov a)) = ((r2, e2), p2)"
  shows "ReapExpiredSessions h now a = a\<lparr>a_prov := (p1, p2)\<rparr>"
  using assms
  by (cases e2) (simp_all add: ReapExpiredSessions_def on_prov_def NewDispatcher_def reapBoth_def dispatcher_ops)


definition overflow_handler :: "(db, cluster manager \<times> Instance list provisioner, unit) handler" where
  "overflow_handler =
     \<lparr>h_mode = Some ''release'', h_provision_timeout_min = 10, h_labs = Map.empty,
      h_sessions = Some (NewDispatcher
        (kubevirt_provider (cluster_api\<lparr>k_ns_list := (\<lambda>sel c. (Inl (K8sOther ''timeout''), c))\<rparr>) demo_cfg)
        (Some (ec2_provider account_api demo_aws_cfg)) 1),
      h_db = Some (store_persistence (\<lambda>_. Healthy)), h_events = True,
      h_lock_acquire = (\<lambda>k x. (True, x)), h_lock_release = (\<lambda>k x. x), h_validator = None,
      h_redis_set = None, h_redis_getdel = None, h_ai = None, h_kc_admin = None, h_ec2_dial = False\<rparr>"

definition overflow_app :: "(db, cluster manager \<times> Instance list provisioner, unit) app" where
  "overflow_app = \<lparr>a_steps = \<lparr>st_m = [''e1'' \<mapsto> init_session ''lab'' ''u'' [1]], st_d = empty_db\<rparr>,
     a_prov = (demo_manager, demo_prov), a_events = [], a_ext = ()\<rparr>"

theorem reap_error_orphans_progress_witness:
  "e_world (snd (a_prov (ReapExpiredSessions overflow_handler (9001 * second) overflow_app))) = []
   \<and> st_m (a_steps (ReapExpiredSessions overflow_handler (9001 * second) overflow_app)) ''e1'' \<noteq> None
   \<and> a_events (ReapExpiredSessions overflow_handler (9001 * second) overflow_app) = []"
proof -
  let ?K = "kubevirt_provider (cluster_api\<lparr>k_ns_list := (\<lambda>sel c. (Inl (K8sOther ''timeout''), c))\<rparr>) demo_cfg"
    and ?E = "ec2_provider account_api demo_aws_cfg"
  have k: "\<exists>e. pv_ReapExpiredSessions ?K (9001 * second) (fst (a_prov overflow_app)) = (([], Some e), demo_manager)"
    by (simp add: kubevirt_provider_def kv_ReapExpiredSessions_def kv_reap_def api_call_def overflow_app_def)
  have e: "\<exists>p. pv_ReapExpiredSessions ?E (9001 * second) (snd (a_prov overflow_app)) = (([''e1''], None), p) \<and> e_world p = []"
    by (simp add: ec2_provider_def ec2_ReapExpiredSessions_def ec2_reap_def ec2_reap_expired_one_def
        ec2_reap_one_def overflow_app_def demo_ec2 time_units)
  obtain err p where "pv_ReapExpiredSessions ?K (9001 * second) (fst (a_prov overflow_app)) = (([], Some err), demo_manager)"
    "pv_ReapExpiredSessions ?E (9001 * second) (snd (a_prov overflow_app)) = (([''e1''], None), p)" "e_world p = []"
    using k e by blast
  with reap_error_orphans_progress [of overflow_handler ?K ?E 1 "9001 * second" overflow_app "[]" err demo_manager
      "[''e1'']" None p]
  show ?thesis by (simp add: overflow_handler_def) (simp add: overflow_app_def)
qed

end
