(* ===== verification/Step_Safety.thy ===== *)
theory Step_Safety
  imports Step_Handlers Session_Safety
begin

text \<open>
  Properties of the step handlers: who may act on a session, in which order steps can be validated,
  what happens without a validation engine, redelivered results, and the levels of hints.
\<close>

section \<open>Reads of the step store\<close>

lemma on_stepsE:
  assumes "on_steps f a = (r, a')"
  obtains st where "f (a_steps a) = (r, st)" and "a' = a\<lparr>a_steps := st\<rparr>"
  using assms by (auto simp: on_steps_def split: prod.splits)

text \<open>
  The state after reads: the visible sessions are as before, and nothing else has changed.
\<close>

definition same_view ::
  "('d \<Rightarrow> string \<Rightarrow> SessionProgress option) \<Rightarrow> ('d \<Rightarrow> bool) \<Rightarrow> ('d, 'p, 'x) app \<Rightarrow> ('d, 'p, 'x) app \<Rightarrow> bool" where
  "same_view view ok a b \<longleftrightarrow> store_inv view ok (a_steps b) \<and> store_abs view (a_steps b) = store_abs view (a_steps a)
     \<and> a_events b = a_events a \<and> a_prov b = a_prov a \<and> a_ext b = a_ext a"

lemma same_view_trans: "same_view view ok a b \<Longrightarrow> same_view view ok b c \<Longrightarrow> same_view view ok a c"
  by (simp add: same_view_def)

lemma same_view_steps:
  "store_inv view ok st \<Longrightarrow> store_abs view st = store_abs view (a_steps a) \<Longrightarrow> same_view view ok a (a\<lparr>a_steps := st\<rparr>)"
  by (simp add: same_view_def)

lemma read_cached:
  assumes "withSession db now sid (\<lambda>ss. (g ss, False, ss)) st = (Some y, st')"
  shows "\<exists>ss. st_m st' sid = Some ss \<and> y = g ss"
proof -
  obtain x st1 where lm: "load_on_miss db sid st = (x, st1)" by (cases "load_on_miss db sid st")
  with assms show ?thesis
    by (auto simp: withSession_def lock_phase_def save_phase_def split: option.splits prod.splits)
qed

lemma read_hit:
  "st_m st sid = Some ss \<Longrightarrow> withSession db now sid (\<lambda>ss. (g ss, False, ss)) st = (Some (g ss), st)"
  by (simp add: withSession_def lock_phase_def load_on_miss_def save_phase_def map_upd_triv split: option.split)

context progress_persistence
begin

text \<open>A read sees the session or reports it missing, and changes nothing that can be seen.\<close>

lemma read_spec:
  assumes "store_inv view ok st"
    and "withSession (Some P) now sid (\<lambda>ss. (g ss, False, ss)) st = (r, st')"
  shows "store_inv view ok st'" and "store_abs view st' = store_abs view st"
    and "r = Some x \<Longrightarrow> \<exists>ss. store_abs view st sid = Some ss \<and> x = g ss"
proof -
  have "store_inv view ok st' \<and> store_abs view st' = store_abs view st
    \<and> (\<forall>x. r = Some x \<longrightarrow> (\<exists>ss. store_abs view st sid = Some ss \<and> x = g ss))"
  proof (cases r)
    case None
    then show ?thesis using withSession_missing(1,2) [OF assms(1)] assms(2) by auto
  next
    case (Some y)
    have w: "withSession (Some P) now sid (\<lambda>ss. (g ss, False, ss)) st = (Some y, st')" using assms(2) Some by simp
    obtain ss dirty ss' where "store_abs view st sid = Some ss" "(g ss, False, ss) = (y, dirty, ss')"
      "store_abs view st' = (store_abs view st)(sid \<mapsto> ss')" "store_inv view ok st'"
      by (rule withSession_found [OF assms(1) read_well_behaved w])
    then show ?thesis using Some by (auto simp: map_upd_triv)
  qed
  then show "store_inv view ok st'" and "store_abs view st' = store_abs view st"
    and "r = Some x \<Longrightarrow> \<exists>ss. store_abs view st sid = Some ss \<and> x = g ss" by blast+
qed

lemma on_read_view:
  assumes "h_db h = Some P" and "store_inv view ok (a_steps a)"
    and "on_steps (withSession (h_db h) now sid (\<lambda>ss. (g ss, False, ss))) a = (r, a')"
  shows "same_view view ok a a'"
  using assms read_spec(1,2) [OF assms(2), of now sid g] by (auto elim!: on_stepsE intro!: same_view_steps)

lemma guarded_spec:
  assumes "h_db h = Some P" and "store_inv view ok (a_steps a)"
    and "guarded h now uid sid k a = (r, a')"
  obtains (denied) "r = not_found" and "same_view view ok a a'"
    | (granted) b ss where "k b = (r, a')" and "same_view view ok a b" and "store_abs view (a_steps a) sid = Some ss"
        and "uid = [] \<or> ss_user_id ss = [] \<or> uid = ss_user_id ss"
proof -
  obtain o1 a1 where o1: "on_steps (storeOwner (h_db h) now sid) a = (o1, a1)"
    by (cases "on_steps (storeOwner (h_db h) now sid) a")
  then obtain st1 where st1: "withSession (Some P) now sid (\<lambda>ss. (ss_user_id ss, False, ss)) (a_steps a) = (o1, st1)"
    and a1: "a1 = a\<lparr>a_steps := st1\<rparr>" using assms(1) by (auto simp: storeOwner_def elim!: on_stepsE)
  have v1: "same_view view ok a a1"
    using on_read_view [OF assms(1,2), of now sid ss_user_id o1 a1] o1 by (simp add: storeOwner_def on_steps_def)
  show thesis
  proof (cases o1)
    case None
    then show ?thesis
      using assms(1,3) o1 v1 denied by (auto simp: guarded_def ensureStepSession_def)
  next
    case (Some x1)
    obtain ss where abs: "store_abs view (a_steps a) sid = Some ss" "x1 = ss_user_id ss"
      using read_spec(3) [OF assms(2) st1 Some] by blast
    obtain ss1 where m: "st_m st1 sid = Some ss1" "x1 = ss_user_id ss1"
      using read_cached [of "Some P" now sid ss_user_id "a_steps a" x1 st1] st1 Some by auto
    have "on_steps (storeOwner (h_db h) now sid) a1 = (Some x1, a1)"
      using read_hit [OF m(1), of "h_db h" now ss_user_id] m(2) a1 by (simp add: on_steps_def storeOwner_def)
    then have g: "(r, a') = (case denyIfNotOwner uid x1 of Some resp \<Rightarrow> (resp, a1) | None \<Rightarrow> k a1)"
      using assms(1,3) o1 Some by (auto simp: guarded_def ensureStepSession_def denyIfNotStoreOwner_def)
    show ?thesis
    proof (cases "denyIfNotOwner uid x1")
      case None
      with g have "k a1 = (r, a')" by simp
      moreover have "uid = [] \<or> ss_user_id ss = [] \<or> uid = ss_user_id ss"
        using None abs(2) by (auto simp: denyIfNotOwner_def split: if_splits)
      ultimately show ?thesis using granted v1 abs(1) by blast
    next
      case (Some resp)
      then have "resp = not_found" by (auto simp: denyIfNotOwner_def split: if_splits)
      with Some g v1 denied show ?thesis by simp
    qed
  qed
qed

lemma find_spec:
  assumes "h_db h = Some P" and "store_inv view ok (a_steps a)"
    and "on_steps (findValidatableStepIndex (h_db h) now sid k) a = (r, a')"
  shows "same_view view ok a a'"
    and "r = Inr idx \<Longrightarrow> store_abs view (a_steps a) sid = Some ss \<Longrightarrow>
      \<exists>i. step_at k ss = Some i \<and> idx = int i \<and> (\<forall>j<i. step_status (ss_steps ss ! j) = ''passed'')"
proof -
  let ?g = "\<lambda>ss. (step_at k ss, case step_at k ss of None \<Rightarrow> False | Some i \<Rightarrow> blocked_loop i (ss_steps ss))"
  have fn: "validatable_fn k = (\<lambda>ss. (?g ss, False, ss))" by (simp add: validatable_fn_def [abs_def] Let_def)
  obtain st where f: "findValidatableStepIndex (h_db h) now sid k (a_steps a) = (r, st)" and a': "a' = a\<lparr>a_steps := st\<rparr>"
    using assms(3) by (rule on_stepsE)
  obtain x where x: "withSession (Some P) now sid (\<lambda>ss. (?g ss, False, ss)) (a_steps a) = (x, st)"
    and r: "r = (case x of None \<Rightarrow> Inl errStepSessionNotFound
       | Some (None, blocked) \<Rightarrow> Inl errStepNotFound
       | Some (Some i, blocked) \<Rightarrow> if blocked then Inl errStepOrderBlocked else Inr (int i))"
    using f assms(1) by (auto simp: findValidatableStepIndex_def fn split: prod.splits)
  note s = read_spec [OF assms(2) x]
  show "same_view view ok a a'" using s(1,2) a' by (simp add: same_view_steps)
  show "\<exists>i. step_at k ss = Some i \<and> idx = int i \<and> (\<forall>j<i. step_status (ss_steps ss ! j) = ''passed'')"
    if "r = Inr idx" and "store_abs view (a_steps a) sid = Some ss"
  proof -
    from that(1) r obtain i where i: "x = Some (Some i, False)" "idx = int i"
      by (auto split: option.splits prod.splits if_splits)
    have g: "?g ss = (Some i, False)" using s(3) [OF i(1)] that(2) by auto
    then have at: "step_at k ss = Some i" and nb: "\<not> blocked_loop i (ss_steps ss)" by auto
    have "i < length (ss_steps ss)" using at find_index_SomeD by (auto simp: step_at_def)
    with nb blocked_loop_iff [of i "ss_steps ss"] at i(2) show ?thesis by auto
  qed
qed

end

text \<open>What the guards and the order check come to for a session in the cache.\<close>

lemma guarded_cached:
  assumes "st_m (a_steps a) sid = Some ss" and "uid = ss_user_id ss"
  shows "guarded h now uid sid k a = k a"
  using read_hit [OF assms(1), of "h_db h" now ss_user_id] assms(2)
  by (simp add: guarded_def ensureStepSession_def denyIfNotStoreOwner_def on_steps_def storeOwner_def denyIfNotOwner_def)

lemma find_cached:
  assumes "st_m (a_steps a) sid = Some ss" and "step_at k ss = Some i" and "\<not> blocked_loop i (ss_steps ss)"
  shows "on_steps (findValidatableStepIndex db now sid k) a = (Inr (int i), a)"
proof -
  let ?g = "\<lambda>ss. (step_at k ss, case step_at k ss of None \<Rightarrow> False | Some i \<Rightarrow> blocked_loop i (ss_steps ss))"
  have "validatable_fn k = (\<lambda>ss. (?g ss, False, ss))" by (simp add: validatable_fn_def [abs_def] Let_def)
  with read_hit [OF assms(1), of db now ?g] assms(2,3) show ?thesis
    by (simp add: on_steps_def findValidatableStepIndex_def)
qed

lemma demo_progress_cached: "st_m (a_steps demo_progress) ''s1'' = Some (init_session ''lab-linux-basics'' ''u'' [1, 2])"
  using demo_put [of 0 "''s1''" "init_session ''lab-linux-basics'' ''u'' [1, 2]"]
  by (auto simp: demo_progress_def put_def split: prod.splits option.splits)

lemma demo_validate:
  "fst (ValidateStep (demo_handler (\<lambda>_. Healthy)) 0 tr tp ''s1'' (Inr 1) ''u'' demo_progress) = mock_passed"
proof -
  let ?ss = "init_session ''lab-linux-basics'' ''u'' [1, 2]"
  have f: "step_at 1 ?ss = Some 0" "\<not> blocked_loop 0 (ss_steps ?ss)" "''u'' = ss_user_id ?ss"
    by (simp_all add: step_at_def init_session_def)
  show ?thesis
    by (simp add: ValidateStep_def guarded_cached [OF demo_progress_cached f(3)] find_cached [OF demo_progress_cached f(1,2)])
      (simp add: demo_handler_def mock_validate_def split: prod.split)
qed

section \<open>Who may validate what\<close>

context progress_persistence
begin

lemma ValidateStep_cases:
  assumes "h_db h = Some P" and "store_inv view ok (a_steps a)"
    and "ValidateStep h now tr tp sid req uid a = (r, a')"
  obtains (refused) "resp_status r \<in> {400, 404, 409}" and "same_view view ok a a'"
    | (allowed) k ss i b where "req = Inr k" and "1 \<le> k" and "store_abs view (a_steps a) sid = Some ss"
        and "uid = [] \<or> ss_user_id ss = [] \<or> uid = ss_user_id ss" and "step_at k ss = Some i"
        and "\<forall>j<i. step_status (ss_steps ss ! j) = ''passed''" and "same_view view ok a b"
        and "(r, a') = (case h_validator h of None \<Rightarrow> mock_validate h now sid (int i) b
               | Some pub \<Rightarrow> engine_validate h pub now tr tp sid k (int i) b)"
proof (cases "\<exists>k. req = Inr k \<and> 1 \<le> k")
  case False
  then have "r = err_resp 400 ''step_id is required''" "a' = a"
    using assms(3) by (auto simp: ValidateStep_def split: sum.splits if_splits)
  with refused assms(2) show ?thesis by (simp add: same_view_def)
next
  case True
  then obtain k where k: "req = Inr k" "1 \<le> k" by blast
  define cont where "cont = (\<lambda>a. (let (r, a1) = on_steps (findValidatableStepIndex (h_db h) now sid k) a in
             case r of
               Inl errStepSessionNotFound \<Rightarrow> (not_found, a1)
             | Inl errStepNotFound \<Rightarrow> (err_resp 404 ''step not found'', a1)
             | Inl errStepOrderBlocked \<Rightarrow>
                 (err_resp 409 ''previous step must be passed before validating this step'', a1)
             | Inr idx \<Rightarrow>
                 (case h_validator h of
                    None \<Rightarrow> mock_validate h now sid idx a1
                  | Some pub \<Rightarrow> engine_validate h pub now tr tp sid k idx a1)))"
  have "guarded h now uid sid cont a = (r, a')"
    using assms(3) k by (simp add: ValidateStep_def cont_def)
  then show ?thesis
  proof (rule guarded_spec [OF assms(1,2)])
    assume "r = not_found" and "same_view view ok a a'"
    then show ?thesis using refused by (simp add: not_found_def)
  next
    fix b ss
    assume c: "cont b = (r, a')" and v: "same_view view ok a b" and ss: "store_abs view (a_steps a) sid = Some ss"
      and own: "uid = [] \<or> ss_user_id ss = [] \<or> uid = ss_user_id ss"
    obtain x b1 where x: "on_steps (findValidatableStepIndex (h_db h) now sid k) b = (x, b1)"
      by (cases "on_steps (findValidatableStepIndex (h_db h) now sid k) b")
    have inv: "store_inv view ok (a_steps b)" "store_abs view (a_steps b) sid = Some ss"
      using v ss by (simp_all add: same_view_def)
    have v1: "same_view view ok a b1" using find_spec(1) [OF assms(1) inv(1) x] v same_view_trans by blast
    show ?thesis
    proof (cases x)
      case (Inl e)
      then show ?thesis using c x v1 refused by (cases e) (auto simp: cont_def not_found_def)
    next
      case (Inr idx)
      obtain i where i: "step_at k ss = Some i" "idx = int i" "\<forall>j<i. step_status (ss_steps ss ! j) = ''passed''"
        using find_spec(2) [OF assms(1) inv(1) x Inr inv(2)] by blast
      have "(r, a') = (case h_validator h of None \<Rightarrow> mock_validate h now sid (int i) b1
               | Some pub \<Rightarrow> engine_validate h pub now tr tp sid k (int i) b1)"
        using c x Inr i(2) by (simp add: cont_def)
      from allowed [OF k ss own i(1,3) v1 this] show ?thesis .
    qed
  qed
qed

lemma guarded_foreign:
  assumes "h_db h = Some P" and "store_inv view ok (a_steps a)" and "store_abs view (a_steps a) sid = Some ss"
    and "uid \<noteq> []" and "ss_user_id ss \<noteq> []" and "uid \<noteq> ss_user_id ss"
  shows "fst (guarded h now uid sid k a) = not_found \<and> same_view view ok a (snd (guarded h now uid sid k a))"
proof -
  obtain r a' where g: "guarded h now uid sid k a = (r, a')" by (cases "guarded h now uid sid k a")
  then show ?thesis
    by (rule guarded_spec [OF assms(1,2)]) (use g assms(3-6) in auto)
qed

end

text \<open>
  C10. A validation is accepted (or mock-passed) only for a stored session, a step of it all of whose
  earlier steps have passed, and a user who owns the session or a session without an owner, whatever
  the database does and whatever the client sends.
\<close>

theorem validate_step_guarded:
  assumes "h_db h = Some (store_persistence fs)" and "store_inv db_view db_ok (a_steps a)"
    and "ValidateStep h now tr tp sid req uid a = (r, a')" and "resp_status r \<in> {200, 202}"
  shows "\<exists>k ss i. req = Inr k \<and> 1 \<le> k \<and> store_abs db_view (a_steps a) sid = Some ss
    \<and> step_at k ss = Some i \<and> (\<forall>j<i. step_status (ss_steps ss ! j) = ''passed'')
    \<and> (uid = [] \<or> ss_user_id ss = [] \<or> uid = ss_user_id ss)"
  by (rule pgdb.ValidateStep_cases [OF assms(1-3)]) (use assms(4) in auto)

theorem validate_step_guarded_witness:
  "\<exists>ss i. store_abs db_view (a_steps demo_progress) ''s1'' = Some ss \<and> step_at 1 ss = Some i
     \<and> (\<forall>j<i. step_status (ss_steps ss ! j) = ''passed'') \<and> ss_user_id ss = ''u''"
proof -
  let ?h = "demo_handler (\<lambda>_. Healthy)"
  obtain r a' where v: "ValidateStep ?h 0 [] [] ''s1'' (Inr 1) ''u'' demo_progress = (r, a')"
    by (cases "ValidateStep ?h 0 [] [] ''s1'' (Inr 1) ''u'' demo_progress")
  have "resp_status r \<in> {200, 202}" using demo_validate [of "[]" "[]"] v by (simp add: mock_passed_def)
  from validate_step_guarded [OF _ demo_progress_spec(1) v this, of "\<lambda>_. Healthy"] show ?thesis
    using demo_progress_spec(3) by (auto simp: demo_handler_def init_session_def)
qed

text \<open>
  C13. Fail closed: in release mode without a validation engine no request passes a step, none
  changes any session, and none publishes an event.
\<close>

theorem validate_release_fails_closed:
  assumes "h_db h = Some (store_persistence fs)" and "store_inv db_view db_ok (a_steps a)"
    and "h_validator h = None" and "h_mode h = Some ''release''"
    and "ValidateStep h now tr tp sid req uid a = (r, a')"
  shows "resp_status r \<in> {400, 404, 409, 503} \<and> store_abs db_view (a_steps a') = store_abs db_view (a_steps a)
    \<and> a_events a' = a_events a"
  by (rule pgdb.ValidateStep_cases [OF assms(1,2,5)])
    (use assms(3,4) in \<open>auto simp: mock_validate_def same_view_def\<close>)

theorem validate_release_fails_closed_witness:
  "store_abs db_view (a_steps (snd (ValidateStep ((demo_handler (\<lambda>_. Healthy))\<lparr>h_mode := Some ''release''\<rparr>) 0 [] []
       ''s1'' (Inr 1) ''u'' demo_progress))) ''s1'' = Some (init_session ''lab-linux-basics'' ''u'' [1, 2])"
proof -
  let ?h = "(demo_handler (\<lambda>_. Healthy))\<lparr>h_mode := Some ''release''\<rparr>"
  have "h_db ?h = Some (store_persistence (\<lambda>_. Healthy))" "h_validator ?h = None" "h_mode ?h = Some ''release''"
    by (simp_all add: demo_handler_def)
  from validate_release_fails_closed [OF this(1) demo_progress_spec(1) this(2,3) surjective_pairing]
  show ?thesis using demo_progress_spec(3) by simp
qed

text \<open>
  The steps of a session are hidden from other users: for a user who is not the owner, reading
  the steps, validating one and asking for a hint all answer like a missing session and change
  nothing that can be seen.
\<close>

theorem steps_hidden_from_others:
  assumes "h_db h = Some (store_persistence fs)" and "store_inv db_view db_ok (a_steps a)"
    and "store_abs db_view (a_steps a) sid = Some ss"
    and "uid \<noteq> []" and "ss_user_id ss \<noteq> []" and "uid \<noteq> ss_user_id ss" and "1 \<le> k" and "hint_body_ok b"
  shows "fst (GetSessionSteps h now sid uid a) = not_found
    \<and> fst (ValidateStep h now tr tp sid (Inr k) uid a) = not_found
    \<and> fst (RequestHint h now sid (Inr b) uid org a) = not_found
    \<and> same_view db_view db_ok a (snd (GetSessionSteps h now sid uid a))
    \<and> same_view db_view db_ok a (snd (ValidateStep h now tr tp sid (Inr k) uid a))
    \<and> same_view db_view db_ok a (snd (RequestHint h now sid (Inr b) uid org a))"
  using pgdb.guarded_foreign [OF assms(1-6)] assms(7,8)
  by (simp add: GetSessionSteps_def ValidateStep_def RequestHint_def)


theorem steps_hidden_from_others_witness:
  "fst (ValidateStep (demo_handler (\<lambda>_. Healthy)) 0 [] [] ''s1'' (Inr 1) ''v'' demo_progress) = not_found"
proof -
  have h: "h_db (demo_handler (\<lambda>_. Healthy)) = Some (store_persistence (\<lambda>_. Healthy))" by (simp add: demo_handler_def)
  show ?thesis
    using steps_hidden_from_others [OF h demo_progress_spec(1,3), of "''v''" 1
        "\<lparr>hb_step_id = 1, hb_level = 0, hb_terminal_tail = []\<rparr>"]
    by (simp add: init_session_def hint_body_ok_def)
qed


section \<open>Redelivered results\<close>

lemma modify_step_triv: "f (ss_steps ss ! i) = ss_steps ss ! i \<Longrightarrow> modify_step i f ss = ss"
  by (cases "i < length (ss_steps ss)") (simp_all add: modify_step_def list_update_same_conv list_update_beyond)

lemma modify_step_at:
  "i < length (ss_steps ss) \<Longrightarrow> ss_steps (modify_step i f ss) ! i = f (ss_steps ss ! i)"
  "i \<noteq> j \<Longrightarrow> ss_steps (modify_step j f ss) ! i = ss_steps ss ! i"
  by (simp_all add: modify_step_def)

lemma open_next_at: "ss_steps (open_next i ss) ! i = ss_steps ss ! i"
  by (simp add: open_next_def modify_step_at)

lemma open_next_again: "open_next i (open_next i ss) = open_next i ss"
proof (cases "i + 1 < length (ss_steps ss)")
  case True
  let ?f = "\<lambda>s. if step_status s = ''pending'' then s\<lparr>step_status := ''active''\<rparr> else s"
  define ss' where "ss' = open_next i ss"
  have at: "ss_steps ss' ! (i + 1) = ?f (ss_steps ss ! (i + 1))"
    using True by (simp add: ss'_def open_next_def modify_step_at)
  then have "modify_step (i + 1) ?f ss' = ss'" by (intro modify_step_triv) simp
  moreover have "length (ss_steps ss') = length (ss_steps ss)" by (simp add: ss'_def open_next_def)
  moreover have "ss_current_step ss' = step_id (ss_steps ss' ! (i + 1))"
    using True at by (simp add: ss'_def open_next_def)
  ultimately have "open_next i ss' = ss'" using True by (simp add: open_next_def)
  then show ?thesis by (simp add: ss'_def)
qed (simp add: open_next_def)

text \<open>Applying a result to the session it has been applied to gives the same session and the same events.\<close>

lemma apply_result_again:
  assumes "apply_result_fn r ss = (x, dirty, ss')"
  shows "apply_result_fn r ss' = (x, dirty, ss')"
proof (cases "step_at (vr_step_id r) ss")
  case None
  then show ?thesis using assms by (simp add: apply_result_fn_def)
next
  case (Some i)
  have sh: "same_shape ss ss'" using well_behavedD(1) [OF apply_result_well_behaved assms] .
  have i: "i < length (ss_steps ss)" using Some find_index_SomeD by (auto simp: step_at_def)
  have at: "step_at (vr_step_id r) ss' = Some i"
    using Some sh find_index_cong_map [of step_id "ss_steps ss'" "ss_steps ss" "vr_step_id r"]
    by (simp add: step_at_def same_shape_def)
  let ?st = "if vr_passed r then ''passed'' else ''failed''"
  define ss1 where "ss1 = modify_step i (\<lambda>s. s\<lparr>step_status := ?st\<rparr>) (modify_step i (\<lambda>s. s\<lparr>step_checks := result_outcomes r\<rparr>) ss)"
  have ss': "ss' = (if vr_passed r then open_next i ss1 else ss1)"
    using assms Some by (auto simp: apply_result_fn_def Let_def ss1_def split: if_splits)
  have s1: "ss_steps ss1 ! i = (ss_steps ss ! i)\<lparr>step_checks := result_outcomes r, step_status := ?st\<rparr>"
    using i by (simp add: ss1_def modify_step_at)
  then have s': "ss_steps ss' ! i = (ss_steps ss ! i)\<lparr>step_checks := result_outcomes r, step_status := ?st\<rparr>"
    by (simp add: ss' open_next_at)
  have "modify_step i (\<lambda>s. s\<lparr>step_checks := result_outcomes r\<rparr>) ss' = ss'"
    "modify_step i (\<lambda>s. s\<lparr>step_status := ?st\<rparr>) ss' = ss'"
    by (rule modify_step_triv, simp add: s')+
  moreover have "vr_passed r \<Longrightarrow> open_next i ss' = ss'" by (simp add: ss' open_next_again)
  moreover have "ss_user_id ss' = ss_user_id ss" "ss_lab_id ss' = ss_lab_id ss" using sh by (simp_all add: same_shape_def)
  ultimately show ?thesis
    using assms at Some
    by (auto simp: apply_result_fn_def Let_def ss1_def [symmetric] ss' split: if_splits)
qed


lemma fold_emit:
  "fold (emit h now) evs a = a\<lparr>a_events := a_events a @ (if h_events h then map (\<lambda>e. e\<lparr>ev_timestamp := now\<rparr>) evs else [])\<rparr>"
  by (induction evs arbitrary: a) (simp_all add: emit_def emitEvent_def)

lemma recordLabCompletion_fields [simp]:
  "a_events (recordLabCompletion h now sid uid lab a) = a_events a"
  "st_m (a_steps (recordLabCompletion h now sid uid lab a)) = st_m (a_steps a)"
  by (simp_all add: recordLabCompletion_def on_db_def split: option.split prod.split)

text \<open>The events a result calls for, given the session before it.\<close>

definition result_events ::
  "('d, 'p, 'x) handler \<Rightarrow> go_time \<Rightarrow> ValidationResult \<Rightarrow> (string \<Rightarrow> sessionSteps option) \<Rightarrow> Event list" where
  "result_events h now r A =
     (case A (vr_session_id r) of
        None \<Rightarrow> []
      | Some ss \<Rightarrow>
          if h_events h then map (\<lambda>e. e\<lparr>ev_timestamp := now\<rparr>) (fst (fst (apply_result_fn r ss))) else [])"

context progress_persistence
begin

lemma record_view:
  assumes "h_db h = Some P" and "store_inv view ok (a_steps a)"
  shows "store_inv view ok (a_steps (recordLabCompletion h now sid uid lab a))
    \<and> store_abs view (a_steps (recordLabCompletion h now sid uid lab a)) = store_abs view (a_steps a)
    \<and> (coherent view (a_steps a) \<longrightarrow> coherent view (a_steps (recordLabCompletion h now sid uid lab a)))"
proof -
  have okd: "ok (st_d (a_steps a))" using assms(2) by (simp add: store_inv_def)
  show ?thesis
    using assms completion_frame [OF okd, of now uid lab sid]
    by (auto simp: recordLabCompletion_def on_db_def store_inv_def store_abs_def coherent_def fun_eq_iff
        split: prod.splits option.splits)
qed

end

context healthy_persistence
begin

lemma ApplyValidationResult_spec:
  assumes "h_db h = Some P" and "store_inv view ok (a_steps a)" and "coherent view (a_steps a)"
  shows "store_inv view ok (a_steps (ApplyValidationResult h now r a))
    \<and> coherent view (a_steps (ApplyValidationResult h now r a))
    \<and> store_abs view (a_steps (ApplyValidationResult h now r a))
        = snd (spec_with (vr_session_id r) (apply_result_fn r) (store_abs view (a_steps a)))
    \<and> a_events (ApplyValidationResult h now r a) = a_events a @ result_events h now r (store_abs view (a_steps a))"
proof -
  let ?sid = "vr_session_id r"
  define a1 where "a1 = (case h_redis_getdel h of None \<Rightarrow> a
     | Some getdel \<Rightarrow> if vr_trace_id r \<noteq> [] then a\<lparr>a_ext := getdel (validation_start_key (vr_trace_id r)) (a_ext a)\<rparr> else a)"
  have a1: "a_steps a1 = a_steps a" "a_events a1 = a_events a"
    by (simp_all add: a1_def split: option.split)
  obtain x st where w: "withSession (Some P) now ?sid (apply_result_fn r) (a_steps a) = (x, st)"
    by (cases "withSession (Some P) now ?sid (apply_result_fn r) (a_steps a)")
  have ap: "ApplyValidationResult h now r a = (case x of None \<Rightarrow> a1\<lparr>a_steps := st\<rparr>
     | Some (evs, uid, lab) \<Rightarrow> recordLabCompletion h now ?sid uid lab (fold (emit h now) evs (a1\<lparr>a_steps := st\<rparr>)))"
    using w assms(1) a1(1) by (simp add: ApplyValidationResult_def a1_def [symmetric] on_steps_def)
  have s: "spec_with ?sid (apply_result_fn r) (store_abs view (a_steps a)) = (x, store_abs view st)"
    by (rule with_spec [OF assms(2,3) apply_result_well_behaved w])
  have k: "store_inv view ok st" "coherent view st"
    using with_keeps [OF assms(2,3) apply_result_well_behaved, of now ?sid r] w by simp_all
  show ?thesis
  proof (cases x)
    case None
    with ap s k a1 show ?thesis by (auto simp: spec_with_def result_events_def split: option.splits)
  next
    case (Some y)
    obtain evs uid lab where y: "y = (evs, uid, lab)" by (cases y)
    obtain ss where ss: "store_abs view (a_steps a) ?sid = Some ss" "fst (apply_result_fn r ss) = (evs, uid, lab)"
      using s Some y by (auto simp: spec_with_def split: option.splits)
    let ?b = "fold (emit h now) evs (a1\<lparr>a_steps := st\<rparr>)"
    have b: "a_steps ?b = st" "a_events ?b = a_events a @ result_events h now r (store_abs view (a_steps a))"
      using ss a1(2) by (simp_all add: fold_emit result_events_def)
    from record_view [OF assms(1), of ?b now ?sid uid lab] show ?thesis
      using ap Some y k s b by simp
  qed
qed

end


lemma spec_with_again:
  assumes "spec_with sid (apply_result_fn r) A = (x, A')"
  shows "spec_with sid (apply_result_fn r) A' = (x, A')"
proof (cases "A sid")
  case None
  then show ?thesis using assms by (simp add: spec_with_def)
next
  case (Some ss)
  obtain y dirty ss' where ap: "apply_result_fn r ss = (y, dirty, ss')" by (cases "apply_result_fn r ss")
  then have "A' = A(sid \<mapsto> ss')" "x = Some y" using assms Some by (auto simp: spec_with_def)
  with apply_result_again [OF ap] show ?thesis by (simp add: spec_with_def)
qed

text \<open>The rows of completed labs: only \<open>RecordCompletion\<close> writes them, and it never changes one.\<close>

abbreviation completions :: "(db, 'p, 'x) app \<Rightarrow> completion_row list" where
  "completions a \<equiv> lab_completions (tbls (st_d (a_steps a)))"

lemma with_completions:
  "lab_completions (tbls (st_d (snd (withSession (Some (store_persistence fs)) now sid fn st)))) = lab_completions (tbls (st_d st))"
proof -
  have save: "lab_completions (tbls (snd (p_SaveProgress (store_persistence fs) now sid p d))) = lab_completions (tbls d)" for p d
    using SaveProgress_snd [of "fs (calls d)" now sid p "tbls d"]
    by (auto simp: store_persistence_def writes_def saved_def save_header_def split: prod.split)
  obtain x st1 where lm: "load_on_miss (Some (store_persistence fs)) sid st = (x, st1)"
    by (cases "load_on_miss (Some (store_persistence fs)) sid st")
  then have "lab_completions (tbls (st_d st1)) = lab_completions (tbls (st_d st))"
    by (auto simp: load_on_miss_def store_persistence_def reads_def split: option.splits sum.splits)
  with lm save show ?thesis
    by (auto simp: withSession_def lock_phase_def save_phase_def split: option.split prod.split)
qed

lemma upsert_keep: "row_find key (key new) rows \<noteq> None \<Longrightarrow> row_upsert key new (\<lambda>r. r) rows = rows"
  by (induction rows) (auto simp: row_find_def split: if_splits)

lemma upsert_found: "row_find key (key new) (row_upsert key new (\<lambda>r. r) rows) \<noteq> None"
  by (induction rows) (auto simp: row_find_def)

definition completion_of :: "go_time \<Rightarrow> string \<Rightarrow> string \<Rightarrow> string \<Rightarrow> completion_row" where
  "completion_of now uid lab sid = \<lparr>c_lab_id = lab, c_session_id = sid, c_completed_at = pg_time now, c_user_id = uid\<rparr>"

lemma record_completions:
  assumes "h_db h = Some (store_persistence (\<lambda>_. Healthy))"
  shows "completions (recordLabCompletion h now sid uid lab a)
    = (if lab = [] \<or> uid = [] then completions a
       else row_upsert completion_key (completion_of now uid lab sid) (\<lambda>r. r) (completions a))"
  using assms
  by (simp add: recordLabCompletion_def on_db_def store_persistence_def writes_def RecordCompletion_def completion_of_def
      split: prod.split)

lemma apply_completions:
  assumes "h_db h = Some (store_persistence (\<lambda>_. Healthy))"
  shows "completions (ApplyValidationResult h now r a)
    = (case fst (withSession (h_db h) now (vr_session_id r) (apply_result_fn r) (a_steps a)) of
         None \<Rightarrow> completions a
       | Some (evs, uid, lab) \<Rightarrow> if lab = [] \<or> uid = [] then completions a
           else row_upsert completion_key (completion_of now uid lab (vr_session_id r)) (\<lambda>r. r) (completions a))"
  using with_completions [of "\<lambda>_. Healthy" now "vr_session_id r" "apply_result_fn r" "a_steps a"] assms
  by (auto simp: ApplyValidationResult_def on_steps_def record_completions fold_emit split: option.split prod.split)

lemma completion_upsert_again:
  "row_upsert completion_key (completion_of now' uid lab sid) (\<lambda>r. r)
     (row_upsert completion_key (completion_of now uid lab sid) (\<lambda>r. r) rows)
   = row_upsert completion_key (completion_of now uid lab sid) (\<lambda>r. r) rows"
proof (rule upsert_keep)
  have "completion_key (completion_of now' uid lab sid) = completion_key (completion_of now uid lab sid)"
    by (simp add: completion_of_def)
  with upsert_found [of completion_key "completion_of now uid lab sid" rows]
  show "row_find completion_key (completion_key (completion_of now' uid lab sid))
     (row_upsert completion_key (completion_of now uid lab sid) (\<lambda>r. r) rows) \<noteq> None" by simp
qed

text \<open>
  C15. A validation result that is delivered again (Kafka delivers at least once) changes no
  session and no completion record; but its events, the completion of the lab included, are
  published again, although the code documents one completion event per session.
\<close>

theorem redelivered_result_idempotent:
  assumes "h_db h = Some (store_persistence (\<lambda>_. Healthy))" and "store_inv db_view db_ok (a_steps a)"
    and "coherent db_view (a_steps a)"
  shows "store_abs db_view (a_steps (ApplyValidationResult h now' r (ApplyValidationResult h now r a)))
        = store_abs db_view (a_steps (ApplyValidationResult h now r a))
    \<and> completions (ApplyValidationResult h now' r (ApplyValidationResult h now r a))
        = completions (ApplyValidationResult h now r a)
    \<and> a_events (ApplyValidationResult h now' r (ApplyValidationResult h now r a))
        = a_events (ApplyValidationResult h now r a) @ result_events h now' r (store_abs db_view (a_steps a))"
proof -
  let ?a1 = "ApplyValidationResult h now r a" and ?sid = "vr_session_id r"
  define A where "A = store_abs db_view (a_steps a)"
  obtain x A' where s: "spec_with ?sid (apply_result_fn r) A = (x, A')" by (cases "spec_with ?sid (apply_result_fn r) A")
  note s' = spec_with_again [OF s]
  have f: "store_inv db_view db_ok (a_steps ?a1)" "coherent db_view (a_steps ?a1)" "store_abs db_view (a_steps ?a1) = A'"
    using healthy_pgdb.ApplyValidationResult_spec [OF assms, of now r] s by (simp_all add: A_def)
  have x: "fst (withSession (h_db h) now ?sid (apply_result_fn r) (a_steps a)) = x"
    using healthy_pgdb.with_spec [OF assms(2,3) apply_result_well_behaved surjective_pairing, of ?sid r now] s assms(1)
    by (simp add: A_def)
  have x': "fst (withSession (h_db h) now' ?sid (apply_result_fn r) (a_steps ?a1)) = x"
    using healthy_pgdb.with_spec [OF f(1,2) apply_result_well_behaved surjective_pairing, of ?sid r now'] s' f(3) assms(1)
    by simp
  have ev: "result_events h now' r A' = result_events h now' r A"
    using s s' by (auto simp: result_events_def spec_with_def split: option.splits)
  have "store_abs db_view (a_steps (ApplyValidationResult h now' r ?a1)) = A'"
    "a_events (ApplyValidationResult h now' r ?a1) = a_events ?a1 @ result_events h now' r A'"
    using healthy_pgdb.ApplyValidationResult_spec [OF assms(1) f(1,2), of now' r] s' f(3) by simp_all
  moreover have "completions (ApplyValidationResult h now' r ?a1) = completions ?a1"
    unfolding apply_completions [OF assms(1), of now' r ?a1] x'
    using apply_completions [OF assms(1), of now r a] x
    by (auto simp: completion_upsert_again split: option.split)
  ultimately show ?thesis using f(3) ev by (simp add: A_def)
qed


definition pass_result :: ValidationResult where
  "pass_result = \<lparr>vr_trace_id = ''t'', vr_session_id = ''s1'', vr_step_id = 1, vr_passed = True,
     vr_checks = [], vr_duration_ms = 5\<rparr>"

theorem redelivered_result_idempotent_witness:
  "map ev_type (a_events (ApplyValidationResult (demo_handler (\<lambda>_. Healthy)) 2 pass_result
     (ApplyValidationResult (demo_handler (\<lambda>_. Healthy)) 1 pass_result demo_progress)))
   = [StepCompleted, StepCompleted]"
proof -
  let ?h = "demo_handler (\<lambda>_. Healthy)"
  have h: "h_db ?h = Some (store_persistence (\<lambda>_. Healthy))" by (simp add: demo_handler_def)
  have e: "map ev_type (result_events ?h now pass_result (store_abs db_view (a_steps demo_progress))) = [StepCompleted]" for now
    using demo_progress_spec(3)
    by (simp add: result_events_def pass_result_def)
      (simp add: demo_handler_def apply_result_fn_def step_at_def init_session_def modify_step_def open_next_def
        allPassed_def mk_event_def)
  have a: "a_events demo_progress = []" by (simp add: demo_progress_def demo_app_def)
  show ?thesis
    using redelivered_result_idempotent [OF h demo_progress_spec(1,2), of 2 pass_result 1]
      healthy_pgdb.ApplyValidationResult_spec [OF h demo_progress_spec(1,2), of 1 pass_result] e a by simp
qed


section \<open>Runs of the step store\<close>

lemma empty_store:
  "store_inv db_view db_ok \<lparr>st_m = Map.empty, st_d = empty_db\<rparr>"
  "coherent db_view \<lparr>st_m = Map.empty, st_d = empty_db\<rparr>"
  "store_abs db_view \<lparr>st_m = Map.empty, st_d = empty_db\<rparr> = Map.empty"
proof -
  show "store_inv db_view db_ok \<lparr>st_m = Map.empty, st_d = empty_db\<rparr>"
    "coherent db_view \<lparr>st_m = Map.empty, st_d = empty_db\<rparr>"
    using demo_fresh [of "[]"] by (simp_all add: demo_app_def fresh_in_def coherent_def)
  have "db_view empty_db sid = None" for sid using demo_fresh [of sid] by (simp add: demo_app_def fresh_in_def)
  then show "store_abs db_view \<lparr>st_m = Map.empty, st_d = empty_db\<rparr> = Map.empty"
    by (simp add: store_abs_def fun_eq_iff)
qed

lemma run_from_empty:
  assumes "admissible ops Map.empty"
    and "run (Some (store_persistence (\<lambda>_. Healthy))) now ops \<lparr>st_m = Map.empty, st_d = empty_db\<rparr> = (rs, st')"
  shows "spec_run ops Map.empty = (rs, store_abs db_view st')"
  using healthy_pgdb.run_refines [OF empty_store(1,2) _ assms(2)] assms(1) by (simp add: empty_store(3))

text \<open>
  C8. The step store implements a map from session ids to sessions: every sequence of accesses to
  the cache over a healthy database, restarts of the process among them, gives the results that the
  same accesses give on a plain map that no restart affects, and ends in the corresponding state.
\<close>

theorem step_store_refines_map:
  assumes "admissible ops Map.empty"
    and "run (Some (store_persistence (\<lambda>_. Healthy))) now ops \<lparr>st_m = Map.empty, st_d = empty_db\<rparr> = (rs, st')"
  shows "spec_run ops Map.empty = (rs, store_abs db_view st')"
  using assms by (rule run_from_empty)

theorem step_store_refines_map_witness:
  "\<exists>rs st'. run (Some (store_persistence (\<lambda>_. Healthy))) 0
       [OpPut ''s1'' (init_session ''lab'' ''u'' [1, 2]), OpRestart, OpHint ''s1'' 1 0, OpRestart, OpHint ''s1'' 1 0, OpFind ''s1'' 2]
       \<lparr>st_m = Map.empty, st_d = empty_db\<rparr> = (rs, st')
     \<and> rs = [RPut None, RUnit, RHint (Some (''lab'', 1)), RUnit, RHint (Some (''lab'', 2)), RFind (Inl errStepOrderBlocked)]"
proof -
  let ?ops = "[OpPut ''s1'' (init_session ''lab'' ''u'' [1, 2]), OpRestart, OpHint ''s1'' 1 0, OpRestart, OpHint ''s1'' 1 0, OpFind ''s1'' 2]"
  let ?st = "\<lparr>st_m = Map.empty, st_d = empty_db\<rparr>"
  obtain rs st' where r: "run (Some (store_persistence (\<lambda>_. Healthy))) 0 ?ops ?st = (rs, st')"
    by (cases "run (Some (store_persistence (\<lambda>_. Healthy))) 0 ?ops ?st")
  have "admissible ?ops Map.empty" by (simp add: init_session_def)
  from step_store_refines_map [OF this r] r show ?thesis
    by (auto simp: spec_with_def next_hint_fn_def step_at_def init_session_def modify_step_def maxHintLevel_def)
qed

text \<open>The accesses that keep sessions legal: what is put is legal, and explicit hint levels are in range.\<close>

fun op_legal :: "store_op \<Rightarrow> bool" where
  "op_legal (OpPut sid ss) = legal_session ss"
| "op_legal (OpHint sid k e) = (0 \<le> e \<and> e \<le> maxHintLevel)"
| "op_legal _ = True"

definition all_legal :: "(string \<rightharpoonup> sessionSteps) \<Rightarrow> bool" where
  "all_legal A \<longleftrightarrow> (\<forall>sid ss. A sid = Some ss \<longrightarrow> legal_session ss)"

lemma spec_with_legal:
  assumes "all_legal A" and "\<And>ss x d ss'. legal_session ss \<Longrightarrow> fn ss = (x, d, ss') \<Longrightarrow> legal_session ss'"
  shows "all_legal (snd (spec_with sid fn A))"
proof (cases "A sid")
  case None
  then show ?thesis using assms(1) by (simp add: spec_with_def)
next
  case (Some ss)
  obtain x d ss' where fn: "fn ss = (x, d, ss')" by (cases "fn ss")
  have "legal_session ss" using assms(1) Some by (simp add: all_legal_def)
  then have "legal_session ss'" using fn by (rule assms(2))
  with assms(1) Some fn show ?thesis by (auto simp: spec_with_def all_legal_def split: if_splits)
qed

lemma spec_exec_legal:
  assumes "all_legal A" and "op_legal op"
  shows "all_legal (snd (spec_exec op A))"
proof (cases op)
  case (OpHint sid k e)
  have "legal_session ss'" if "legal_session ss" "next_hint_fn k e ss = (x, d, ss')" for ss x d ss'
    using legal_next_hint(1) [OF that(1), of e k "fst x" "snd x"] that(2) assms(2) OpHint by simp
  then have "all_legal (snd (spec_with sid (next_hint_fn k e) A))" by (rule spec_with_legal [OF assms(1)])
  with OpHint show ?thesis by simp
next
  case (OpValidating sid i)
  have "all_legal (snd (spec_with sid (mark_validating_fn i) A))"
    by (rule spec_with_legal [OF assms(1)]) (rule legal_mark_validating)
  with OpValidating show ?thesis by simp
next
  case (OpPassed sid i)
  have "all_legal (snd (spec_with sid (mark_passed_fn i) A))"
    by (rule spec_with_legal [OF assms(1)]) (rule legal_mark_passed)
  with OpPassed show ?thesis by simp
next
  case (OpResult r)
  have "all_legal (snd (spec_with (vr_session_id r) (apply_result_fn r) A))"
    by (rule spec_with_legal [OF assms(1)]) (rule legal_apply_result)
  with OpResult show ?thesis by simp
qed (use assms in \<open>auto simp: all_legal_def split: if_splits\<close>)

lemma spec_run_legal:
  "all_legal A \<Longrightarrow> list_all op_legal ops \<Longrightarrow> all_legal (snd (spec_run ops A))"
proof (induction ops arbitrary: A)
  case (Cons op ops)
  obtain r A1 where e: "spec_exec op A = (r, A1)" by (cases "spec_exec op A")
  obtain rs A2 where r: "spec_run ops A1 = (rs, A2)" by (cases "spec_run ops A1")
  have "all_legal A1" using spec_exec_legal [of A op] Cons.prems e by simp
  with Cons.IH [of A1] Cons.prems(2) e r show ?case by simp
qed simp

text \<open>
  C9. Every session the store holds is legal after every run, restarts included: its step ids are
  distinct and increasing, its statuses are the five known ones, its hint levels are between 0 and
  3, its attempts are not negative, and its current step is one of its steps.
\<close>

theorem stored_sessions_legal:
  assumes "admissible ops Map.empty" and "list_all op_legal ops"
    and "run (Some (store_persistence (\<lambda>_. Healthy))) now ops \<lparr>st_m = Map.empty, st_d = empty_db\<rparr> = (rs, st')"
    and "store_abs db_view st' sid = Some ss"
  shows "legal_session ss"
  using run_from_empty [OF assms(1,3)] spec_run_legal [of Map.empty ops] assms(2,4)
  by (simp add: all_legal_def)

theorem stored_sessions_legal_witness:
  "\<exists>ss. store_abs db_view (snd (run (Some (store_persistence (\<lambda>_. Healthy))) 0
       [OpPut ''s1'' (init_session ''lab'' ''u'' [1, 2]), OpHint ''s1'' 2 3, OpRestart]
       \<lparr>st_m = Map.empty, st_d = empty_db\<rparr>)) ''s1'' = Some ss \<and> legal_session ss \<and> step_hint_level (ss_steps ss ! 1) = 3"
proof -
  let ?ops = "[OpPut ''s1'' (init_session ''lab'' ''u'' [1, 2]), OpHint ''s1'' 2 3, OpRestart]"
  obtain rs st' where r: "run (Some (store_persistence (\<lambda>_. Healthy))) 0 ?ops \<lparr>st_m = Map.empty, st_d = empty_db\<rparr> = (rs, st')"
    by (meson surj_pair)
  have ok: "admissible ?ops Map.empty" "list_all op_legal ?ops"
    by (simp add: init_session_def) (simp add: init_session_legal maxHintLevel_def)
  have "store_abs db_view st' = snd (spec_run ?ops Map.empty)" using run_from_empty [OF ok(1) r] by simp
  then obtain ss where ss: "store_abs db_view st' ''s1'' = Some ss" "step_hint_level (ss_steps ss ! 1) = 3"
    by (simp add: spec_with_def next_hint_fn_def step_at_def init_session_def modify_step_def)
  from stored_sessions_legal [OF ok r ss(1)] ss r show ?thesis by (metis snd_conv)
qed

section \<open>Hints\<close>

lemma next_hint_auto:
  assumes "legal_session ss" and "step_at k ss = Some i"
  obtains ss' dirty where "next_hint_fn k 0 ss = ((ss_lab_id ss, min maxHintLevel (step_hint_level (ss_steps ss ! i) + 1)), dirty, ss')"
    and "legal_session ss'" and "step_at k ss' = Some i" and "ss_lab_id ss' = ss_lab_id ss"
    and "step_hint_level (ss_steps ss' ! i) = min maxHintLevel (step_hint_level (ss_steps ss ! i) + 1)"
proof -
  obtain x dirty ss' where n: "next_hint_fn k 0 ss = (x, dirty, ss')" by (cases "next_hint_fn k 0 ss")
  have i: "i < length (ss_steps ss)" using assms(2) find_index_SomeD by (auto simp: step_at_def)
  then have range: "step_hint_level (ss_steps ss ! i) \<le> maxHintLevel"
    using assms(1) by (simp add: legal_session_def list_all_length legal_step_def)
  have x: "x = (ss_lab_id ss, min maxHintLevel (step_hint_level (ss_steps ss ! i) + 1))"
    using n assms(2) by (auto simp: next_hint_fn_def Let_def split: if_splits)
  have l: "step_hint_level (ss_steps ss' ! i) = min maxHintLevel (step_hint_level (ss_steps ss ! i) + 1)"
    using n assms(2) i range by (auto simp: next_hint_fn_def Let_def modify_step_at split: if_splits)
  have sh: "same_shape ss ss'" by (rule well_behavedD(1) [OF next_hint_well_behaved n])
  then have "step_at k ss' = Some i" "ss_lab_id ss' = ss_lab_id ss"
    using assms(2) find_index_cong_map [of step_id "ss_steps ss'" "ss_steps ss" k]
    by (simp_all add: step_at_def same_shape_def)
  moreover have "legal_session ss'"
    by (rule legal_next_hint(1) [OF assms(1), of 0 k "fst x" "snd x"]) (use n in \<open>simp_all add: maxHintLevel_def\<close>)
  ultimately show thesis using that n x l by simp
qed

lemma spec_run_hints:
  assumes "A sid = Some ss" and "legal_session ss" and "step_at k ss = Some i"
  shows "fst (spec_run (replicate n (OpHint sid k 0)) A)
    = map (\<lambda>j. RHint (Some (ss_lab_id ss, min maxHintLevel (step_hint_level (ss_steps ss ! i) + 1 + int j)))) [0..<n]"
  using assms
proof (induction n arbitrary: A ss)
  case (Suc n)
  obtain ss' dirty where h: "next_hint_fn k 0 ss = ((ss_lab_id ss, min maxHintLevel (step_hint_level (ss_steps ss ! i) + 1)), dirty, ss')"
    and s: "legal_session ss'" "step_at k ss' = Some i" "ss_lab_id ss' = ss_lab_id ss"
    "step_hint_level (ss_steps ss' ! i) = min maxHintLevel (step_hint_level (ss_steps ss ! i) + 1)"
    by (rule next_hint_auto [OF Suc.prems(2,3)])
  have "map (\<lambda>j. RHint (Some (ss_lab_id ss, min maxHintLevel (step_hint_level (ss_steps ss' ! i) + 1 + int j)))) [0..<n]
      = map (\<lambda>j. RHint (Some (ss_lab_id ss, min maxHintLevel (step_hint_level (ss_steps ss ! i) + 1 + int j)))) [Suc 0..<Suc n]"
    using s(4) unfolding map_Suc_upt [symmetric] by (simp add: min_def del: upt_Suc)
  moreover obtain rs B where r: "spec_run (replicate n (OpHint sid k 0)) (A(sid \<mapsto> ss')) = (rs, B)"
    by (cases "spec_run (replicate n (OpHint sid k 0)) (A(sid \<mapsto> ss'))")
  moreover have "fst (spec_run (replicate n (OpHint sid k 0)) (A(sid \<mapsto> ss')))
      = map (\<lambda>j. RHint (Some (ss_lab_id ss, min maxHintLevel (step_hint_level (ss_steps ss' ! i) + 1 + int j)))) [0..<n]"
    using Suc.IH [of "A(sid \<mapsto> ss')" ss', OF fun_upd_same s(1,2)] s(3) by (simp del: fun_upd_apply)
  ultimately have "rs = map (\<lambda>j. RHint (Some (ss_lab_id ss, min maxHintLevel (step_hint_level (ss_steps ss ! i) + 1 + int j)))) [Suc 0..<Suc n]"
    by simp
  then show ?case
    using r Suc.prems(1) h by (simp add: spec_with_def upt_conv_Cons del: upt_Suc fun_upd_apply)
qed simp

text \<open>
  Hints escalate and stop at the highest level: asking \<open>n\<close> times for a hint on a step without
  naming a level gives the levels that follow the last one used, one more each time, capped at 3.
\<close>

theorem hint_levels_escalate:
  assumes "store_inv db_view db_ok st" and "coherent db_view st"
    and "store_abs db_view st sid = Some ss" and "legal_session ss" and "step_at k ss = Some i"
  shows "fst (run (Some (store_persistence (\<lambda>_. Healthy))) now (replicate n (OpHint sid k 0)) st)
    = map (\<lambda>j. RHint (Some (ss_lab_id ss, min 3 (step_hint_level (ss_steps ss ! i) + 1 + int j)))) [0..<n]"
proof -
  have "admissible (replicate n (OpHint sid k 0)) A" for A by (induction n arbitrary: A) simp_all
  from healthy_pgdb.run_refines [OF assms(1,2) this surjective_pairing, of now]
  show ?thesis using spec_run_hints [where A = "store_abs db_view st", OF assms(3-5), of n] by (simp add: maxHintLevel_def)
qed

theorem hint_levels_escalate_witness:
  "fst (run (Some (store_persistence (\<lambda>_. Healthy))) 0 (replicate 4 (OpHint ''s1'' 1 0)) (a_steps demo_progress))
   = map (\<lambda>l. RHint (Some (''lab-linux-basics'', l))) [1, 2, 3, 3]"
proof -
  have "legal_session (init_session ''lab-linux-basics'' ''u'' [1, 2])"
    "step_at 1 (init_session ''lab-linux-basics'' ''u'' [1, 2]) = Some 0"
    by (simp add: init_session_legal) (simp add: step_at_def init_session_def)
  from hint_levels_escalate [OF demo_progress_spec this, of 0 4] show ?thesis
    by (simp add: init_session_def upt_rec)
qed

end
