(* ===== verification/Router.thy ===== *)
theory Router
  imports Console Login Vm_Files Step_Safety
begin

text \<open>
  The HTTP surface (\<open>src/apps/api/internal/api/router.go\<close>): the table of routes, the middleware chain in
  front of each group, and the probes of \<open>health.go\<close>. \<open>serve\<close> takes one request through the chain to the
  handler of its route.

  Logging, tracing, the CORS headers and the scrape endpoint are left out; a path is the list of its
  segments.
\<close>

section \<open>Probes\<close>

definition apiVersion :: string where "apiVersion = ''0.1.0''"

definition Health :: resp where
  "Health = Resp 200 (JObj [(''status'', JStr ''ok''), (''version'', JStr apiVersion)])"

definition readinessCheck :: "bool \<Rightarrow> bool \<Rightarrow> string \<Rightarrow> string \<Rightarrow> json" where
  "readinessCheck ok required okDetail failDetail =
     (if ok then JObj [(''status'', JStr ''ok''), (''detail'', JStr okDetail)]
      else if \<not> required then JObj [(''status'', JStr ''ok''), (''detail'', JStr ''optional_in_debug'')]
      else JObj [(''status'', JStr ''degraded''), (''detail'', JStr failDetail)])"

text \<open>\<open>loaded\<close> tells whether any lab content was loaded.\<close>

definition Ready :: "('d, 'p, 'x) handler \<Rightarrow> bool \<Rightarrow> 'x Provider option \<Rightarrow> bool \<Rightarrow> resp" where
  "Ready h release auth loaded =
     (let checks = JObj
        [(''labs'', readinessCheck loaded True ''loaded'' ''not_loaded''),
         (''keycloak'', readinessCheck (auth \<noteq> None) release ''connected'' ''unavailable''),
         (''kubevirt'', readinessCheck (h_sessions h \<noteq> None) release ''configured'' ''not_configured''),
         (''validation'', readinessCheck (h_validator h \<noteq> None) release ''configured'' ''mock_fallback'')]
      in Resp (if loaded then 200 else 503)
           (JObj [(''status'', JStr (if loaded then ''ok'' else ''degraded'')), (''version'', JStr apiVersion), (''checks'', checks)]))"

section \<open>Routes\<close>

datatype public_route = P_Health | P_Ready | P_Login | P_Callback | P_Logout | P_Refresh

datatype user_route =
    U_GetMe | U_GetMyProgress | U_GetMyDashboard | U_GetMyLabStatuses | U_GetMySubscription | U_SetMyPreferences
  | U_GetBillingPlans | U_CreateCheckout | U_CompleteCheckout string | U_ListLabs | U_GetLab string
  | U_CreateSession | U_GetSession string | U_DeleteSession string | U_GetSessionSteps string | U_ValidateStep string
  | U_RequestHint string | U_Console string | U_ListSessionFiles string | U_PreviewSessionFile string | U_IDE string

datatype admin_route = A_ListUsers | A_GetUserActivity string | A_SetUserRole string | A_TerminateUserSession string

datatype route = Public public_route | User user_route | Admin admin_route

datatype seg = Lit string | Param | Rest

fun match_segs :: "seg list \<Rightarrow> string list \<Rightarrow> string list option" where
  "match_segs [] [] = Some []"
| "match_segs [Rest] (s # ss) = Some []"
| "match_segs (Lit l # ps) (s # ss) = (if l = s then match_segs ps ss else None)"
| "match_segs (Param # ps) (s # ss) =
     (if s = [] then None else (case match_segs ps ss of Some vs \<Rightarrow> Some (s # vs) | None \<Rightarrow> None))"
| "match_segs _ _ = None"

type_synonym route_entry = "string list \<times> seg list \<times> (string list \<Rightarrow> route)"

definition any_methods :: "string list" where
  "any_methods = [''GET'', ''POST'', ''PUT'', ''PATCH'', ''HEAD'', ''OPTIONS'', ''DELETE'', ''CONNECT'', ''TRACE'']"

definition public_table :: "route_entry list" where
  "public_table =
     [([''GET''], [Lit ''health''], \<lambda>_. Public P_Health),
      ([''GET''], [Lit ''ready''], \<lambda>_. Public P_Ready),
      ([''GET''], [Lit ''api'', Lit ''v1'', Lit ''auth'', Lit ''login''], \<lambda>_. Public P_Login),
      ([''GET''], [Lit ''api'', Lit ''v1'', Lit ''auth'', Lit ''callback''], \<lambda>_. Public P_Callback),
      ([''GET''], [Lit ''api'', Lit ''v1'', Lit ''auth'', Lit ''logout''], \<lambda>_. Public P_Logout),
      ([''POST''], [Lit ''api'', Lit ''v1'', Lit ''auth'', Lit ''refresh''], \<lambda>_. Public P_Refresh)]"

definition api_v1 :: "seg list \<Rightarrow> seg list" where
  "api_v1 ps = Lit ''api'' # Lit ''v1'' # ps"

definition user_table :: "bool \<Rightarrow> route_entry list" where
  "user_table release =
     [([''GET''], api_v1 [Lit ''me''], \<lambda>_. User U_GetMe),
      ([''GET''], api_v1 [Lit ''me'', Lit ''progress''], \<lambda>_. User U_GetMyProgress),
      ([''GET''], api_v1 [Lit ''me'', Lit ''dashboard''], \<lambda>_. User U_GetMyDashboard),
      ([''GET''], api_v1 [Lit ''me'', Lit ''lab-statuses''], \<lambda>_. User U_GetMyLabStatuses),
      ([''GET''], api_v1 [Lit ''me'', Lit ''subscription''], \<lambda>_. User U_GetMySubscription),
      ([''PATCH''], api_v1 [Lit ''me'', Lit ''preferences''], \<lambda>_. User U_SetMyPreferences),
      ([''GET''], api_v1 [Lit ''billing'', Lit ''plans''], \<lambda>_. User U_GetBillingPlans),
      ([''POST''], api_v1 [Lit ''billing'', Lit ''checkout''], \<lambda>_. User U_CreateCheckout)] @
     (if \<not> release then [([''POST''], api_v1 [Lit ''billing'', Lit ''checkout'', Param, Lit ''complete''], \<lambda>vs. User (U_CompleteCheckout (hd vs)))] else []) @
     [([''GET''], api_v1 [Lit ''labs''], \<lambda>_. User U_ListLabs),
      ([''GET''], api_v1 [Lit ''labs'', Param], \<lambda>vs. User (U_GetLab (hd vs))),
      ([''POST''], api_v1 [Lit ''sessions''], \<lambda>_. User U_CreateSession),
      ([''GET''], api_v1 [Lit ''sessions'', Param], \<lambda>vs. User (U_GetSession (hd vs))),
      ([''DELETE''], api_v1 [Lit ''sessions'', Param], \<lambda>vs. User (U_DeleteSession (hd vs))),
      ([''GET''], api_v1 [Lit ''sessions'', Param, Lit ''steps''], \<lambda>vs. User (U_GetSessionSteps (hd vs))),
      ([''POST''], api_v1 [Lit ''sessions'', Param, Lit ''validate''], \<lambda>vs. User (U_ValidateStep (hd vs))),
      ([''POST''], api_v1 [Lit ''sessions'', Param, Lit ''hint''], \<lambda>vs. User (U_RequestHint (hd vs))),
      ([''GET''], api_v1 [Lit ''sessions'', Param, Lit ''ws''], \<lambda>vs. User (U_Console (hd vs))),
      ([''GET''], api_v1 [Lit ''sessions'', Param, Lit ''files''], \<lambda>vs. User (U_ListSessionFiles (hd vs))),
      ([''GET''], api_v1 [Lit ''sessions'', Param, Lit ''files'', Lit ''preview''], \<lambda>vs. User (U_PreviewSessionFile (hd vs))),
      (any_methods, api_v1 [Lit ''sessions'', Param, Lit ''ide'', Rest], \<lambda>vs. User (U_IDE (hd vs)))]"

definition admin_table :: "route_entry list" where
  "admin_table =
     [([''GET''], api_v1 [Lit ''admin'', Lit ''users''], \<lambda>_. Admin A_ListUsers),
      ([''GET''], api_v1 [Lit ''admin'', Lit ''users'', Param, Lit ''activity''], \<lambda>vs. Admin (A_GetUserActivity (hd vs))),
      ([''POST''], api_v1 [Lit ''admin'', Lit ''users'', Param, Lit ''role''], \<lambda>vs. Admin (A_SetUserRole (hd vs))),
      ([''DELETE''], api_v1 [Lit ''admin'', Lit ''users'', Param, Lit ''session''], \<lambda>vs. Admin (A_TerminateUserSession (hd vs)))]"

fun find_route :: "route_entry list \<Rightarrow> string \<Rightarrow> string list \<Rightarrow> route option" where
  "find_route [] m path = None"
| "find_route ((ms, ps, f) # es) m path =
     (if m \<in> set ms then (case match_segs ps path of Some vs \<Rightarrow> Some (f vs) | None \<Rightarrow> find_route es m path)
      else find_route es m path)"

definition route_of :: "bool \<Rightarrow> string \<Rightarrow> string list \<Rightarrow> route option" where
  "route_of release m path = find_route (public_table @ user_table release @ admin_table) m path"

section \<open>Serving a request\<close>

text \<open>
  The server around the handlers, and what comes with a request: its decoded bodies, the time, the
  fresh random values and the orders in which Go walks its maps.
\<close>

record 'x server =
  sv_auth :: "'x Provider option"
  sv_cfg :: web_cfg
  sv_virt :: bool
  sv_vmFiles :: "'x vm_files option"
  sv_preview :: "string \<Rightarrow> string + FilePreview"
  sv_parse_url :: "string \<Rightarrow> (string \<times> string) option"
  sv_labs_loaded :: bool

record input =
  in_now :: go_time
  in_rq :: request
  in_url_path :: string
  in_state :: string
  in_nonce :: string
  in_pkce :: string
  in_session_id :: string
  in_checkout_id :: string
  in_trace_id :: string
  in_traceparent :: string
  in_ws :: nat
  in_order :: "string list"
  in_perm :: "leaderboardEntry list \<Rightarrow> leaderboardEntry list"
  in_optout :: "string + bool"
  in_plan :: "string + string"
  in_lab :: "string + string"
  in_step :: "string + int"
  in_hint :: "string + hint_body"
  in_role :: "string + string"

datatype outcome =
    NoRoute
  | Answer resp
  | Web "reply \<times> cookie list"
  | Terminal terminal
  | Proxied "resp + forwarded"

text \<open>The state of the whole server: the consoles beside the state of the handlers.\<close>

type_synonym ('d, 'p, 'x) world_state = "consoleRegistry \<times> ('d, 'p, 'x) app"

definition answer :: "(('d, 'p, 'x) app \<Rightarrow> resp \<times> ('d, 'p, 'x) app) \<Rightarrow> ('d, 'p, 'x) world_state \<Rightarrow> outcome \<times> ('d, 'p, 'x) world_state" where
  "answer f s = (let (r, a) = f (snd s) in (Answer r, (fst s, a)))"

fun serve_public ::
  "('d, 'p, 'x) handler \<Rightarrow> 'x server \<Rightarrow> input \<Rightarrow> public_route \<Rightarrow> ('d, 'p, 'x) world_state \<Rightarrow> outcome \<times> ('d, 'p, 'x) world_state" where
  "serve_public h sv i P_Health s = (Answer Health, s)"
| "serve_public h sv i P_Ready s =
     (Answer (Ready h (wc_mode (sv_cfg sv) = ''release'') (sv_auth sv) (sv_labs_loaded sv)), s)"
| "serve_public h sv i P_Login s = (Web (Login (sv_auth sv) (sv_cfg sv) (in_state i) (in_nonce i) (in_pkce i) (in_rq i)), s)"
| "serve_public h sv i P_Callback s =
     (let (w, a) = Callback h (sv_auth sv) (sv_cfg sv) (in_now i) (in_rq i) (snd s) in (Web w, (fst s, a)))"
| "serve_public h sv i P_Logout s = (Web (Logout (sv_parse_url sv) (sv_auth sv) (sv_cfg sv) (in_rq i)), s)"
| "serve_public h sv i P_Refresh s =
     (let (w, a) = Refresh h (sv_auth sv) (sv_cfg sv) (in_now i) (in_rq i) (snd s) in (Web w, (fst s, a)))"

fun serve_user ::
  "('d, 'p, 'x) handler \<Rightarrow> 'x server \<Rightarrow> input \<Rightarrow> user_ctx \<Rightarrow> user_route \<Rightarrow> ('d, 'p, 'x) world_state \<Rightarrow>
   outcome \<times> ('d, 'p, 'x) world_state" where
  "serve_user h sv i u U_GetMe = answer (GetMe h u)"
| "serve_user h sv i u U_GetMyProgress = answer (GetMyProgress h (in_perm i) (uc_user_id u))"
| "serve_user h sv i u U_GetMyDashboard = answer (GetMyDashboard h (in_order i) (in_perm i) (uc_user_id u))"
| "serve_user h sv i u U_GetMyLabStatuses = answer (GetMyLabStatuses h (in_now i) (in_order i) (uc_user_id u))"
| "serve_user h sv i u U_GetMySubscription = answer (on_db (GetMySubscription (h_db h) (uc_user_id u)))"
| "serve_user h sv i u U_SetMyPreferences = answer (SetMyPreferences h (in_now i) (in_optout i) (uc_user_id u))"
| "serve_user h sv i u U_GetBillingPlans = answer (\<lambda>a. (GetBillingPlans, a))"
| "serve_user h sv i u U_CreateCheckout =
     answer (on_db (CreateCheckout (h_db h) (in_now i) (in_checkout_id i) (uc_user_id u) (in_plan i)))"
| "serve_user h sv i u (U_CompleteCheckout cid) = answer (on_db (CompleteCheckout (h_db h) (in_now i) (uc_user_id u) cid))"
| "serve_user h sv i u U_ListLabs = answer (\<lambda>a. (ListLabs (h_labs h) (in_order i), a))"
| "serve_user h sv i u (U_GetLab k) = answer (\<lambda>a. (GetLab (h_labs h) k, a))"
| "serve_user h sv i u U_CreateSession = answer (CreateSession h (in_now i) (in_session_id i) (in_lab i) (uc_user_id u))"
| "serve_user h sv i u (U_GetSession sid) = answer (GetSession h (in_now i) sid (uc_user_id u))"
| "serve_user h sv i u (U_DeleteSession sid) = answer (DeleteSession h (in_now i) sid (uc_user_id u))"
| "serve_user h sv i u (U_GetSessionSteps sid) = answer (GetSessionSteps h (in_now i) sid (uc_user_id u))"
| "serve_user h sv i u (U_ValidateStep sid) =
     answer (ValidateStep h (in_now i) (in_trace_id i) (in_traceparent i) sid (in_step i) (uc_user_id u))"
| "serve_user h sv i u (U_RequestHint sid) = answer (RequestHint h (in_now i) sid (in_hint i) (uc_user_id u) (uc_user_org u))"
| "serve_user h sv i u (U_ListSessionFiles sid) = answer (ListSessionFiles h (sv_vmFiles sv) (in_now i) sid (uc_user_id u))"
| "serve_user h sv i u (U_PreviewSessionFile sid) =
     answer (PreviewSessionFile h (sv_vmFiles sv) (sv_preview sv) (in_now i) sid (Query (in_rq i) ''path'') (uc_user_id u))"
| "serve_user h sv i u (U_Console sid) = (\<lambda>s.
     let (t, reg, a) = Console h (sv_virt sv) (Some (wc_frontend_url (sv_cfg sv))) (in_now i) (in_rq i) sid (uc_user_id u) (in_ws i) (fst s) (snd s)
     in (Terminal t, (reg, a)))"
| "serve_user h sv i u (U_IDE sid) = (\<lambda>s.
     let (r, a) = IDE h (in_now i) (in_rq i) (in_url_path i) sid (uc_user_id u) (snd s) in (Proxied r, (fst s, a)))"

fun serve_admin ::
  "('d, 'p, 'x) handler \<Rightarrow> input \<Rightarrow> admin_route \<Rightarrow> ('d, 'p, 'x) world_state \<Rightarrow> outcome \<times> ('d, 'p, 'x) world_state" where
  "serve_admin h i A_ListUsers = answer (admin_ListUsers h (Query (in_rq i) ''limit''))"
| "serve_admin h i (A_GetUserActivity uid) = answer (GetUserActivity h uid)"
| "serve_admin h i (A_SetUserRole uid) = answer (admin_SetUserRole h uid (in_role i))"
| "serve_admin h i (A_TerminateUserSession uid) = answer (TerminateUserSession h uid)"

text \<open>The JWT middleware in front of a group: it refuses, or hands the user to the rest of the chain.\<close>

definition with_user ::
  "'x server \<Rightarrow> input \<Rightarrow> (user_ctx \<Rightarrow> ('d, 'p, 'x) world_state \<Rightarrow> outcome \<times> ('d, 'p, 'x) world_state) \<Rightarrow>
   ('d, 'p, 'x) world_state \<Rightarrow> outcome \<times> ('d, 'p, 'x) world_state" where
  "with_user sv i k s =
     (let (r, a) = on_ext (JWT (sv_auth sv) (wc_mode (sv_cfg sv) \<noteq> ''release'') (in_rq i)) (snd s) in
      case r of Inl resp \<Rightarrow> (Answer resp, (fst s, a)) | Inr u \<Rightarrow> k u (fst s, a))"

definition serve ::
  "('d, 'p, 'x) handler \<Rightarrow> 'x server \<Rightarrow> input \<Rightarrow> string \<Rightarrow> string list \<Rightarrow> ('d, 'p, 'x) world_state \<Rightarrow>
   outcome \<times> ('d, 'p, 'x) world_state" where
  "serve h sv i m path s =
     (case route_of (wc_mode (sv_cfg sv) = ''release'') m path of
        None \<Rightarrow> (NoRoute, s)
      | Some (Public r) \<Rightarrow> serve_public h sv i r s
      | Some (User r) \<Rightarrow> with_user sv i (\<lambda>u. serve_user h sv i u r) s
      | Some (Admin r) \<Rightarrow>
          with_user sv i (\<lambda>u. case RequireMinRole ''admin'' u of
              Some resp \<Rightarrow> (\<lambda>s. (Answer resp, s))
            | None \<Rightarrow> serve_admin h i r) s)"

section \<open>Routing\<close>

lemma find_route_append:
  "find_route (es @ fs) m path = (case find_route es m path of Some r \<Rightarrow> Some r | None \<Rightarrow> find_route fs m path)"
  by (induction es m path rule: find_route.induct) (auto split: option.splits)

lemma find_route_mem:
  "find_route es m path = Some r \<Longrightarrow> \<exists>ms ps f vs. (ms, ps, f) \<in> set es \<and> m \<in> set ms \<and> match_segs ps path = Some vs \<and> r = f vs"
  by (induction es m path rule: find_route.induct) (auto split: if_splits option.splits)

lemma public_only:
  "find_route public_table m path = Some r \<Longrightarrow> \<exists>p. r = Public p"
  by (drule find_route_mem) (auto simp: public_table_def)

lemma user_only: "find_route (user_table b) m path = Some r \<Longrightarrow> \<exists>u. r = User u"
  by (drule find_route_mem) (auto simp: user_table_def split: if_splits)

lemma admin_only: "find_route admin_table m path = Some r \<Longrightarrow> \<exists>a. r = Admin a"
  by (drule find_route_mem) (auto simp: admin_table_def)

lemma under_admin: "find_route (public_table @ user_table b) m (''api'' # ''v1'' # ''admin'' # rest) = None"
  by (simp add: find_route_append public_table_def user_table_def api_v1_def)

lemma under_v1: "x \<noteq> ''auth'' \<Longrightarrow> find_route public_table m (''api'' # ''v1'' # x # rest) = None"
  by (simp add: public_table_def)

text \<open>The refusals of the middlewares touch nothing but the state of the verifier.\<close>

definition refused :: "int set \<Rightarrow> ('d, 'p, 'x) world_state \<Rightarrow> outcome \<times> ('d, 'p, 'x) world_state \<Rightarrow> bool" where
  "refused codes s o_s \<longleftrightarrow>
     (\<exists>resp x. o_s = (Answer resp, (fst s, (snd s)\<lparr>a_ext := x\<rparr>)) \<and> resp_status resp \<in> codes)"

lemma JWT_release:
  assumes "JWT auth False rq x = (r, x')"
  shows "(\<exists>resp. r = Inl resp \<and> resp_status resp \<in> {401, 503}) \<or>
    (\<exists>p i. auth = Some p \<and> extractToken rq \<noteq> [] \<and> VerifyAccessToken p (extractToken rq) x = (Inr i, x') \<and> r = Inr (user_of i))"
  using assms by (auto simp: JWT_def Let_def split: option.splits if_splits prod.splits sum.splits)

lemma with_user_release:
  assumes "wc_mode (sv_cfg sv) = ''release''" "with_user sv i k s = out"
  shows "refused {401, 503} s out \<or>
    (\<exists>p ident x. sv_auth sv = Some p \<and> extractToken (in_rq i) \<noteq> [] \<and>
       VerifyAccessToken p (extractToken (in_rq i)) (a_ext (snd s)) = (Inr ident, x) \<and>
       out = k (user_of ident) (fst s, (snd s)\<lparr>a_ext := x\<rparr>))"
proof -
  obtain r x where j: "JWT (sv_auth sv) False (in_rq i) (a_ext (snd s)) = (r, x)" by (rule prod.exhaust)
  show ?thesis
    using JWT_release [OF j] assms j by (auto simp: with_user_def on_ext_def refused_def)
qed

lemma admin_rank: "RequireMinRole ''admin'' (user_of i) = None \<longleftrightarrow> ''admin'' \<in> set (id_Roles i)"
  by (simp add: RequireMinRole_def user_of_def Role_def roleRank_def)

text \<open>
  C4. In release mode every request below \<open>/api/v1/admin\<close>, whatever its method and path, is not routed
  at all, or is refused with 401, 403 or 503 and changes nothing but the state of the token verifier,
  or carries a token that the provider verified for an identity with the realm role admin: only then
  does an administration handler run.
\<close>

theorem admin_routes_need_admin_role:
  assumes "wc_mode (sv_cfg sv) = ''release''"
  shows "serve h sv i m (''api'' # ''v1'' # ''admin'' # rest) s = (NoRoute, s) \<or>
    refused {401, 403, 503} s (serve h sv i m (''api'' # ''v1'' # ''admin'' # rest) s) \<or>
    (\<exists>p ident x r. sv_auth sv = Some p \<and> extractToken (in_rq i) \<noteq> [] \<and>
       VerifyAccessToken p (extractToken (in_rq i)) (a_ext (snd s)) = (Inr ident, x) \<and> ''admin'' \<in> set (id_Roles ident) \<and>
       route_of True m (''api'' # ''v1'' # ''admin'' # rest) = Some (Admin r) \<and>
       serve h sv i m (''api'' # ''v1'' # ''admin'' # rest) s = serve_admin h i r (fst s, (snd s)\<lparr>a_ext := x\<rparr>))"
proof (cases "route_of True m (''api'' # ''v1'' # ''admin'' # rest)")
  case None
  then show ?thesis using assms by (simp add: serve_def)
next
  case (Some r)
  then obtain ar where r: "r = Admin ar"
    using under_admin [of True m rest] admin_only by (fastforce simp: route_of_def find_route_append split: option.splits)
  define k where "k u = (case RequireMinRole ''admin'' u of
      Some resp \<Rightarrow> (\<lambda>s. (Answer resp, s)) | None \<Rightarrow> serve_admin h i ar)" for u
  have run: "serve h sv i m (''api'' # ''v1'' # ''admin'' # rest) s = with_user sv i k s"
    using assms Some r by (simp add: serve_def k_def [abs_def])
  have refuse: "refused {401, 403, 503} s (k (user_of ident) (fst s, (snd s)\<lparr>a_ext := x\<rparr>))" if "''admin'' \<notin> set (id_Roles ident)" for ident x
    using that admin_rank [of ident] by (auto simp: k_def refused_def RequireMinRole_def Let_def)
  from with_user_release [OF assms refl, where i = i and k = k and s = s]
  consider "refused {401, 503} s (with_user sv i k s)"
  | p ident x where "sv_auth sv = Some p" "extractToken (in_rq i) \<noteq> []"
      "VerifyAccessToken p (extractToken (in_rq i)) (a_ext (snd s)) = (Inr ident, x)"
      "with_user sv i k s = k (user_of ident) (fst s, (snd s)\<lparr>a_ext := x\<rparr>)"
    by blast
  then show ?thesis
  proof cases
    case 1
    then show ?thesis unfolding run by (auto simp: refused_def)
  next
    case 2
    then show ?thesis
      using refuse [of ident x] Some r admin_rank [of ident] unfolding run
      by (cases "''admin'' \<in> set (id_Roles ident)") (auto simp: k_def)
  qed
qed

text \<open>
  C5. In release mode a request to any other part of the API (everything below \<open>/api/v1\<close> but the
  login endpoints) runs a handler only with a token that the provider verified: without a provider,
  without a token or with a token that is not verified it is not routed or refused with 401 or 503,
  and changes nothing but the state of the token verifier.
\<close>

theorem release_requires_verified_token:
  assumes "wc_mode (sv_cfg sv) = ''release''" and "x \<noteq> ''auth''"
    and "\<forall>p. sv_auth sv = Some p \<longrightarrow> extractToken (in_rq i) = [] \<or>
           (\<exists>e. fst (VerifyAccessToken p (extractToken (in_rq i)) (a_ext (snd s))) = Inl e)"
  shows "serve h sv i m (''api'' # ''v1'' # x # rest) s = (NoRoute, s) \<or>
    refused {401, 503} s (serve h sv i m (''api'' # ''v1'' # x # rest) s)"
proof -
  have no: "refused {401, 503} s (with_user sv i k s)" for k
    using with_user_release [OF assms(1) refl, where i = i and k = k and s = s] assms(3) by fastforce
  have "route_of True m (''api'' # ''v1'' # x # rest) \<noteq> Some (Public p)" for p
    using under_v1 [OF assms(2), of m rest] user_only admin_only
    by (fastforce simp: route_of_def find_route_append split: option.splits)
  then show ?thesis
    using no assms(1) by (auto simp: serve_def split: option.split route.split)
qed

text \<open>
  The mock completion of a checkout, which grants a paid plan without any payment, is routed in
  every mode but release; in release mode no method and path reaches it.
\<close>

theorem mock_checkout_not_in_release:
  "route_of True m path \<noteq> Some (User (U_CompleteCheckout cid)) \<and>
   route_of False ''POST'' [''api'', ''v1'', ''billing'', ''checkout'', ''c1'', ''complete''] = Some (User (U_CompleteCheckout ''c1''))"
proof -
  have "\<forall>e\<in>set (user_table True). \<forall>vs. snd (snd e) vs \<noteq> User (U_CompleteCheckout cid)"
    by (simp add: user_table_def)
  then have "find_route (user_table True) m path \<noteq> Some (User (U_CompleteCheckout cid))"
    using find_route_mem [of "user_table True" m path] by fastforce
  moreover have "find_route public_table m path \<noteq> Some (User (U_CompleteCheckout cid))"
    "find_route admin_table m path \<noteq> Some (User (U_CompleteCheckout cid))"
    using public_only admin_only by fastforce+
  ultimately have "route_of True m path \<noteq> Some (User (U_CompleteCheckout cid))"
    by (auto simp: route_of_def find_route_append split: option.splits)
  then show ?thesis
    by (simp add: route_of_def public_table_def user_table_def api_v1_def)
qed

section \<open>A server in release mode\<close>

text \<open>A provider that knows one administrator.\<close>

definition admin_claims :: claims where
  "admin_claims = \<lparr>cl_sub = ''root'', cl_email = [], cl_name = ''Root'', cl_preferred_username = [], cl_groups = [], cl_roles = [''admin'']\<rparr>"

definition demo_oidc :: "unit Provider" where
  "demo_oidc = \<lparr>ap_accessVerify = (\<lambda>raw x. (if raw = ''good'' then Inr raw else Inl ''bad signature'', x)),
     ap_idVerify = (\<lambda>raw x. (Inl ''unused'', x)), ap_claims = (\<lambda>_. Inr admin_claims),
     ap_exchange = (\<lambda>_ _ x. (Inl ''unused'', x)), ap_refresh = (\<lambda>_ x. (Inl ''unused'', x)),
     ap_authURL = (\<lambda>_ _ _ _. []), ap_clientID = [], ap_endSessionURL = []\<rparr>"

definition demo_server :: "unit server" where
  "demo_server = \<lparr>sv_auth = Some demo_oidc,
     sv_cfg = \<lparr>wc_mode = ''release'', wc_cookie_domain = [], wc_frontend_url = ''https://app.cledyu.com''\<rparr>,
     sv_virt = True, sv_vmFiles = None, sv_preview = (\<lambda>_. Inl []), sv_parse_url = (\<lambda>_. None), sv_labs_loaded = True\<rparr>"

definition demo_input :: "string \<Rightarrow> input" where
  "demo_input tok = \<lparr>in_now = 0, in_rq = \<lparr>rq_cookies = [''access_token'' \<mapsto> tok], rq_headers = Map.empty, rq_query = Map.empty\<rparr>,
     in_url_path = [], in_state = [], in_nonce = [], in_pkce = [], in_session_id = [], in_checkout_id = [], in_trace_id = [],
     in_traceparent = [], in_ws = 0, in_order = [], in_perm = id, in_optout = Inl [], in_plan = Inl [], in_lab = Inl [],
     in_step = Inl [], in_hint = Inl [], in_role = Inl []\<rparr>"

definition demo_world :: "(db, unit, unit) world_state" where
  "demo_world = (newConsoleRegistry, board_app)"

lemmas demo_server_defs = demo_server_def demo_oidc_def demo_input_def demo_world_def admin_claims_def

theorem admin_routes_need_admin_role_witness:
  "\<exists>p ident x r. sv_auth demo_server = Some p \<and>
     VerifyAccessToken p ''good'' () = (Inr ident, x) \<and> ''admin'' \<in> set (id_Roles ident) \<and>
     serve board_handler demo_server (demo_input ''good'') ''GET'' [''api'', ''v1'', ''admin'', ''users''] demo_world =
       serve_admin board_handler (demo_input ''good'') r demo_world"
proof -
  let ?out = "serve board_handler demo_server (demo_input ''good'') ''GET'' [''api'', ''v1'', ''admin'', ''users''] demo_world"
  have mode: "wc_mode (sv_cfg demo_server) = ''release''" by (simp add: demo_server_def)
  have tok: "extractToken (in_rq (demo_input ''good'')) = ''good''" "a_ext (snd demo_world) = ()"
    "(fst demo_world, (snd demo_world)\<lparr>a_ext := x\<rparr>) = demo_world" for x
    by (simp_all add: demo_input_def extractToken_def demo_world_def board_app_def)
  have route: "route_of True ''GET'' [''api'', ''v1'', ''admin'', ''users''] = Some (Admin A_ListUsers)"
    by (simp add: route_of_def public_table_def user_table_def admin_table_def api_v1_def any_methods_def)
  have out: "\<exists>resp s. ?out = (Answer resp, s) \<and> resp_status resp \<notin> {401, 403, 503}"
    using route mode
    by (simp add: serve_def with_user_def JWT_def tok on_ext_def VerifyAccessToken_def demo_server_def demo_oidc_def
        admin_claims_def identity_def user_of_def Role_def RequireMinRole_def roleRank_def answer_def admin_ListUsers_def
        board_handler_def demo_world_def split: prod.split sum.split)
  show ?thesis
    using admin_routes_need_admin_role [OF mode, where i = "demo_input ''good''" and m = "''GET''" and rest = "[''users'']"
        and h = board_handler and s = demo_world] out tok
    by (auto simp: refused_def)
qed

theorem release_requires_verified_token_witness:
  "refused {401, 503} demo_world
     (serve board_handler demo_server (demo_input ''forged'') ''DELETE'' [''api'', ''v1'', ''sessions'', ''s1''] demo_world)"
proof -
  have mode: "wc_mode (sv_cfg demo_server) = ''release''" by (simp add: demo_server_def)
  have route: "route_of True ''DELETE'' [''api'', ''v1'', ''sessions'', ''s1''] = Some (User (U_DeleteSession ''s1''))"
    by (simp add: route_of_def public_table_def user_table_def api_v1_def)
  have bad: "\<forall>p. sv_auth demo_server = Some p \<longrightarrow> extractToken (in_rq (demo_input ''forged'')) = [] \<or>
      (\<exists>e. fst (VerifyAccessToken p (extractToken (in_rq (demo_input ''forged''))) (a_ext (snd demo_world))) = Inl e)"
    by (simp add: demo_server_defs extractToken_def VerifyAccessToken_def)
  have "serve board_handler demo_server (demo_input ''forged'') ''DELETE'' [''api'', ''v1'', ''sessions'', ''s1''] demo_world \<noteq> (NoRoute, demo_world)"
    using route mode
    by (simp add: serve_def with_user_def JWT_def on_ext_def demo_server_defs extractToken_def VerifyAccessToken_def)
  then show ?thesis
    using release_requires_verified_token [OF mode _ bad, where h = board_handler and m = "''DELETE''" and x = "''sessions''" and rest = "[''s1'']"]
    by simp
qed

end
