(* ===== verification/Live_Terminal.thy ===== *)
theory Live_Terminal
  imports Console
begin

text \<open>
  A live terminal from its connection to its end: the SSH shell of an instance
  (\<open>src/apps/api/internal/ec2/terminal.go\<close>), the node that reaches it
  (\<open>src/apps/api/internal/tailnet/tailnet.go\<close>), the part of the console handlers after the upgrade, and
  the timing of \<open>proxyTerminal\<close> (\<open>src/apps/api/internal/api/handlers/console.go\<close>): pings, the read
  deadline that pongs renew, and the three goroutines that close what another one waits for. The frames
  themselves are in \<open>Console\<close>.

  The SSH library and the tailnet library are arguments. Time is explicit; it passes only while every
  goroutine is really waiting, so a wake-up happens at the moment it is due.
\<close>

section \<open>The SSH shell of an instance\<close>

text \<open>\<open>net.JoinHostPort\<close>\<close>

definition JoinHostPort :: "string \<Rightarrow> string \<Rightarrow> string" where
  "JoinHostPort host port =
     (if CHR '':'' \<in> set host then ''['' @ host @ '']:'' @ port else host @ '':'' @ port)"

record TerminalConfig =
  tc_User :: string
  tc_Password :: string
  tc_Port :: string
  tc_Timeout :: duration
  tc_Dial :: bool

definition defaultSSHPort :: string where "defaultSSHPort = ''22''"

definition ptyCols :: int where "ptyCols = 120"

definition ptyRows :: int where "ptyRows = 40"

text \<open>
  What is open on the way to a machine. Closing an SSH client closes the connection below it. The log
  holds what was asked of the machine's SSH server.
\<close>

datatype ssh_ask = AskDial bool string duration | AskHandshake string string string duration
  | AskSession | AskPty string int int | AskStdin | AskStdout | AskShell | AskWindow int int

record handles =
  hd_conn :: bool
  hd_client :: bool
  hd_session :: bool
  hd_log :: "ssh_ask list"

definition nothing_open :: "handles \<Rightarrow> bool" where
  "nothing_open w \<longleftrightarrow> \<not> hd_conn w \<and> \<not> hd_client w \<and> \<not> hd_session w"

definition ask :: "ssh_ask \<Rightarrow> handles \<Rightarrow> handles" where
  "ask a w = w\<lparr>hd_log := hd_log w @ [a]\<rparr>"

definition close_conn :: "handles \<Rightarrow> handles" where "close_conn w = w\<lparr>hd_conn := False\<rparr>"

definition close_client :: "handles \<Rightarrow> handles" where "close_client w = w\<lparr>hd_client := False, hd_conn := False\<rparr>"

definition close_session :: "handles \<Rightarrow> handles" where "close_session w = w\<lparr>hd_session := False\<rparr>"

text \<open>The four requests on an open session; each failure closes the session and then the client.\<close>

fun session_requests ::
  "(ssh_ask \<Rightarrow> string option) \<Rightarrow> (ssh_ask \<times> string) list \<Rightarrow> handles \<Rightarrow> string option \<times> handles" where
  "session_requests server [] w = (None, w)"
| "session_requests server ((a, what) # as) w =
     (case server a of
        Some e \<Rightarrow> (Some (what @ '': '' @ e), close_client (close_session (ask a w)))
      | None \<Rightarrow> session_requests server as (ask a w))"

text \<open>\<open>server\<close> tells for each request how it fails, if it does.\<close>

definition DialTerminal ::
  "(ssh_ask \<Rightarrow> string option) \<Rightarrow> string \<Rightarrow> TerminalConfig \<Rightarrow> handles \<Rightarrow> string option \<times> handles" where
  "DialTerminal server host tc w =
     (let timeout = (if tc_Timeout tc \<le> 0 then 10 * second else tc_Timeout tc);
          port = (if tc_Port tc = [] then defaultSSHPort else tc_Port tc);
          addr = JoinHostPort host port;
          d = AskDial (tc_Dial tc) addr timeout;
          h = AskHandshake addr (tc_User tc) (tc_Password tc) timeout
      in case server d of
           Some e \<Rightarrow> (Some (''dial '' @ addr @ '': '' @ e), ask d w)
         | None \<Rightarrow>
             (let w1 = (ask d w)\<lparr>hd_conn := True\<rparr> in
              case server h of
                Some e \<Rightarrow> (Some (''ssh handshake '' @ addr @ '': '' @ e), close_conn (ask h w1))
              | None \<Rightarrow>
                  (let w2 = (ask h w1)\<lparr>hd_client := True\<rparr> in
                   case server AskSession of
                     Some e \<Rightarrow> (Some (''new ssh session: '' @ e), close_client (ask AskSession w2))
                   | None \<Rightarrow>
                       session_requests server
                         [(AskPty ''xterm-256color'' ptyRows ptyCols, ''request pty''), (AskStdin, ''stdin pipe''),
                          (AskStdout, ''stdout pipe''), (AskShell, ''start shell'')]
                         ((ask AskSession w2)\<lparr>hd_session := True\<rparr>))))"

definition terminal_Resize :: "int \<Rightarrow> int \<Rightarrow> handles \<Rightarrow> handles" where
  "terminal_Resize cols rows w = ask (AskWindow rows cols) w"

definition terminal_Close :: "handles \<Rightarrow> handles" where
  "terminal_Close w = close_client (close_session w)"

section \<open>The tailnet node\<close>

record tailnet_config =
  tn_Hostname :: string
  tn_AuthKey :: string
  tn_StateDir :: string

record tsnet_server =
  ts_Hostname :: string
  ts_AuthKey :: string
  ts_Ephemeral :: bool
  ts_Dir :: string

text \<open>\<open>up\<close> starts the node and waits until it has joined; a node that did not is closed again.\<close>

definition tailnet_New ::
  "(tsnet_server \<Rightarrow> 'w \<Rightarrow> string option \<times> 'w) \<Rightarrow> (tsnet_server \<Rightarrow> 'w \<Rightarrow> 'w) \<Rightarrow> tailnet_config \<Rightarrow> 'w \<Rightarrow>
   (string + tsnet_server) \<times> 'w" where
  "tailnet_New up close_srv cfg w =
     (if tn_AuthKey cfg = [] then (Inl (utf8 [116, 97, 105, 108, 110, 101, 116, 58, 32, 97, 117, 116, 104, 107, 101, 121, 32, 234, 176, 128, 32, 235, 185, 132, 236, 150, 180, 32, 236, 158, 136, 236, 157, 140]), w)
      else
        (let srv = \<lparr>ts_Hostname = tn_Hostname cfg, ts_AuthKey = tn_AuthKey cfg, ts_Ephemeral = True, ts_Dir = tn_StateDir cfg\<rparr>;
             (e, w1) = up srv w
         in case e of
              Some x \<Rightarrow> (Inl (utf8 [116, 97, 105, 108, 110, 101, 116, 58, 32, 235, 133, 184, 235, 147, 156, 32, 234, 184, 176, 235, 143, 153, 32, 236, 139, 164, 237, 140, 168, 58, 32] @ x), close_srv srv w1)
            | None \<Rightarrow> (Inr srv, w1)))"

section \<open>The handlers after the upgrade\<close>

text \<open>
  The counters of terminals, per provider: connections made, and connections ended by reason. The
  failure to reach the machine is shown to the browser as text.
\<close>

record term_metrics =
  mt_established :: "string \<Rightarrow> nat"
  mt_drops :: "string \<times> string \<Rightarrow> nat"

definition inc_established :: "string \<Rightarrow> term_metrics \<Rightarrow> term_metrics" where
  "inc_established p m = m\<lparr>mt_established := (mt_established m)(p := Suc (mt_established m p))\<rparr>"

definition inc_drops :: "string \<Rightarrow> string \<Rightarrow> term_metrics \<Rightarrow> term_metrics" where
  "inc_drops p r m = m\<lparr>mt_drops := (mt_drops m)((p, r) := Suc (mt_drops m (p, r)))\<rparr>"

text \<open>
  A served terminal: what the browser is sent, what the machine is sent, and the counters. \<open>Inl\<close> is a
  machine that cannot be reached, \<open>Inr\<close> the frames and reads of the connection; a connection still
  waiting for the machine has not reached the last counter.
\<close>

definition serve_terminal ::
  "string \<Rightarrow> string \<Rightarrow> bool \<Rightarrow> (string \<Rightarrow> resizeFrame option) \<Rightarrow> bool \<Rightarrow> int \<Rightarrow> int \<Rightarrow>
   string + (ws_frame \<times> bool) list \<times> (string \<times> read_err option \<times> bool \<times> bool) list \<Rightarrow> term_metrics \<Rightarrow>
   vm_act list \<times> ws_frame list \<times> term_metrics" where
  "serve_terminal provider notice v2 unmarshal canResize pinnedCols pinnedRows machine m =
     (let m1 = inc_established provider m in
      case machine of
        Inl e \<Rightarrow>
          ([], [TextMessage ([CHR 0x0D, CHR 0x0A] @ ''['' @ notice @ '': '' @ e @ '']'' @ [CHR 0x0D, CHR 0x0A])],
           inc_drops provider ''error'' m1)
      | Inr (frames, vmReads) \<Rightarrow>
          (let (acts, out, reason) = proxyTerminal v2 unmarshal canResize pinnedCols pinnedRows frames vmReads
           in (acts, out, case reason of None \<Rightarrow> m1 | Some r \<Rightarrow> inc_drops provider r m1)))"

text \<open>The serial console of a KubeVirt machine cannot be resized and has a fixed size.\<close>

definition serve_serial ::
  "bool \<Rightarrow> (string \<Rightarrow> resizeFrame option) \<Rightarrow>
   string + (ws_frame \<times> bool) list \<times> (string \<times> read_err option \<times> bool \<times> bool) list \<Rightarrow> term_metrics \<Rightarrow>
   vm_act list \<times> ws_frame list \<times> term_metrics" where
  "serve_serial v2 unmarshal =
     serve_terminal ''kubevirt'' (utf8 [86, 77, 32, 236, 189, 152, 236, 134, 148, 32, 236, 151, 176, 234, 178, 176, 32, 236, 139, 164, 237, 140, 168]) v2 unmarshal False serialConsoleCols serialConsoleRows"

text \<open>The shell of an EC2 instance, with the account of the configuration.\<close>

definition serve_shell ::
  "bool \<Rightarrow> (string \<Rightarrow> resizeFrame option) \<Rightarrow> (ssh_ask \<Rightarrow> string option) \<Rightarrow> string \<Rightarrow> string \<Rightarrow> bool \<Rightarrow> string \<Rightarrow>
   (ws_frame \<times> bool) list \<times> (string \<times> read_err option \<times> bool \<times> bool) list \<Rightarrow> handles \<times> term_metrics \<Rightarrow>
   (vm_act list \<times> ws_frame list) \<times> handles \<times> term_metrics" where
  "serve_shell v2 unmarshal server user password ec2Dial addr traffic wm =
     (let (e, w1) = DialTerminal server addr
            \<lparr>tc_User = user, tc_Password = password, tc_Port = [], tc_Timeout = 0, tc_Dial = ec2Dial\<rparr> (fst wm);
          (acts, out, m1) = serve_terminal ''ec2'' (utf8 [86, 77, 32, 237, 132, 176, 235, 175, 184, 235, 132, 144, 32, 236, 151, 176, 234, 178, 176, 32, 236, 139, 164, 237, 140, 168]) v2 unmarshal True 0 0
            (case e of Some x \<Rightarrow> Inl x | None \<Rightarrow> Inr traffic) (snd wm)
      in ((acts, out), (if e = None then terminal_Close w1 else w1), m1))"

section \<open>Handles\<close>

lemmas handle_ops = ask_def close_conn_def close_client_def close_session_def nothing_open_def

lemma session_requests_handles:
  assumes "session_requests server as w = (e, w')"
  shows "(e \<noteq> None \<longrightarrow> nothing_open w') \<and>
    (e = None \<longrightarrow> hd_conn w' = hd_conn w \<and> hd_client w' = hd_client w \<and> hd_session w' = hd_session w)"
  using assms
  by (induction server as w rule: session_requests.induct) (auto simp: handle_ops split: option.splits)

lemma DialTerminal_handles:
  assumes "DialTerminal server host tc w = (e, w')" "nothing_open w"
  shows "(e \<noteq> None \<longrightarrow> nothing_open w') \<and> (e = None \<longrightarrow> hd_conn w' \<and> hd_client w' \<and> hd_session w')"
  using assms session_requests_handles
  by (fastforce simp: DialTerminal_def Let_def handle_ops split: option.splits)

text \<open>
  Opening a terminal leaks nothing. When any step fails, from the dial to the start of the shell, the
  session, the client and the connection opened so far are closed again; when all succeed they are open
  until the terminal is closed, which closes all three. With nothing configured the dial goes to port 22
  of the host and is bounded by ten seconds.
\<close>

theorem dial_terminal_leaks_nothing:
  assumes "nothing_open w" "DialTerminal server host tc w = (e, w')"
  shows "(e \<noteq> None \<longrightarrow> nothing_open w') \<and> (e = None \<longrightarrow> hd_conn w' \<and> hd_client w' \<and> hd_session w') \<and>
    nothing_open (terminal_Close w') \<and>
    (tc_Port tc = [] \<and> tc_Timeout tc \<le> 0 \<longrightarrow>
       (\<exists>asks. hd_log w' = hd_log w @ AskDial (tc_Dial tc) (JoinHostPort host ''22'') (10 * second) # asks))"
proof -
  have log: "session_requests server as v = (x, v') \<Longrightarrow> \<exists>asks. hd_log v' = hd_log v @ asks" for as v x v'
    by (induction server as v rule: session_requests.induct) (fastforce simp: handle_ops split: option.splits)+
  have "tc_Port tc = [] \<and> tc_Timeout tc \<le> 0 \<longrightarrow>
       (\<exists>asks. hd_log w' = hd_log w @ AskDial (tc_Dial tc) (JoinHostPort host ''22'') (10 * second) # asks)"
    using assms(2) log
    by (fastforce simp: DialTerminal_def Let_def handle_ops defaultSSHPort_def split: option.splits)
  then show ?thesis using DialTerminal_handles [OF assms(2,1)]
    by (auto simp: terminal_Close_def handle_ops)
qed

definition plain_terminal :: TerminalConfig where
  "plain_terminal = \<lparr>tc_User = ''lab'', tc_Password = ''lab'', tc_Port = [], tc_Timeout = 0, tc_Dial = True\<rparr>"

definition no_handles :: handles where
  "no_handles = \<lparr>hd_conn = False, hd_client = False, hd_session = False, hd_log = []\<rparr>"

definition no_shell :: "ssh_ask \<Rightarrow> string option" where
  "no_shell a = (if a = AskShell then Some ''exit 1'' else None)"

theorem dial_terminal_leaks_nothing_witness:
  "nothing_open (snd (DialTerminal no_shell ''lab-0badcafe'' plain_terminal no_handles)) \<and>
   fst (DialTerminal no_shell ''lab-0badcafe'' plain_terminal no_handles) = Some ''start shell: exit 1''"
proof -
  have "fst (DialTerminal no_shell ''lab-0badcafe'' plain_terminal no_handles) = Some ''start shell: exit 1''"
    by code_simp
  moreover have "nothing_open no_handles" by (simp add: nothing_open_def no_handles_def)
  ultimately show ?thesis
    using dial_terminal_leaks_nothing [of no_handles no_shell "''lab-0badcafe''" plain_terminal] by (metis option.distinct(1) prod.collapse)
qed

section \<open>Every terminal is counted once\<close>

lemma vm_loop_reason: "vm_loop rs = (out, Some r) \<Longrightarrow> r \<in> {''normal'', ''error''}"
  by (induction rs arbitrary: out) (auto simp: Let_def split: if_splits prod.splits option.splits)

definition balanced :: "term_metrics \<Rightarrow> bool" where
  "balanced m \<longleftrightarrow> (\<forall>p. mt_established m p = mt_drops m (p, ''normal'') + mt_drops m (p, ''error''))"

lemma serve_terminal_balanced:
  assumes "balanced m" "serve_terminal p notice v2 um cr c r machine m = (acts, out, m')"
    and "\<forall>frames rs. machine = Inr (frames, rs) \<longrightarrow> snd (vm_loop rs) \<noteq> None"
  shows "balanced m'"
proof (cases machine)
  case (Inl e)
  then show ?thesis using assms(1,2)
    by (auto simp: serve_terminal_def balanced_def inc_established_def inc_drops_def)
next
  case (Inr fr)
  obtain frames rs where fr: "fr = (frames, rs)" by (cases fr)
  then obtain out' x where v: "vm_loop rs = (out', Some x)"
    using assms(3) Inr by (metis option.exhaust prod.collapse)
  then show ?thesis using assms(1,2) vm_loop_reason [OF v] Inr fr
    by (auto simp: serve_terminal_def proxyTerminal_def balanced_def inc_established_def inc_drops_def
        split: prod.splits)
qed

section \<open>Pings, pongs and deadlines\<close>

definition terminalPingPeriod :: duration where "terminalPingPeriod = 20 * second"

definition terminalPongWait :: duration where "terminalPongWait = 60 * second"

text \<open>The time a ping may take to be written.\<close>

definition pingWriteWait :: duration where "pingWriteWait = 5 * second"

text \<open>
  The goroutine that reads the browser waits for a frame, is busy with one (writing it to the machine, or
  asking it for another size), or has ended.
\<close>

datatype reader_phase = Reading | Busy | Ended

text \<open>
  The state the goroutines of one terminal share: the clock, the read deadline of the socket, whether
  socket and machine connection are open, the goroutine that reads the browser, whether the one that pings
  still runs, when the ticker fires next, whether the main loop is inside a write to the browser, how many
  more reads can give data once the connection to the machine is closed (what was received and
  not yet read), the disconnect flag, and the reason once the handler has
  returned. Four more fields only record: the last pong (or the start), the pings written since, whether
  the browser goroutine ended because the machine refused a write on an open connection, and the last
  moment at which this goroutine was busy.
\<close>

record tproxy =
  tp_now :: go_time
  tp_deadline :: go_time
  tp_wsOpen :: bool
  tp_connOpen :: bool
  tp_reader :: reader_phase
  tp_pinger :: bool
  tp_nextPing :: go_time
  tp_writing :: bool
  tp_left :: nat
  clientDisconnected :: bool
  tp_reason :: "string option"
  tp_lastPong :: go_time
  tp_pings :: nat
  tp_refused :: bool
  tp_busy :: go_time

definition tproxy_start :: "nat \<Rightarrow> go_time \<Rightarrow> tproxy" where
  "tproxy_start n t =
     \<lparr>tp_now = t, tp_deadline = t + terminalPongWait, tp_wsOpen = True, tp_connOpen = True, tp_reader = Reading,
      tp_pinger = True, tp_nextPing = t + terminalPingPeriod, tp_writing = False, tp_left = n, clientDisconnected = False,
      tp_reason = None, tp_lastPong = t, tp_pings = 0, tp_refused = False, tp_busy = t\<rparr>"

definition pong_handler :: "tproxy \<Rightarrow> tproxy" where
  "pong_handler p = p\<lparr>tp_deadline := tp_now p + terminalPongWait, tp_lastPong := tp_now p, tp_pings := 0\<rparr>"

text \<open>The four turns of the goroutine that reads the browser: a failed read, a frame, and its two ends.\<close>

definition reader_error :: "tproxy \<Rightarrow> tproxy" where
  "reader_error p = p\<lparr>clientDisconnected := True, tp_connOpen := False, tp_reader := Ended\<rparr>"

definition reader_frame :: "tproxy \<Rightarrow> tproxy" where
  "reader_frame p = p\<lparr>tp_reader := Busy\<rparr>"

definition reader_written :: "tproxy \<Rightarrow> tproxy" where
  "reader_written p = p\<lparr>tp_reader := Reading\<rparr>"

definition reader_refused :: "tproxy \<Rightarrow> tproxy" where
  "reader_refused p = p\<lparr>tp_reader := Ended, tp_refused := tp_refused p \<or> tp_connOpen p\<rparr>"

definition ping_tick :: "bool \<Rightarrow> tproxy \<Rightarrow> tproxy" where
  "ping_tick ok p =
     (if ok then p\<lparr>tp_nextPing := tp_nextPing p + terminalPingPeriod, tp_pings := Suc (tp_pings p)\<rparr>
      else p\<lparr>tp_wsOpen := False, tp_connOpen := False, tp_pinger := False\<rparr>)"

text \<open>
  The main loop writes to the browser, without a time limit: the write deadline was cleared. What it writes it has
  read from the machine; from a connection that was closed there are only the reads that were left.
\<close>

definition vm_output :: "tproxy \<Rightarrow> tproxy" where
  "vm_output p = p\<lparr>tp_writing := True, tp_left := (if tp_connOpen p then tp_left p else tp_left p - 1)\<rparr>"

text \<open>
  The handler returns: the deferred calls stop the pings and close the machine's connection, and those of
  the caller close the socket.
\<close>

definition proxy_return :: "string \<Rightarrow> tproxy \<Rightarrow> tproxy" where
  "proxy_return r p = p\<lparr>tp_reason := Some r, tp_pinger := False, tp_connOpen := False, tp_wsOpen := False, tp_writing := False\<rparr>"

definition vm_read_error :: "read_err \<Rightarrow> tproxy \<Rightarrow> tproxy" where
  "vm_read_error e p = proxy_return (if e = EOF \<or> clientDisconnected p then ''normal'' else ''error'') p"

text \<open>
  One step. The browser goroutine gets a pong or a frame, hands the frame on or has it refused by the machine,
  or fails to read: because the peer closed, because the socket was closed here, or because the deadline
  passed. A ping needs the lock that a write in progress holds; when it does not get it in five seconds, it
  fails. The main loop starts and ends a write, and ends on an error of the machine or of the socket.

  Time passes only while nothing is due: the goroutine does not wait for a frame on a closed socket or beyond
  the deadline, nor for the machine on a closed connection; a read from a closed connection and a write to a
  closed socket return; and a ping is done five seconds after its tick. Nothing bounds how long a machine
  takes for a write, or a browser.
\<close>

inductive tproxy_step :: "tproxy \<Rightarrow> tproxy \<Rightarrow> bool" where
  pong: "tp_reader p = Reading \<Longrightarrow> tp_wsOpen p \<Longrightarrow> tproxy_step p (pong_handler p)"
| frame: "tp_reader p = Reading \<Longrightarrow> tproxy_step p (reader_frame p)"
| written: "tp_reader p = Busy \<Longrightarrow> tproxy_step p (reader_written p)"
| refused: "tp_reader p = Busy \<Longrightarrow> tproxy_step p (reader_refused p)"
| read_error: "tp_reader p = Reading \<Longrightarrow> tproxy_step p (reader_error p)"
| ping: "tp_pinger p \<Longrightarrow> tp_nextPing p \<le> tp_now p \<Longrightarrow> (ok \<longrightarrow> \<not> tp_writing p) \<Longrightarrow> tproxy_step p (ping_tick ok p)"
| vm_data: "tp_reason p = None \<Longrightarrow> \<not> tp_writing p \<Longrightarrow> tp_wsOpen p \<Longrightarrow> tp_connOpen p \<or> 0 < tp_left p \<Longrightarrow>
    tproxy_step p (vm_output p)"
| ws_written: "tp_writing p \<Longrightarrow> tproxy_step p (p\<lparr>tp_writing := False\<rparr>)"
| vm_error: "tp_reason p = None \<Longrightarrow> \<not> tp_writing p \<Longrightarrow> tproxy_step p (vm_read_error e p)"
| ws_error: "tp_reason p = None \<Longrightarrow> tproxy_step p (proxy_return ''normal'' p)"
| pass: "tp_now p \<le> t \<Longrightarrow>
    (tp_reader p = Reading \<longrightarrow> t \<le> tp_deadline p \<and> tp_wsOpen p) \<Longrightarrow>
    (tp_reader p = Busy \<longrightarrow> tp_connOpen p) \<Longrightarrow>
    (tp_reason p = None \<longrightarrow> (if tp_writing p then tp_wsOpen p else tp_connOpen p)) \<Longrightarrow>
    (tp_pinger p \<longrightarrow> t \<le> tp_nextPing p + pingWriteWait) \<Longrightarrow>
    tproxy_step p (p\<lparr>tp_now := t, tp_busy := (if tp_reader p = Busy then t else tp_busy p)\<rparr>)"

inductive_cases tproxy_stepE: "tproxy_step p p'"

inductive tproxy_reachable :: "nat \<Rightarrow> tproxy \<Rightarrow> bool" for n where
  start: "tproxy_reachable n (tproxy_start n t)"
| step: "tproxy_reachable n p \<Longrightarrow> tproxy_step p p' \<Longrightarrow> tproxy_reachable n p'"

lemmas tproxy_ops = tproxy_start_def pong_handler_def reader_error_def reader_frame_def reader_written_def
  reader_refused_def ping_tick_def vm_output_def proxy_return_def vm_read_error_def
lemmas tproxy_times = terminalPingPeriod_def terminalPongWait_def pingWriteWait_def second_def

text \<open>The moment by which the goroutine that reads the browser has noticed that there are no pongs.\<close>

abbreviation noticed :: "tproxy \<Rightarrow> go_time" where
  "noticed p \<equiv> max (tp_lastPong p + terminalPongWait) (tp_busy p)"

abbreviation writeWait :: duration where
  "writeWait \<equiv> terminalPingPeriod + pingWriteWait"

definition pings_inv :: "tproxy \<Rightarrow> bool" where
  "pings_inv p \<longleftrightarrow>
     tp_deadline p = tp_lastPong p + terminalPongWait \<and> tp_lastPong p \<le> tp_now p \<and>
     (tp_pinger p \<longrightarrow>
        tp_nextPing p \<le> tp_now p + terminalPingPeriod \<and> tp_now p \<le> tp_nextPing p + pingWriteWait \<and>
        tp_nextPing p \<le> tp_lastPong p + (int (tp_pings p) + 1) * terminalPingPeriod)"

definition ends_inv :: "tproxy \<Rightarrow> bool" where
  "ends_inv p \<longleftrightarrow>
     (tp_reader p = Ended \<and> \<not> tp_refused p \<longrightarrow> \<not> tp_connOpen p) \<and>
     (tp_reason p = None \<and> tp_wsOpen p \<longrightarrow> tp_pinger p) \<and>
     (\<not> tp_wsOpen p \<longrightarrow> \<not> tp_connOpen p) \<and>
     (\<forall>r. tp_reason p = Some r \<longrightarrow>
        r \<in> {''normal'', ''error''} \<and> \<not> tp_connOpen p \<and> \<not> tp_wsOpen p \<and> \<not> tp_pinger p \<and> \<not> tp_writing p)"

text \<open>
  How late it can be while the handler runs: with an open connection no later than the goroutine notices;
  with a closed one, each write that is under way or still to come can take until the next ping has failed.
\<close>

definition late_inv :: "nat \<Rightarrow> tproxy \<Rightarrow> bool" where
  "late_inv n p \<longleftrightarrow> tp_left p \<le> n \<and> (tp_reason p = None \<and> \<not> tp_refused p \<longrightarrow>
     (if tp_connOpen p then tp_now p \<le> noticed p \<and> tp_left p = n
      else tp_now p \<le> noticed p + writeWait * (1 + int (n - tp_left p)) \<and>
        (tp_writing p \<and> tp_wsOpen p \<longrightarrow> tp_nextPing p \<le> noticed p + writeWait * int (n - tp_left p) + terminalPingPeriod)))"

lemma pings_inv_step: "tproxy_step p p' \<Longrightarrow> pings_inv p \<Longrightarrow> pings_inv p'"
  by (erule tproxy_stepE) (auto simp: pings_inv_def tproxy_ops tproxy_times algebra_simps split: if_splits)

lemma ends_inv_step: "tproxy_step p p' \<Longrightarrow> ends_inv p \<Longrightarrow> ends_inv p'"
  by (erule tproxy_stepE) (auto simp: ends_inv_def tproxy_ops split: if_splits)

lemma late_inv_step:
  assumes "tproxy_step p p'" "pings_inv p" "ends_inv p" "late_inv n p"
  shows "late_inv n p'"
proof -
  have left: "int (n - tp_left p) = int n - int (tp_left p)" "int (n - (tp_left p - 1)) = int n - int (tp_left p) + 1"
    if "0 < tp_left p" using that assms(4) by (auto simp: late_inv_def)
  note defs = pings_inv_def ends_inv_def late_inv_def tproxy_ops tproxy_times
  show ?thesis using assms(1)
  proof (rule tproxy_stepE)
    fix t
    assume "p' = p\<lparr>tp_now := t, tp_busy := (if tp_reader p = Busy then t else tp_busy p)\<rparr>" "tp_now p \<le> t"
      "tp_reader p = Reading \<longrightarrow> t \<le> tp_deadline p \<and> tp_wsOpen p" "tp_reader p = Busy \<longrightarrow> tp_connOpen p"
      "tp_reason p = None \<longrightarrow> (if tp_writing p then tp_wsOpen p else tp_connOpen p)"
      "tp_pinger p \<longrightarrow> t \<le> tp_nextPing p + pingWriteWait"
    then show ?thesis using assms(2-4) by (cases "tp_reader p") (auto simp: defs split: if_splits)
  next
    assume "p' = vm_output p" "tp_reason p = None" "\<not> tp_writing p" "tp_wsOpen p" "tp_connOpen p \<or> 0 < tp_left p"
    then show ?thesis using assms(2-4) left by (cases "tp_connOpen p") (auto simp: defs)
  qed (use assms(2-4) in \<open>auto simp: defs split: if_splits\<close>)
qed

lemma tproxy_invariant: "tproxy_reachable n p \<Longrightarrow> pings_inv p \<and> ends_inv p \<and> late_inv n p"
proof (induction rule: tproxy_reachable.induct)
  case (start t)
  then show ?case by (simp add: pings_inv_def ends_inv_def late_inv_def tproxy_ops tproxy_times)
next
  case (step p p')
  then show ?case using pings_inv_step ends_inv_step late_inv_step by blast
qed




text \<open>
  The exceptions are real. When the machine refuses one write, the goroutine that reads the browser stops
  without closing anything, and with it the only one that reads pongs and notices the deadline; when
  a write to the machine does not return, it notices nothing either. However long the peer then stays
  silent, the handler can still be running and hold its slot.
\<close>

lemma no_reader_runs_on:
  assumes "ph \<noteq> Reading"
  shows "\<exists>p. tproxy_reachable n p \<and> tp_reason p = None \<and> tp_connOpen p \<and> tp_pinger p \<and> \<not> tp_writing p \<and> tp_reader p = ph \<and>
       tp_lastPong p = 0 \<and> tp_now p = int k * terminalPingPeriod \<and>
       tp_nextPing p = (int k + 1) * terminalPingPeriod"
proof (induction k)
  case 0
  let ?p = "reader_frame (tproxy_start n 0)"
  have busy: "tproxy_reachable n ?p"
    by (rule tproxy_reachable.step [OF tproxy_reachable.start tproxy_step.frame]) (simp add: tproxy_start_def)
  then have ended: "tproxy_reachable n (reader_refused ?p)"
    by (rule tproxy_reachable.step [OF _ tproxy_step.refused]) (simp add: reader_frame_def)
  show ?case
  proof (cases ph)
    case Busy
    then show ?thesis using busy by (intro exI [of _ ?p]) (simp add: tproxy_ops)
  next
    case Ended
    then show ?thesis using ended by (intro exI [of _ "reader_refused ?p"]) (simp add: tproxy_ops)
  qed (use assms in simp)
next
  case (Suc k)
  then obtain p where p: "tproxy_reachable n p" "tp_reason p = None" "tp_connOpen p" "tp_pinger p" "\<not> tp_writing p" "tp_reader p = ph"
    "tp_lastPong p = 0" "tp_now p = int k * terminalPingPeriod" "tp_nextPing p = (int k + 1) * terminalPingPeriod" by blast
  let ?q = "p\<lparr>tp_now := tp_nextPing p, tp_busy := (if tp_reader p = Busy then tp_nextPing p else tp_busy p)\<rparr>"
  have "tproxy_reachable n ?q"
    by (rule tproxy_reachable.step [OF p(1)], rule tproxy_step.pass) (use assms in \<open>simp_all add: p tproxy_times\<close>)
  then have "tproxy_reachable n (ping_tick True ?q)"
    by (rule tproxy_reachable.step, intro tproxy_step.ping) (simp_all add: p)
  then show ?case by (intro exI [of _ "ping_tick True ?q"]) (simp add: p ping_tick_def algebra_simps)
qed

theorem refused_write_outlives_deadline:
  "\<exists>p. tproxy_reachable m p \<and> tp_reason p = None \<and> tp_reader p = Ended \<and> int n * second < tp_now p - tp_lastPong p"
  "\<exists>p. tproxy_reachable m p \<and> tp_reason p = None \<and> tp_reader p = Busy \<and> int n * second < tp_now p - tp_lastPong p"
proof -
  have long: "int n * second < int (Suc n) * terminalPingPeriod" by (simp add: tproxy_times)
  show "\<exists>p. tproxy_reachable m p \<and> tp_reason p = None \<and> tp_reader p = Ended \<and> int n * second < tp_now p - tp_lastPong p"
    using no_reader_runs_on [of Ended m "Suc n"] long by fastforce
  show "\<exists>p. tproxy_reachable m p \<and> tp_reason p = None \<and> tp_reader p = Busy \<and> int n * second < tp_now p - tp_lastPong p"
    using no_reader_runs_on [of Busy m "Suc n"] long by fastforce
qed

end
