(* ===== verification/Observability.thy ===== *)
theory Observability
  imports Router Live_Terminal
begin

text \<open>
  The outer middleware of the router: \<open>Logger\<close>, \<open>Metrics\<close> and \<open>Tracing\<close> of
  \<open>src/apps/api/internal/middleware\<close>, the CORS settings of \<open>router.go\<close> and the series that
  \<open>newHandlerMetrics\<close> registers. A handler either returns or panics; \<open>gin.Recovery\<close> and the tracing
  library are arguments. \<open>FullPath\<close> is the template of the matched route, from the tables of \<open>Router\<close>.
\<close>

section \<open>A request on its way through the middleware\<close>

datatype ending = Returned | Panicked string

type_synonym labels = "string \<times> string \<times> string"

record log_line =
  ll_method :: string
  ll_path :: string
  ll_status :: int
  ll_latency :: duration

text \<open>The response so far, the clock, and what was recorded; \<open>g_rest\<close> is the state of the handlers.\<close>

record 's gin =
  g_status :: int
  g_written :: bool
  g_clock :: go_time
  g_total :: "labels \<Rightarrow> nat"
  g_durations :: "(labels \<times> duration) list"
  g_log :: "log_line list"
  g_rest :: 's

type_synonym 's chain = "'s gin \<Rightarrow> ending \<times> 's gin"

record http_req =
  hq_method :: string
  hq_URL_Path :: string
  hq_FullPath :: string

definition inc_total :: "labels \<Rightarrow> 's gin \<Rightarrow> 's gin" where
  "inc_total l g = g\<lparr>g_total := (g_total g)(l := Suc (g_total g l))\<rparr>"

definition observe_duration :: "labels \<Rightarrow> duration \<Rightarrow> 's gin \<Rightarrow> 's gin" where
  "observe_duration l d g = g\<lparr>g_durations := g_durations g @ [(l, d)]\<rparr>"

text \<open>
  The deferred function of \<open>Metrics\<close>: a panic is noted as status 500 and raised again, the scrape
  endpoint is not counted.
\<close>

definition Metrics :: "http_req \<Rightarrow> 's chain \<Rightarrow> 's chain" where
  "Metrics c Next g =
     (let start = g_clock g; (rec, g1) = Next g in
      if hq_FullPath c = ''/metrics'' then (rec, g1)
      else
        (let path = (if hq_FullPath c = [] then ''<unmatched>'' else hq_FullPath c);
             status = (case rec of Panicked _ \<Rightarrow> 500 | Returned \<Rightarrow> g_status g1);
             l = (hq_method c, path, Itoa status)
         in (rec, observe_duration l (g_clock g1 - start) (inc_total l g1))))"

text \<open>\<open>Logger\<close> has no deferred function: a panic passes it by.\<close>

definition Logger :: "http_req \<Rightarrow> 's chain \<Rightarrow> 's chain" where
  "Logger c Next g =
     (let start = g_clock g; path = hq_URL_Path c; (rec, g1) = Next g in
      case rec of
        Panicked _ \<Rightarrow> (rec, g1)
      | Returned \<Rightarrow>
          (Returned, g1\<lparr>g_log := g_log g1 @ [\<lparr>ll_method = hq_method c, ll_path = path, ll_status = g_status g1,
             ll_latency = g_clock g1 - start\<rparr>]\<rparr>))"

definition excludedFromTracing :: "string \<Rightarrow> bool" where
  "excludedFromTracing p \<longleftrightarrow> p \<in> {''/health'', ''/ready'', ''/metrics''}"

text \<open>\<open>otel\<close> is the middleware of the tracing library, which calls its filter first.\<close>

definition Tracing :: "('s chain \<Rightarrow> 's chain) \<Rightarrow> http_req \<Rightarrow> 's chain \<Rightarrow> 's chain" where
  "Tracing otel c Next = (if excludedFromTracing (hq_URL_Path c) then Next else otel Next)"

text \<open>The chain of \<open>NewRouter\<close>; \<open>h\<close> is the rest of it, CORS and the handlers of the route.\<close>

definition middleware_chain :: "('s chain \<Rightarrow> 's chain) \<Rightarrow> ('s chain \<Rightarrow> 's chain) \<Rightarrow> http_req \<Rightarrow> 's chain \<Rightarrow> 's chain" where
  "middleware_chain recovery otel c h = recovery (Logger c (Metrics c (Tracing otel c h)))"

section \<open>Route templates\<close>

definition seg_text :: "bool \<Rightarrow> seg \<Rightarrow> string" where
  "seg_text adm s = ''/'' @ (case s of Lit l \<Rightarrow> l | Param \<Rightarrow> (if adm then '':uid'' else '':id'') | Rest \<Rightarrow> ''*idepath'')"

definition template_of :: "seg list \<Rightarrow> string" where
  "template_of ps = concat (map (seg_text (Lit ''admin'' \<in> set ps)) ps)"

text \<open>The routes of gin, with the scrape endpoint.\<close>

definition gin_routes :: "bool \<Rightarrow> (string list \<times> seg list) list" where
  "gin_routes release =
     ([''GET''], [Lit ''metrics'']) # map (\<lambda>(ms, ps, f). (ms, ps)) (public_table @ user_table release @ admin_table)"

definition FullPath :: "bool \<Rightarrow> string \<Rightarrow> string list \<Rightarrow> string" where
  "FullPath release m path =
     (case find (\<lambda>(ms, ps). m \<in> set ms \<and> match_segs ps path \<noteq> None) (gin_routes release) of
        None \<Rightarrow> []
      | Some (ms, ps) \<Rightarrow> template_of ps)"

definition request_for :: "bool \<Rightarrow> string \<Rightarrow> string list \<Rightarrow> http_req" where
  "request_for release m path =
     \<lparr>hq_method = m, hq_URL_Path = concat (map (\<lambda>s. ''/'' @ s) path), hq_FullPath = FullPath release m path\<rparr>"

lemma template_nonempty: "r \<in> set (gin_routes release) \<Longrightarrow> template_of (snd r) \<noteq> []"
proof -
  have "\<forall>r\<in>set (gin_routes release). snd r \<noteq> []"
    by (simp add: gin_routes_def public_table_def user_table_def admin_table_def api_v1_def)
  then show "r \<in> set (gin_routes release) \<Longrightarrow> template_of (snd r) \<noteq> []"
    by (cases "snd r") (auto simp: template_of_def seg_text_def)
qed

lemma FullPath_route:
  "case find (\<lambda>(ms, ps). m \<in> set ms \<and> match_segs ps path \<noteq> None) (gin_routes release) of
     None \<Rightarrow> FullPath release m path = []
   | Some (ms, ps) \<Rightarrow> FullPath release m path = template_of ps \<and> template_of ps \<noteq> []"
proof (cases "find (\<lambda>(ms, ps). m \<in> set ms \<and> match_segs ps path \<noteq> None) (gin_routes release)")
  case (Some r)
  then have "r \<in> set (gin_routes release)" by (metis (no_types, lifting) find_Some_iff nth_mem)
  from template_nonempty [OF this] Some show ?thesis by (cases r) (simp add: FullPath_def)
qed (simp add: FullPath_def)

lemma template_examples:
  "FullPath True ''GET'' [''api'', ''v1'', ''sessions'', ''abc'', ''steps''] = ''/api/v1/sessions/:id/steps''"
  "FullPath True ''GET'' [''api'', ''v1'', ''admin'', ''users'', ''u1'', ''activity''] = ''/api/v1/admin/users/:uid/activity''"
  "FullPath True ''GET'' [''metrics''] = ''/metrics''"
  "FullPath True ''GET'' [''wp-admin''] = []"
  by (simp_all add: FullPath_def gin_routes_def public_table_def user_table_def admin_table_def api_v1_def any_methods_def
      template_of_def seg_text_def)

section \<open>What is counted\<close>

text \<open>
  The contract of \<open>gin.Recovery\<close>: without a panic it changes nothing, after one it has written
  status 500 unless a response was under way, and it never panics itself.
\<close>

definition recovery_contract :: "('s chain \<Rightarrow> 's chain) \<Rightarrow> bool" where
  "recovery_contract recovery \<longleftrightarrow>
     (\<forall>Next g. case Next g of
        (Returned, g1) \<Rightarrow> recovery Next g = (Returned, g1)
      | (Panicked e, g1) \<Rightarrow>
          recovery Next g = (Returned, if g_written g1 then g1 else g1\<lparr>g_status := 500, g_written := True\<rparr>))"

text \<open>The contract of the parts further in: they leave the records of the outer middleware alone.\<close>

definition quiet_chain :: "'s chain \<Rightarrow> bool" where
  "quiet_chain h \<longleftrightarrow>
     (\<forall>g. g_total (snd (h g)) = g_total g \<and> g_durations (snd (h g)) = g_durations g \<and> g_log (snd (h g)) = g_log g)"

text \<open>The labels under which \<open>Metrics\<close> counts a request that ends in a given way.\<close>

definition metric_labels :: "http_req \<Rightarrow> ending \<Rightarrow> int \<Rightarrow> labels" where
  "metric_labels c r status =
     (hq_method c, if hq_FullPath c = [] then ''<unmatched>'' else hq_FullPath c,
      Itoa (case r of Panicked _ \<Rightarrow> 500 | Returned \<Rightarrow> status))"

lemma Metrics_effect:
  assumes "h g = (r, g1)"
  obtains g2 where "Metrics c h g = (r, g2)" "g_status g2 = g_status g1" "g_written g2 = g_written g1" "g_log g2 = g_log g1"
    "g_clock g2 = g_clock g1"
    "hq_FullPath c = ''/metrics'' \<Longrightarrow> g_total g2 = g_total g1 \<and> g_durations g2 = g_durations g1"
    "hq_FullPath c \<noteq> ''/metrics'' \<Longrightarrow>
     g_total g2 = (g_total g1)(metric_labels c r (g_status g1) := Suc (g_total g1 (metric_labels c r (g_status g1))))
     \<and> g_durations g2 = g_durations g1 @ [(metric_labels c r (g_status g1), g_clock g1 - g_clock g)]"
proof (cases "hq_FullPath c = ''/metrics''")
  case True
  then show ?thesis using that [of g1] assms by (simp add: Metrics_def)
next
  case False
  let ?l = "metric_labels c r (g_status g1)"
  have "Metrics c h g = (r, observe_duration ?l (g_clock g1 - g_clock g) (inc_total ?l g1))"
    using False assms by (simp add: Metrics_def metric_labels_def Let_def)
  then show ?thesis using that False by (simp add: observe_duration_def inc_total_def)
qed

lemma recovery_cases:
  assumes "recovery_contract recovery"
  shows "Next g = (Returned, g1) \<Longrightarrow> recovery Next g = (Returned, g1)"
    and "Next g = (Panicked x, g1) \<Longrightarrow> recovery Next g = (Returned, if g_written g1 then g1 else g1\<lparr>g_status := 500, g_written := True\<rparr>)"
proof -
  have c: "case Next g of
        (Returned, g1) \<Rightarrow> recovery Next g = (Returned, g1)
      | (Panicked e, g1) \<Rightarrow> recovery Next g = (Returned, if g_written g1 then g1 else g1\<lparr>g_status := 500, g_written := True\<rparr>)"
    using assms by (simp add: recovery_contract_def)
  show "Next g = (Returned, g1) \<Longrightarrow> recovery Next g = (Returned, g1)" using c by simp
  show "Next g = (Panicked x, g1) \<Longrightarrow> recovery Next g = (Returned, if g_written g1 then g1 else g1\<lparr>g_status := 500, g_written := True\<rparr>)"
    using c by simp
qed


definition plain_recovery :: "unit chain \<Rightarrow> unit chain" where
  "plain_recovery Next g =
     (case Next g of
        (Returned, g1) \<Rightarrow> (Returned, g1)
      | (Panicked e, g1) \<Rightarrow> (Returned, if g_written g1 then g1 else g1\<lparr>g_status := 500, g_written := True\<rparr>))"

definition crash_handler :: "unit chain" where
  "crash_handler g = (Panicked ''nil map'', g\<lparr>g_clock := g_clock g + 3\<rparr>)"

definition fresh_gin :: "unit gin" where
  "fresh_gin = \<lparr>g_status = 200, g_written = False, g_clock = 0, g_total = (\<lambda>_. 0), g_durations = [], g_log = [], g_rest = ()\<rparr>"


section \<open>The series are not bounded\<close>

text \<open>
  The path label comes from the route table, but the method label is the word the client sent: requests with
  any words as their methods, to a path that is not routed, make one series each.
\<close>

definition not_found_handler :: "unit chain" where
  "not_found_handler g = (Returned, g\<lparr>g_status := 404, g_written := True\<rparr>)"

definition serve_word :: "string \<Rightarrow> unit gin \<Rightarrow> unit gin" where
  "serve_word m g =
     snd (Metrics \<lparr>hq_method = m, hq_URL_Path = ''/x'', hq_FullPath = FullPath True m [''x'']\<rparr> not_found_handler g)"

lemma FullPath_x: "FullPath release m [''x''] = []"
proof -
  have "\<forall>r\<in>set (gin_routes release). match_segs (snd r) [''x''] = None"
    by (simp add: gin_routes_def public_table_def user_table_def admin_table_def api_v1_def)
  then have "find (\<lambda>(ms, ps). m \<in> set ms \<and> match_segs ps [''x''] \<noteq> None) (gin_routes release) = None"
    by (auto simp: find_None_iff)
  then show ?thesis by (simp add: FullPath_def)
qed

theorem method_label_unbounded:
  "{m. g_total (fold serve_word ms fresh_gin) (m, ''<unmatched>'', ''404'') \<noteq> 0} = set ms"
proof -
  have "g_total (serve_word w g) l = (if l = (w, ''<unmatched>'', ''404'') then Suc (g_total g l) else g_total g l)" for w g l
  proof -
    have "Itoa 404 = ''404''" by code_simp
    then show ?thesis
      by (simp add: serve_word_def Metrics_def not_found_handler_def FullPath_x Let_def inc_total_def observe_duration_def)
  qed
  then have "{m. g_total (fold serve_word ms g) (m, ''<unmatched>'', ''404'') \<noteq> 0}
      = {m. g_total g (m, ''<unmatched>'', ''404'') \<noteq> 0} \<union> set ms" for g
    by (induction ms arbitrary: g) auto
  then show ?thesis by (simp add: fresh_gin_def)
qed

section \<open>The settings for other origins\<close>

record cors_config =
  co_AllowOrigins :: "string list"
  co_AllowMethods :: "string list"
  co_AllowHeaders :: "string list"
  co_AllowCredentials :: bool

definition TrimSlash :: "string \<Rightarrow> string" where
  "TrimSlash s = (if s \<noteq> [] \<and> last s = CHR ''/'' then butlast s else s)"

definition cors_of :: "string \<Rightarrow> cors_config" where
  "cors_of FrontendURL =
     \<lparr>co_AllowOrigins = [''http://localhost:3000'', TrimSlash FrontendURL],
      co_AllowMethods = [''GET'', ''POST'', ''PUT'', ''DELETE'', ''OPTIONS''],
      co_AllowHeaders = [''Origin'', ''Authorization'', ''Content-Type''], co_AllowCredentials = True\<rparr>"

text \<open>The methods of the routes that a page of another origin cannot use, beside the proxy of the IDE.\<close>

definition blocked_routes :: "bool \<Rightarrow> string \<Rightarrow> (string list \<times> seg list) list" where
  "blocked_routes release frontend =
     filter (\<lambda>(ms, ps). ms \<noteq> any_methods \<and> \<not> set ms \<subseteq> set (co_AllowMethods (cors_of frontend))) (gin_routes release)"

lemma cors_blocks_preferences:
  "blocked_routes release frontend = [([''PATCH''], [Lit ''api'', Lit ''v1'', Lit ''me'', Lit ''preferences''])]"
  by (simp add: blocked_routes_def cors_of_def gin_routes_def public_table_def user_table_def admin_table_def api_v1_def any_methods_def)

section \<open>Registered series\<close>

text \<open>The label values of each metric that exist, with value zero, from the start.\<close>

definition newHandlerMetrics :: "(string \<times> string list) list" where
  "newHandlerMetrics =
     concat (map (\<lambda>provider.
        (''ws_connection_established_total'', [provider]) #
        map (\<lambda>result. (''ws_connection_drop_total'', [provider, result])) [''normal'', ''error'']) [''kubevirt'', ''ec2''])
     @ map (\<lambda>result. (''validation_duration_seconds'', [result])) [''passed'', ''failed'']
     @ map (\<lambda>result. (''ai_hint_latency_seconds'', [result])) [''success'', ''fallback'', ''rate_limited'', ''error'']"

text \<open>The counters of the terminals, with the series that were registered.\<close>

definition registered_only :: "term_metrics \<Rightarrow> bool" where
  "registered_only m \<longleftrightarrow>
     (\<forall>p. mt_established m p \<noteq> 0 \<longrightarrow> (''ws_connection_established_total'', [p]) \<in> set newHandlerMetrics)
     \<and> (\<forall>p r. mt_drops m (p, r) \<noteq> 0 \<longrightarrow> (''ws_connection_drop_total'', [p, r]) \<in> set newHandlerMetrics)"

lemma registered_series:
  "(''ws_connection_established_total'', [p]) \<in> set newHandlerMetrics \<longleftrightarrow> p \<in> {''kubevirt'', ''ec2''}"
  "(''ws_connection_drop_total'', [p, r]) \<in> set newHandlerMetrics \<longleftrightarrow> p \<in> {''kubevirt'', ''ec2''} \<and> r \<in> {''normal'', ''error''}"
  by (auto simp: newHandlerMetrics_def)

lemma inc_registered:
  "p \<in> {''kubevirt'', ''ec2''} \<Longrightarrow> registered_only m \<Longrightarrow> registered_only (inc_established p m)"
  "p \<in> {''kubevirt'', ''ec2''} \<Longrightarrow> r \<in> {''normal'', ''error''} \<Longrightarrow> registered_only m \<Longrightarrow> registered_only (inc_drops p r m)"
  unfolding registered_only_def registered_series by (auto simp: inc_established_def inc_drops_def)

text \<open>A terminal of either provider counts only in series that were registered.\<close>

lemma serve_terminal_registered:
  assumes "p \<in> {''kubevirt'', ''ec2''}" "registered_only m"
    "serve_terminal p notice v2 um cr c r machine m = (acts, out, m')"
  shows "registered_only m'"
proof (cases machine)
  case (Inl e)
  then show ?thesis using assms inc_registered by (auto simp: serve_terminal_def)
next
  case (Inr fr)
  obtain frames rs where fr: "fr = (frames, rs)" by (cases fr)
  obtain o1 reason where v: "vm_loop rs = (o1, reason)" by fastforce
  have "m' = (case reason of None \<Rightarrow> inc_established p m | Some x \<Rightarrow> inc_drops p x (inc_established p m))"
    using assms(3) Inr fr v by (auto simp: serve_terminal_def proxyTerminal_def Let_def split: prod.splits)
  then show ?thesis using assms(1,2) inc_registered vm_loop_reason [of rs o1] v by (cases reason) auto
qed

end
