(* ===== verification/Startup.thy ===== *)
theory Startup
  imports Ec2 Clients Messages
begin

text \<open>
  What runs before and beside the handlers: the schema migrations
  (\<open>src/apps/api/internal/store/migrate.go\<close>), the checks of the configured SSH keys (\<open>config/config.go\<close>), the
  minter of tailnet keys (\<open>ec2/authkey.go\<close>), and the Kafka publisher and result consumer
  (\<open>validation/kafka.go\<close>, \<open>validation/consumer.go\<close>).

  The SQL of a migration, the SSH library, the file system and Kafka are arguments.
\<close>

section \<open>Migrations\<close>

text \<open>The recorded versions in the order they were recorded, and the schema they made.\<close>

record 'g mig_db =
  mg_versions :: "string list"
  mg_schema :: 'g

text \<open>
  \<open>fails name stage\<close> is the error of the database at that point, and \<open>lost name\<close> tells whether a failing
  commit took effect nevertheless. \<open>others name\<close> is what other replicas commit between the check of a
  version and the transaction for it.
\<close>

datatype mig_stage = CheckStage | ReadStage | BeginStage | ApplyStage | RecordStage | CommitStage

record 'g mig_env =
  mv_fails :: "string \<Rightarrow> mig_stage \<Rightarrow> string option"
  mv_lost :: "string \<Rightarrow> bool"
  mv_others :: "string \<Rightarrow> 'g mig_db \<Rightarrow> 'g mig_db"
  mv_sql :: "string \<Rightarrow> 'g \<Rightarrow> string + 'g"

definition mig_error :: "string \<Rightarrow> string \<Rightarrow> string \<Rightarrow> string" where
  "mig_error what name e = what @ '' migration '' @ name @ '': '' @ e"

definition migrate_tx :: "'g mig_env \<Rightarrow> string \<Rightarrow> 'g mig_db \<Rightarrow> string option \<times> 'g mig_db" where
  "migrate_tx env name db =
     (case mv_fails env name BeginStage of
        Some e \<Rightarrow> (Some (mig_error ''begin'' name e), db)
      | None \<Rightarrow>
          (case (case mv_fails env name ApplyStage of Some e \<Rightarrow> Inl e | None \<Rightarrow> mv_sql env name (mg_schema db)) of
             Inl e \<Rightarrow> (Some (mig_error ''apply'' name e), db)
           | Inr g \<Rightarrow>
               (case (if name \<in> set (mg_versions db) then Some ''duplicate key value violates unique constraint''
                      else mv_fails env name RecordStage) of
                  Some e \<Rightarrow> (Some (mig_error ''record'' name e), db)
                | None \<Rightarrow>
                    (let done = \<lparr>mg_versions = mg_versions db @ [name], mg_schema = g\<rparr> in
                     case mv_fails env name CommitStage of
                       Some e \<Rightarrow> (Some (mig_error ''commit'' name e), if mv_lost env name then done else db)
                     | None \<Rightarrow> (None, done)))))"

definition migrate_one :: "'g mig_env \<Rightarrow> string \<Rightarrow> 'g mig_db \<Rightarrow> string option \<times> 'g mig_db" where
  "migrate_one env name db =
     (case mv_fails env name CheckStage of
        Some e \<Rightarrow> (Some (mig_error ''check'' name e), db)
      | None \<Rightarrow>
          if name \<in> set (mg_versions db) then (None, db)
          else
            (case mv_fails env name ReadStage of
               Some e \<Rightarrow> (Some (mig_error ''read'' name e), db)
             | None \<Rightarrow> migrate_tx env name (mv_others env name db)))"

fun migrate_loop :: "'g mig_env \<Rightarrow> string list \<Rightarrow> 'g mig_db \<Rightarrow> string option \<times> 'g mig_db" where
  "migrate_loop env [] db = (None, db)"
| "migrate_loop env (name # names) db =
     (let (e, db1) = migrate_one env name db in
      case e of Some _ \<Rightarrow> (e, db1) | None \<Rightarrow> migrate_loop env names db1)"

text \<open>\<open>entries\<close> lists the embedded directory: names, and whether they are directories.\<close>

definition migration_names :: "(string \<times> bool) list \<Rightarrow> string list" where
  "migration_names entries = sort (map fst (filter (\<lambda>e. \<not> snd e) entries))"

definition migrate ::
  "'g mig_env \<Rightarrow> string option \<Rightarrow> (string \<times> bool) list \<Rightarrow> 'g mig_db \<Rightarrow> string option \<times> 'g mig_db" where
  "migrate env create_fails entries db =
     (case create_fails of
        Some e \<Rightarrow> (Some (''create schema_migrations: '' @ e), db)
      | None \<Rightarrow> migrate_loop env (migration_names entries) db)"

section \<open>The configured SSH keys\<close>

text \<open>
  \<open>parse\<close> is \<open>ssh.ParseAuthorizedKey\<close> followed by \<open>ssh.MarshalAuthorizedKey\<close>: the key in its canonical
  form, the options before it, and what follows the line.
\<close>

type_synonym ssh_parser = "string \<Rightarrow> string + (string \<times> string list \<times> string)"

record key_config =
  kc_LabSSHPublicKey :: string
  kc_FileListSSHPublicKey :: string
  kc_FileListSSHPublicKeyPath :: string

definition cfg_sshPublicKeyMaterial :: "ssh_parser \<Rightarrow> string \<Rightarrow> string + string" where
  "cfg_sshPublicKeyMaterial parse key =
     (let trimmed = TrimSpace key in
      if trimmed = [] then Inr []
      else
        (case parse trimmed of
           Inl e \<Rightarrow> Inl e
         | Inr (canonical, options, rest) \<Rightarrow>
             if options \<noteq> [] then Inl ''must not include authorized_keys options''
             else if TrimSpace rest \<noteq> [] then Inl ''must contain exactly one SSH public key''
             else Inr (TrimSpace canonical)))"

definition validate_config :: "ssh_parser \<Rightarrow> key_config \<Rightarrow> string option" where
  "validate_config parse cfg =
     (case cfg_sshPublicKeyMaterial parse (TrimSpace (kc_LabSSHPublicKey cfg)) of
        Inl e \<Rightarrow> Some (''kubevirt lab SSH public key: '' @ e)
      | Inr labMaterial \<Rightarrow>
          (case cfg_sshPublicKeyMaterial parse (TrimSpace (kc_FileListSSHPublicKey cfg)) of
             Inl e \<Rightarrow> Some (''kubevirt file-list SSH public key: '' @ e)
           | Inr fileListMaterial \<Rightarrow>
               if labMaterial \<noteq> [] \<and> labMaterial = fileListMaterial
               then Some ''kubevirt lab SSH public key and file-list SSH public key must use distinct key material''
               else None))"

datatype read_result = Content string | NotExist | ReadError string

definition loadMountedFileListPublicKey :: "(string \<Rightarrow> read_result) \<Rightarrow> key_config \<Rightarrow> string + key_config" where
  "loadMountedFileListPublicKey readFile cfg =
     (let path = TrimSpace (kc_FileListSSHPublicKeyPath cfg) in
      if path = [] then Inr cfg
      else
        (case readFile path of
           NotExist \<Rightarrow> Inr cfg
         | ReadError e \<Rightarrow> Inl (''read kubevirt file-list SSH public key file: '' @ e)
         | Content content \<Rightarrow>
             (let key = TrimSpace content in
              Inr (if key \<noteq> [] then cfg\<lparr>kc_FileListSSHPublicKey := key\<rparr> else cfg))))"

text \<open>The end of \<open>Load\<close>, after the configuration was decoded.\<close>

definition finish_Load :: "ssh_parser \<Rightarrow> (string \<Rightarrow> read_result) \<Rightarrow> key_config \<Rightarrow> string + key_config" where
  "finish_Load parse readFile cfg =
     (case loadMountedFileListPublicKey readFile cfg of
        Inl e \<Rightarrow> Inl e
      | Inr cfg1 \<Rightarrow> (case validate_config parse cfg1 of Some e \<Rightarrow> Inl e | None \<Rightarrow> Inr cfg1))"

section \<open>Minting tailnet keys\<close>

record tailscaleKeyMinter =
  tm_baseURL :: string
  tm_apiKey :: string
  tm_useOAuth :: bool
  tm_tailnet :: string
  tm_tag :: string
  tm_ttl :: duration

definition newTailscaleKeyMinterBase ::
  "string \<Rightarrow> string \<Rightarrow> string \<Rightarrow> string \<Rightarrow> string \<Rightarrow> duration \<Rightarrow> tailscaleKeyMinter" where
  "newTailscaleKeyMinterBase baseURL clientID apiKey tailnet tag ttl =
     \<lparr>tm_baseURL = baseURL, tm_apiKey = apiKey, tm_useOAuth = (clientID \<noteq> []),
      tm_tailnet = (if tailnet = [] then ''-'' else tailnet), tm_tag = tag, tm_ttl = ttl\<rparr>"

definition newTailscaleKeyMinter :: "string \<Rightarrow> string \<Rightarrow> string \<Rightarrow> string \<Rightarrow> duration \<Rightarrow> tailscaleKeyMinter" where
  "newTailscaleKeyMinter = newTailscaleKeyMinterBase ''https://api.tailscale.com''"

definition createKeyRequest :: "tailscaleKeyMinter \<Rightarrow> json" where
  "createKeyRequest m =
     JObj [(''capabilities'', JObj [(''devices'', JObj [(''create'', JObj
             [(''reusable'', JBool False), (''ephemeral'', JBool True), (''preauthorized'', JBool True),
              (''tags'', JArr [JStr (tm_tag m)])])])]),
           (''expirySeconds'', JInt (tm_ttl m div second)),
           (''description'', JStr ''cledyu ec2 session one-off'')]"

text \<open>
  The transport gets the bearer token of the request, if the code sets one; with OAuth the client adds
  its own. A missing key decodes as the empty one.
\<close>

definition Mint :: "(string option \<Rightarrow> 'x transport) \<Rightarrow> tailscaleKeyMinter \<Rightarrow> 'x \<Rightarrow> (string + string) \<times> 'x" where
  "Mint http m x =
     (let (r, x1) = http (if tm_useOAuth m then None else Some (tm_apiKey m))
            \<lparr>rq_method = ''POST'', rq_url = tm_baseURL m @ ''/api/v2/tailnet/'' @ tm_tailnet m @ ''/keys'',
             rq_body = createKeyRequest m\<rparr> x
      in (case r of
            Inl e \<Rightarrow> Inl e
          | Inr (code, body) \<Rightarrow>
              if code \<noteq> 200 then Inl (''status='' @ Itoa code)
              else
                (case body of
                   Some (JObj fs) \<Rightarrow>
                     (case map_of fs ''key'' of
                        Some (JStr k) \<Rightarrow> if k = [] then Inl ''no key'' else Inr k
                      | None \<Rightarrow> Inl ''no key''
                      | Some _ \<Rightarrow> Inl ''type mismatch'')
                 | _ \<Rightarrow> Inl ''invalid body''), x1))"

section \<open>Requests and results over Kafka\<close>

text \<open>The key of a request is its session, so that one session stays on one partition.\<close>

definition PublishRequest ::
  "(ValidationRequest \<Rightarrow> string + string) \<Rightarrow> (string \<Rightarrow> string \<Rightarrow> 'x \<Rightarrow> string option \<times> 'x) \<Rightarrow> ValidationRequest \<Rightarrow>
   'x \<Rightarrow> string option \<times> 'x" where
  "PublishRequest marshal write_message req x =
     (case marshal req of
        Inl e \<Rightarrow> (Some (''marshal validation request: '' @ e), x)
      | Inr data \<Rightarrow>
          (let (e, x1) = write_message (vq_session_id req) data x
           in (map_option (\<lambda>e. ''write validation request: '' @ e) e, x1)))"

text \<open>What a read gives; after the last one the consumer waits.\<close>

datatype kafka_read = Message string | Failed string | Cancelled

fun results_Run ::
  "(string \<Rightarrow> string + ValidationResult) \<Rightarrow> (ValidationResult \<Rightarrow> 's \<Rightarrow> 's) \<Rightarrow> kafka_read list \<Rightarrow> 's \<Rightarrow> 's" where
  "results_Run unmarshal apply_result [] s = s"
| "results_Run unmarshal apply_result (Cancelled # rs) s = s"
| "results_Run unmarshal apply_result (Failed e # rs) s = results_Run unmarshal apply_result rs s"
| "results_Run unmarshal apply_result (Message m # rs) s =
     (case unmarshal m of
        Inl _ \<Rightarrow> results_Run unmarshal apply_result rs s
      | Inr r \<Rightarrow> results_Run unmarshal apply_result rs (apply_result r s))"

section \<open>Migrations apply in order, each once\<close>

fun run_sql :: "(string \<Rightarrow> 'g \<Rightarrow> string + 'g) \<Rightarrow> string list \<Rightarrow> 'g \<Rightarrow> string + 'g" where
  "run_sql sql [] g = Inr g"
| "run_sql sql (n # ns) g = (case sql n g of Inl e \<Rightarrow> Inl e | Inr g1 \<Rightarrow> run_sql sql ns g1)"

lemma run_sql_append:
  "run_sql sql (xs @ ys) g = (case run_sql sql xs g of Inl e \<Rightarrow> Inl e | Inr g1 \<Rightarrow> run_sql sql ys g1)"
  by (induction xs arbitrary: g) (auto split: sum.splits)

text \<open>The first \<open>n\<close> migrations are recorded, and the schema is what their SQL makes of the empty one.\<close>

definition migrated :: "(string \<Rightarrow> 'g \<Rightarrow> string + 'g) \<Rightarrow> 'g \<Rightarrow> string list \<Rightarrow> nat \<Rightarrow> 'g mig_db \<Rightarrow> bool" where
  "migrated sql g0 names n db \<longleftrightarrow>
     n \<le> length names \<and> mg_versions db = List.take n names \<and> run_sql sql (List.take n names) g0 = Inr (mg_schema db)"

definition healthy :: "'g mig_env \<Rightarrow> bool" where
  "healthy env \<longleftrightarrow> (\<forall>name stage. mv_fails env name stage = None)"

definition alone :: "'g mig_env \<Rightarrow> bool" where
  "alone env \<longleftrightarrow> (\<forall>name db. mv_others env name db = db)"

lemma migrated_next:
  assumes "migrated sql g0 names n db" "n < length names" "sql (names ! n) (mg_schema db) = Inr g"
  shows "migrated sql g0 names (Suc n) \<lparr>mg_versions = mg_versions db @ [names ! n], mg_schema = g\<rparr>"
  using assms by (simp add: migrated_def take_Suc_conv_app_nth run_sql_append)

lemma migrate_tx_migrated:
  assumes "migrated (mv_sql env) g0 names n db" "n < length names" "migrate_tx env (names ! n) db = (e, db')"
  shows "migrated (mv_sql env) g0 names n db' \<and> e \<noteq> None \<or> migrated (mv_sql env) g0 names (Suc n) db'"
  using assms migrated_next [OF assms(1,2)]
  by (auto simp: migrate_tx_def Let_def split: option.splits sum.splits if_splits)

lemma migrate_tx_healthy:
  assumes "healthy env" "name \<notin> set (mg_versions db)" "mv_sql env name (mg_schema db) = Inr g"
  shows "fst (migrate_tx env name db) = None"
  using assms by (simp add: migrate_tx_def healthy_def)

lemma next_sql:
  assumes "migrated sql g0 names n db" "n < length names" "run_sql sql names g0 = Inr g"
  shows "\<exists>g1. sql (names ! n) (mg_schema db) = Inr g1"
proof -
  have "names = List.take n names @ names ! n # drop (Suc n) names"
    using assms(2) by (rule id_take_nth_drop)
  then have "run_sql sql (List.take n names @ names ! n # drop (Suc n) names) g0 = Inr g"
    using assms(3) by simp
  then show ?thesis
    using assms(1) by (auto simp: migrated_def run_sql_append split: sum.splits)
qed

lemma recorded_iff:
  assumes "distinct names" "migrated sql g0 names n db" "k < length names"
  shows "names ! k \<in> set (mg_versions db) \<longleftrightarrow> k < n"
proof -
  have "names ! k = names ! j \<longleftrightarrow> k = j" if "j < n" for j
    using assms that by (simp add: migrated_def nth_eq_iff_index_eq)
  moreover have "set (mg_versions db) = (!) names ` {0..<n}"
    using assms(2) by (simp add: migrated_def nth_image)
  moreover have "names ! k \<in> (!) names ` {0..<n} \<longleftrightarrow> (\<exists>j<n. names ! k = names ! j)" by auto
  ultimately show ?thesis by metis
qed

lemma migrate_one_step:
  assumes "alone env" "distinct names" "migrated (mv_sql env) g0 names n db" "k \<le> n" "k < length names"
    and one: "migrate_one env (names ! k) db = (e, db')"
  shows "\<exists>m\<ge>n. migrated (mv_sql env) g0 names m db' \<and> (e = None \<longrightarrow> Suc k \<le> m)"
    and "healthy env \<Longrightarrow> run_sql (mv_sql env) names g0 = Inr g \<Longrightarrow> e = None"
proof -
  note rec = recorded_iff [OF assms(2,3,5)]
  show "\<exists>m\<ge>n. migrated (mv_sql env) g0 names m db' \<and> (e = None \<longrightarrow> Suc k \<le> m)"
  proof (cases "k < n")
    case True
    then have "db' = db" using one rec by (auto simp: migrate_one_def split: option.splits)
    then show ?thesis using assms(3) True by auto
  next
    case False
    then have kn: "k = n" using assms(4) by simp
    then consider "db' = db" "e \<noteq> None" | "migrate_tx env (names ! n) db = (e, db')"
      using one rec assms(1) by (auto simp: migrate_one_def alone_def split: option.splits)
    then show ?thesis
    proof cases
      case 2
      from migrate_tx_migrated [OF assms(3) _ this] assms(5) kn show ?thesis
        by (auto intro: exI [of _ "Suc n"])
    qed (use assms(3) in auto)
  qed
  show "e = None" if "healthy env" "run_sql (mv_sql env) names g0 = Inr g"
  proof (cases "k < n")
    case True
    then show ?thesis using one rec that(1) by (simp add: migrate_one_def healthy_def)
  next
    case False
    then have kn: "k = n" using assms(4) by simp
    with next_sql [OF assms(3) _ that(2)] assms(5) obtain g1 where "mv_sql env (names ! n) (mg_schema db) = Inr g1" by blast
    with migrate_tx_healthy [OF that(1), of "names ! n" db] show ?thesis
      using one rec kn that(1) assms(1) by (auto simp: migrate_one_def healthy_def alone_def)
  qed
qed

lemma migrate_loop_migrated:
  assumes "alone env" "distinct names" "migrated (mv_sql env) g0 names n db" "k \<le> n"
    "migrate_loop env (drop k names) db = (e, db')"
  shows "(\<exists>n'\<ge>n. migrated (mv_sql env) g0 names n' db' \<and> (e = None \<longrightarrow> n' = length names)) \<and>
    (healthy env \<and> run_sql (mv_sql env) names g0 = Inr g \<longrightarrow> e = None)"
  using assms(3-5)
proof (induction "length names - k" arbitrary: k n db)
  case 0
  then have "k = length names" "n = length names" by (simp_all add: migrated_def)
  with 0 show ?case by auto
next
  case (Suc d)
  then have k: "k < length names" by simp
  obtain e1 db1 where one: "migrate_one env (names ! k) db = (e1, db1)" by (rule prod.exhaust)
  have loop: "(case e1 of Some _ \<Rightarrow> (e1, db1) | None \<Rightarrow> migrate_loop env (drop (Suc k) names) db1) = (e, db')"
    using Suc.prems(3) one k by (simp add: Cons_nth_drop_Suc [symmetric])
  note step = migrate_one_step [OF assms(1,2) Suc.prems(1,2) k one]
  obtain m where m: "n \<le> m" "migrated (mv_sql env) g0 names m db1" "e1 = None \<longrightarrow> Suc k \<le> m"
    using step(1) by blast
  show ?case
  proof (cases e1)
    case None
    with Suc.hyps(1) [of "Suc k" m db1] Suc.hyps(2) m loop
    have "(\<exists>n'\<ge>m. migrated (mv_sql env) g0 names n' db' \<and> (e = None \<longrightarrow> n' = length names)) \<and>
      (healthy env \<and> run_sql (mv_sql env) names g0 = Inr g \<longrightarrow> e = None)" by simp
    then show ?thesis using m(1) le_trans by blast
  next
    case (Some x)
    then show ?thesis using loop m step(2) by auto
  qed
qed

text \<open>
  C28. However often starting is attempted and wherever the database fails, a server that migrates
  alone leaves a schema made of the first migrations in their order, each applied once and recorded:
  an attempt never goes back, one that reports success has applied them all, and an attempt without
  faults completes whenever the SQL itself does. Starting again on a complete schema changes nothing.
\<close>

theorem migrations_in_order_once:
  assumes "alone env" and "distinct (map fst entries)"
    and "migrated (mv_sql env) g0 (migration_names entries) n db"
    and "migrate env create_fails entries db = (e, db')"
  shows "(\<exists>n'\<ge>n. migrated (mv_sql env) g0 (migration_names entries) n' db' \<and>
      (e = None \<longrightarrow> n' = length (migration_names entries)) \<and> (n = length (migration_names entries) \<longrightarrow> db' = db)) \<and>
    (healthy env \<and> create_fails = None \<and> run_sql (mv_sql env) (migration_names entries) g0 = Inr g \<longrightarrow> e = None)"
proof -
  let ?names = "migration_names entries"
  have d: "distinct ?names"
    using assms(2) by (auto simp: migration_names_def distinct_map intro: inj_on_subset)
  have fixed: "db' = db" if "n = length ?names" "n \<le> n'" "migrated (mv_sql env) g0 ?names n' db'" for n'
    using that assms(3) by (cases db, cases db') (auto simp: migrated_def)
  show ?thesis
  proof (cases create_fails)
    case None
    then show ?thesis
      using migrate_loop_migrated [OF assms(1) d assms(3), of 0 e db' g] fixed assms(4) by (auto simp: migrate_def)
  next
    case (Some x)
    then show ?thesis using assms(3,4) by (auto simp: migrate_def)
  qed
qed

definition demo_env :: "string list mig_env" where
  "demo_env = \<lparr>mv_fails = (\<lambda>name stage. if name = ''002'' \<and> stage = CommitStage then Some ''connection reset'' else None),
     mv_lost = (\<lambda>_. True), mv_others = (\<lambda>_ db. db), mv_sql = (\<lambda>name g. Inr (g @ [name]))\<rparr>"

theorem migrations_in_order_once_witness:
  "\<exists>e db'. migrate demo_env None [(''002'', False), (''001'', False), (''old'', True)] \<lparr>mg_versions = [], mg_schema = []\<rparr> = (Some e, db')
     \<and> mg_versions db' = [''001'', ''002''] \<and> mg_schema db' = [''001'', ''002'']"
proof -
  let ?entries = "[(''002'', False), (''001'', False), (''old'', True)]" and ?db = "\<lparr>mg_versions = [], mg_schema = []\<rparr> :: string list mig_db"
  have names: "migration_names ?entries = [''001'', ''002'']"
    by code_simp
  have run: "\<exists>e db'. migrate demo_env None ?entries ?db = (Some e, db') \<and> length (mg_versions db') = 2"
    by (simp add: migrate_def names migrate_one_def migrate_tx_def demo_env_def)
  then obtain e db' where m: "migrate demo_env None ?entries ?db = (Some e, db')" "length (mg_versions db') = 2" by blast
  have "alone demo_env" by (simp add: alone_def demo_env_def)
  moreover have "distinct (map fst ?entries)" by simp
  moreover have "migrated (mv_sql demo_env) [] (migration_names ?entries) 0 ?db" by (simp add: migrated_def)
  ultimately obtain n' where "migrated (mv_sql demo_env) [] (migration_names ?entries) n' db'"
    using migrations_in_order_once [OF _ _ _ m(1)] by blast
  moreover from this m(2) have "n' = 2" by (simp add: migrated_def names)
  ultimately show ?thesis using m(1) by (auto simp: migrated_def names demo_env_def)
qed

text \<open>
  Two servers that start on the same new database race: when another one commits a migration
  between the check of its version and the transaction for it, migrating fails here, although the
  schema is complete. The server then starts without its database.
\<close>

theorem migration_race_fails:
  assumes "healthy env" and "set done \<subseteq> set (mg_versions db)" and "name \<notin> set (mg_versions db)"
    and "name \<in> set (mg_versions (mv_others env name db))"
  shows "\<exists>e. migrate_loop env (done @ name # rest) db = (Some e, mv_others env name db)"
  using assms(2)
proof (induction "done")
  case Nil
  have "mv_fails env n s = None" for n s using assms(1) by (simp add: healthy_def)
  then show ?case
    using assms(3,4) by (auto simp: migrate_one_def migrate_tx_def split: sum.split)
next
  case (Cons d ds)
  then show ?case using assms(1) by (simp add: migrate_one_def healthy_def)
qed

definition racing_env :: "string list mig_env" where
  "racing_env = \<lparr>mv_fails = (\<lambda>_ _. None), mv_lost = (\<lambda>_. False),
     mv_others = (\<lambda>name db. \<lparr>mg_versions = mg_versions db @ [name], mg_schema = mg_schema db @ [name]\<rparr>),
     mv_sql = (\<lambda>name g. Inr (g @ [name]))\<rparr>"

theorem migration_race_fails_witness:
  "\<exists>e. migrate_loop racing_env [''001''] \<lparr>mg_versions = [], mg_schema = []\<rparr> =
     (Some e, \<lparr>mg_versions = [''001''], mg_schema = [''001'']\<rparr>)"
  using migration_race_fails [of racing_env "[]" "\<lparr>mg_versions = [], mg_schema = []\<rparr>" "''001''" "[]"]
  by (simp add: racing_env_def healthy_def)

section \<open>Keys\<close>

lemma dropWhile_hd: "dropWhile P s = [] \<or> \<not> P (hd (dropWhile P s))"
  using hd_dropWhile by blast

lemma TrimSpace_idem: "TrimSpace (TrimSpace s) = TrimSpace s"
proof -
  define l where "l = dropWhile is_space s"
  define r where "r = dropWhile is_space (rev l)"
  have t: "TrimSpace s = rev r" by (simp add: TrimSpace_def l_def r_def)
  have "dropWhile is_space (rev r) = rev r"
  proof (cases "r = []")
    case False
    obtain zs where "rev l = zs @ r"
      using suffix_dropWhile [of is_space "rev l"] unfolding suffix_def r_def by blast
    then have "l = rev r @ rev zs" by (metis rev_append rev_rev_ident)
    then have "hd (rev r) = hd l" using False by simp
    moreover have "l \<noteq> []" using False by (auto simp: r_def)
    ultimately have "\<not> is_space (hd (rev r))" using dropWhile_hd [of is_space s] unfolding l_def by metis
    then show ?thesis using False by (cases "rev r") simp_all
  qed simp
  moreover have "dropWhile is_space r = r"
    using dropWhile_hd [of is_space "rev l"] by (cases r) (simp_all add: r_def [symmetric])
  ultimately show ?thesis unfolding t by (simp add: TrimSpace_def)
qed

text \<open>
  A configuration is loaded only if the validation key and the file-list key differ in their key
  material, wherever the latter came from: so the user data of a session machine authorizes both keys,
  the file-list key with its forced command, and never drops the validation key. The hypothesis on the
  SSH library says that the canonical form of a key without options is its type and its encoding.
\<close>

theorem loaded_keys_both_authorized:
  assumes parse: "\<And>k c rest. parse k = Inr (c, [], rest) \<Longrightarrow>
      \<exists>t b. Cloud_Init.sshPublicKeyMaterial k = Some (t, b) \<and> TrimSpace c = t @ '' '' @ b"
    and load: "finish_Load parse readFile cfg = Inr cfg'"
    and both: "TrimSpace (kc_LabSSHPublicKey cfg') \<noteq> []" "TrimSpace (kc_FileListSSHPublicKey cfg') \<noteq> []"
  shows "kv_ssh_keys (kc_LabSSHPublicKey cfg') (kc_FileListSSHPublicKey cfg') =
      [TrimSpace (kc_LabSSHPublicKey cfg'), forced_command @ TrimSpace (kc_FileListSSHPublicKey cfg')]"
proof -
  let ?lab = "TrimSpace (kc_LabSSHPublicKey cfg')" and ?file = "TrimSpace (kc_FileListSSHPublicKey cfg')"
  have material: "\<exists>t b. Cloud_Init.sshPublicKeyMaterial k = Some (t, b) \<and> m = t @ '' '' @ b"
    if "cfg_sshPublicKeyMaterial parse k = Inr m" "k \<noteq> []" "TrimSpace k = k" for k m
    using that parse [of k] by (auto simp: cfg_sshPublicKeyMaterial_def split: sum.splits if_splits)
  obtain l f where lf: "cfg_sshPublicKeyMaterial parse ?lab = Inr l" "cfg_sshPublicKeyMaterial parse ?file = Inr f"
    "l = [] \<or> l \<noteq> f"
    using load by (auto simp: finish_Load_def validate_config_def split: sum.splits option.splits if_splits)
  obtain t b t' b' where "Cloud_Init.sshPublicKeyMaterial ?lab = Some (t, b)" "l = t @ '' '' @ b"
    "Cloud_Init.sshPublicKeyMaterial ?file = Some (t', b')" "f = t' @ '' '' @ b'"
    using material [OF lf(1) both(1)] material [OF lf(2) both(2)] TrimSpace_idem by metis
  then have "\<not> sameSSHPublicKeyMaterial ?lab ?file"
    using lf(3) by (auto simp: sameSSHPublicKeyMaterial_def)
  then show ?thesis using both by (simp add: kv_ssh_keys_def)
qed

text \<open>A parser that reads a type, an encoding and nothing else.\<close>

definition plain_parser :: ssh_parser where
  "plain_parser k =
     (case Cloud_Init.sshPublicKeyMaterial k of
        Some (t, b) \<Rightarrow> if TrimSpace (t @ '' '' @ b) = t @ '' '' @ b then Inr (t @ '' '' @ b, [], []) else Inl ''no key''
      | None \<Rightarrow> Inl ''no key'')"

definition demo_keys :: key_config where
  "demo_keys = \<lparr>kc_LabSSHPublicKey = ''ssh-rsa BBB lab'', kc_FileListSSHPublicKey = [], kc_FileListSSHPublicKeyPath = ''/key''\<rparr>"

theorem loaded_keys_both_authorized_witness:
  "finish_Load plain_parser (\<lambda>_. Content ''ssh-rsa AAA files'') demo_keys = Inr (demo_keys\<lparr>kc_FileListSSHPublicKey := ''ssh-rsa AAA files''\<rparr>) \<and>
   kv_ssh_keys ''ssh-rsa BBB lab'' ''ssh-rsa AAA files'' = [''ssh-rsa BBB lab'', forced_command @ ''ssh-rsa AAA files'']"
proof -
  have load: "finish_Load plain_parser (\<lambda>_. Content ''ssh-rsa AAA files'') demo_keys = Inr (demo_keys\<lparr>kc_FileListSSHPublicKey := ''ssh-rsa AAA files''\<rparr>)"
    by code_simp
  have trim: "TrimSpace ''ssh-rsa BBB lab'' = ''ssh-rsa BBB lab''" "TrimSpace ''ssh-rsa AAA files'' = ''ssh-rsa AAA files''"
    by code_simp+
  have "\<exists>t b. Cloud_Init.sshPublicKeyMaterial k = Some (t, b) \<and> TrimSpace c = t @ '' '' @ b"
    if "plain_parser k = Inr (c, [], rest)" for k c rest
    using that by (auto simp: plain_parser_def split: option.splits if_splits)
  from loaded_keys_both_authorized [OF this load] show ?thesis
    using load trim by (simp add: demo_keys_def)
qed

text \<open>A minted key is never reusable, disappears with its machine, and expires after the configured time.\<close>

lemma Mint_Inr:
  assumes "Mint http m x = (Inr k, x')"
  shows "k \<noteq> [] \<and> (\<exists>req fs. rq_method req = ''POST'' \<and> rq_body req = createKeyRequest m \<and>
    http (if tm_useOAuth m then None else Some (tm_apiKey m)) req x = (Inr (200, Some (JObj fs)), x') \<and>
    map_of fs ''key'' = Some (JStr k))"
proof -
  let ?req = "\<lparr>rq_method = ''POST'', rq_url = tm_baseURL m @ ''/api/v2/tailnet/'' @ tm_tailnet m @ ''/keys'', rq_body = createKeyRequest m\<rparr>"
  show ?thesis
    using assms
    by (auto simp: Mint_def Let_def split: prod.splits sum.splits if_splits option.splits json.splits intro!: exI [of _ ?req])
qed

section \<open>Results\<close>

text \<open>The results that the consumer applies: those of the messages before it is cancelled that decode.\<close>

definition received :: "(string \<Rightarrow> string + ValidationResult) \<Rightarrow> kafka_read list \<Rightarrow> ValidationResult list" where
  "received unmarshal rs =
     concat (map (\<lambda>r. case r of Message m \<Rightarrow> (case unmarshal m of Inr x \<Rightarrow> [x] | Inl _ \<Rightarrow> []) | _ \<Rightarrow> [])
       (takeWhile (\<lambda>r. r \<noteq> Cancelled) rs))"

lemma results_Run_fold:
  "results_Run unmarshal apply_result rs s = fold apply_result (received unmarshal rs) s"
  by (induction unmarshal apply_result rs s rule: results_Run.induct) (auto simp: received_def split: sum.splits)

end
