(* ===== verification/Config.thy ===== *)
theory Config
  imports Startup
begin

text \<open>
  The configuration of the API server (\<open>src/apps/api/internal/config/config.go\<close>): its structure, the
  registered defaults, and \<open>Load\<close> with the precedence of the environment over the file over the
  defaults. The checks of the SSH keys at the end of \<open>Load\<close> are in \<open>Startup\<close>.

  Of the \<open>viper\<close> library this models what it documents: \<open>Unmarshal\<close> decodes the keys that have a default
  or stand in the file; the environment variable of a key is asked for under the prefix, in capitals and
  with underscores for dots, and an empty variable counts as not set. How texts are read as numbers and
  truth values is an argument.
\<close>

section \<open>Structure\<close>

record DBConfig =
  dbc_DSN :: string

record AIConfig =
  aic_BaseURL :: string
  aic_TimeoutSeconds :: int

record KafkaConfig =
  kfc_Brokers :: string
  kfc_Topic :: string
  kfc_TLSCert :: string
  kfc_TLSKey :: string
  kfc_TLSCA :: string
  kfc_ResultsTopic :: string
  kfc_ConsumerGroup :: string
  kfc_EventsTopic :: string

record KubeVirtConfig =
  kvc_Enabled :: bool
  kvc_Kubeconfig :: string
  kvc_BaseImageNS :: string
  kvc_BaseImageName :: string
  kvc_SessionTTLHours :: int
  kvc_StorageClass :: string
  kvc_LabSSHPublicKey :: string
  kvc_FileListSSHPublicKey :: string
  kvc_FileListSSHPublicKeyPath :: string
  kvc_FileListSSHPrivateKeyPath :: string
  kvc_ProvisionTimeoutMinutes :: int
  kvc_MaxActiveSessions :: int

record AWSConfig =
  awc_Region :: string
  awc_LaunchTemplateID :: string
  awc_InstanceType :: string
  awc_SessionTTLHours :: int
  awc_ProvisionTimeoutMinutes :: int
  awc_MaxActiveSessions :: int
  awc_TailnetHostnamePrefix :: string
  awc_TailscaleAuthKey :: string
  awc_TailscaleAPIKey :: string
  awc_TailscaleOAuthClientID :: string
  awc_SessionKeyTTLSeconds :: int
  awc_SessionKeyTag :: string
  awc_APITailscaleAuthKey :: string
  awc_APITailnetStateDir :: string
  awc_LiveTerminalSSHUser :: string
  awc_LiveTerminalSSHPassword :: string

record KeycloakConfig =
  kcc_URL :: string
  kcc_Realm :: string
  kcc_ClientID :: string
  kcc_ClientSecret :: string
  kcc_RedirectURI :: string
  kcc_CookieDomain :: string
  kcc_AdminClientID :: string
  kcc_AdminClientSecret :: string

record ServerConfig =
  svc_Addr :: string
  svc_Mode :: string

record RedisConfig =
  rdc_Addr :: string
  rdc_Password :: string
  rdc_DB :: int

record OTelConfig =
  otc_Endpoint :: string

record Config =
  cfg_Server :: ServerConfig
  cfg_Redis :: RedisConfig
  cfg_Keycloak :: KeycloakConfig
  cfg_KubeVirt :: KubeVirtConfig
  cfg_AWS :: AWSConfig
  cfg_Kafka :: KafkaConfig
  cfg_AI :: AIConfig
  cfg_DB :: DBConfig
  cfg_OTel :: OTelConfig
  cfg_FrontendURL :: string

section \<open>Values and defaults\<close>

type_synonym environ = "string \<Rightarrow> string option"

datatype cfg_val = VStr string | VInt int | VBool bool

text \<open>\<open>os.Getenv\<close>\<close>

definition Getenv :: "environ \<Rightarrow> string \<Rightarrow> string" where
  "Getenv env k = (case env k of None \<Rightarrow> [] | Some v \<Rightarrow> v)"

definition cfg_defaults :: "environ \<Rightarrow> (string \<times> cfg_val) list" where
  "cfg_defaults env =
     [(''server.addr'', VStr '':8080''),
      (''server.mode'', VStr ''debug''),
      (''redis.addr'', VStr ''localhost:6379''),
      (''keycloak.url'', VStr ''https://keycloak.cledyu.local''),
      (''keycloak.realm'', VStr ''cledyu-learn''),
      (''keycloak.client_id'', VStr ''web''),
      (''keycloak.client_secret'', VStr []),
      (''keycloak.redirect_uri'', VStr ''https://api.cledyu.local/api/v1/auth/callback''),
      (''frontend_url'', VStr ''https://app.cledyu.local''),
      (''keycloak.cookie_domain'', VStr ''.cledyu.local''),
      (''keycloak.admin_client_id'', VStr []),
      (''keycloak.admin_client_secret'', VStr []),
      (''kubevirt.enabled'', VBool True),
      (''kubevirt.kubeconfig'', VStr (Getenv env ''KUBECONFIG'')),
      (''kubevirt.base_image_ns'', VStr ''kubevirt''),
      (''kubevirt.base_image_name'', VStr ''ubuntu-2204-base''),
      (''kubevirt.lab_ssh_public_key'', VStr []),
      (''kubevirt.file_list_ssh_public_key'', VStr []),
      (''kubevirt.file_list_ssh_public_key_path'', VStr ''/etc/vm-file-ssh/public_key''),
      (''kubevirt.file_list_ssh_private_key_path'', VStr ''/etc/vm-file-ssh/id_ed25519''),
      (''kubevirt.storage_class'', VStr ''longhorn-r2''),
      (''kubevirt.session_ttl_hours'', VInt 3),
      (''kubevirt.provision_timeout_minutes'', VInt 10),
      (''kubevirt.max_active_sessions'', VInt 24),
      (''aws.region'', VStr ''ap-northeast-2''),
      (''aws.launch_template_id'', VStr []),
      (''aws.instance_type'', VStr ''t3.medium''),
      (''aws.session_ttl_hours'', VInt 3),
      (''aws.provision_timeout_minutes'', VInt 10),
      (''aws.session_key_ttl_seconds'', VInt 1800),
      (''aws.session_key_tag'', VStr ''tag:lab-ec2''),
      (''aws.max_active_sessions'', VInt 0),
      (''aws.tailnet_hostname_prefix'', VStr ''lab''),
      (''aws.tailscale_api_key'', VStr []),
      (''aws.tailscale_oauth_client_id'', VStr []),
      (''aws.tailscale_auth_key'', VStr []),
      (''aws.api_tailscale_auth_key'', VStr []),
      (''aws.api_tailnet_state_dir'', VStr []),
      (''aws.live_terminal_ssh_user'', VStr ''lab''),
      (''aws.live_terminal_ssh_password'', VStr ''lab''),
      (''kafka.brokers'', VStr ''cledyu-kafka-kafka-bootstrap.kafka.svc:9093''),
      (''kafka.topic'', VStr ''validation-requests''),
      (''kafka.tls_cert'', VStr ''/etc/kafka-certs/tls.crt''),
      (''kafka.tls_key'', VStr ''/etc/kafka-certs/tls.key''),
      (''kafka.tls_ca'', VStr ''/etc/kafka-certs/ca.crt''),
      (''kafka.results_topic'', VStr ''validation-results''),
      (''kafka.consumer_group'', VStr ''cledyu-api-validation-results''),
      (''kafka.events_topic'', VStr ''lab-events''),
      (''ai.base_url'', VStr []),
      (''ai.timeout_seconds'', VInt 15),
      (''db.dsn'', VStr []),
      (''otel.endpoint'', VStr ''alloy.loki.svc.cluster.local:4317'')]"

definition upper_char :: "char \<Rightarrow> char" where
  "upper_char c = (if CHR ''a'' \<le> c \<and> c \<le> CHR ''z'' then char_of ((of_char c :: nat) - 32) else c)"

definition env_name :: "string \<Rightarrow> string" where
  "env_name k = ''CLEDYU_'' @ map (\<lambda>c. if c = CHR ''.'' then CHR ''_'' else upper_char c) k"

text \<open>The value of a key: from the environment, else from the file, else the default.\<close>

definition viper_get :: "environ \<Rightarrow> (string \<Rightarrow> cfg_val option) \<Rightarrow> string \<Rightarrow> cfg_val option" where
  "viper_get env config_file k =
     (if Getenv env (env_name k) \<noteq> [] then Some (VStr (Getenv env (env_name k)))
      else (case config_file k of Some v \<Rightarrow> Some v | None \<Rightarrow> map_of (cfg_defaults env) k))"

text \<open>\<open>AllSettings\<close>: only keys with a default or in the file.\<close>

definition settings :: "environ \<Rightarrow> (string \<Rightarrow> cfg_val option) \<Rightarrow> string \<Rightarrow> cfg_val option" where
  "settings env config_file k =
     (if map_of (cfg_defaults env) k \<noteq> None \<or> config_file k \<noteq> None then viper_get env config_file k else None)"

section \<open>Decoding\<close>

record viper_decoder =
  vd_int :: "string \<Rightarrow> int option"
  vd_bool :: "string \<Rightarrow> bool option"

fun str_of :: "cfg_val option \<Rightarrow> string" where
  "str_of None = []"
| "str_of (Some (VStr s)) = s"
| "str_of (Some (VInt n)) = Itoa n"
| "str_of (Some (VBool b)) = (if b then ''1'' else ''0'')"

fun read_int :: "viper_decoder \<Rightarrow> cfg_val option \<Rightarrow> int option" where
  "read_int vd None = Some 0"
| "read_int vd (Some (VInt n)) = Some n"
| "read_int vd (Some (VBool b)) = Some (if b then 1 else 0)"
| "read_int vd (Some (VStr s)) = (if s = [] then Some 0 else vd_int vd s)"

fun read_bool :: "viper_decoder \<Rightarrow> cfg_val option \<Rightarrow> bool option" where
  "read_bool vd None = Some False"
| "read_bool vd (Some (VBool b)) = Some b"
| "read_bool vd (Some (VInt n)) = Some (n \<noteq> 0)"
| "read_bool vd (Some (VStr s)) = (if s = [] then Some False else vd_bool vd s)"

definition int_of :: "viper_decoder \<Rightarrow> cfg_val option \<Rightarrow> int" where
  "int_of vd v = (case read_int vd v of Some n \<Rightarrow> n | None \<Rightarrow> 0)"

definition bool_of :: "viper_decoder \<Rightarrow> cfg_val option \<Rightarrow> bool" where
  "bool_of vd v = (case read_bool vd v of Some b \<Rightarrow> b | None \<Rightarrow> False)"

text \<open>The keys of the fields, by type.\<close>

definition cfg_str_keys :: "string list" where
  "cfg_str_keys =
     [''server.addr'', ''server.mode'', ''redis.addr'', ''redis.password'', ''keycloak.url'',
      ''keycloak.realm'', ''keycloak.client_id'', ''keycloak.client_secret'', ''keycloak.redirect_uri'',
      ''keycloak.cookie_domain'', ''keycloak.admin_client_id'', ''keycloak.admin_client_secret'',
      ''kubevirt.kubeconfig'', ''kubevirt.base_image_ns'', ''kubevirt.base_image_name'',
      ''kubevirt.storage_class'', ''kubevirt.lab_ssh_public_key'', ''kubevirt.file_list_ssh_public_key'',
      ''kubevirt.file_list_ssh_public_key_path'', ''kubevirt.file_list_ssh_private_key_path'',
      ''aws.region'', ''aws.launch_template_id'', ''aws.instance_type'', ''aws.tailnet_hostname_prefix'',
      ''aws.tailscale_auth_key'', ''aws.tailscale_api_key'', ''aws.tailscale_oauth_client_id'',
      ''aws.session_key_tag'', ''aws.api_tailscale_auth_key'', ''aws.api_tailnet_state_dir'',
      ''aws.live_terminal_ssh_user'', ''aws.live_terminal_ssh_password'', ''kafka.brokers'', ''kafka.topic'',
      ''kafka.tls_cert'', ''kafka.tls_key'', ''kafka.tls_ca'', ''kafka.results_topic'',
      ''kafka.consumer_group'', ''kafka.events_topic'', ''ai.base_url'', ''db.dsn'', ''otel.endpoint'',
      ''frontend_url'']"

definition cfg_int_keys :: "string list" where
  "cfg_int_keys =
     [''redis.db'', ''kubevirt.session_ttl_hours'', ''kubevirt.provision_timeout_minutes'',
      ''kubevirt.max_active_sessions'', ''aws.session_ttl_hours'', ''aws.provision_timeout_minutes'',
      ''aws.max_active_sessions'', ''aws.session_key_ttl_seconds'', ''ai.timeout_seconds'']"

definition cfg_bool_keys :: "string list" where
  "cfg_bool_keys =
     [''kubevirt.enabled'']"

definition cfg_keys :: "string list" where
  "cfg_keys = cfg_str_keys @ cfg_int_keys @ cfg_bool_keys"

definition decode_ServerConfig :: "viper_decoder \<Rightarrow> (string \<Rightarrow> cfg_val option) \<Rightarrow> ServerConfig" where
  "decode_ServerConfig vd s =
          \<lparr>svc_Addr = str_of (s ''server.addr''),
           svc_Mode = str_of (s ''server.mode'')\<rparr>"

definition decode_RedisConfig :: "viper_decoder \<Rightarrow> (string \<Rightarrow> cfg_val option) \<Rightarrow> RedisConfig" where
  "decode_RedisConfig vd s =
          \<lparr>rdc_Addr = str_of (s ''redis.addr''),
           rdc_Password = str_of (s ''redis.password''),
           rdc_DB = int_of vd (s ''redis.db'')\<rparr>"

definition decode_KeycloakConfig :: "viper_decoder \<Rightarrow> (string \<Rightarrow> cfg_val option) \<Rightarrow> KeycloakConfig" where
  "decode_KeycloakConfig vd s =
          \<lparr>kcc_URL = str_of (s ''keycloak.url''),
           kcc_Realm = str_of (s ''keycloak.realm''),
           kcc_ClientID = str_of (s ''keycloak.client_id''),
           kcc_ClientSecret = str_of (s ''keycloak.client_secret''),
           kcc_RedirectURI = str_of (s ''keycloak.redirect_uri''),
           kcc_CookieDomain = str_of (s ''keycloak.cookie_domain''),
           kcc_AdminClientID = str_of (s ''keycloak.admin_client_id''),
           kcc_AdminClientSecret = str_of (s ''keycloak.admin_client_secret'')\<rparr>"

definition decode_KubeVirtConfig :: "viper_decoder \<Rightarrow> (string \<Rightarrow> cfg_val option) \<Rightarrow> KubeVirtConfig" where
  "decode_KubeVirtConfig vd s =
          \<lparr>kvc_Enabled = bool_of vd (s ''kubevirt.enabled''),
           kvc_Kubeconfig = str_of (s ''kubevirt.kubeconfig''),
           kvc_BaseImageNS = str_of (s ''kubevirt.base_image_ns''),
           kvc_BaseImageName = str_of (s ''kubevirt.base_image_name''),
           kvc_SessionTTLHours = int_of vd (s ''kubevirt.session_ttl_hours''),
           kvc_StorageClass = str_of (s ''kubevirt.storage_class''),
           kvc_LabSSHPublicKey = str_of (s ''kubevirt.lab_ssh_public_key''),
           kvc_FileListSSHPublicKey = str_of (s ''kubevirt.file_list_ssh_public_key''),
           kvc_FileListSSHPublicKeyPath = str_of (s ''kubevirt.file_list_ssh_public_key_path''),
           kvc_FileListSSHPrivateKeyPath = str_of (s ''kubevirt.file_list_ssh_private_key_path''),
           kvc_ProvisionTimeoutMinutes = int_of vd (s ''kubevirt.provision_timeout_minutes''),
           kvc_MaxActiveSessions = int_of vd (s ''kubevirt.max_active_sessions'')\<rparr>"

definition decode_AWSConfig :: "viper_decoder \<Rightarrow> (string \<Rightarrow> cfg_val option) \<Rightarrow> AWSConfig" where
  "decode_AWSConfig vd s =
          \<lparr>awc_Region = str_of (s ''aws.region''),
           awc_LaunchTemplateID = str_of (s ''aws.launch_template_id''),
           awc_InstanceType = str_of (s ''aws.instance_type''),
           awc_SessionTTLHours = int_of vd (s ''aws.session_ttl_hours''),
           awc_ProvisionTimeoutMinutes = int_of vd (s ''aws.provision_timeout_minutes''),
           awc_MaxActiveSessions = int_of vd (s ''aws.max_active_sessions''),
           awc_TailnetHostnamePrefix = str_of (s ''aws.tailnet_hostname_prefix''),
           awc_TailscaleAuthKey = str_of (s ''aws.tailscale_auth_key''),
           awc_TailscaleAPIKey = str_of (s ''aws.tailscale_api_key''),
           awc_TailscaleOAuthClientID = str_of (s ''aws.tailscale_oauth_client_id''),
           awc_SessionKeyTTLSeconds = int_of vd (s ''aws.session_key_ttl_seconds''),
           awc_SessionKeyTag = str_of (s ''aws.session_key_tag''),
           awc_APITailscaleAuthKey = str_of (s ''aws.api_tailscale_auth_key''),
           awc_APITailnetStateDir = str_of (s ''aws.api_tailnet_state_dir''),
           awc_LiveTerminalSSHUser = str_of (s ''aws.live_terminal_ssh_user''),
           awc_LiveTerminalSSHPassword = str_of (s ''aws.live_terminal_ssh_password'')\<rparr>"

definition decode_KafkaConfig :: "viper_decoder \<Rightarrow> (string \<Rightarrow> cfg_val option) \<Rightarrow> KafkaConfig" where
  "decode_KafkaConfig vd s =
          \<lparr>kfc_Brokers = str_of (s ''kafka.brokers''),
           kfc_Topic = str_of (s ''kafka.topic''),
           kfc_TLSCert = str_of (s ''kafka.tls_cert''),
           kfc_TLSKey = str_of (s ''kafka.tls_key''),
           kfc_TLSCA = str_of (s ''kafka.tls_ca''),
           kfc_ResultsTopic = str_of (s ''kafka.results_topic''),
           kfc_ConsumerGroup = str_of (s ''kafka.consumer_group''),
           kfc_EventsTopic = str_of (s ''kafka.events_topic'')\<rparr>"

definition decode_AIConfig :: "viper_decoder \<Rightarrow> (string \<Rightarrow> cfg_val option) \<Rightarrow> AIConfig" where
  "decode_AIConfig vd s =
          \<lparr>aic_BaseURL = str_of (s ''ai.base_url''),
           aic_TimeoutSeconds = int_of vd (s ''ai.timeout_seconds'')\<rparr>"

definition decode_DBConfig :: "viper_decoder \<Rightarrow> (string \<Rightarrow> cfg_val option) \<Rightarrow> DBConfig" where
  "decode_DBConfig vd s =
          \<lparr>dbc_DSN = str_of (s ''db.dsn'')\<rparr>"

definition decode_OTelConfig :: "viper_decoder \<Rightarrow> (string \<Rightarrow> cfg_val option) \<Rightarrow> OTelConfig" where
  "decode_OTelConfig vd s =
          \<lparr>otc_Endpoint = str_of (s ''otel.endpoint'')\<rparr>"

definition decode_Config :: "viper_decoder \<Rightarrow> (string \<Rightarrow> cfg_val option) \<Rightarrow> Config" where
  "decode_Config vd s =
          \<lparr>cfg_Server = decode_ServerConfig vd s,
           cfg_Redis = decode_RedisConfig vd s,
           cfg_Keycloak = decode_KeycloakConfig vd s,
           cfg_KubeVirt = decode_KubeVirtConfig vd s,
           cfg_AWS = decode_AWSConfig vd s,
           cfg_Kafka = decode_KafkaConfig vd s,
           cfg_AI = decode_AIConfig vd s,
           cfg_DB = decode_DBConfig vd s,
           cfg_OTel = decode_OTelConfig vd s,
           cfg_FrontendURL = str_of (s ''frontend_url'')\<rparr>"

text \<open>Decoding fails when a number or a truth value cannot be read.\<close>

definition Unmarshal :: "viper_decoder \<Rightarrow> (string \<Rightarrow> cfg_val option) \<Rightarrow> string + Config" where
  "Unmarshal vd s =
     (case find (\<lambda>k. read_int vd (s k) = None) cfg_int_keys of
        Some k \<Rightarrow> Inl (''cannot parse '' @ k @ '' as int'')
      | None \<Rightarrow>
          (case find (\<lambda>k. read_bool vd (s k) = None) cfg_bool_keys of
             Some k \<Rightarrow> Inl (''cannot parse '' @ k @ '' as bool'')
           | None \<Rightarrow> Inr (decode_Config vd s)))"

datatype config_file = NoConfigFile | BadConfigFile string | ConfigFile "string \<Rightarrow> cfg_val option"

definition keys_of :: "KubeVirtConfig \<Rightarrow> key_config" where
  "keys_of kv =
     \<lparr>kc_LabSSHPublicKey = kvc_LabSSHPublicKey kv, kc_FileListSSHPublicKey = kvc_FileListSSHPublicKey kv,
      kc_FileListSSHPublicKeyPath = kvc_FileListSSHPublicKeyPath kv\<rparr>"

definition Load_config ::
  "viper_decoder \<Rightarrow> ssh_parser \<Rightarrow> (string \<Rightarrow> read_result) \<Rightarrow> environ \<Rightarrow> config_file \<Rightarrow> string + Config" where
  "Load_config vd parse readFile env cf =
     (case cf of
        BadConfigFile e \<Rightarrow> Inl (''read config: '' @ e)
      | _ \<Rightarrow>
          (case Unmarshal vd (settings env (case cf of ConfigFile f \<Rightarrow> f | _ \<Rightarrow> (\<lambda>_. None))) of
             Inl e \<Rightarrow> Inl (''unmarshal config: '' @ e)
           | Inr cfg \<Rightarrow>
               (case finish_Load parse readFile (keys_of (cfg_KubeVirt cfg)) of
                  Inl e \<Rightarrow> Inl e
                | Inr ks \<Rightarrow>
                    Inr (cfg\<lparr>cfg_KubeVirt := (cfg_KubeVirt cfg)\<lparr>kvc_FileListSSHPublicKey := kc_FileListSSHPublicKey ks\<rparr>\<rparr>))))"

section \<open>Precedence\<close>

definition unbound_keys :: "string list" where
  "unbound_keys = [''redis.password'', ''redis.db'']"

lemma default_keys: "map fst (cfg_defaults env) = map fst (cfg_defaults Map.empty)"
  by (simp add: cfg_defaults_def)

lemma registered_iff: "map_of (cfg_defaults env) k \<noteq> None \<longleftrightarrow> k \<in> set (map fst (cfg_defaults Map.empty))"
  by (simp only: default_keys [of env, symmetric]) (simp add: map_of_eq_None_iff)

lemma cfg_keys_registered:
  "list_all (\<lambda>k. (k \<in> set (map fst (cfg_defaults Map.empty))) = (k \<notin> set unbound_keys)) cfg_keys"
  by code_simp

text \<open>No two fields share an environment variable: capitals forget nothing of the letters keys are made of.\<close>

definition key_letters :: string where "key_letters = ''abcdefghijklmnopqrstuvwxyz_''"

definition flat :: "string \<Rightarrow> string" where
  "flat k = map (\<lambda>c. if c = CHR ''.'' then CHR ''_'' else c) k"

lemma upper_inj: "inj_on upper_char (set key_letters)"
proof -
  have "distinct (map upper_char key_letters)" by code_simp
  then show ?thesis by (simp add: distinct_map)
qed

lemma env_name_flat: "env_name k = ''CLEDYU_'' @ map upper_char (flat k)"
proof -
  have "upper_char CHR ''_'' = CHR ''_''" by code_simp
  then show ?thesis by (simp add: env_name_def flat_def)
qed

lemma keys_spelt: "list_all (\<lambda>k. list_all (\<lambda>c. c \<in> set key_letters) (flat k)) cfg_keys"
  by code_simp

lemma flat_distinct: "distinct (map flat cfg_keys)"
  by (simp add: flat_def cfg_keys_def cfg_str_keys_def cfg_int_keys_def cfg_bool_keys_def)

lemma env_names_distinct: "distinct (map env_name cfg_keys)"
proof -
  have "inj_on env_name (set cfg_keys)"
  proof (rule inj_onI)
    fix j k assume jk: "j \<in> set cfg_keys" "k \<in> set cfg_keys" "env_name j = env_name k"
    then have "map upper_char (flat j) = map upper_char (flat k)" by (simp add: env_name_flat)
    moreover have "set (flat j) \<union> set (flat k) \<subseteq> set key_letters"
      using jk keys_spelt by (auto simp: list_all_iff)
    ultimately have "flat j = flat k" using inj_on_subset [OF upper_inj] by (auto simp: inj_on_map_eq_map)
    then show "j = k" using jk flat_distinct by (auto simp: distinct_map inj_on_def)
  qed
  moreover have "distinct cfg_keys" using flat_distinct by (simp add: distinct_map)
  ultimately show ?thesis by (simp add: distinct_map)
qed

lemma has_default:
  assumes "k \<in> set cfg_keys" "k \<notin> set unbound_keys"
  shows "map_of (cfg_defaults env) k \<noteq> None"
  using assms cfg_keys_registered unfolding registered_iff list_all_iff by blast

lemma settings_registered:
  "k \<in> set cfg_keys \<Longrightarrow> k \<notin> set unbound_keys \<Longrightarrow> settings env f k = viper_get env f k"
  using has_default by (simp add: settings_def)

lemma settings_unbound:
  assumes "k \<in> set unbound_keys"
  shows "f k = None \<Longrightarrow> settings env f k = None"
proof -
  have "set unbound_keys \<subseteq> set cfg_keys" by code_simp
  then have "map_of (cfg_defaults env) k = None"
    using assms cfg_keys_registered registered_iff [of env k] by (auto simp: list_all_iff)
  then show "f k = None \<Longrightarrow> settings env f k = None" by (simp add: settings_def)
qed

section \<open>Loading\<close>

lemma Unmarshal_cong:
  assumes "\<And>k. k \<in> set cfg_keys \<Longrightarrow> s k = t k"
  shows "Unmarshal vd s = Unmarshal vd t"
proof -
  have eq: "list_all (\<lambda>k. s k = t k) cfg_keys" using assms by (simp add: list_all_iff)
  have "decode_Config vd s = decode_Config vd t"
    using eq
    by (simp add: decode_Config_def decode_ServerConfig_def decode_RedisConfig_def decode_KeycloakConfig_def
        decode_KubeVirtConfig_def decode_AWSConfig_def decode_KafkaConfig_def decode_AIConfig_def
        decode_DBConfig_def decode_OTelConfig_def cfg_keys_def cfg_str_keys_def cfg_int_keys_def cfg_bool_keys_def)
  moreover have "find (\<lambda>k. read_int vd (s k) = None) cfg_int_keys = find (\<lambda>k. read_int vd (t k) = None) cfg_int_keys"
    "find (\<lambda>k. read_bool vd (s k) = None) cfg_bool_keys = find (\<lambda>k. read_bool vd (t k) = None) cfg_bool_keys"
    using assms by (intro find_cong; simp add: cfg_keys_def)+
  ultimately show ?thesis unfolding Unmarshal_def by (simp only:)
qed

text \<open>
  The variables of the two unbound fields have no influence: two environments that differ at most there
  load the same configuration unless the file has the fields.
\<close>

theorem redis_credentials_not_from_environment:
  assumes f: "f ''redis.password'' = None" "f ''redis.db'' = None"
    and same: "\<And>x. x \<notin> env_name ` set unbound_keys \<Longrightarrow> env1 x = env2 x"
  shows "Load_config vd parse readFile env1 (ConfigFile f) = Load_config vd parse readFile env2 (ConfigFile f)"
proof -
  have sub: "set unbound_keys \<subseteq> set cfg_keys" by code_simp
  have inj: "inj_on env_name (set cfg_keys)" using env_names_distinct by (simp add: distinct_map)
  have "''KUBECONFIG'' \<notin> env_name ` set unbound_keys" by (auto simp: env_name_def)
  then have d: "cfg_defaults env1 = cfg_defaults env2" using same by (simp add: cfg_defaults_def Getenv_def)
  have "settings env1 f k = settings env2 f k" if k: "k \<in> set cfg_keys" for k
  proof (cases "k \<in> set unbound_keys")
    case True
    then have "f k = None" using f by (auto simp: unbound_keys_def)
    with True show ?thesis by (simp add: settings_unbound)
  next
    case False
    then have "env_name k \<notin> env_name ` set unbound_keys"
      using k sub inj_on_image_mem_iff [OF inj k] by blast
    then have "Getenv env1 (env_name k) = Getenv env2 (env_name k)" using same by (simp add: Getenv_def)
    then show ?thesis using k False d by (simp add: settings_registered viper_get_def split: option.split)
  qed
  then show ?thesis using Unmarshal_cong [of "settings env1 f" "settings env2 f" vd] by (simp add: Load_config_def)
qed

definition no_decoder :: viper_decoder where
  "no_decoder = \<lparr>vd_int = (\<lambda>_. None), vd_bool = (\<lambda>_. None)\<rparr>"

theorem redis_credentials_not_from_environment_witness:
  "Load_config no_decoder (\<lambda>_. Inl ''none'') (\<lambda>_. NotExist) [''CLEDYU_REDIS_PASSWORD'' \<mapsto> ''secret''] (ConfigFile Map.empty) =
   Load_config no_decoder (\<lambda>_. Inl ''none'') (\<lambda>_. NotExist) Map.empty (ConfigFile Map.empty)"
proof -
  have n: "env_name ''redis.password'' = ''CLEDYU_REDIS_PASSWORD''" by code_simp
  then have "[''CLEDYU_REDIS_PASSWORD'' \<mapsto> ''secret''] x = None" if "x \<notin> env_name ` set unbound_keys" for x
    using that by (auto simp: unbound_keys_def)
  then show ?thesis by (intro redis_credentials_not_from_environment) simp_all
qed

text \<open>With no environment, no file and no mounted key the defaults are the configuration.\<close>

definition default_config :: Config where
  "default_config = decode_Config no_decoder (settings Map.empty Map.empty)"

lemma default_settings: "settings Map.empty Map.empty k = map_of (cfg_defaults Map.empty) k"
  by (simp add: settings_def viper_get_def Getenv_def)

lemma defaults_typed:
  "list_all (\<lambda>k. case map_of (cfg_defaults Map.empty) k of Some (VStr s) \<Rightarrow> False | _ \<Rightarrow> True) (cfg_int_keys @ cfg_bool_keys)"
  by code_simp

lemma default_key_values:
  "map (map_of (cfg_defaults Map.empty))
     [''kubevirt.lab_ssh_public_key'', ''kubevirt.file_list_ssh_public_key'', ''kubevirt.file_list_ssh_public_key_path''] =
   [Some (VStr []), Some (VStr []), Some (VStr ''/etc/vm-file-ssh/public_key'')]"
  by code_simp

lemma default_keys_config:
  "keys_of (cfg_KubeVirt default_config) =
     \<lparr>kc_LabSSHPublicKey = [], kc_FileListSSHPublicKey = [], kc_FileListSSHPublicKeyPath = ''/etc/vm-file-ssh/public_key''\<rparr>"
proof -
  let ?s = "settings Map.empty Map.empty"
  have "keys_of (cfg_KubeVirt default_config) =
     \<lparr>kc_LabSSHPublicKey = str_of (?s ''kubevirt.lab_ssh_public_key''),
      kc_FileListSSHPublicKey = str_of (?s ''kubevirt.file_list_ssh_public_key''),
      kc_FileListSSHPublicKeyPath = str_of (?s ''kubevirt.file_list_ssh_public_key_path'')\<rparr>"
    by (simp add: keys_of_def default_config_def decode_Config_def decode_KubeVirtConfig_def)
  then show ?thesis using default_key_values by (simp add: default_settings)
qed

lemma read_typed:
  assumes "case x of Some (VStr s) \<Rightarrow> False | _ \<Rightarrow> True"
  shows "read_int vd x \<noteq> None" "read_bool vd x \<noteq> None"
  using assms by (auto split: option.splits cfg_val.splits)

lemma defaults_unmarshal: "Unmarshal no_decoder (settings Map.empty Map.empty) = Inr default_config"
proof -
  have "read_int no_decoder (settings Map.empty Map.empty k) \<noteq> None"
    "read_bool no_decoder (settings Map.empty Map.empty k) \<noteq> None" if "k \<in> set (cfg_int_keys @ cfg_bool_keys)" for k
    using that defaults_typed unfolding list_all_iff default_settings by (blast intro!: read_typed)+
  then have "find (\<lambda>k. read_int no_decoder (settings Map.empty Map.empty k) = None) cfg_int_keys = None"
    "find (\<lambda>k. read_bool no_decoder (settings Map.empty Map.empty k) = None) cfg_bool_keys = None"
    by (auto simp: find_None_iff)
  then show ?thesis by (simp add: Unmarshal_def default_config_def)
qed

lemma defaults_load: "Load_config no_decoder parse (\<lambda>_. NotExist) Map.empty NoConfigFile = Inr default_config"
proof -
  have "finish_Load parse (\<lambda>_. NotExist) (keys_of (cfg_KubeVirt default_config)) = Inr (keys_of (cfg_KubeVirt default_config))"
    by (simp add: default_keys_config finish_Load_def loadMountedFileListPublicKey_def validate_config_def
        cfg_sshPublicKeyMaterial_def Let_def TrimSpace_def)
  then show ?thesis by (simp add: Load_config_def defaults_unmarshal keys_of_def)
qed

section \<open>Where the loaded fields come from\<close>

text \<open>Every field of the loaded structure with its key.\<close>

definition cfg_str_fields :: "(string \<times> (Config \<Rightarrow> string)) list" where
  "cfg_str_fields =
     [(''server.addr'', \<lambda>c. svc_Addr (cfg_Server c)),
      (''server.mode'', \<lambda>c. svc_Mode (cfg_Server c)),
      (''redis.addr'', \<lambda>c. rdc_Addr (cfg_Redis c)),
      (''redis.password'', \<lambda>c. rdc_Password (cfg_Redis c)),
      (''keycloak.url'', \<lambda>c. kcc_URL (cfg_Keycloak c)),
      (''keycloak.realm'', \<lambda>c. kcc_Realm (cfg_Keycloak c)),
      (''keycloak.client_id'', \<lambda>c. kcc_ClientID (cfg_Keycloak c)),
      (''keycloak.client_secret'', \<lambda>c. kcc_ClientSecret (cfg_Keycloak c)),
      (''keycloak.redirect_uri'', \<lambda>c. kcc_RedirectURI (cfg_Keycloak c)),
      (''keycloak.cookie_domain'', \<lambda>c. kcc_CookieDomain (cfg_Keycloak c)),
      (''keycloak.admin_client_id'', \<lambda>c. kcc_AdminClientID (cfg_Keycloak c)),
      (''keycloak.admin_client_secret'', \<lambda>c. kcc_AdminClientSecret (cfg_Keycloak c)),
      (''kubevirt.kubeconfig'', \<lambda>c. kvc_Kubeconfig (cfg_KubeVirt c)),
      (''kubevirt.base_image_ns'', \<lambda>c. kvc_BaseImageNS (cfg_KubeVirt c)),
      (''kubevirt.base_image_name'', \<lambda>c. kvc_BaseImageName (cfg_KubeVirt c)),
      (''kubevirt.storage_class'', \<lambda>c. kvc_StorageClass (cfg_KubeVirt c)),
      (''kubevirt.lab_ssh_public_key'', \<lambda>c. kvc_LabSSHPublicKey (cfg_KubeVirt c)),
      (''kubevirt.file_list_ssh_public_key'', \<lambda>c. kvc_FileListSSHPublicKey (cfg_KubeVirt c)),
      (''kubevirt.file_list_ssh_public_key_path'', \<lambda>c. kvc_FileListSSHPublicKeyPath (cfg_KubeVirt c)),
      (''kubevirt.file_list_ssh_private_key_path'', \<lambda>c. kvc_FileListSSHPrivateKeyPath (cfg_KubeVirt c)),
      (''aws.region'', \<lambda>c. awc_Region (cfg_AWS c)),
      (''aws.launch_template_id'', \<lambda>c. awc_LaunchTemplateID (cfg_AWS c)),
      (''aws.instance_type'', \<lambda>c. awc_InstanceType (cfg_AWS c)),
      (''aws.tailnet_hostname_prefix'', \<lambda>c. awc_TailnetHostnamePrefix (cfg_AWS c)),
      (''aws.tailscale_auth_key'', \<lambda>c. awc_TailscaleAuthKey (cfg_AWS c)),
      (''aws.tailscale_api_key'', \<lambda>c. awc_TailscaleAPIKey (cfg_AWS c)),
      (''aws.tailscale_oauth_client_id'', \<lambda>c. awc_TailscaleOAuthClientID (cfg_AWS c)),
      (''aws.session_key_tag'', \<lambda>c. awc_SessionKeyTag (cfg_AWS c)),
      (''aws.api_tailscale_auth_key'', \<lambda>c. awc_APITailscaleAuthKey (cfg_AWS c)),
      (''aws.api_tailnet_state_dir'', \<lambda>c. awc_APITailnetStateDir (cfg_AWS c)),
      (''aws.live_terminal_ssh_user'', \<lambda>c. awc_LiveTerminalSSHUser (cfg_AWS c)),
      (''aws.live_terminal_ssh_password'', \<lambda>c. awc_LiveTerminalSSHPassword (cfg_AWS c)),
      (''kafka.brokers'', \<lambda>c. kfc_Brokers (cfg_Kafka c)),
      (''kafka.topic'', \<lambda>c. kfc_Topic (cfg_Kafka c)),
      (''kafka.tls_cert'', \<lambda>c. kfc_TLSCert (cfg_Kafka c)),
      (''kafka.tls_key'', \<lambda>c. kfc_TLSKey (cfg_Kafka c)),
      (''kafka.tls_ca'', \<lambda>c. kfc_TLSCA (cfg_Kafka c)),
      (''kafka.results_topic'', \<lambda>c. kfc_ResultsTopic (cfg_Kafka c)),
      (''kafka.consumer_group'', \<lambda>c. kfc_ConsumerGroup (cfg_Kafka c)),
      (''kafka.events_topic'', \<lambda>c. kfc_EventsTopic (cfg_Kafka c)),
      (''ai.base_url'', \<lambda>c. aic_BaseURL (cfg_AI c)),
      (''db.dsn'', \<lambda>c. dbc_DSN (cfg_DB c)),
      (''otel.endpoint'', \<lambda>c. otc_Endpoint (cfg_OTel c)),
      (''frontend_url'', cfg_FrontendURL)]"

definition cfg_int_fields :: "(string \<times> (Config \<Rightarrow> int)) list" where
  "cfg_int_fields =
     [(''redis.db'', \<lambda>c. rdc_DB (cfg_Redis c)),
      (''kubevirt.session_ttl_hours'', \<lambda>c. kvc_SessionTTLHours (cfg_KubeVirt c)),
      (''kubevirt.provision_timeout_minutes'', \<lambda>c. kvc_ProvisionTimeoutMinutes (cfg_KubeVirt c)),
      (''kubevirt.max_active_sessions'', \<lambda>c. kvc_MaxActiveSessions (cfg_KubeVirt c)),
      (''aws.session_ttl_hours'', \<lambda>c. awc_SessionTTLHours (cfg_AWS c)),
      (''aws.provision_timeout_minutes'', \<lambda>c. awc_ProvisionTimeoutMinutes (cfg_AWS c)),
      (''aws.max_active_sessions'', \<lambda>c. awc_MaxActiveSessions (cfg_AWS c)),
      (''aws.session_key_ttl_seconds'', \<lambda>c. awc_SessionKeyTTLSeconds (cfg_AWS c)),
      (''ai.timeout_seconds'', \<lambda>c. aic_TimeoutSeconds (cfg_AI c))]"

definition cfg_bool_fields :: "(string \<times> (Config \<Rightarrow> bool)) list" where
  "cfg_bool_fields =
     [(''kubevirt.enabled'', \<lambda>c. kvc_Enabled (cfg_KubeVirt c))]"

text \<open>
  The value that the comment at the top of the file promises for a key: the variable of the environment, else the entry of the file,
  else the default. The two keys of Redis without a default are only looked up when they stand in the file.
\<close>

definition promised :: "environ \<Rightarrow> (string \<Rightarrow> cfg_val option) \<Rightarrow> string \<Rightarrow> cfg_val option" where
  "promised env f k =
     (if k \<in> set unbound_keys \<and> f k = None then None
      else if Getenv env (env_name k) \<noteq> [] then Some (VStr (Getenv env (env_name k)))
      else case f k of Some v \<Rightarrow> Some v | None \<Rightarrow> map_of (cfg_defaults env) k)"

lemma settings_promised: "k \<in> set cfg_keys \<Longrightarrow> settings env f k = promised env f k"
  using settings_registered [of k env f] settings_unbound [of k f env]
  by (cases "f k") (auto simp: promised_def viper_get_def settings_def)

lemmas decode_defs = decode_Config_def decode_ServerConfig_def decode_RedisConfig_def decode_KeycloakConfig_def
  decode_KubeVirtConfig_def decode_AWSConfig_def decode_KafkaConfig_def decode_AIConfig_def decode_DBConfig_def
  decode_OTelConfig_def

lemma field_keys:
  "map fst cfg_str_fields = cfg_str_keys" "map fst cfg_int_fields = cfg_int_keys" "map fst cfg_bool_fields = cfg_bool_keys"
  by (simp_all add: cfg_str_fields_def cfg_str_keys_def cfg_int_fields_def cfg_int_keys_def cfg_bool_fields_def cfg_bool_keys_def)

lemma decoded_fields:
  "list_all (\<lambda>(k, get). get (decode_Config vd s) = str_of (s k)) cfg_str_fields"
  "list_all (\<lambda>(k, get). get (decode_Config vd s) = int_of vd (s k)) cfg_int_fields"
  "list_all (\<lambda>(k, get). get (decode_Config vd s) = bool_of vd (s k)) cfg_bool_fields"
  by (simp_all add: cfg_str_fields_def cfg_int_fields_def cfg_bool_fields_def decode_defs)

definition with_file_key :: "string \<Rightarrow> Config \<Rightarrow> Config" where
  "with_file_key key cfg = cfg\<lparr>cfg_KubeVirt := (cfg_KubeVirt cfg)\<lparr>kvc_FileListSSHPublicKey := key\<rparr>\<rparr>"

lemma kept_fields:
  "list_all (\<lambda>(k, get). k = ''kubevirt.file_list_ssh_public_key'' \<or> get (with_file_key key cfg) = get cfg) cfg_str_fields"
  "list_all (\<lambda>(k, get). get (with_file_key key cfg) = get cfg) cfg_int_fields"
  "list_all (\<lambda>(k, get). get (with_file_key key cfg) = get cfg) cfg_bool_fields"
  by (simp_all add: cfg_str_fields_def cfg_int_fields_def cfg_bool_fields_def with_file_key_def)

lemma fields_complete:
  fixes c c' :: Config
  assumes "list_all (\<lambda>(k, get). get c = get c') cfg_str_fields" "list_all (\<lambda>(k, get). get c = get c') cfg_int_fields"
    "list_all (\<lambda>(k, get). get c = get c') cfg_bool_fields"
  shows "c = c'"
  by (intro Config.Config.equality ServerConfig.equality RedisConfig.equality KeycloakConfig.equality KubeVirtConfig.equality
      AWSConfig.equality KafkaConfig.equality AIConfig.equality DBConfig.equality OTelConfig.equality)
    (use assms in \<open>simp_all add: cfg_str_fields_def cfg_int_fields_def cfg_bool_fields_def\<close>)

text \<open>The key in the mounted file, when there is a file with something in it.\<close>

definition mounted_key :: "(string \<Rightarrow> read_result) \<Rightarrow> string \<Rightarrow> string option" where
  "mounted_key readFile path =
     (case readFile (TrimSpace path) of
        Content c \<Rightarrow> if TrimSpace path \<noteq> [] \<and> TrimSpace c \<noteq> [] then Some (TrimSpace c) else None
      | _ \<Rightarrow> None)"

definition file_entries :: "config_file \<Rightarrow> string \<Rightarrow> cfg_val option" where
  "file_entries cf = (case cf of ConfigFile f \<Rightarrow> f | _ \<Rightarrow> Map.empty)"

lemma finish_Load_key:
  assumes "finish_Load parse readFile ks = Inr ks'"
  shows "kc_FileListSSHPublicKey ks' =
    (case mounted_key readFile (kc_FileListSSHPublicKeyPath ks) of Some key \<Rightarrow> key | None \<Rightarrow> kc_FileListSSHPublicKey ks)"
  using assms
  by (auto simp: finish_Load_def loadMountedFileListPublicKey_def mounted_key_def Let_def
      split: sum.splits option.splits read_result.splits if_splits)

lemma Load_config_cases:
  assumes "Load_config vd parse readFile env cf = Inr cfg"
  shows "\<exists>key. cfg = with_file_key key (decode_Config vd (settings env (file_entries cf)))
      \<and> (\<forall>k\<in>set cfg_int_keys. read_int vd (settings env (file_entries cf) k) \<noteq> None)
      \<and> (\<forall>k\<in>set cfg_bool_keys. read_bool vd (settings env (file_entries cf) k) \<noteq> None)
      \<and> key = (case mounted_key readFile (str_of (settings env (file_entries cf) ''kubevirt.file_list_ssh_public_key_path'')) of
           Some m \<Rightarrow> m | None \<Rightarrow> str_of (settings env (file_entries cf) ''kubevirt.file_list_ssh_public_key''))"
proof -
  let ?s = "settings env (file_entries cf)"
  have u: "Unmarshal vd ?s = Inr (decode_Config vd ?s)"
    and ne: "find (\<lambda>k. read_int vd (?s k) = None) cfg_int_keys = None" "find (\<lambda>k. read_bool vd (?s k) = None) cfg_bool_keys = None"
    using assms by (auto simp: Load_config_def Unmarshal_def file_entries_def split: config_file.splits option.splits)
  obtain ks where ks: "finish_Load parse readFile (keys_of (cfg_KubeVirt (decode_Config vd ?s))) = Inr ks"
    "cfg = with_file_key (kc_FileListSSHPublicKey ks) (decode_Config vd ?s)"
    using assms u by (auto simp: Load_config_def file_entries_def with_file_key_def split: config_file.splits sum.splits)
  have kv: "kc_FileListSSHPublicKeyPath (keys_of (cfg_KubeVirt (decode_Config vd ?s))) = str_of (?s ''kubevirt.file_list_ssh_public_key_path'')"
    "kc_FileListSSHPublicKey (keys_of (cfg_KubeVirt (decode_Config vd ?s))) = str_of (?s ''kubevirt.file_list_ssh_public_key'')"
    by (simp_all add: keys_of_def decode_Config_def decode_KubeVirtConfig_def)
  have i: "\<forall>k\<in>set cfg_int_keys. read_int vd (?s k) \<noteq> None" using ne(1) by (simp add: find_None_iff)
  have b: "\<forall>k\<in>set cfg_bool_keys. read_bool vd (?s k) \<noteq> None" using ne(2) by (simp add: find_None_iff)
  show ?thesis
    by (rule exI [of _ "kc_FileListSSHPublicKey ks"]) (intro conjI ks(2) i b finish_Load_key [OF ks(1), unfolded kv])
qed



end
