(* ===== verification/Discovery.thy ===== *)
theory Discovery
  imports Config Router
begin

text \<open>
  The OIDC provider of \<open>src/apps/api/internal/auth/oidc.go\<close> as \<open>NewProvider\<close> builds it from the configuration, and
  what \<open>NewRouter\<close> of \<open>api/router.go\<close> does when the discovery fails. The functions of the two libraries
  (\<open>go-oidc\<close> and \<open>oauth2\<close>) are a record of functions over the outside state; the provider of theory
  \<open>Access\<close>, which the handlers use, is made of them here.
\<close>

section \<open>The libraries\<close>

record oauth2_Config =
  oc_ClientID :: string
  oc_ClientSecret :: string
  oc_Endpoint :: "string \<times> string"
  oc_RedirectURL :: string
  oc_Scopes :: "string list"

record oidc_Config =
  ov_ClientID :: string
  ov_SkipClientIDCheck :: bool

datatype AuthCodeOption = Nonce string | S256ChallengeOption string | SetAuthURLParam string string

text \<open>
  Discovery gives a handle \<open>'op\<close>. A verified token is its nonce and its payload; \<open>ol_EndSession\<close> is the field
  \<open>end_session_endpoint\<close> of the discovery document, empty when it is absent or not readable.
\<close>

record ('op, 'x) oidc_lib =
  ol_NewProvider :: "string \<Rightarrow> 'x \<Rightarrow> (string + 'op) \<times> 'x"
  ol_EndSession :: "'op \<Rightarrow> string"
  ol_Endpoint :: "'op \<Rightarrow> string \<times> string"
  ol_Verify :: "'op \<Rightarrow> oidc_Config \<Rightarrow> string \<Rightarrow> 'x \<Rightarrow> (string + string \<times> string) \<times> 'x"
  ol_Claims :: "string \<Rightarrow> string + claims"
  ol_AuthCodeURL :: "oauth2_Config \<Rightarrow> string \<Rightarrow> AuthCodeOption list \<Rightarrow> string"
  ol_Exchange :: "oauth2_Config \<Rightarrow> string \<Rightarrow> string \<Rightarrow> 'x \<Rightarrow> (string + oauth_token) \<times> 'x"
  ol_Token :: "oauth2_Config \<Rightarrow> string \<Rightarrow> 'x \<Rightarrow> (string + oauth_token) \<times> 'x"

section \<open>The provider\<close>

definition auth_options :: "string \<Rightarrow> string \<Rightarrow> string \<Rightarrow> AuthCodeOption list" where
  "auth_options nonce pkce idp =
     [Nonce nonce, S256ChallengeOption pkce] @ (if idp \<noteq> [] then [SetAuthURLParam ''kc_idp_hint'' idp] else [])"

definition provider_Exchange ::
  "('op, 'x) oidc_lib \<Rightarrow> oauth2_Config \<Rightarrow> string \<Rightarrow> string \<Rightarrow> 'x \<Rightarrow> (string + oauth_token) \<times> 'x" where
  "provider_Exchange lib oc code pkceVerifier = ol_Exchange lib oc code pkceVerifier"

definition provider_Refresh ::
  "('op, 'x) oidc_lib \<Rightarrow> oauth2_Config \<Rightarrow> string \<Rightarrow> 'x \<Rightarrow> (string + oauth_token) \<times> 'x" where
  "provider_Refresh lib oc refreshToken x =
     (let (r, x1) = ol_Token lib oc refreshToken x in
      (case r of Inl e \<Rightarrow> Inl (''refresh token grant: '' @ e) | Inr tok \<Rightarrow> Inr tok, x1))"

definition issuer_of :: "KeycloakConfig \<Rightarrow> string" where
  "issuer_of cfg = trim_slashes (kcc_URL cfg) @ ''/realms/'' @ kcc_Realm cfg"

definition oauth2_of :: "('op, 'x) oidc_lib \<Rightarrow> KeycloakConfig \<Rightarrow> 'op \<Rightarrow> oauth2_Config" where
  "oauth2_of lib cfg op =
     \<lparr>oc_ClientID = kcc_ClientID cfg, oc_ClientSecret = kcc_ClientSecret cfg, oc_Endpoint = ol_Endpoint lib op,
      oc_RedirectURL = kcc_RedirectURI cfg, oc_Scopes = [''openid'', ''profile'', ''email'']\<rparr>"

definition NewProvider ::
  "('op, 'x) oidc_lib \<Rightarrow> KeycloakConfig \<Rightarrow> 'x \<Rightarrow> (string + 'x Provider) \<times> 'x" where
  "NewProvider lib cfg x =
     (let issuer = issuer_of cfg; (r, x1) = ol_NewProvider lib issuer x in
      (case r of
         Inl e \<Rightarrow> Inl (''oidc discovery ('' @ issuer @ ''): '' @ e)
       | Inr op \<Rightarrow>
           (let oc = oauth2_of lib cfg op in
            Inr \<lparr>ap_accessVerify = (\<lambda>raw y. apfst (map_sum id snd)
                    (ol_Verify lib op \<lparr>ov_ClientID = [], ov_SkipClientIDCheck = True\<rparr> raw y)),
                 ap_idVerify = ol_Verify lib op \<lparr>ov_ClientID = kcc_ClientID cfg, ov_SkipClientIDCheck = False\<rparr>,
                 ap_claims = ol_Claims lib,
                 ap_exchange = provider_Exchange lib oc,
                 ap_refresh = provider_Refresh lib oc,
                 ap_authURL = (\<lambda>state nonce pkce idp. ol_AuthCodeURL lib oc state (auth_options nonce pkce idp)),
                 ap_clientID = kcc_ClientID cfg,
                 ap_endSessionURL = ol_EndSession lib op\<rparr>), x1))"

text \<open>\<open>NewRouter\<close>: the discovery is tried once; a failure leaves the server without a provider.\<close>

definition router_provider :: "('op, 'x) oidc_lib \<Rightarrow> KeycloakConfig \<Rightarrow> 'x \<Rightarrow> 'x Provider option" where
  "router_provider lib cfg x = (case fst (NewProvider lib cfg x) of Inl _ \<Rightarrow> None | Inr p \<Rightarrow> Some p)"

definition router_server :: "('op, 'x) oidc_lib \<Rightarrow> Config \<Rightarrow> 'x \<Rightarrow> 'x server \<Rightarrow> 'x server" where
  "router_server lib cfg x sv =
     sv\<lparr>sv_auth := router_provider lib (cfg_Keycloak cfg) x,
        sv_cfg := \<lparr>wc_mode = svc_Mode (cfg_Server cfg), wc_cookie_domain = kcc_CookieDomain (cfg_Keycloak cfg),
                  wc_frontend_url = cfg_FrontendURL cfg\<rparr>\<rparr>"

lemma NewProvider_Inr:
  assumes "NewProvider lib cfg x = (Inr p, x1)"
  obtains op where "fst (ol_NewProvider lib (issuer_of cfg) x) = Inr op"
    "ap_idVerify p = ol_Verify lib op \<lparr>ov_ClientID = kcc_ClientID cfg, ov_SkipClientIDCheck = False\<rparr>"
    "ap_exchange p = ol_Exchange lib (oauth2_of lib cfg op)"
  using assms by (fastforce simp: NewProvider_def Let_def provider_Exchange_def split: prod.splits sum.splits)

section \<open>Signing in\<close>

text \<open>
  What the verifier of the library promises: unless the check is switched off, an accepted token was issued for the
  configured client. \<open>aud\<close> is the audience a raw token carries.
\<close>

definition checks_audience :: "('op, 'x) oidc_lib \<Rightarrow> (string \<Rightarrow> string set) \<Rightarrow> bool" where
  "checks_audience lib aud \<longleftrightarrow>
     (\<forall>op vc raw x r x'. ol_Verify lib op vc raw x = (Inr r, x') \<longrightarrow> ov_SkipClientIDCheck vc \<or> ov_ClientID vc \<in> aud raw)"

text \<open>
  C33. A sign-in through a provider that was discovered from the configuration: when the callback sets a session cookie,
  the state of the query is the non-empty one of the browser's cookie, the code was redeemed at the discovered
  endpoint with the configured client, secret and redirect address and with the code verifier of this browser, and
  the ID token that came back was issued for this client and carries the nonce of this browser; the cookie belongs
  to the token that was redeemed, is HTTP-only and, in release mode, secure.
\<close>

theorem login_bound_to_browser_and_client:
  assumes disc: "NewProvider lib kc x0 = (Inr p, x1)" and law: "checks_audience lib aud"
    and run: "Callback h (Some p) cfg now rq a = ((out, cookies), a')"
    and c: "c \<in> set cookies" "ck_name c \<in> {cookieAccessToken, cookieIDToken, cookieRefreshToken}"
  shows "\<exists>op token raw tok x.
      fst (ol_NewProvider lib (issuer_of kc) x0) = Inr op
    \<and> Query rq ''state'' \<noteq> [] \<and> rq_cookies rq cookieOAuthState = Some (Query rq ''state'')
    \<and> cookie_or_empty rq cookiePKCE \<noteq> []
    \<and> fst (ol_Exchange lib (oauth2_of lib kc op) (Query rq ''code'') (cookie_or_empty rq cookiePKCE) (a_ext a)) = Inr token
    \<and> ot_id_token token = Some raw \<and> kcc_ClientID kc \<in> aud raw
    \<and> fst (ol_Verify lib op \<lparr>ov_ClientID = kcc_ClientID kc, ov_SkipClientIDCheck = False\<rparr> raw x)
        = Inr (cookie_or_empty rq cookieOAuthNonce, tok)
    \<and> c \<in> set (setSessionCookies cfg now token) \<and> ck_httpOnly c \<and> ck_secure c = (wc_mode cfg = ''release'')
    \<and> out = Redirect (wc_frontend_url cfg @ ''/callback'')"
proof -
  obtain op where op: "fst (ol_NewProvider lib (issuer_of kc) x0) = Inr op"
    and v: "ap_idVerify p = ol_Verify lib op \<lparr>ov_ClientID = kcc_ClientID kc, ov_SkipClientIDCheck = False\<rparr>"
    and e: "ap_exchange p = ol_Exchange lib (oauth2_of lib kc op)" by (rule NewProvider_Inr [OF disc])
  obtain token raw tok x where facts: "Query rq ''state'' \<noteq> []"
    "rq_cookies rq cookieOAuthState = Some (Query rq ''state'')"
    "fst (ap_exchange p (Query rq ''code'') (cookie_or_empty rq cookiePKCE) (a_ext a)) = Inr token"
    "cookie_or_empty rq cookiePKCE \<noteq> []" "ot_id_token token = Some raw"
    and ver: "fst (ap_idVerify p raw x) = Inr (cookie_or_empty rq cookieOAuthNonce, tok)"
    and rest: "c \<in> set (setSessionCookies cfg now token)" "ck_httpOnly c" "ck_secure c = (wc_mode cfg = ''release'')"
      "out = Redirect (wc_frontend_url cfg @ ''/callback'')"
    using callback_binds_session_to_browser [OF run c] by blast
  have "kcc_ClientID kc \<in> aud raw"
    using law ver unfolding v checks_audience_def by (metis oidc_Config.select_convs prod.collapse)
  then show ?thesis using op facts ver rest unfolding v e by blast
qed

section \<open>A failed discovery\<close>

lemma refused_503:
  assumes "sv_auth sv = None" "wc_mode (sv_cfg sv) = ''release''"
  shows "with_user sv i k s = (Answer (err_resp 503 ''auth provider unavailable''), s)"
  using assms by (cases s) (simp add: with_user_def on_ext_def JWT_def)

text \<open>
  A release server whose discovery failed at its start serves nobody for as long as it runs: in every later state
  signing in, the callback and the refresh answer 503, and so does every routed request of the API. Nothing tries
  the discovery again, although the message logged at the start says that signing in is disabled until Keycloak
  is reachable; and the readiness probe keeps answering 200 when the labs are loaded.
\<close>

theorem failed_discovery_is_final:
  assumes "fst (NewProvider lib (cfg_Keycloak cfg) x0) = Inl err" and "svc_Mode (cfg_Server cfg) = ''release''"
    and "seg \<noteq> ''auth''"
  shows "(serve h (router_server lib cfg x0 sv) i m (''api'' # ''v1'' # seg # rest) s \<in>
       {(NoRoute, s), (Answer (err_resp 503 ''auth provider unavailable''), s)})
    \<and> serve_public h (router_server lib cfg x0 sv) i P_Login s = (Web (Json (err_resp 503 ''auth provider not configured''), []), s)
    \<and> serve_public h (router_server lib cfg x0 sv) i P_Callback s = (Web (Json (err_resp 503 ''auth provider not configured''), []), s)
    \<and> serve_public h (router_server lib cfg x0 sv) i P_Refresh s = (Web (Json (err_resp 503 ''auth provider not configured''), []), s)
    \<and> (\<exists>b. serve_public h (router_server lib cfg x0 sv) i P_Ready s =
         (Answer (Resp (if sv_labs_loaded sv then 200 else 503) b), s))"
proof -
  let ?sv = "router_server lib cfg x0 sv"
  have sv: "sv_auth ?sv = None" "wc_mode (sv_cfg ?sv) = ''release''" "sv_labs_loaded ?sv = sv_labs_loaded sv"
    using assms(1,2) by (simp_all add: router_server_def router_provider_def)
  have "route_of True m (''api'' # ''v1'' # seg # rest) \<noteq> Some (Public p)" for p
    using under_v1 [OF assms(3), of m rest] user_only admin_only
    by (fastforce simp: route_of_def find_route_append split: option.splits)
  then have "serve h ?sv i m (''api'' # ''v1'' # seg # rest) s \<in>
      {(NoRoute, s), (Answer (err_resp 503 ''auth provider unavailable''), s)}"
    by (simp add: serve_def refused_503 [OF sv(1,2)] sv(2) split: option.split route.split)
  moreover have "\<exists>b. serve_public h ?sv i P_Ready s = (Answer (Resp (if sv_labs_loaded sv then 200 else 503) b), s)"
    using sv by (simp add: Ready_def)
  ultimately show ?thesis
    using sv(1) by (simp add: Login.Login_def Callback_def Refresh_def)
qed

section \<open>A realm with one client\<close>

definition demo_lib :: "(unit, unit) oidc_lib" where
  "demo_lib =
     \<lparr>ol_NewProvider = (\<lambda>iss x. (if iss = ''https://kc/realms/cledyu'' then Inr () else Inl ''404'', x)),
      ol_EndSession = (\<lambda>_. []), ol_Endpoint = (\<lambda>_. (''https://kc/auth'', ''https://kc/token'')),
      ol_Verify = (\<lambda>_ vc raw x. (if ov_SkipClientIDCheck vc \<or> ov_ClientID vc = ''web'' then Inr (''n1'', ''tok'') else Inl ''audience'', x)),
      ol_Claims = (\<lambda>_. Inr demo_claims), ol_AuthCodeURL = (\<lambda>_ _ _. []),
      ol_Exchange = (\<lambda>oc code v x. (if v = ''v1'' \<and> oc_ClientSecret oc = ''s3cret'' then Inr demo_token else Inl ''refused'', x)),
      ol_Token = (\<lambda>_ _ x. (Inl ''no'', x))\<rparr>"

definition demo_keycloak :: KeycloakConfig where
  "demo_keycloak = \<lparr>kcc_URL = ''https://kc/'', kcc_Realm = ''cledyu'', kcc_ClientID = ''web'', kcc_ClientSecret = ''s3cret'',
     kcc_RedirectURI = ''https://api/callback'', kcc_CookieDomain = [], kcc_AdminClientID = [], kcc_AdminClientSecret = []\<rparr>"

definition demo_provider :: "unit Provider" where
  "demo_provider = the (router_provider demo_lib demo_keycloak ())"

lemmas demo_lib_defs = demo_lib_def demo_keycloak_def issuer_of_def trim_slashes_def

lemma demo_discovered: "NewProvider demo_lib demo_keycloak () = (Inr demo_provider, ())"
  by (simp add: demo_provider_def router_provider_def NewProvider_def demo_lib_defs Let_def)

lemma demo_provider_fields:
  "ap_exchange demo_provider ''c1'' ''v1'' x = (Inr demo_token, x)" "ap_idVerify demo_provider raw x = (Inr (''n1'', ''tok''), x)"
  "ap_claims demo_provider = (\<lambda>_. Inr demo_claims)"
  by (simp_all add: demo_provider_def router_provider_def NewProvider_def demo_lib_defs Let_def provider_Exchange_def oauth2_of_def)

lemma demo_audience: "checks_audience demo_lib (\<lambda>_. {''web''})"
  by (simp add: checks_audience_def demo_lib_def)

lemma demo_not_discovered:
  "fst (NewProvider demo_lib (demo_keycloak\<lparr>kcc_Realm := ''gone''\<rparr>) ()) = Inl ''oidc discovery (https://kc/realms/gone): 404''"
  by (simp add: NewProvider_def demo_lib_defs)

lemma demo_signed_in:
  "\<exists>out cookies a'. Callback board_handler (Some demo_provider) demo_web 0 demo_callback board_app = ((out, cookies), a')
     \<and> SetCookie demo_web cookieAccessToken ''at'' 60 \<in> set cookies"
  by (simp add: Callback_def finish_login_def demo_provider_fields demo_callback_def demo_token_def Query_def cookie_or_empty_def
      cookie_names on_ext_def VerifyIDToken_def setSessionCookies_def second_def)

theorem login_bound_to_browser_and_client_witness:
  "\<exists>c out cookies a' op token raw tok x. Callback board_handler (Some demo_provider) demo_web 0 demo_callback board_app = ((out, cookies), a')
    \<and> c \<in> set cookies \<and> ck_name c = cookieAccessToken
    \<and> fst (ol_Exchange demo_lib (oauth2_of demo_lib demo_keycloak op) ''c1'' ''v1'' (a_ext board_app)) = Inr token
    \<and> ot_id_token token = Some raw \<and> kcc_ClientID demo_keycloak \<in> {''web''}
    \<and> fst (ol_Verify demo_lib op \<lparr>ov_ClientID = ''web'', ov_SkipClientIDCheck = False\<rparr> raw x) = Inr (''n1'', tok)"
proof -
  let ?c = "SetCookie demo_web cookieAccessToken ''at'' 60"
  obtain out cookies a' where run: "Callback board_handler (Some demo_provider) demo_web 0 demo_callback board_app = ((out, cookies), a')"
    and c: "?c \<in> set cookies" using demo_signed_in by blast
  have n: "ck_name ?c \<in> {cookieAccessToken, cookieIDToken, cookieRefreshToken}" by (simp add: SetCookie_def)
  show ?thesis
    using login_bound_to_browser_and_client [OF demo_discovered demo_audience run c n] run c
    by (fastforce simp: demo_callback_def Query_def cookie_or_empty_def cookie_names demo_keycloak_def SetCookie_def)
qed

end
