(* ===== verification/Boot_Watcher.thy ===== *)
theory Boot_Watcher
  imports Kubevirt
begin

text \<open>
  The watcher of \<open>src/apps/api/internal/kubevirt/watcher.go\<close>: \<open>StartVMIWatcher\<close> registers its functions with an
  informer and runs it. What the informer delivers, adds and updates with repetitions every thirty
  seconds, is the argument; it delivers only instances named \<open>session-vm\<close>, by the selector of both its
  calls. The same instances are seen by the polls of \<open>Get\<close>, which use the same \<open>syncBootStatus\<close>.
\<close>

section \<open>The watcher\<close>

definition vmiFieldSelector :: string where "vmiFieldSelector = ''metadata.name=session-vm''"

definition resyncPeriod :: duration where "resyncPeriod = 30 * second"

text \<open>An object of the informer: the namespace and the phase, or something that is no such object.\<close>

type_synonym vmi_obj = "(string \<times> string) option"

datatype vmi_event = AddFunc vmi_obj | UpdateFunc vmi_obj vmi_obj

definition handle_obj :: "'w k8s \<Rightarrow> go_time \<Rightarrow> vmi_obj \<Rightarrow> 'w manager \<Rightarrow> 'w manager" where
  "handle_obj api now ob m = (case ob of None \<Rightarrow> m | Some (ns, phase) \<Rightarrow> handleVMIEvent api now ns phase m)"

fun on_vmi_event :: "'w k8s \<Rightarrow> go_time \<times> vmi_event \<Rightarrow> 'w manager \<Rightarrow> 'w manager" where
  "on_vmi_event api (now, AddFunc ob) m = handle_obj api now ob m"
| "on_vmi_event api (now, UpdateFunc old new) m = handle_obj api now new m"

definition StartVMIWatcher :: "'w k8s \<Rightarrow> string option \<Rightarrow> (go_time \<times> vmi_event) list \<Rightarrow> 'w manager \<Rightarrow> 'w manager" where
  "StartVMIWatcher api register_err evs m = (case register_err of Some _ \<Rightarrow> m | None \<Rightarrow> fold (on_vmi_event api) evs m)"

section \<open>Counting boots\<close>

definition boot_count :: "string \<Rightarrow> 'w manager \<Rightarrow> nat" where
  "boot_count result m = (case kv_met m of None \<Rightarrow> 0 | Some r \<Rightarrow> vmBootTotal r (result, ProviderKubeVirt))"

text \<open>
  What the record relies on: reads change nothing and find a namespace under its name, an update that succeeds is
  what is read next, and one that reports an error was carried out or not.
\<close>

definition k8s_settles :: "'w k8s \<Rightarrow> bool" where
  "k8s_settles api \<longleftrightarrow> k8s_reads_back api
     \<and> (\<forall>ns w e w' old. k_ns_update api ns w = (Some e, w') \<longrightarrow> k_ns_get api (ns_name ns) w = (Inr old, w) \<longrightarrow>
          k_ns_get api (ns_name ns) w' = (Inr old, w') \<or> k_ns_get api (ns_name ns) w' = (Inr ns, w'))"

text \<open>Without its annotation a result has not been counted yet, beyond what was counted before.\<close>

definition counted_once :: "'w k8s \<Rightarrow> string \<Rightarrow> nat \<Rightarrow> nat \<Rightarrow> 'w manager \<Rightarrow> bool" where
  "counted_once api n s0 f0 m \<longleftrightarrow>
     (\<exists>ns. k_ns_get api n (kv_world m) = (Inr ns, kv_world m) \<and> ns_name ns = n
        \<and> ns_labels ns labelManagedBy = Some managedByValue
        \<and> boot_count ResultSuccess m \<le> s0 + (if ann_set ns annReadyAt then 1 else 0)
        \<and> boot_count ResultFailed m \<le> f0 + (if ann_set ns annReadyAt \<or> ann_set ns annBootResult then 1 else 0))"

lemma boot_count_record [simp]:
  "boot_count r (m\<lparr>kv_world := w, kv_met := RecordLabStart a b c d (RecordBoot r' ProviderKubeVirt (kv_met m))\<rparr>) =
   (if kv_met m = None then 0 else boot_count r m + (if r = r' then 1 else 0))"
  by (cases "kv_met m") (auto simp: boot_count_def RecordBoot_def RecordLabStart_def Let_def)

lemma boot_count_world [simp]: "boot_count r (m\<lparr>kv_world := w\<rparr>) = boot_count r m"
  by (simp add: boot_count_def)

lemma results_differ [simp]: "ResultSuccess \<noteq> ResultFailed" "ResultFailed \<noteq> ResultSuccess"
  by (simp_all add: ResultSuccess_def ResultFailed_def)

lemma update_read:
  assumes "k8s_settles api" "k_ns_get api n w = (Inr ns, w)" "ns_name ns' = n" "k_ns_update api ns' w = (e, w')"
  obtains ns'' where "k_ns_get api n w' = (Inr ns'', w')" "ns'' = ns \<or> ns'' = ns'" "e = None \<Longrightarrow> ns'' = ns'"
proof (cases e)
  case None
  then have "k_ns_get api n w' = (Inr ns', w')" using assms by (auto simp: k8s_settles_def k8s_reads_back_def)
  then show ?thesis using that by blast
next
  case (Some x)
  then have "k_ns_get api n w' = (Inr ns, w') \<or> k_ns_get api n w' = (Inr ns', w')"
    using assms unfolding k8s_settles_def by metis
  then show ?thesis using that Some by blast
qed

text \<open>The state after annotating: the counters as they were, or one result counted if the update succeeded.\<close>

lemma counted_after_update:
  assumes law: "k8s_settles api" and get: "k_ns_get api n (kv_world m) = (Inr ns, kv_world m)"
    and ns: "ns_name ns = n" "ns_labels ns labelManagedBy = Some managedByValue"
    and up: "k_ns_update api (annotate k v ns) (kv_world m) = (e, w)" and v: "v \<noteq> Text []"
    and k: "k = annReadyAt \<and> \<not> ann_set ns annReadyAt \<or> k = annBootResult \<and> \<not> ann_set ns annReadyAt \<and> \<not> ann_set ns annBootResult"
    and old: "boot_count ResultSuccess m \<le> s0" "\<not> ann_set ns annBootResult \<Longrightarrow> boot_count ResultFailed m \<le> f0"
      "boot_count ResultFailed m \<le> f0 + 1"
    and m': "boot_count ResultSuccess m' \<le> boot_count ResultSuccess m + (if e = None \<and> k = annReadyAt then 1 else 0)"
      "boot_count ResultFailed m' \<le> boot_count ResultFailed m + (if e = None \<and> k = annBootResult then 1 else 0)"
      "kv_world m' = w"
  shows "counted_once api n s0 f0 m'"
proof -
  obtain ns'' where r: "k_ns_get api n w = (Inr ns'', w)" "ns'' = ns \<or> ns'' = annotate k v ns" "e = None \<Longrightarrow> ns'' = annotate k v ns"
    by (rule update_read [OF law get _ up]) (use ns in auto)
  have d: "annReadyAt \<noteq> annBootResult" by (simp add: ann_defs)
  have a: "ann_set (annotate k v ns) k" using v by (simp add: ann_set_annotate)
  have o1: "k = annBootResult \<Longrightarrow> ann_set (annotate k v ns) annReadyAt = ann_set ns annReadyAt"
    "k = annReadyAt \<Longrightarrow> ann_set (annotate k v ns) annBootResult = ann_set ns annBootResult"
    using d by (auto simp: ann_set_def annotate_def meta_get_def)
  have "ns_name ns'' = n" "ns_labels ns'' labelManagedBy = Some managedByValue" using r(2) ns by auto
  moreover have "boot_count ResultSuccess m' \<le> s0 + (if ann_set ns'' annReadyAt then 1 else 0)"
    using m'(1) old(1) a r(3) d by (auto split: if_splits)
  moreover have "boot_count ResultFailed m' \<le> f0 + (if ann_set ns'' annReadyAt \<or> ann_set ns'' annBootResult then 1 else 0)"
    using m'(2) old(2,3) a r(2,3) d o1 k by (auto split: if_splits)
  ultimately show ?thesis using r(1) m'(3) unfolding counted_once_def by blast
qed

lemma counted_sync:
  assumes law: "k8s_settles api" and inv: "counted_once api n s0 f0 m"
  shows "counted_once api n s0 f0 (snd (syncBootStatus api now n phase m))"
proof -
  obtain ns where ns: "k_ns_get api n (kv_world m) = (Inr ns, kv_world m)" "ns_name ns = n"
    "ns_labels ns labelManagedBy = Some managedByValue"
    and s: "boot_count ResultSuccess m \<le> s0 + (if ann_set ns annReadyAt then 1 else 0)"
    and f: "boot_count ResultFailed m \<le> f0 + (if ann_set ns annReadyAt \<or> ann_set ns annBootResult then 1 else 0)"
    using inv unfolding counted_once_def by blast
  consider (quiet) "syncBootStatus api now n phase m = (None, m)"
    | (ready) "phase = ''Running''" "\<not> ann_set ns annReadyAt"
    | (failed) "phase \<in> failure_phases" "\<not> ann_set ns annReadyAt" "\<not> ann_set ns annBootResult"
    using ns sync_recorded [OF ns(1), of phase now] by (auto simp: failure_phases_def)
  then show ?thesis
  proof cases
    case quiet
    then show ?thesis using inv by simp
  next
    case ready
    obtain e w where up: "k_ns_update api (annotate annReadyAt (format_rfc3339 now) ns) (kv_world m) = (e, w)" by fastforce
    have v: "format_rfc3339 now \<noteq> Text []" by (simp add: format_rfc3339_def)
    have "\<exists>m'. snd (syncBootStatus api now n phase m) = m' \<and> kv_world m' = w
        \<and> boot_count ResultSuccess m' \<le> boot_count ResultSuccess m + (if e = None then 1 else 0)
        \<and> boot_count ResultFailed m' \<le> boot_count ResultFailed m"
      using ready ns up
      by (auto simp: syncBootStatus_def api_call_def Let_def split: option.split)
    then obtain m' where m': "snd (syncBootStatus api now n phase m) = m'" "kv_world m' = w"
      "boot_count ResultSuccess m' \<le> boot_count ResultSuccess m + (if e = None then 1 else 0)"
      "boot_count ResultFailed m' \<le> boot_count ResultFailed m" by blast
    show ?thesis unfolding m'(1)
      by (rule counted_after_update [OF law ns up v]) (use ready s f m' in \<open>auto simp: ann_defs split: if_splits\<close>)
  next
    case failed
    obtain e w where up: "k_ns_update api (annotate annBootResult (Text ''true'') ns) (kv_world m) = (e, w)" by fastforce
    have nr: "phase \<noteq> ''Running''" using failed by (auto simp: failure_phases_def)
    have "\<exists>m'. snd (syncBootStatus api now n phase m) = m' \<and> kv_world m' = w
        \<and> boot_count ResultFailed m' \<le> boot_count ResultFailed m + (if e = None then 1 else 0)
        \<and> boot_count ResultSuccess m' \<le> boot_count ResultSuccess m"
      using failed nr ns up
      by (auto simp: syncBootStatus_def api_call_def Let_def failure_phases_def split: option.split)
    then obtain m' where m': "snd (syncBootStatus api now n phase m) = m'" "kv_world m' = w"
      "boot_count ResultFailed m' \<le> boot_count ResultFailed m + (if e = None then 1 else 0)"
      "boot_count ResultSuccess m' \<le> boot_count ResultSuccess m" by blast
    show ?thesis unfolding m'(1)
      by (rule counted_after_update [OF law ns up]) (use failed s f m' in \<open>auto simp: ann_defs split: if_splits\<close>)
  qed
qed

fun of_namespace :: "string \<Rightarrow> vmi_event \<Rightarrow> bool" where
  "of_namespace n (AddFunc ob) = (case ob of None \<Rightarrow> True | Some (ns, _) \<Rightarrow> ns = n)"
| "of_namespace n (UpdateFunc _ ob) = (case ob of None \<Rightarrow> True | Some (ns, _) \<Rightarrow> ns = n)"

lemma counted_event:
  assumes "k8s_settles api" "counted_once api n s0 f0 m" "of_namespace n (snd ev)"
  shows "counted_once api n s0 f0 (on_vmi_event api ev m)"
  using assms by (cases "(api, ev, m)" rule: on_vmi_event.cases)
    (auto simp: handle_obj_def handleVMIEvent_def counted_sync split: option.split)

lemma counted_events:
  "k8s_settles api \<Longrightarrow> list_all (of_namespace n \<circ> snd) evs \<Longrightarrow> counted_once api n s0 f0 m \<Longrightarrow>
   counted_once api n s0 f0 (fold (on_vmi_event api) evs m)"
  by (induction evs arbitrary: m) (auto simp: counted_event)

lemma counted_bounds:
  "counted_once api n s0 f0 m \<Longrightarrow> boot_count ResultSuccess m \<le> s0 + 1 \<and> boot_count ResultFailed m \<le> f0 + 1"
  unfolding counted_once_def by (auto split: if_splits)

text \<open>
  C39. Whatever the informer delivers of a session's instance, in any order and with any repetitions, and whichever
  updates fail, a session that has no result recorded yet adds at most one to each of the two counters.
\<close>

theorem boot_results_counted_once:
  assumes law: "k8s_settles api" and get: "k_ns_get api n (kv_world m) = (Inr ns, kv_world m)"
    and managed: "ns_labels ns labelManagedBy = Some managedByValue"
    and evs: "list_all (of_namespace n \<circ> snd) evs"
  shows "boot_count ResultSuccess (StartVMIWatcher api reg evs m) \<le> boot_count ResultSuccess m + 1
    \<and> boot_count ResultFailed (StartVMIWatcher api reg evs m) \<le> boot_count ResultFailed m + 1"
proof -
  have "ns_name ns = n" using law get unfolding k8s_settles_def k8s_reads_back_def by blast
  then have c: "counted_once api n (boot_count ResultSuccess m) (boot_count ResultFailed m) m"
    using get managed by (auto simp: counted_once_def)
  have "counted_once api n (boot_count ResultSuccess m) (boot_count ResultFailed m) (StartVMIWatcher api reg evs m)"
    using counted_events [OF law evs c] c by (simp add: StartVMIWatcher_def split: option.split)
  then show ?thesis by (rule counted_bounds)
qed

section \<open>A session seen twice\<close>

lemma cluster_settles: "k8s_settles cluster_api"
  using cluster_reads_back by (auto simp: k8s_settles_def cluster_api_def split: option.splits if_splits)

definition demo_vmi_events :: "(go_time \<times> vmi_event) list" where
  "demo_vmi_events = [(1100 * second, AddFunc (Some (''lab-s1'', ''Running''))),
     (1130 * second, UpdateFunc (Some (''lab-s1'', ''Running'')) (Some (''lab-s1'', ''Running''))),
     (1140 * second, UpdateFunc None None)]"

lemma demo_watched:
  "boot_count ResultSuccess demo_manager = 0
   \<and> boot_count ResultSuccess (StartVMIWatcher cluster_api None demo_vmi_events demo_manager) = 1"
  by (simp add: StartVMIWatcher_def demo_vmi_events_def handle_obj_def handleVMIEvent_def boot_count_def demo_kv
      format_rfc3339_def RecordBoot_def RecordLabStart_def new_recorder_def ResultSuccess_def ProviderKubeVirt_def)

theorem boot_results_counted_once_witness:
  "boot_count ResultSuccess (StartVMIWatcher cluster_api None demo_vmi_events demo_manager) \<le> boot_count ResultSuccess demo_manager + 1
    \<and> boot_count ResultFailed (StartVMIWatcher cluster_api None demo_vmi_events demo_manager) \<le> boot_count ResultFailed demo_manager + 1"
  by (rule boot_results_counted_once [OF cluster_settles demo_get])
    (simp_all add: demo_ns_def demo_vmi_events_def)

end
