(* ===== verification/Port_Forward.thy ===== *)
theory Port_Forward
  imports Vm_Files
begin

text \<open>
  The transport of file access: the connector that opens a port forward to the SSH port of one
  session machine through the Kubernetes API, and the connection that hides its WebSocket frames
  (\<open>src/apps/api/internal/vmfiles/kubevirt_connector.go\<close>), with the constructors of
  \<open>access.go\<close> and \<open>ssh_runner.go\<close> that assemble them.

  The WebSocket library, the client library that adds credentials to a request, and the parser of the
  authority of a URL are arguments. What is relied on of the WebSocket library is stated once, as
  \<open>ws_contract\<close>.
\<close>

section \<open>The address of a session machine\<close>

definition isValidKubeVirtSessionID :: "string \<Rightarrow> bool" where
  "isValidKubeVirtSessionID sid \<longleftrightarrow>
     length sid = 8 \<and>
     list_all (\<lambda>r. CHR ''0'' \<le> r \<and> r \<le> CHR ''9'' \<or> CHR ''a'' \<le> r \<and> r \<le> CHR ''f'') sid"

text \<open>
  \<open>url.Parse\<close> finds the scheme in front of the first colon; a text that cannot be a scheme leaves it
  empty. The scheme is lowered. What follows is the authority and the path, read by \<open>rest\<close>.
\<close>

fun getScheme :: "string \<Rightarrow> string \<Rightarrow> (string \<times> string) option" where
  "getScheme seen [] = Some ([], rev seen)"
| "getScheme seen (c # cs) =
     (if CHR ''A'' \<le> c \<and> c \<le> CHR ''Z'' \<or> CHR ''a'' \<le> c \<and> c \<le> CHR ''z'' then getScheme (c # seen) cs
      else if CHR ''0'' \<le> c \<and> c \<le> CHR ''9'' \<or> c = CHR ''+'' \<or> c = CHR ''-'' \<or> c = CHR ''.''
      then (if seen = [] then Some ([], c # cs) else getScheme (c # seen) cs)
      else if c = CHR '':'' then (if seen = [] then None else Some (rev seen, cs))
      else Some ([], rev seen @ c # cs))"

record url =
  u_Scheme :: string
  u_Host :: string
  u_Path :: string

definition lower_char :: "char \<Rightarrow> char" where
  "lower_char c = (if CHR ''A'' \<le> c \<and> c \<le> CHR ''Z'' then char_of ((of_char c :: nat) + 32) else c)"

definition url_Parse :: "(string \<Rightarrow> string + string \<times> string) \<Rightarrow> string \<Rightarrow> string + url" where
  "url_Parse rest raw =
     (case getScheme [] raw of
        None \<Rightarrow> Inl ''missing protocol scheme''
      | Some (scheme, r) \<Rightarrow>
          (case rest r of
             Inl e \<Rightarrow> Inl e
           | Inr (host, p) \<Rightarrow> Inr \<lparr>u_Scheme = map lower_char scheme, u_Host = host, u_Path = p\<rparr>))"

text \<open>
  The text of a URL with a scheme and a path. A path that does not start with a slash is set off from
  the host by one. The path is written as it is: of the paths the connector builds, only the part that
  comes with the configured host could hold anything to escape.
\<close>

definition url_String :: "url \<Rightarrow> string" where
  "url_String u =
     u_Scheme u @ ''://'' @ u_Host u @
     (if u_Path u \<noteq> [] \<and> \<not> IsAbs (u_Path u) \<and> u_Host u \<noteq> [] then ''/'' else []) @ u_Path u"

text \<open>\<open>path.Join\<close> drops empty elements and cleans the rest.\<close>

definition path_Join :: "string list \<Rightarrow> string" where
  "path_Join es =
     (let ne = filter (\<lambda>e. e \<noteq> []) es in if ne = [] then [] else Clean (join_with CHR ''/'' ne))"

definition forward_segments :: "string \<Rightarrow> string \<Rightarrow> string list" where
  "forward_segments version sid =
     [''apis'', ''subresources.kubevirt.io'', version, ''namespaces'', ''lab-'' @ sid,
      ''virtualmachineinstances'', ''session-vm'', ''portforward'', ''22'', ''tcp'']"

definition portForwardURL ::
  "(string \<Rightarrow> string + string \<times> string) \<Rightarrow> string \<Rightarrow> string \<Rightarrow> string \<Rightarrow> string + string" where
  "portForwardURL rest version host sid =
     (case url_Parse rest host of
        Inl e \<Rightarrow> Inl (''parse KubeVirt API host: '' @ e)
      | Inr u \<Rightarrow>
          (if u_Scheme u = ''https'' \<or> u_Scheme u = ''http''
           then Inr (url_String
                  (u\<lparr>u_Scheme := (if u_Scheme u = ''https'' then ''wss'' else ''ws''),
                     u_Path := path_Join (u_Path u # forward_segments version sid)\<rparr>))
           else Inl (''unsupported KubeVirt API scheme '' @ u_Scheme u)))"

section \<open>Opening the port forward\<close>

text \<open>
  A round trip may give a response, an error or both. \<open>dial\<close> is the WebSocket dialer; the round tripper
  remembers the connection it got. The wrappers of the client library turn one round tripper into
  another or fail.
\<close>

record http_response =
  hr_StatusCode :: int
  hr_Status :: string

type_synonym ('c, 'w) roundtrip =
  "string \<Rightarrow> 'c option \<times> 'w \<Rightarrow> (http_response option \<times> string option) \<times> ('c option \<times> 'w)"

definition RoundTrip ::
  "(string \<Rightarrow> 'w \<Rightarrow> ((string + 'c) \<times> http_response option) \<times> 'w) \<Rightarrow> ('c, 'w) roundtrip" where
  "RoundTrip dial address cw =
     (let ((r, response), w1) = dial address (snd cw) in
      case r of
        Inl e \<Rightarrow> ((response, Some e), (fst cw, w1))
      | Inr conn \<Rightarrow> ((response, None), (Some conn, w1)))"

text \<open>What the context of the request says when it is asked: before the dial, and after it failed.\<close>

record ctx_view =
  cx_before :: "string option"
  cx_after :: "string option"
  cx_past_deadline :: bool

text \<open>
  The connector: \<open>None\<close> is a nil one, otherwise the host of the cluster's API. \<open>version\<close> is the stored
  API version of the KubeVirt module.
\<close>

definition Connect ::
  "(string \<Rightarrow> string + string \<times> string) \<Rightarrow> string \<Rightarrow> (('c, 'w) roundtrip \<Rightarrow> string + ('c, 'w) roundtrip) \<Rightarrow>
   (string \<Rightarrow> 'w \<Rightarrow> ((string + 'c) \<times> http_response option) \<times> 'w) \<Rightarrow>
   string option \<Rightarrow> ctx_view \<Rightarrow> string \<Rightarrow> 'w \<Rightarrow> (string + 'c) \<times> 'w" where
  "Connect rest version wrap dial c cx sid w =
     (case c of
        None \<Rightarrow> (Inl ''KubeVirt connector is unavailable'', w)
      | Some host \<Rightarrow>
          (case cx_before cx of
             Some e \<Rightarrow> (Inl e, w)
           | None \<Rightarrow>
               if sid = [] then (Inl ''session ID is required'', w)
               else if \<not> isValidKubeVirtSessionID sid then (Inl (''invalid session ID '' @ sid), w)
               else
                 (case portForwardURL rest version host sid of
                    Inl e \<Rightarrow> (Inl e, w)
                  | Inr address \<Rightarrow>
                      (case wrap (RoundTrip dial) of
                         Inl e \<Rightarrow> (Inl (''wrap KubeVirt port-forward transport: '' @ e), w)
                       | Inr wrapped \<Rightarrow>
                           (let ((response, e), (conn, w1)) = wrapped address (None, w) in
                            (case e of
                               Some x \<Rightarrow>
                                 Inl (case cx_after cx of
                                        Some y \<Rightarrow> y
                                      | None \<Rightarrow> if cx_past_deadline cx then ''context deadline exceeded''
                                                else ''dial KubeVirt port-forward: '' @ x)
                             | None \<Rightarrow>
                                 (case (response, conn) of
                                    (Some r, Some k) \<Rightarrow>
                                      if hr_StatusCode r = 101 then Inr k
                                      else Inl (''KubeVirt port-forward rejected: '' @ hr_Status r)
                                  | (Some r, None) \<Rightarrow> Inl (''KubeVirt port-forward rejected: '' @ hr_Status r)
                                  | (None, _) \<Rightarrow> Inl ''KubeVirt port-forward rejected: no response''), w1))))))"

definition NewKubeVirtConnector :: "(string \<Rightarrow> string option) \<Rightarrow> string option \<Rightarrow> string + string" where
  "NewKubeVirtConnector tls_for config =
     (case config of
        None \<Rightarrow> Inl ''KubeVirt REST config is unavailable''
      | Some host \<Rightarrow>
          (case tls_for host of
             Some e \<Rightarrow> Inl (''build KubeVirt TLS config: '' @ e)
           | None \<Rightarrow> Inr host))"

text \<open>
  The runner: its connector and its signer. A nil host key callback is the third thing refused; the
  caller always passes one.
\<close>

record 'k SSHRunner =
  sr_connector :: string
  sr_signer :: 'k

definition NewSSHRunner :: "string option \<Rightarrow> 'k option \<Rightarrow> bool \<Rightarrow> string + 'k SSHRunner" where
  "NewSSHRunner connector signer callback =
     (case connector of
        None \<Rightarrow> Inl ''VM file-list connector is unavailable''
      | Some c \<Rightarrow>
          (case signer of
             None \<Rightarrow> Inl ''VM file-list SSH signer is unavailable''
           | Some s \<Rightarrow>
               if callback then Inr \<lparr>sr_connector = c, sr_signer = s\<rparr>
               else Inl ''VM file-list SSH host key callback is unavailable''))"

definition NewKubeVirtFileListRunner ::
  "(string \<Rightarrow> string + string) \<Rightarrow> (string \<Rightarrow> string + 'k) \<Rightarrow> (string \<Rightarrow> string option) \<Rightarrow>
   string option \<Rightarrow> string \<Rightarrow> string + 'k SSHRunner" where
  "NewKubeVirtFileListRunner readFile parseKey tls_for config keyPath =
     (if keyPath = [] then Inl ''VM file-list private key path is empty''
      else
        (case readFile keyPath of
           Inl e \<Rightarrow> Inl (''read VM file-list private key: '' @ e)
         | Inr k \<Rightarrow>
             (case parseKey k of
                Inl e \<Rightarrow> Inl (''parse VM file-list private key: '' @ e)
              | Inr signer \<Rightarrow>
                  (case NewKubeVirtConnector tls_for config of
                     Inl e \<Rightarrow> Inl e
                   | Inr connector \<Rightarrow> NewSSHRunner (Some connector) (Some signer) True))))"

section \<open>A connection over binary frames\<close>

text \<open>
  \<open>next_reader\<close> waits for the next data message and gives its type and a reader of it; \<open>msg_read\<close> fills a
  buffer of the given length from that reader. An end of message is \<open>io.EOF\<close>, told apart from other
  errors.
\<close>

datatype io_err = IoEOF | IoErr string

record ('c, 'r) binaryWebsocketConn =
  bw_conn :: 'c
  bw_reader :: "'r option"

type_synonym ('c, 'r) next_reader = "'c \<Rightarrow> (io_err + int \<times> 'r) \<times> 'c"
type_synonym 'r msg_read = "nat \<Rightarrow> 'r \<Rightarrow> string \<times> io_err option \<times> 'r"

definition BinaryMessageType :: int where "BinaryMessageType = 2"

text \<open>The loop of \<open>Read\<close>; not returning is \<open>None\<close>.\<close>

partial_function (option) conn_Read ::
  "('c, 'r) next_reader \<Rightarrow> 'r msg_read \<Rightarrow> nat \<Rightarrow> ('c, 'r) binaryWebsocketConn \<Rightarrow>
   ((string \<times> io_err option) \<times> ('c, 'r) binaryWebsocketConn) option" where
  "conn_Read next_reader msg_read n b =
     (case bw_reader b of
        None \<Rightarrow>
          (case next_reader (bw_conn b) of
             (Inl e, c1) \<Rightarrow> Some (([], Some e), b\<lparr>bw_conn := c1\<rparr>)
           | (Inr (messageType, reader), c1) \<Rightarrow>
               if messageType \<noteq> BinaryMessageType
               then conn_Read next_reader msg_read n (b\<lparr>bw_conn := c1\<rparr>)
               else conn_Read next_reader msg_read n (b\<lparr>bw_conn := c1, bw_reader := Some reader\<rparr>))
      | Some reader \<Rightarrow>
          (case msg_read n reader of
             (data, e, r1) \<Rightarrow>
               if e = Some IoEOF
               then (if data \<noteq> [] then Some ((data, None), b\<lparr>bw_reader := None\<rparr>)
                     else conn_Read next_reader msg_read n (b\<lparr>bw_reader := None\<rparr>))
               else Some ((data, e), b\<lparr>bw_reader := Some r1\<rparr>)))"

text \<open>
  \<open>Write\<close> opens a binary message, writes the buffer into it and closes it; the error of the write wins
  over that of the close. \<open>next_writer\<close>, \<open>w_write\<close> and \<open>w_close\<close> are the library's.
\<close>

definition conn_Write ::
  "(int \<Rightarrow> 'c \<Rightarrow> io_err option \<times> 'c) \<Rightarrow> (string \<Rightarrow> 'c \<Rightarrow> (nat \<times> io_err option) \<times> 'c) \<Rightarrow>
   ('c \<Rightarrow> io_err option \<times> 'c) \<Rightarrow> string \<Rightarrow> 'c \<Rightarrow> (nat \<times> io_err option) \<times> 'c" where
  "conn_Write next_writer w_write w_close buffer c =
     (case next_writer BinaryMessageType c of
        (Some e, c1) \<Rightarrow> ((0, Some e), c1)
      | (None, c1) \<Rightarrow>
          (let ((n, writeErr), c2) = w_write buffer c1; (closeErr, c3) = w_close c2
           in ((n, case writeErr of Some e \<Rightarrow> Some e | None \<Rightarrow> closeErr), c3)))"

definition SetDeadline ::
  "(go_time \<Rightarrow> 'c \<Rightarrow> io_err option \<times> 'c) \<Rightarrow> (go_time \<Rightarrow> 'c \<Rightarrow> io_err option \<times> 'c) \<Rightarrow>
   go_time \<Rightarrow> 'c \<Rightarrow> io_err option \<times> 'c" where
  "SetDeadline set_read set_write deadline c =
     (case set_read deadline c of
        (Some e, c1) \<Rightarrow> (Some e, c1)
      | (None, c1) \<Rightarrow> set_write deadline c1)"

section \<open>Where a connection goes\<close>

definition plain_segment :: "string \<Rightarrow> bool" where
  "plain_segment s \<longleftrightarrow> s \<noteq> [] \<and> CHR ''/'' \<notin> set s \<and> s \<noteq> ''.'' \<and> s \<noteq> ''..''"

lemma clean_segs_append:
  "clean_segs r acc (xs @ ys) = clean_segs r (rev (clean_segs r acc xs)) ys"
  by (induction r acc xs rule: clean_segs.induct) (auto split: list.splits)

lemma clean_segs_plain: "list_all plain_segment ys \<Longrightarrow> clean_segs r acc ys = rev acc @ ys"
  by (induction ys arbitrary: acc) (auto simp: plain_segment_def)

lemma split_on_slash: "split_on c (w @ c # s) = split_on c w @ split_on c s"
  by (induction w) (auto split: list.splits)

lemma split_on_join: "ws \<noteq> [] \<Longrightarrow> split_on c (join_with c ws) = concat (map (split_on c) ws)"
  by (induction c ws rule: join_with.induct) (auto simp: split_on_slash)

lemma split_on_plains: "list_all plain_segment ws \<Longrightarrow> concat (map (split_on CHR ''/'') ws) = ws"
  by (induction ws) (auto simp: plain_segment_def split_on_plain)

lemma path_Join_plains:
  assumes "list_all plain_segment ws" "ws \<noteq> []"
  obtains pre where "path_Join (p # ws) = (if IsAbs p then ''/'' else []) @ join_with CHR ''/'' (pre @ ws)"
proof -
  have kept: "filter (\<lambda>e. e \<noteq> []) ws = ws"
    using assms(1) by (induction ws) (auto simp: plain_segment_def)
  define pre where "pre = (if p = [] then [] else clean_segs (IsAbs p) [] (split_on CHR ''/'' p))"
  let ?q = "join_with CHR ''/'' (filter (\<lambda>e. e \<noteq> []) (p # ws))"
  have abs: "IsAbs ?q = IsAbs p"
  proof (cases "p = []")
    case True
    obtain w vs where "ws = w # vs" using assms(2) by (cases ws) auto
    then show ?thesis using True assms(1) kept
      by (cases vs; cases w) (auto simp: IsAbs_def has_prefix_def plain_segment_def)
  next
    case False
    then show ?thesis using kept assms(2) by (cases ws; cases p) (auto simp: IsAbs_def has_prefix_def)
  qed
  have "split_on CHR ''/'' ?q = (if p = [] then [] else split_on CHR ''/'' p) @ ws"
    using kept assms by (simp add: split_on_join split_on_plains)
  then have "clean_segs (IsAbs p) [] (split_on CHR ''/'' ?q) = pre @ ws"
    using assms(1) by (simp add: clean_segs_append clean_segs_plain pre_def)
  moreover have "join_with CHR ''/'' (pre @ ws) \<noteq> []"
    using assms by (cases pre; cases ws rule: rev_cases; cases "tl pre")
      (auto simp: plain_segment_def elim!: join_with.elims)
  ultimately have "path_Join (p # ws) = (if IsAbs p then ''/'' else []) @ join_with CHR ''/'' (pre @ ws)"
    using kept assms(2) abs by (auto simp: path_Join_def Clean_def Let_def)
  then show thesis by (rule that)
qed

lemma valid_id_no_slash: "isValidKubeVirtSessionID sid \<Longrightarrow> CHR ''/'' \<notin> set sid"
  by (auto simp: isValidKubeVirtSessionID_def list_all_iff less_eq_char_def)

lemma forward_segments_plain:
  assumes "isValidKubeVirtSessionID sid" "plain_segment version"
  shows "list_all plain_segment (forward_segments version sid)"
  using assms valid_id_no_slash by (auto simp: forward_segments_def plain_segment_def)

definition forward_address :: "(string \<Rightarrow> string + string \<times> string) \<Rightarrow> string \<Rightarrow> string \<Rightarrow> string \<Rightarrow> string \<Rightarrow> bool" where
  "forward_address rest version host sid a \<longleftrightarrow>
     (\<exists>u scheme slash pre.
        url_Parse rest host = Inr u \<and> (u_Scheme u, scheme) \<in> {(''https'', ''wss''), (''http'', ''ws'')} \<and>
        set slash \<subseteq> {CHR ''/''} \<and>
        a = scheme @ ''://'' @ u_Host u @ slash @ join_with CHR ''/'' (pre @ forward_segments version sid))"

lemma portForwardURL_shape:
  assumes "portForwardURL rest version host sid = Inr a" "isValidKubeVirtSessionID sid" "plain_segment version"
  shows "forward_address rest version host sid a"
proof -
  from assms(1) obtain u where u: "url_Parse rest host = Inr u" "u_Scheme u \<in> {''https'', ''http''}"
    and a: "a = url_String (u\<lparr>u_Scheme := (if u_Scheme u = ''https'' then ''wss'' else ''ws''),
                               u_Path := path_Join (u_Path u # forward_segments version sid)\<rparr>)"
    by (auto simp: portForwardURL_def split: sum.splits if_splits)
  obtain pre where p: "path_Join (u_Path u # forward_segments version sid) =
      (if IsAbs (u_Path u) then ''/'' else []) @ join_with CHR ''/'' (pre @ forward_segments version sid)"
    using path_Join_plains [OF forward_segments_plain [OF assms(2,3)]] by (auto simp: forward_segments_def)
  let ?path = "path_Join (u_Path u # forward_segments version sid)"
  define slash where "slash = (if ?path \<noteq> [] \<and> \<not> IsAbs ?path \<and> u_Host u \<noteq> [] then ''/'' else []) @
      (if IsAbs (u_Path u) then ''/'' else [])"
  define scheme where "scheme = (if u_Scheme u = ''https'' then ''wss'' else ''ws'')"
  have "a = scheme @ ''://'' @ u_Host u @ slash @ join_with CHR ''/'' (pre @ forward_segments version sid)"
    unfolding a url_String_def slash_def scheme_def using p by simp
  moreover have "set slash \<subseteq> {CHR ''/''}" by (auto simp: slash_def)
  moreover have "(u_Scheme u, scheme) \<in> {(''https'', ''wss''), (''http'', ''ws'')}"
    using u(2) by (auto simp: scheme_def)
  ultimately show ?thesis using u(1) unfolding forward_address_def by blast
qed

text \<open>A dialer that keeps a log of the addresses it was asked for.\<close>

definition logged_dial ::
  "(string \<Rightarrow> 'w \<Rightarrow> ((string + 'c) \<times> http_response option) \<times> 'w) \<Rightarrow>
   string \<Rightarrow> string list \<times> 'w \<Rightarrow> ((string + 'c) \<times> http_response option) \<times> (string list \<times> 'w)" where
  "logged_dial dial a lw = (let (r, w1) = dial a (snd lw) in (r, (fst lw @ [a], w1)))"

text \<open>
  C18. The connector opens at most one connection, and only to the SSH port of the one machine of the
  session it was asked for: a request for anything but a session identifier of eight hexadecimal
  digits, or whose context has ended, or that meets an unusable API host is refused without dialling.
  When it does dial, the path of the address ends with the port forward of \<open>session-vm\<close> in the
  namespace of exactly that session, whatever the path of the configured host holds. A connection is
  handed out only after the switch of protocols.
\<close>

theorem connector_reaches_only_session_vm:
  assumes version: "plain_segment version"
    and run: "Connect rest version Inr (logged_dial dial) c cx sid (log, w) = (r, (log', w'))"
  shows "(log' = log \<and> w' = w \<and> isl r \<or>
          isValidKubeVirtSessionID sid \<and> cx_before cx = None \<and>
          (\<exists>host a. c = Some host \<and> log' = log @ [a] \<and> forward_address rest version host sid a)) \<and>
         (\<forall>k. r = Inr k \<longrightarrow> (\<exists>a p. dial a w = ((Inr k, Some p), w') \<and> hr_StatusCode p = 101))"
proof (cases "cx_before cx = None \<and> isValidKubeVirtSessionID sid \<and>
    (\<exists>host a. c = Some host \<and> portForwardURL rest version host sid = Inr a)")
  case True
  then obtain host a where c: "c = Some host" "cx_before cx = None" "isValidKubeVirtSessionID sid"
    and a: "portForwardURL rest version host sid = Inr a" by auto
  then have "sid \<noteq> []" by (auto simp: isValidKubeVirtSessionID_def)
  with c a run show ?thesis
    using portForwardURL_shape [OF a c(3) version]
    by (auto simp: Connect_def RoundTrip_def logged_dial_def Let_def split: prod.splits sum.splits option.splits if_splits)
next
  case False
  then have "log' = log \<and> w' = w \<and> isl r"
    using run by (auto simp: Connect_def split: option.splits sum.splits if_splits)
  then show ?thesis by (cases r) auto
qed

definition demo_rest :: "string \<Rightarrow> string + string \<times> string" where
  "demo_rest r = Inr (''k8s:6443'', ''/proxy/..//a'')"

definition demo_dial :: "string \<Rightarrow> unit \<Rightarrow> ((string + nat) \<times> http_response option) \<times> unit" where
  "demo_dial a w = ((Inr 7, Some \<lparr>hr_StatusCode = 101, hr_Status = ''101 Switching Protocols''\<rparr>), ())"

definition demo_ctx :: ctx_view where
  "demo_ctx = \<lparr>cx_before = None, cx_after = None, cx_past_deadline = False\<rparr>"

lemma demo_connect:
  "Connect demo_rest ''v1'' Inr (logged_dial demo_dial) (Some ''HTTPS://k8s'') demo_ctx ''0badcafe'' ([], ()) =
   (Inr 7, ([''wss://k8s:6443/a/apis/subresources.kubevirt.io/v1/namespaces/lab-0badcafe/virtualmachineinstances/session-vm/portforward/22/tcp''], ()))"
  by code_simp

theorem connector_reaches_only_session_vm_witness:
  "\<exists>a. forward_address demo_rest ''v1'' ''HTTPS://k8s'' ''0badcafe'' a"
  using connector_reaches_only_session_vm [OF _ demo_connect] by (auto simp: plain_segment_def)

section \<open>The frames as a stream of bytes\<close>

text \<open>
  What the WebSocket library is relied on for. \<open>frames c\<close> are the data messages that still arrive, with
  type and payload, and \<open>left r\<close> is what a reader has not given yet. Messages come one after the other;
  an error instead of a message means that none comes any more; a reader gives its message in order, at
  most as much as asked, and says \<open>EOF\<close> only at the end.
\<close>

definition ws_contract ::
  "('c, 'r) next_reader \<Rightarrow> 'r msg_read \<Rightarrow> ('c \<Rightarrow> (int \<times> string) list) \<Rightarrow> ('r \<Rightarrow> string) \<Rightarrow> bool" where
  "ws_contract next_reader msg_read frames left \<longleftrightarrow>
     (\<forall>c t r c'. next_reader c = (Inr (t, r), c') \<longrightarrow> frames c = (t, left r) # frames c') \<and>
     (\<forall>c e c'. next_reader c = (Inl e, c') \<longrightarrow> frames c = [] \<and> frames c' = []) \<and>
     (\<forall>n r data e r'. msg_read n r = (data, e, r') \<longrightarrow>
        left r = data @ left r' \<and> length data \<le> n \<and> (e = Some IoEOF \<longrightarrow> left r' = []))"

text \<open>The bytes still to come: the rest of the current message and the binary messages after it.\<close>

definition stream ::
  "('c \<Rightarrow> (int \<times> string) list) \<Rightarrow> ('r \<Rightarrow> string) \<Rightarrow> ('c, 'r) binaryWebsocketConn \<Rightarrow> string" where
  "stream frames left b =
     (case bw_reader b of None \<Rightarrow> [] | Some r \<Rightarrow> left r) @
     concat (map snd (filter (\<lambda>f. fst f = BinaryMessageType) (frames (bw_conn b))))"

text \<open>A connection that is not cut inside a message, and whose reads into a buffer make progress.\<close>

definition ws_intact :: "'r msg_read \<Rightarrow> bool" where
  "ws_intact msg_read \<longleftrightarrow>
     (\<forall>n r data e r'. 0 < n \<and> msg_read n r = (data, e, r') \<longrightarrow>
        (e = None \<and> data \<noteq> [] \<or> e = Some IoEOF))"

definition delivers ::
  "'r msg_read \<Rightarrow> ('c \<Rightarrow> (int \<times> string) list) \<Rightarrow> ('r \<Rightarrow> string) \<Rightarrow> nat \<Rightarrow> ('c, 'r) binaryWebsocketConn \<Rightarrow>
   ((string \<times> io_err option) \<times> ('c, 'r) binaryWebsocketConn) option \<Rightarrow> bool" where
  "delivers msg_read frames left n b out \<longleftrightarrow>
     (\<exists>data e b'. out = Some ((data, e), b') \<and> stream frames left b = data @ stream frames left b' \<and>
        length data \<le> n \<and> (e = Some IoEOF \<longrightarrow> stream frames left b = []) \<and>
        (0 < n \<and> ws_intact msg_read \<and> (e \<noteq> None \<or> data = []) \<longrightarrow> stream frames left b = []))"

text \<open>One round of the loop ends it, or leaves the same bytes to come and fewer rounds.\<close>

definition rounds :: "('c \<Rightarrow> (int \<times> string) list) \<Rightarrow> ('c, 'r) binaryWebsocketConn \<Rightarrow> nat" where
  "rounds frames b = 2 * length (frames (bw_conn b)) + (if bw_reader b = None then 0 else 1)"

lemma conn_Read_reader_round:
  assumes ct: "ws_contract next_reader msg_read frames left" and r: "bw_reader b = Some r"
  shows "delivers msg_read frames left n b (conn_Read next_reader msg_read n b) \<or>
    (\<exists>b1. conn_Read next_reader msg_read n b = conn_Read next_reader msg_read n b1 \<and>
          stream frames left b1 = stream frames left b \<and> rounds frames b1 < rounds frames b)"
proof -
  obtain data e r1 where m: "msg_read n r = (data, e, r1)" by (cases "msg_read n r") auto
  with ct have l: "left r = data @ left r1" "length data \<le> n" "e = Some IoEOF \<longrightarrow> left r1 = []"
    unfolding ws_contract_def by blast+
  show ?thesis
  proof (cases "e = Some IoEOF \<and> data = []")
    case True
    then have "conn_Read next_reader msg_read n b = conn_Read next_reader msg_read n (b\<lparr>bw_reader := None\<rparr>)"
      using r m by (subst conn_Read.simps) simp
    then show ?thesis using l True r by (fastforce simp: stream_def rounds_def)
  next
    case False
    moreover have "e = None \<and> data \<noteq> [] \<or> e = Some IoEOF" if "0 < n" "ws_intact msg_read"
      using that m unfolding ws_intact_def by blast
    ultimately have "delivers msg_read frames left n b (conn_Read next_reader msg_read n b)"
      using r m l by (subst conn_Read.simps) (auto simp: delivers_def stream_def)
    then show ?thesis ..
  qed
qed

lemma conn_Read_frame_round:
  assumes ct: "ws_contract next_reader msg_read frames left" and r: "bw_reader b = None"
  shows "delivers msg_read frames left n b (conn_Read next_reader msg_read n b) \<or>
    (\<exists>b1. conn_Read next_reader msg_read n b = conn_Read next_reader msg_read n b1 \<and>
          stream frames left b1 = stream frames left b \<and> rounds frames b1 < rounds frames b)"
proof (cases "next_reader (bw_conn b)")
  case (Pair out c1)
  show ?thesis
  proof (cases out)
    case (Inl e)
    then have "frames (bw_conn b) = [] \<and> frames c1 = []"
      using Pair ct unfolding ws_contract_def by blast
    then have "delivers msg_read frames left n b (conn_Read next_reader msg_read n b)"
      using r Pair Inl by (subst conn_Read.simps) (simp add: delivers_def stream_def)
    then show ?thesis ..
  next
    case (Inr tr)
    obtain t m where tr: "tr = (t, m)" by (cases tr)
    have fr: "frames (bw_conn b) = (t, left m) # frames c1"
      using Pair Inr tr ct unfolding ws_contract_def by blast
    let ?b = "if t = BinaryMessageType then b\<lparr>bw_conn := c1, bw_reader := Some m\<rparr> else b\<lparr>bw_conn := c1\<rparr>"
    have "conn_Read next_reader msg_read n b = conn_Read next_reader msg_read n ?b"
      using r Pair Inr tr by (subst conn_Read.simps) simp
    moreover have "stream frames left ?b = stream frames left b" "rounds frames ?b < rounds frames b"
      using fr r by (simp_all add: stream_def rounds_def)
    ultimately show ?thesis by blast
  qed
qed

lemma conn_Read_delivers:
  assumes ct: "ws_contract next_reader msg_read frames left"
  shows "delivers msg_read frames left n b (conn_Read next_reader msg_read n b)"
proof (induction "rounds frames b" arbitrary: b rule: less_induct)
  case less
  consider "delivers msg_read frames left n b (conn_Read next_reader msg_read n b)"
    | b1 where "conn_Read next_reader msg_read n b = conn_Read next_reader msg_read n b1"
        "stream frames left b1 = stream frames left b" "rounds frames b1 < rounds frames b"
    using conn_Read_reader_round [OF ct] conn_Read_frame_round [OF ct] by (cases "bw_reader b") metis+
  then show ?case
  proof cases
    case 2
    then show ?thesis using less [OF 2(3)] by (simp add: delivers_def)
  qed
qed

text \<open>
  A client that reads with buffers of \<open>n\<close> bytes until an error ends the connection, for at most the given
  number of reads.
\<close>

fun drain ::
  "('c, 'r) next_reader \<Rightarrow> 'r msg_read \<Rightarrow> nat \<Rightarrow> nat \<Rightarrow> ('c, 'r) binaryWebsocketConn \<Rightarrow> string" where
  "drain next_reader msg_read n 0 b = []"
| "drain next_reader msg_read n (Suc k) b =
     (case conn_Read next_reader msg_read n b of
        None \<Rightarrow> []
      | Some ((data, e), b') \<Rightarrow> data @ (if e = None then drain next_reader msg_read n k b' else []))"

lemma drain_complete:
  assumes ct: "ws_contract next_reader msg_read frames left" and it: "ws_intact msg_read" and n: "0 < n"
  shows "length (stream frames left b) < k \<Longrightarrow> drain next_reader msg_read n k b = stream frames left b"
proof (induction k arbitrary: b)
  case (Suc k)
  obtain data e b' where r: "conn_Read next_reader msg_read n b = Some ((data, e), b')"
    and st: "stream frames left b = data @ stream frames left b'"
    and en: "e \<noteq> None \<or> data = [] \<longrightarrow> stream frames left b = []"
    using conn_Read_delivers [OF ct, of n b] it n by (auto simp: delivers_def)
  show ?case
  proof (cases "stream frames left b = []")
    case True
    then have "data = []" "stream frames left b' = []" using st by simp_all
    moreover have "drain next_reader msg_read n k b' = []" if "0 < k" using Suc.IH [of b'] that calculation(2) by simp
    ultimately show ?thesis using r True by (cases k) simp_all
  next
    case False
    then have "e = None" "data \<noteq> []" using en by auto
    moreover have "length (stream frames left b') < k"
      using Suc.prems st \<open>data \<noteq> []\<close> by (cases data) simp_all
    ultimately show ?thesis using r st Suc.IH [of b'] by simp
  qed
qed simp

text \<open>
  To its client the port forward is a plain stream of bytes. Every read returns, whatever the mix of
  text and binary messages and however they are cut up: it gives at most what was asked for, in order,
  and loses nothing of the payload of a binary message; the end of a message never looks like the end of
  the connection. On a connection that is not cut, one read more than there are bytes is enough for a
  client with any non-empty buffer to get exactly the concatenation of the binary payloads.
\<close>

theorem port_forward_is_byte_stream:
  assumes "ws_contract next_reader msg_read frames left"
  shows "(\<exists>data e b'. conn_Read next_reader msg_read n b = Some ((data, e), b') \<and>
            stream frames left b = data @ stream frames left b' \<and> length data \<le> n \<and>
            (e = Some IoEOF \<longrightarrow> stream frames left b = [])) \<and>
         (ws_intact msg_read \<and> 0 < n \<longrightarrow>
            drain next_reader msg_read n (Suc (length (stream frames left b))) b = stream frames left b)"
  using conn_Read_delivers [OF assms, of n b] drain_complete [OF assms, of n b "Suc (length (stream frames left b))"]
  by (auto simp: delivers_def)

text \<open>A library over a list of messages, where a message is read at most two bytes at a time.\<close>

definition list_next :: "((int \<times> string) list, string) next_reader" where
  "list_next c = (case c of [] \<Rightarrow> (Inl (IoErr ''close 1000''), []) | f # fs \<Rightarrow> (Inr f, fs))"

definition list_read :: "string msg_read" where
  "list_read n r = (List.take (min n 2) r, if r = [] then Some IoEOF else None, drop (min n 2) r)"

lemma list_contract: "ws_contract list_next list_read id id" "ws_intact list_read"
  by (auto simp: ws_contract_def ws_intact_def list_next_def list_read_def split: list.splits if_splits)

theorem port_forward_is_byte_stream_witness:
  "drain list_next list_read 5 (Suc 7)
     \<lparr>bw_conn = [(2, ''SSH-''), (1, ''ping''), (2, []), (2, ''2.0'')], bw_reader = None\<rparr> = ''SSH-2.0''"
  using port_forward_is_byte_stream [OF list_contract(1), of 5
      "\<lparr>bw_conn = [(2, ''SSH-''), (1, ''ping''), (2, []), (2, ''2.0'')], bw_reader = None\<rparr>"] list_contract(2)
  by (simp add: stream_def BinaryMessageType_def eval_nat_numeral)

section \<open>Both directions\<close>

text \<open>
  What writing relies on: \<open>sent\<close> are the messages handed to the peer, \<open>open_msg\<close> the one being written.
\<close>

definition ws_write_contract ::
  "(int \<Rightarrow> 'c \<Rightarrow> io_err option \<times> 'c) \<Rightarrow> (string \<Rightarrow> 'c \<Rightarrow> (nat \<times> io_err option) \<times> 'c) \<Rightarrow>
   ('c \<Rightarrow> io_err option \<times> 'c) \<Rightarrow> ('c \<Rightarrow> (int \<times> string) list) \<Rightarrow> ('c \<Rightarrow> int \<times> string) \<Rightarrow> bool" where
  "ws_write_contract next_writer w_write w_close sent open_msg \<longleftrightarrow>
     (\<forall>t c c'. next_writer t c = (None, c') \<longrightarrow> sent c' = sent c \<and> open_msg c' = (t, [])) \<and>
     (\<forall>buf c n c'. w_write buf c = ((n, None), c') \<longrightarrow>
        n = length buf \<and> sent c' = sent c \<and> open_msg c' = (fst (open_msg c), snd (open_msg c) @ buf)) \<and>
     (\<forall>c c'. w_close c = (None, c') \<longrightarrow> sent c' = sent c @ [open_msg c])"

fun write_all :: "(string \<Rightarrow> 'c \<Rightarrow> (nat \<times> io_err option) \<times> 'c) \<Rightarrow> string list \<Rightarrow> 'c \<Rightarrow> io_err option \<times> 'c" where
  "write_all wr [] c = (None, c)"
| "write_all wr (buf # bufs) c =
     (case wr buf c of
        ((_, Some e), c1) \<Rightarrow> (Some e, c1)
      | ((_, None), c1) \<Rightarrow> write_all wr bufs c1)"

lemma conn_Write_frame:
  assumes "ws_write_contract next_writer w_write w_close sent open_msg"
    and "conn_Write next_writer w_write w_close buf c = ((n, None), c')"
  shows "n = length buf \<and> sent c' = sent c @ [(BinaryMessageType, buf)]"
proof -
  from assms(2) obtain c1 c2 where steps: "next_writer BinaryMessageType c = (None, c1)"
    "w_write buf c1 = ((n, None), c2)" "w_close c2 = (None, c')"
    by (auto simp: conn_Write_def Let_def split: prod.splits option.splits)
  have "sent c1 = sent c \<and> open_msg c1 = (BinaryMessageType, [])"
    using assms(1) steps(1) unfolding ws_write_contract_def by blast
  moreover have "n = length buf \<and> sent c2 = sent c1 \<and> open_msg c2 = (fst (open_msg c1), snd (open_msg c1) @ buf)"
    using assms(1) steps(2) unfolding ws_write_contract_def by blast
  moreover have "sent c' = sent c2 @ [open_msg c2]"
    using assms(1) steps(3) unfolding ws_write_contract_def by blast
  ultimately show ?thesis by simp
qed

lemma write_all_frames:
  assumes ct: "ws_write_contract next_writer w_write w_close sent open_msg"
  shows "write_all (conn_Write next_writer w_write w_close) bufs c = (None, c') \<Longrightarrow>
    sent c' = sent c @ map (Pair BinaryMessageType) bufs"
  by (induction bufs arbitrary: c) (auto dest: conn_Write_frame [OF ct] split: prod.splits option.splits)

text \<open>
  C19. What one end writes the other end reads: after any series of writes that all succeed, a peer that
  receives the messages sent, however its library cuts them up, reads exactly the bytes written, in the
  order they were written and with no boundaries left.
\<close>

theorem port_forward_roundtrip:
  assumes wr: "ws_write_contract next_writer w_write w_close sent open_msg"
    and rd: "ws_contract next_reader msg_read frames left" "ws_intact msg_read" "0 < n"
    and "sent c = []" "write_all (conn_Write next_writer w_write w_close) bufs c = (None, c')"
    and "frames peer = sent c'" and "k > length (concat bufs)"
  shows "drain next_reader msg_read n k \<lparr>bw_conn = peer, bw_reader = None\<rparr> = concat bufs"
proof -
  have "sent c' = map (Pair BinaryMessageType) bufs"
    using write_all_frames [OF wr assms(6)] assms(5) by simp
  then have "stream frames left \<lparr>bw_conn = peer, bw_reader = None\<rparr> = concat bufs"
    using assms(7) by (simp add: stream_def filter_map o_def)
  then show ?thesis using drain_complete [OF rd] assms(8) by metis
qed

definition demo_next_writer :: "int \<Rightarrow> (int \<times> string) list \<times> (int \<times> string) \<Rightarrow> io_err option \<times> ((int \<times> string) list \<times> (int \<times> string))" where
  "demo_next_writer t c = (None, (fst c, (t, [])))"

definition demo_write :: "string \<Rightarrow> (int \<times> string) list \<times> (int \<times> string) \<Rightarrow> (nat \<times> io_err option) \<times> ((int \<times> string) list \<times> (int \<times> string))" where
  "demo_write buf c = ((length buf, None), (fst c, (fst (snd c), snd (snd c) @ buf)))"

definition demo_close :: "(int \<times> string) list \<times> (int \<times> string) \<Rightarrow> io_err option \<times> ((int \<times> string) list \<times> (int \<times> string))" where
  "demo_close c = (None, (fst c @ [snd c], (0, [])))"

lemma demo_write_contract: "ws_write_contract demo_next_writer demo_write demo_close fst snd"
  by (auto simp: ws_write_contract_def demo_next_writer_def demo_write_def demo_close_def)

theorem port_forward_roundtrip_witness:
  "drain list_next list_read 3 20 \<lparr>bw_conn = [(2, ''SSH-2.0-''), (2, ''Go'')], bw_reader = None\<rparr> = ''SSH-2.0-Go''"
  using port_forward_roundtrip [OF demo_write_contract list_contract, of 3 "([], (0, []))" "[''SSH-2.0-'', ''Go'']"
      "([(2, ''SSH-2.0-''), (2, ''Go'')], (0, []))" "[(2, ''SSH-2.0-''), (2, ''Go'')]" 20]
  by (simp add: conn_Write_def demo_next_writer_def demo_write_def demo_close_def BinaryMessageType_def)

end
