(* ===== verification/Bootstrap.thy ===== *)
theory Bootstrap
  imports Config Port_Forward Dispatch
begin

text \<open>
  The constructors that connect the API server to the outside when it starts: Kubernetes clients
  (\<open>src/apps/api/internal/kube/client.go\<close>, \<open>src/apps/api/internal/kubevirt/client.go\<close>), the KubeVirt
  manager and the EC2 provisioner, mutual TLS for Kafka (\<open>src/apps/api/internal/validation/kafka.go\<close> and
  the copy in \<open>src/apps/validation-engine/cmd/engine/main.go\<close>), and the database
  (\<open>Open\<close> in \<open>src/apps/api/internal/store/store.go\<close>). The libraries they call are arguments; errors
  are kept with their texts.
\<close>

section \<open>Kubernetes clients\<close>

text \<open>
  What the client libraries give: the configuration inside a cluster, the one of the kubeconfig files
  (the given ones, or those of the environment), and the three kinds of client.
\<close>

record 'k kube_lib =
  kl_inCluster :: "string + 'k"
  kl_kubeconfig :: "string list option \<Rightarrow> string + 'k"
  kl_core :: "'k \<Rightarrow> string option"
  kl_dynamic :: "'k \<Rightarrow> string option"
  kl_kubevirt :: "'k \<Rightarrow> string option"

definition NewRESTConfig :: "'k kube_lib \<Rightarrow> string + 'k" where
  "NewRESTConfig lib =
     (case kl_inCluster lib of
        Inr c \<Rightarrow> Inr c
      | Inl _ \<Rightarrow>
          (case kl_kubeconfig lib None of
             Inr c \<Rightarrow> Inr c
           | Inl e \<Rightarrow> Inl (''load kube config (in-cluster and kubeconfig both failed): '' @ e)))"

definition NewKubevirtClient :: "'k kube_lib \<Rightarrow> string + 'k" where
  "NewKubevirtClient lib =
     (case NewRESTConfig lib of
        Inl e \<Rightarrow> Inl e
      | Inr c \<Rightarrow> (case kl_kubevirt lib c of Some e \<Rightarrow> Inl e | None \<Rightarrow> Inr c))"

text \<open>\<open>filepath.SplitList\<close> on Unix\<close>

definition SplitList :: "string \<Rightarrow> string list" where
  "SplitList p = (if p = [] then [] else split_on CHR '':'' p)"

definition clientConfigFromKubeconfig :: "'k kube_lib \<Rightarrow> string \<Rightarrow> string + 'k" where
  "clientConfigFromKubeconfig lib kubeconfig =
     kl_kubeconfig lib (if kubeconfig \<noteq> [] then Some (SplitList kubeconfig) else None)"

definition newClients :: "'k kube_lib \<Rightarrow> string \<Rightarrow> string + 'k" where
  "newClients lib kubeconfig =
     (case (case kl_inCluster lib of Inr c \<Rightarrow> Inr c | Inl _ \<Rightarrow> clientConfigFromKubeconfig lib kubeconfig) of
        Inl e \<Rightarrow> Inl e
      | Inr c \<Rightarrow>
          (case kl_core lib c of
             Some e \<Rightarrow> Inl e
           | None \<Rightarrow> (case kl_dynamic lib c of Some e \<Rightarrow> Inl e | None \<Rightarrow> Inr c)))"

section \<open>The two providers\<close>

text \<open>The part of the configuration the manager reads.\<close>

definition manager_config :: "KubeVirtConfig \<Rightarrow> kv_config" where
  "manager_config c =
     \<lparr>kc_SessionTTLHours = kvc_SessionTTLHours c, kc_LabSSHPublicKey = kvc_LabSSHPublicKey c,
      kc_FileListSSHPublicKey = kvc_FileListSSHPublicKey c, kc_BaseImageNS = kvc_BaseImageNS c,
      kc_BaseImageName = kvc_BaseImageName c, kc_StorageClass = kvc_StorageClass c,
      kc_MaxActiveSessions = kvc_MaxActiveSessions c, kc_ProvisionTimeoutMinutes = kvc_ProvisionTimeoutMinutes c\<rparr>"

definition NewManager :: "'k kube_lib \<Rightarrow> KubeVirtConfig \<Rightarrow> string + kv_config" where
  "NewManager lib cfg =
     (case newClients lib (kvc_Kubeconfig cfg) of
        Inl e \<Rightarrow> Inl (''kubevirt manager: '' @ e)
      | Inr _ \<Rightarrow> Inr (manager_config cfg))"

definition provisioner_config :: "AWSConfig \<Rightarrow> aws_config" where
  "provisioner_config c =
     \<lparr>ac_Region = awc_Region c, ac_LaunchTemplateID = awc_LaunchTemplateID c, ac_InstanceType = awc_InstanceType c,
      ac_SessionTTLHours = awc_SessionTTLHours c, ac_MaxActiveSessions = awc_MaxActiveSessions c,
      ac_TailscaleAuthKey = awc_TailscaleAuthKey c, ac_TailnetHostnamePrefix = awc_TailnetHostnamePrefix c\<rparr>"

text \<open>\<open>aws\<close> loads the configuration of the SDK for a region. The second component is the minter, if any.\<close>

definition NewProvisioner ::
  "(string \<Rightarrow> string option) \<Rightarrow> AWSConfig \<Rightarrow> string + aws_config \<times> tailscaleKeyMinter option" where
  "NewProvisioner aws cfg =
     (case aws (awc_Region cfg) of
        Some e \<Rightarrow> Inl (''ec2 provisioner: load aws config: '' @ e)
      | None \<Rightarrow>
          Inr (provisioner_config cfg,
               if awc_TailscaleAPIKey cfg \<noteq> []
               then (let ttl = awc_SessionKeyTTLSeconds cfg * second in
                     Some (newTailscaleKeyMinter (awc_TailscaleOAuthClientID cfg) (awc_TailscaleAPIKey cfg) ''-''
                       (if awc_SessionKeyTag cfg = [] then ''tag:lab-ec2'' else awc_SessionKeyTag cfg)
                       (if ttl \<le> 0 then 10 * minute else ttl)))
               else None))"

section \<open>Mutual TLS\<close>

text \<open>
  The configuration keeps the pool of authorities and the paths of the certificate, which is read again
  for every connection. \<open>pem\<close> tells whether a text holds a certificate, \<open>keyPair\<close> how reading a
  certificate with its key fails.
\<close>

record tls_config =
  tls_RootCAs :: string
  tls_cert :: string
  tls_key :: string
  tls_MinVersion :: nat

definition LoadTLS ::
  "(string \<Rightarrow> string + string) \<Rightarrow> (string \<Rightarrow> bool) \<Rightarrow> (string \<Rightarrow> string \<Rightarrow> string option) \<Rightarrow>
   string \<Rightarrow> string \<Rightarrow> string \<Rightarrow> string + tls_config" where
  "LoadTLS readFile pem keyPair certFile keyFile caFile =
     (case readFile caFile of
        Inl e \<Rightarrow> Inl (''read kafka CA: '' @ e)
      | Inr caPEM \<Rightarrow>
          if \<not> pem caPEM then Inl (''no CA certificate found in '' @ caFile)
          else
            (case keyPair certFile keyFile of
               Some e \<Rightarrow> Inl (''load kafka client cert: '' @ e)
             | None \<Rightarrow> Inr \<lparr>tls_RootCAs = caPEM, tls_cert = certFile, tls_key = keyFile, tls_MinVersion = 13\<rparr>))"

text \<open>The certificate of one connection, read at the time of that connection.\<close>

definition GetClientCertificate :: "(string \<Rightarrow> string \<Rightarrow> string + 'c) \<Rightarrow> tls_config \<Rightarrow> string + 'c" where
  "GetClientCertificate load t = load (tls_cert t) (tls_key t)"

section \<open>The database\<close>

text \<open>
  \<open>parse\<close>, \<open>pool\<close> and \<open>ping\<close> are the driver's; \<open>mig\<close> is the run of the migrations. The result tells
  whether the pool is left open.
\<close>

definition db_MaxConns :: nat where "db_MaxConns = 8"

definition store_Open ::
  "(string \<Rightarrow> string option) \<Rightarrow> (string \<Rightarrow> nat \<Rightarrow> string option) \<Rightarrow> (string \<Rightarrow> string option) \<Rightarrow> ('w \<Rightarrow> string option \<times> 'w) \<Rightarrow>
   string \<Rightarrow> 'w \<Rightarrow> string option \<times> bool \<times> 'w" where
  "store_Open parse pool ping mig dsn w =
     (case parse dsn of
        Some e \<Rightarrow> (Some (''parse db dsn: '' @ e), False, w)
      | None \<Rightarrow>
          (case pool dsn db_MaxConns of
             Some e \<Rightarrow> (Some (''create db pool: '' @ e), False, w)
           | None \<Rightarrow>
               (case ping dsn of
                  Some e \<Rightarrow> (Some (''ping db: '' @ e), False, w)
                | None \<Rightarrow>
                    (let (e, w1) = mig w in
                     case e of
                       Some x \<Rightarrow> (Some (''migrate: '' @ x), False, w1)
                     | None \<Rightarrow> (None, True, w1)))))"

text \<open>A store is handed out exactly when its pool is open, and only after the migrations ran through.\<close>

lemma store_Open_pool:
  assumes "store_Open parse pool ping mig dsn w = (e, is_open, w')"
  shows "is_open \<longleftrightarrow> e = None" and "e = None \<Longrightarrow> mig w = (None, w')"
  using assms by (auto simp: store_Open_def Let_def split: option.splits prod.splits)

section \<open>Keys of new sessions\<close>

text \<open>
  A configured API key always gives a minter whose keys are valid for some time and carry a tag, whatever
  the two optional settings hold.
\<close>

lemma minter_defaults:
  assumes "NewProvisioner aws cfg = Inr (c, m)"
  shows "m = None \<longleftrightarrow> awc_TailscaleAPIKey cfg = []" and "m = Some mi \<Longrightarrow> 0 < tm_ttl mi \<and> tm_tag mi \<noteq> []"
  using assms
  by (auto simp: NewProvisioner_def newTailscaleKeyMinter_def newTailscaleKeyMinterBase_def Let_def minute_def second_def
      split: option.splits if_splits)

section \<open>Identifiers of sessions\<close>

definition hex_digits :: string where "hex_digits = ''0123456789abcdef''"

text \<open>\<open>hex.EncodeToString\<close>: two digits per byte, the high one first.\<close>

definition hex_byte :: "nat \<Rightarrow> string" where
  "hex_byte b = [hex_digits ! (b div 16 mod 16), hex_digits ! (b mod 16)]"

definition newSessionID :: "nat \<Rightarrow> nat \<Rightarrow> nat \<Rightarrow> nat \<Rightarrow> string" where
  "newSessionID b0 b1 b2 b3 = concat (map hex_byte [b0, b1, b2, b3])"

definition newTraceID :: "nat list \<Rightarrow> string" where
  "newTraceID bs = concat (map hex_byte bs)"

lemma hex_digit_range:
  assumes "n < 16"
  shows "CHR ''0'' \<le> hex_digits ! n \<and> hex_digits ! n \<le> CHR ''9'' \<or> CHR ''a'' \<le> hex_digits ! n \<and> hex_digits ! n \<le> CHR ''f''"
proof -
  have "list_all (\<lambda>r. CHR ''0'' \<le> r \<and> r \<le> CHR ''9'' \<or> CHR ''a'' \<le> r \<and> r \<le> CHR ''f'') hex_digits" by code_simp
  moreover have "length hex_digits = 16" by (simp add: hex_digits_def)
  ultimately show ?thesis using assms by (auto simp: list_all_length)
qed

lemma hex_digit_inj: "m < 16 \<Longrightarrow> n < 16 \<Longrightarrow> hex_digits ! m = hex_digits ! n \<Longrightarrow> m = n"
proof -
  have "distinct hex_digits" "length hex_digits = 16" by (simp_all add: hex_digits_def)
  then show "m < 16 \<Longrightarrow> n < 16 \<Longrightarrow> hex_digits ! m = hex_digits ! n \<Longrightarrow> m = n" by (simp add: nth_eq_iff_index_eq)
qed

lemma hex_byte_inj: "a < 256 \<Longrightarrow> b < 256 \<Longrightarrow> hex_byte a = hex_byte b \<Longrightarrow> a = b"
proof -
  assume ab: "a < 256" "b < 256" "hex_byte a = hex_byte b"
  then have "a div 16 mod 16 = b div 16 mod 16" "a mod 16 = b mod 16"
    by (auto simp: hex_byte_def intro: hex_digit_inj)
  moreover have "a div 16 mod 16 = a div 16" "b div 16 mod 16 = b div 16" using ab by simp_all
  ultimately show "a = b" by (metis div_mult_mod_eq)
qed

lemma newSessionID_valid: "isValidKubeVirtSessionID (newSessionID b0 b1 b2 b3)"
  using hex_digit_range by (simp add: isValidKubeVirtSessionID_def newSessionID_def hex_byte_def)

lemma newSessionID_inj:
  assumes "newSessionID a0 a1 a2 a3 = newSessionID b0 b1 b2 b3" and "{a0, a1, a2, a3, b0, b1, b2, b3} \<subseteq> {..<256}"
  shows "a0 = b0 \<and> a1 = b1 \<and> a2 = b2 \<and> a3 = b3"
proof -
  from assms(1) have "hex_byte a0 = hex_byte b0" "hex_byte a1 = hex_byte b1" "hex_byte a2 = hex_byte b2" "hex_byte a3 = hex_byte b3"
    by (auto simp: newSessionID_def hex_byte_def)
  with assms(2) show ?thesis using hex_byte_inj by simp
qed

text \<open>
  Every identifier the server makes up is one the connector accepts, so the files of a session can
  always be reached, and identifiers of different random bytes are different.
\<close>

theorem new_sessions_reachable:
  assumes "{a0, a1, a2, a3, b0, b1, b2, b3} \<subseteq> {..<256}"
  shows "isValidKubeVirtSessionID (newSessionID a0 a1 a2 a3) \<and>
    (newSessionID a0 a1 a2 a3 = newSessionID b0 b1 b2 b3 \<longleftrightarrow> (a0, a1, a2, a3) = (b0, b1, b2, b3))"
  using newSessionID_valid newSessionID_inj [OF _ assms] by auto

theorem new_sessions_reachable_witness: "isValidKubeVirtSessionID (newSessionID 11 173 202 254) \<and> newSessionID 11 173 202 254 = ''0badcafe''"
  using new_sessions_reachable [of 11 173 202 254 11 173 202 254] by (auto simp: newSessionID_def hex_byte_def hex_digits_def)

end
