(* ===== verification/Wiring.thy ===== *)
theory Wiring
  imports Bootstrap Live_Terminal Step_Safety
begin

text \<open>
  The start of the API server: \<open>main\<close> of \<open>src/apps/api/cmd/server/main.go\<close> and \<open>New\<close> of
  \<open>src/apps/api/internal/api/handlers/handlers.go\<close>. Every dependency may be missing; \<open>main_wire\<close> decides
  from the configuration and from what the outside answers which parts the server runs with, and
  \<open>handlers_New\<close> makes the handler of the other theories from them. The periodic reaper is a loop over
  the ticks of its timer. Tracing, logging and the listening socket are left out.
\<close>

section \<open>What the server runs with\<close>

definition vmFileAccessTimeout :: duration where "vmFileAccessTimeout = 5 * second"

definition vmFileAccessMaxConcurrent :: int where "vmFileAccessMaxConcurrent = 4"

text \<open>The answers of the outside at the start.\<close>

record 'k outside =
  ou_kube :: "'k kube_lib"
  ou_host :: "'k \<Rightarrow> string"
  ou_tlsFor :: "string \<Rightarrow> string option"
  ou_ping :: "string \<Rightarrow> string \<Rightarrow> int \<Rightarrow> string option"
  ou_aws :: "string \<Rightarrow> string option"
  ou_readFile :: "string \<Rightarrow> string + string"
  ou_pem :: "string \<Rightarrow> bool"
  ou_keyPair :: "string \<Rightarrow> string \<Rightarrow> string option"
  ou_sshKey :: "string \<Rightarrow> string + string"
  ou_db :: "string \<Rightarrow> string option"
  ou_tailnet :: "tsnet_server \<Rightarrow> string option"

datatype locker_kind = MemLocker | RedisLocker

text \<open>
  \<open>None\<close> everywhere is a nil dependency. The providers of sessions are the configuration of the
  KubeVirt manager and that of the EC2 provisioner.
\<close>

record wiring =
  wr_locker :: locker_kind
  wr_redis :: bool
  wr_onprem :: "kv_config option"
  wr_overflow :: "(aws_config \<times> tailscaleKeyMinter option) option"
  wr_watcher :: bool
  wr_kafka :: "(tls_config \<times> string list) option"
  wr_db :: bool
  wr_vmFiles :: "file_service option"
  wr_ec2Dial :: bool

definition wire_redis :: "'k outside \<Rightarrow> RedisConfig \<Rightarrow> bool" where
  "wire_redis ou c = (rdc_Addr c \<noteq> [] \<and> ou_ping ou (rdc_Addr c) (rdc_Password c) (rdc_DB c) = None)"

definition wire_onprem :: "'k outside \<Rightarrow> KubeVirtConfig \<Rightarrow> kv_config option" where
  "wire_onprem ou c =
     (if \<not> kvc_Enabled c then None
      else (case NewManager (ou_kube ou) c of Inl _ \<Rightarrow> None | Inr m \<Rightarrow> Some m))"

definition wire_overflow :: "'k outside \<Rightarrow> AWSConfig \<Rightarrow> (aws_config \<times> tailscaleKeyMinter option) option" where
  "wire_overflow ou c =
     (if awc_LaunchTemplateID c \<noteq> [] \<and> awc_MaxActiveSessions c > 0
      then (case NewProvisioner (ou_aws ou) c of Inl _ \<Rightarrow> None | Inr p \<Rightarrow> Some p)
      else None)"

definition wire_kafka :: "'k outside \<Rightarrow> KafkaConfig \<Rightarrow> (tls_config \<times> string list) option" where
  "wire_kafka ou c =
     (case LoadTLS (ou_readFile ou) (ou_pem ou) (ou_keyPair ou) (kfc_TLSCert c) (kfc_TLSKey c) (kfc_TLSCA c) of
        Inl _ \<Rightarrow> None
      | Inr t \<Rightarrow> Some (t, split_on CHR '','' (kfc_Brokers c)))"

definition wire_vmFiles :: "'k outside \<Rightarrow> string \<Rightarrow> file_service option" where
  "wire_vmFiles ou keyPath =
     (if keyPath = [] then None
      else
        (case NewRESTConfig (ou_kube ou) of
           Inl _ \<Rightarrow> None
         | Inr rest \<Rightarrow>
             (case NewKubeVirtFileListRunner (ou_readFile ou) (ou_sshKey ou) (ou_tlsFor ou) (Some (ou_host ou rest)) keyPath of
                Inl _ \<Rightarrow> None
              | Inr _ \<Rightarrow> Some (NewService vmFileAccessTimeout vmFileAccessMaxConcurrent))))"

definition wire_tailnet :: "'k outside \<Rightarrow> AWSConfig \<Rightarrow> bool" where
  "wire_tailnet ou c =
     (awc_APITailscaleAuthKey c \<noteq> [] \<and>
      \<not> isl (fst (tailnet_New (\<lambda>srv w. (ou_tailnet ou srv, w)) (\<lambda>_ w. w)
                    \<lparr>tn_Hostname = ''cledyu-api'', tn_AuthKey = awc_APITailscaleAuthKey c, tn_StateDir = awc_APITailnetStateDir c\<rparr> ())))"

definition main_wire :: "'k outside \<Rightarrow> Config \<Rightarrow> wiring" where
  "main_wire ou cfg =
     (let redis = wire_redis ou (cfg_Redis cfg); onprem = wire_onprem ou (cfg_KubeVirt cfg) in
      \<lparr>wr_locker = (if redis then RedisLocker else MemLocker), wr_redis = redis,
       wr_onprem = onprem, wr_overflow = wire_overflow ou (cfg_AWS cfg), wr_watcher = (onprem \<noteq> None),
       wr_kafka = wire_kafka ou (cfg_Kafka cfg),
       wr_db = (dbc_DSN (cfg_DB cfg) \<noteq> [] \<and> ou_db ou (dbc_DSN (cfg_DB cfg)) = None),
       wr_vmFiles = wire_vmFiles ou (kvc_FileListSSHPrivateKeyPath (cfg_KubeVirt cfg)),
       wr_ec2Dial = wire_tailnet ou (cfg_AWS cfg)\<rparr>)"

section \<open>The providers of sessions\<close>

text \<open>
  The handler sees one provider. A single provider is run on its half of the state of both; both together
  are the dispatcher with the limit of the on-premises configuration.
\<close>

definition first_only :: "'a provider \<Rightarrow> ('a \<times> 'b) provider" where
  "first_only P =
     \<lparr>pv_Create = (\<lambda>now sid lab uid init. lift_fst (pv_Create P now sid lab uid init)),
      pv_Get = (\<lambda>now sid. lift_fst (pv_Get P now sid)), pv_Delete = (\<lambda>sid. lift_fst (pv_Delete P sid)),
      pv_FindActiveByUser = (\<lambda>uid. lift_fst (pv_FindActiveByUser P uid)),
      pv_CountActiveSessions = lift_fst (pv_CountActiveSessions P),
      pv_ReapStuckSessions = (\<lambda>now t. lift_fst (pv_ReapStuckSessions P now t)),
      pv_ReapExpiredSessions = (\<lambda>now. lift_fst (pv_ReapExpiredSessions P now)),
      pv_VMIAddress = (\<lambda>sid. lift_fst (pv_VMIAddress P sid)), pv_Capacity = pv_Capacity P\<rparr>"

definition second_only :: "'b provider \<Rightarrow> ('a \<times> 'b) provider" where
  "second_only P =
     \<lparr>pv_Create = (\<lambda>now sid lab uid init. lift_snd (pv_Create P now sid lab uid init)),
      pv_Get = (\<lambda>now sid. lift_snd (pv_Get P now sid)), pv_Delete = (\<lambda>sid. lift_snd (pv_Delete P sid)),
      pv_FindActiveByUser = (\<lambda>uid. lift_snd (pv_FindActiveByUser P uid)),
      pv_CountActiveSessions = lift_snd (pv_CountActiveSessions P),
      pv_ReapStuckSessions = (\<lambda>now t. lift_snd (pv_ReapStuckSessions P now t)),
      pv_ReapExpiredSessions = (\<lambda>now. lift_snd (pv_ReapExpiredSessions P now)),
      pv_VMIAddress = (\<lambda>sid. lift_snd (pv_VMIAddress P sid)), pv_Capacity = pv_Capacity P\<rparr>"

text \<open>\<open>api\<close> and \<open>aws\<close> are the cluster and the account the clients talk to.\<close>

definition main_sessions ::
  "'w k8s \<Rightarrow> (tailscaleKeyMinter option \<Rightarrow> 'v aws) \<Rightarrow> wiring \<Rightarrow> Config \<Rightarrow> ('w manager \<times> 'v provisioner) provider option" where
  "main_sessions api aws w cfg =
     (case (wr_onprem w, wr_overflow w) of
        (Some m, Some (p, minter)) \<Rightarrow>
          Some (NewDispatcher (kubevirt_provider api m) (Some (ec2_provider (aws minter) p))
                  (kvc_MaxActiveSessions (cfg_KubeVirt cfg)))
      | (Some m, None) \<Rightarrow> Some (first_only (kubevirt_provider api m))
      | (None, Some (p, minter)) \<Rightarrow> Some (second_only (ec2_provider (aws minter) p))
      | (None, None) \<Rightarrow> None)"

section \<open>The handler\<close>

text \<open>The implementations behind the dependencies; \<open>handlers_New\<close> takes those the wiring has.\<close>

record ('d, 'x) services =
  sv_db :: "'d persistence"
  sv_mem :: "(string \<Rightarrow> 'x \<Rightarrow> bool \<times> 'x) \<times> (string \<Rightarrow> 'x \<Rightarrow> 'x)"
  sv_redislock :: "(string \<Rightarrow> 'x \<Rightarrow> bool \<times> 'x) \<times> (string \<Rightarrow> 'x \<Rightarrow> 'x)"
  sv_publish :: "tls_config \<times> string list \<Rightarrow> string \<Rightarrow> ValidationRequest \<Rightarrow> 'x \<Rightarrow> string option \<times> 'x"
  sv_set :: "string \<Rightarrow> int \<Rightarrow> duration \<Rightarrow> 'x \<Rightarrow> 'x"
  sv_getdel :: "string \<Rightarrow> 'x \<Rightarrow> 'x"
  sv_ai :: "string \<Rightarrow> duration \<Rightarrow> HintRequest \<Rightarrow> 'x \<Rightarrow> (ai_err + HintResponse) \<times> 'x"
  sv_kc :: "AdminClient \<Rightarrow> string \<Rightarrow> string \<Rightarrow> 'x \<Rightarrow> kc_err option \<times> 'x"

text \<open>\<open>ai.New\<close>: no client without a base URL.\<close>

definition ai_New :: "string \<Rightarrow> duration \<Rightarrow> (string \<times> duration) option" where
  "ai_New baseURL timeout =
     (if baseURL = [] then None else Some (baseURL, timeout))"

definition handlers_New ::
  "('d, 'x) services \<Rightarrow> Config \<Rightarrow> wiring \<Rightarrow> 'p provider option \<Rightarrow> string + (string \<rightharpoonup> LabContent) \<Rightarrow> ('d, 'p, 'x) handler" where
  "handlers_New sv cfg w sessions content =
     \<lparr>h_mode = Some (svc_Mode (cfg_Server cfg)),
      h_provision_timeout_min = kvc_ProvisionTimeoutMinutes (cfg_KubeVirt cfg),
      h_labs = (case content of Inl _ \<Rightarrow> Map.empty | Inr labs \<Rightarrow> labs),
      h_sessions = sessions,
      h_db = (if wr_db w then Some (sv_db sv) else None),
      h_events = (wr_kafka w \<noteq> None),
      h_lock_acquire = fst (case wr_locker w of MemLocker \<Rightarrow> sv_mem sv | RedisLocker \<Rightarrow> sv_redislock sv),
      h_lock_release = snd (case wr_locker w of MemLocker \<Rightarrow> sv_mem sv | RedisLocker \<Rightarrow> sv_redislock sv),
      h_validator = map_option (\<lambda>k. sv_publish sv k (kfc_Topic (cfg_Kafka cfg))) (wr_kafka w),
      h_redis_set = (if wr_redis w then Some (sv_set sv) else None),
      h_redis_getdel = (if wr_redis w then Some (sv_getdel sv) else None),
      h_ai = map_option (\<lambda>(u, t). sv_ai sv u t) (ai_New (aic_BaseURL (cfg_AI cfg)) (aic_TimeoutSeconds (cfg_AI cfg) * second)),
      h_kc_admin = map_option (sv_kc sv) (NewAdminClient (kcc_URL (cfg_Keycloak cfg)) (kcc_Realm (cfg_Keycloak cfg))
        (kcc_AdminClientID (cfg_Keycloak cfg)) (kcc_AdminClientSecret (cfg_Keycloak cfg))),
      h_ec2_dial = wr_ec2Dial w\<rparr>"

section \<open>The reaper\<close>

definition reapInterval :: duration where "reapInterval = 2 * minute"

definition reap :: "('d, 'p, 'x) handler \<Rightarrow> go_time \<Rightarrow> ('d, 'p, 'x) app \<Rightarrow> ('d, 'p, 'x) app" where
  "reap h now a = ReapExpiredSessions h now (ReapStuckSessions h now a)"

datatype timer = Tick go_time | Done

fun reaper_loop :: "('d, 'p, 'x) handler \<Rightarrow> timer list \<Rightarrow> ('d, 'p, 'x) app \<Rightarrow> ('d, 'p, 'x) app" where
  "reaper_loop h [] a = a"
| "reaper_loop h (Done # ts) a = a"
| "reaper_loop h (Tick now # ts) a = reaper_loop h ts (reap h now a)"

definition reaper :: "('d, 'p, 'x) handler \<Rightarrow> go_time \<Rightarrow> timer list \<Rightarrow> ('d, 'p, 'x) app \<Rightarrow> ('d, 'p, 'x) app" where
  "reaper h start ts a = reaper_loop h ts (reap h start a)"

text \<open>The limits of the HTTP server.\<close>

definition ReadTimeout :: duration where "ReadTimeout = 15 * second"

definition WriteTimeout :: duration where "WriteTimeout = 15 * second"

definition IdleTimeout :: duration where "IdleTimeout = 60 * second"

definition shutdownTimeout :: duration where "shutdownTimeout = 10 * second"

section \<open>Which parts are missing\<close>

lemma dispatcher_without_overflow:
  "NewDispatcher P None (pv_Capacity P) = first_only P"
  by (simp add: NewDispatcher_def first_only_def dispatcher_ops d_Capacity_def reapBoth_def fun_eq_iff
      split: prod.split sum.split option.split)

text \<open>The handler a started server runs with.\<close>

definition started ::
  "'w k8s \<Rightarrow> (tailscaleKeyMinter option \<Rightarrow> 'v aws) \<Rightarrow> ('d, 'x) services \<Rightarrow> 'k outside \<Rightarrow> Config \<Rightarrow>
   string + (string \<rightharpoonup> LabContent) \<Rightarrow> ('d, 'w manager \<times> 'v provisioner, 'x) handler" where
  "started api aws sv ou cfg content =
     (let w = main_wire ou cfg in handlers_New sv cfg w (main_sessions api aws w cfg) content)"

lemmas wiring_defs = started_def main_wire_def main_sessions_def handlers_New_def Let_def

lemma reaper_idle:
  assumes "h_sessions h = None"
  shows "reaper h start ts a = a"
proof -
  have r: "reap h now b = b" for now b
    using assms by (simp add: reap_def ReapExpiredSessions_def ReapStuckSessions_def)
  have "reaper_loop h ts b = b" for b
  proof (induction ts arbitrary: b)
    case (Cons t ts)
    then show ?case by (cases t) (simp_all add: r)
  qed simp
  then show ?thesis by (simp add: reaper_def r)
qed

lemma no_backend:
  assumes "\<not> kvc_Enabled (cfg_KubeVirt cfg)"
    and "awc_LaunchTemplateID (cfg_AWS cfg) = [] \<or> awc_MaxActiveSessions (cfg_AWS cfg) \<le> 0"
  shows "h_sessions (started api aws sv ou cfg content) = None"
  using assms by (auto simp: wiring_defs wire_onprem_def wire_overflow_def)

text \<open>
  C23. A server that starts without a part fails safe. With the KubeVirt backend switched off and no
  overflow configured every request to create, read or delete a session answers 503 and changes nothing,
  and the reaper has nothing to do, so nothing is left behind half made. In release mode and without
  readable Kafka certificates, but with its database, no request passes a step. Neither depends on what Redis,
  the tailnet and the identity provider answer at the start.
\<close>

theorem degraded_start_fails_safe:
  assumes disabled: "\<not> kvc_Enabled (cfg_KubeVirt cfg)"
    and no_ec2: "awc_LaunchTemplateID (cfg_AWS cfg) = [] \<or> awc_MaxActiveSessions (cfg_AWS cfg) \<le> 0"
    and release: "svc_Mode (cfg_Server cfg) = ''release''" and no_certs: "wire_kafka ou (cfg_Kafka cfg) = None"
    and db: "wr_db (main_wire ou cfg)" "sv_db sv = store_persistence fs" "store_inv db_view db_ok (a_steps a)"
    and h: "h = started api aws sv ou cfg content"
  shows "CreateSession h now sid req uid a = (err_resp 503 ''kubevirt not configured'', a) \<and>
    GetSession h now sid uid a = (err_resp 503 ''kubevirt not configured'', a) \<and>
    DeleteSession h now sid uid a = (err_resp 503 ''kubevirt not configured'', a) \<and>
    reaper h start ts a = a \<and>
    (case ValidateStep h now tr tp sid vreq uid a of
       (r, a') \<Rightarrow> resp_status r \<in> {400, 404, 409, 503} \<and>
                 store_abs db_view (a_steps a') = store_abs db_view (a_steps a) \<and> a_events a' = a_events a)"
proof -
  have s: "h_sessions h = None" using no_backend [OF disabled no_ec2] h by simp
  have v: "h_validator h = None" "h_mode h = Some ''release''" "h_db h = Some (store_persistence fs)"
    using h release no_certs db(1,2) by (simp_all add: wiring_defs)
  obtain r a' where r: "ValidateStep h now tr tp sid vreq uid a = (r, a')" by fastforce
  have "resp_status r \<in> {400, 404, 409, 503} \<and> store_abs db_view (a_steps a') = store_abs db_view (a_steps a) \<and>
    a_events a' = a_events a"
    by (rule pgdb.ValidateStep_cases [OF v(3) db(3) r]) (use v in \<open>auto simp: mock_validate_def same_view_def\<close>)
  then show ?thesis using s r reaper_idle [OF s]
    by (simp add: CreateSession_def GetSession_def DeleteSession_def)
qed

section \<open>Which provider is used\<close>

text \<open>
  With the defaults there is no overflow, and on-premises sessions whenever a cluster can be reached.
\<close>

lemma default_fields:
  "awc_LaunchTemplateID (cfg_AWS default_config) = []" "dbc_DSN (cfg_DB default_config) = []"
  "kvc_Enabled (cfg_KubeVirt default_config)" "aic_TimeoutSeconds (cfg_AI default_config) = 15"
proof -
  let ?s = "settings Map.empty Map.empty"
  have f: "awc_LaunchTemplateID (cfg_AWS default_config) = str_of (?s ''aws.launch_template_id'')"
    "dbc_DSN (cfg_DB default_config) = str_of (?s ''db.dsn'')"
    "kvc_Enabled (cfg_KubeVirt default_config) = bool_of no_decoder (?s ''kubevirt.enabled'')"
    "aic_TimeoutSeconds (cfg_AI default_config) = int_of no_decoder (?s ''ai.timeout_seconds'')"
    by (simp_all add: default_config_def decode_Config_def decode_AWSConfig_def decode_DBConfig_def
        decode_KubeVirtConfig_def decode_AIConfig_def)
  have v: "?s ''aws.launch_template_id'' = Some (VStr [])" "?s ''db.dsn'' = Some (VStr [])"
    "?s ''kubevirt.enabled'' = Some (VBool True)" "?s ''ai.timeout_seconds'' = Some (VInt 15)"
    unfolding default_settings by code_simp+
  show "awc_LaunchTemplateID (cfg_AWS default_config) = []" "dbc_DSN (cfg_DB default_config) = []"
    "kvc_Enabled (cfg_KubeVirt default_config)" "aic_TimeoutSeconds (cfg_AI default_config) = 15"
    by (simp_all add: f v int_of_def bool_of_def)
qed

lemma default_wiring:
  "wr_overflow (main_wire ou default_config) = None" "\<not> wr_db (main_wire ou default_config)"
  "wr_onprem (main_wire ou default_config) =
     (case NewManager (ou_kube ou) (cfg_KubeVirt default_config) of Inl _ \<Rightarrow> None | Inr m \<Rightarrow> Some m)"
  by (simp_all add: main_wire_def Let_def wire_overflow_def wire_onprem_def default_fields)

text \<open>
  The static hint that replaces an answer of the tutor comes too late by default: the client of the tutor
  gives up after the time the HTTP server allows for a whole response.
\<close>

lemma tutor_timeout_not_below_write_timeout:
  assumes "ai_New url (aic_TimeoutSeconds (cfg_AI default_config) * second) = Some (u, t)"
  shows "WriteTimeout \<le> t"
  using assms by (simp add: ai_New_def default_fields WriteTimeout_def split: if_splits)

text \<open>
  A limit of zero means no limit to the manager, but with an overflow provider it sends every session
  to EC2: whatever the number of active sessions, a session is created on the overflow provider and the
  on-premises cluster is only asked for its count.
\<close>

theorem unlimited_onprem_never_used:
  assumes cap: "kvc_MaxActiveSessions (cfg_KubeVirt cfg) = 0"
    and both: "wr_onprem w = Some m" "wr_overflow w = Some (p, minter)"
    and count: "pv_CountActiveSessions (kubevirt_provider api m) s = (Inr n, s1)"
  shows "\<exists>P. main_sessions api aws w cfg = Some P \<and>
    pv_Create P now sid lab uid init (s, t) =
      (case pv_Create (ec2_provider (aws minter) p) now sid lab uid init t of (r, t1) \<Rightarrow> (r, (s1, t1)))"
proof -
  have "0 \<le> n" using kv.count_nonneg [OF count] by simp
  then show ?thesis using cap both count
    by (simp add: main_sessions_def dispatcher_create_routes)
qed

text \<open>A server of a site without KubeVirt, and an account that is used although the cluster has no limit.\<close>

definition dr_config :: Config where
  "dr_config = default_config
     \<lparr>cfg_KubeVirt := (cfg_KubeVirt default_config)\<lparr>kvc_Enabled := False\<rparr>,
      cfg_Server := \<lparr>svc_Addr = '':8080'', svc_Mode = ''release''\<rparr>, cfg_DB := \<lparr>dbc_DSN = ''postgres://cledyu''\<rparr>\<rparr>"

definition dr_outside :: "unit outside" where
  "dr_outside =
     \<lparr>ou_kube = \<lparr>kl_inCluster = Inr (), kl_kubeconfig = (\<lambda>_. Inl ''none''), kl_core = Map.empty, kl_dynamic = Map.empty,
                 kl_kubevirt = Map.empty\<rparr>,
      ou_host = (\<lambda>_. ''https://k8s''), ou_tlsFor = Map.empty, ou_ping = (\<lambda>_ _ _. Some ''refused''), ou_aws = Map.empty,
      ou_readFile = (\<lambda>_. Inl ''not found''), ou_pem = (\<lambda>_. True), ou_keyPair = (\<lambda>_ _. None),
      ou_sshKey = (\<lambda>_. Inl ''bad key''), ou_db = Map.empty, ou_tailnet = Map.empty\<rparr>"

definition dr_services :: "(db, unit) services" where
  "dr_services =
     \<lparr>sv_db = store_persistence (\<lambda>_. Healthy), sv_mem = (\<lambda>_ x. (True, x), \<lambda>_ x. x), sv_redislock = (\<lambda>_ x. (True, x), \<lambda>_ x. x),
      sv_publish = (\<lambda>_ _ _ x. (None, x)), sv_set = (\<lambda>_ _ _ x. x), sv_getdel = (\<lambda>_ x. x),
      sv_ai = (\<lambda>_ _ _ x. (Inl ErrRateLimited, x)), sv_kc = (\<lambda>_ _ _ x. (None, x))\<rparr>"

definition dr_app :: "(db, cluster manager \<times> Instance list provisioner, unit) app" where
  "dr_app = \<lparr>a_steps = a_steps demo_progress, a_prov = (demo_manager, demo_prov), a_events = [], a_ext = ()\<rparr>"

definition dr_handler :: "(db, cluster manager \<times> Instance list provisioner, unit) handler" where
  "dr_handler = started cluster_api (\<lambda>_. account_api) dr_services dr_outside dr_config (Inr Map.empty)"

theorem degraded_start_fails_safe_witness:
  "CreateSession dr_handler 0 ''s2'' (Inr ''lab-linux-basics'') ''u'' dr_app = (err_resp 503 ''kubevirt not configured'', dr_app) \<and>
   store_abs db_view (a_steps (snd (ValidateStep dr_handler 0 [] [] ''s1'' (Inr 1) ''u'' dr_app))) ''s1'' =
     Some (init_session ''lab-linux-basics'' ''u'' [1, 2])"
proof -
  have c: "\<not> kvc_Enabled (cfg_KubeVirt dr_config)"
    "awc_LaunchTemplateID (cfg_AWS dr_config) = [] \<or> awc_MaxActiveSessions (cfg_AWS dr_config) \<le> 0"
    "svc_Mode (cfg_Server dr_config) = ''release''" "wire_kafka dr_outside (cfg_Kafka dr_config) = None"
    "wr_db (main_wire dr_outside dr_config)" "sv_db dr_services = store_persistence (\<lambda>_. Healthy)"
    by (simp_all add: dr_config_def dr_outside_def dr_services_def main_wire_def Let_def wire_kafka_def LoadTLS_def default_fields)
  have a: "store_inv db_view db_ok (a_steps dr_app)" using demo_progress_spec(1) by (simp add: dr_app_def)
  have v: "store_abs db_view (a_steps dr_app) ''s1'' = Some (init_session ''lab-linux-basics'' ''u'' [1, 2])"
    using demo_progress_spec(3) by (simp add: dr_app_def)
  note safe = degraded_start_fails_safe [OF c a dr_handler_def, where ts = "[]" and start = 0 and now = 0 and tr = "[]" and tp = "[]" and vreq = "Inr 1"]
  show ?thesis using safe [of "''s2''" "Inr ''lab-linux-basics''" "''u''"] safe [of "''s1''" "Inr ''lab-linux-basics''" "''u''"] v
    by (cases "ValidateStep dr_handler 0 [] [] ''s1'' (Inr 1) ''u'' dr_app") simp
qed

theorem unlimited_onprem_never_used_witness:
  "\<exists>P. main_sessions cluster_api (\<lambda>_. account_api)
        ((main_wire dr_outside default_config)\<lparr>wr_onprem := Some demo_cfg, wr_overflow := Some (demo_aws_cfg, None)\<rparr>)
        (default_config\<lparr>cfg_KubeVirt := (cfg_KubeVirt default_config)\<lparr>kvc_MaxActiveSessions := 0\<rparr>\<rparr>) = Some P \<and>
      fst (snd (pv_Create P 0 ''s9'' ''lab'' ''u9'' \<lparr>bi_packages = [], bi_runcmd = []\<rparr> (demo_manager, demo_prov))) = demo_manager"
proof -
  have n: "pv_CountActiveSessions (kubevirt_provider cluster_api demo_cfg) demo_manager = (Inr 1, demo_manager)"
    by (simp add: kubevirt_provider_def kv_CountActiveSessions_def demo_list)
      (simp add: demo_ns_def namespaceDeleting_def)
  let ?w = "(main_wire dr_outside default_config)\<lparr>wr_onprem := Some demo_cfg, wr_overflow := Some (demo_aws_cfg, None)\<rparr>"
  let ?c = "default_config\<lparr>cfg_KubeVirt := (cfg_KubeVirt default_config)\<lparr>kvc_MaxActiveSessions := 0\<rparr>\<rparr>"
  obtain P where "main_sessions cluster_api (\<lambda>_. account_api) ?w ?c = Some P"
    "pv_Create P 0 ''s9'' ''lab'' ''u9'' \<lparr>bi_packages = [], bi_runcmd = []\<rparr> (demo_manager, demo_prov) =
      (case pv_Create (ec2_provider account_api demo_aws_cfg) 0 ''s9'' ''lab'' ''u9'' \<lparr>bi_packages = [], bi_runcmd = []\<rparr> demo_prov of
         (r, t1) \<Rightarrow> (r, (demo_manager, t1)))"
    using unlimited_onprem_never_used [of ?c ?w demo_cfg demo_aws_cfg None cluster_api demo_manager 1 demo_manager
        "\<lambda>_. account_api" 0 "''s9''" "''lab''" "''u9''" "\<lparr>bi_packages = [], bi_runcmd = []\<rparr>" demo_prov] n by auto
  then show ?thesis by (auto split: prod.splits)
qed

end
