(* ===== verification/Checker.thy ===== *)
theory Checker
  imports Messages Decimal
begin

text \<open>
  The checks of the validation engine: the check types of
  \<open>src/apps/validation-engine/internal/model/message.go\<close>, the executor interface of
  \<open>internal/executor/executor.go\<close> and the checker of \<open>internal/checker/checker.go\<close>.

  A context is its deadline, the only reason for which the contexts of the engine are done. The
  outside of the engine is a \<open>world\<close>: the clock and the state of the machines. Go strings are
  byte strings; the Korean texts of the source are given by their UTF-8 bytes, each with a
  translation.
\<close>

section \<open>Check types\<close>

definition CheckCommand :: string where "CheckCommand = ''command''"

definition CheckFileExists :: string where "CheckFileExists = ''file_exists''"

definition CheckDirExists :: string where "CheckDirExists = ''dir_exists''"

definition CheckFileAbsent :: string where "CheckFileAbsent = ''file_absent''"

definition CheckFileContentAbsent :: string where "CheckFileContentAbsent = ''file_content_absent''"

definition CheckFileContent :: string where "CheckFileContent = ''file_content''"

definition CheckProcessRunning :: string where "CheckProcessRunning = ''process_running''"

definition CheckHTTPResponse :: string where "CheckHTTPResponse = ''http_response''"

definition CheckRequestError :: string where "CheckRequestError = ''request_error''"

lemmas check_types = CheckCommand_def CheckFileExists_def CheckDirExists_def CheckFileAbsent_def
  CheckFileContentAbsent_def CheckFileContent_def CheckProcessRunning_def CheckHTTPResponse_def
  CheckRequestError_def

section \<open>Texts\<close>

text \<open>VM connection timeout\<close>
definition txt_timeout :: string where "txt_timeout = utf8 [86, 77, 32, 236, 151, 176, 234, 178, 176, 32, 116, 105, 109, 101, 111, 117, 116]"

text \<open>unknown check type: \<close>
definition txt_unknown_type :: string where "txt_unknown_type = utf8 [236, 149, 140, 32, 236, 136, 152, 32, 236, 151, 134, 235, 138, 148, 32, 236, 178, 180, 237, 129, 172, 32, 237, 131, 128, 236, 158, 133, 58, 32]"

text \<open>is empty (after a field name with the particle \<open>ga\<close>)\<close>
definition txt_is_empty :: string where "txt_is_empty = utf8 [234, 176, 128, 32, 235, 185, 132, 236, 150, 180, 236, 158, 136, 236, 157, 140]"

text \<open>not allowed ...\<close>
definition txt_bad_command :: string where "txt_bad_command = utf8 [237, 151, 136, 236, 154, 169, 235, 144, 152, 236, 167, 128, 32, 236, 149, 138, 235, 138, 148, 32, 235, 170, 133, 235, 160, 185, 236, 150, 180, 58, 32]"
definition txt_bad_path :: string where "txt_bad_path = utf8 [237, 151, 136, 236, 154, 169, 235, 144, 152, 236, 167, 128, 32, 236, 149, 138, 235, 138, 148, 32, 234, 178, 189, 235, 161, 156, 58, 32]"
definition txt_bad_name :: string where "txt_bad_name = utf8 [237, 151, 136, 236, 154, 169, 235, 144, 152, 236, 167, 128, 32, 236, 149, 138, 235, 138, 148, 32, 237, 148, 132, 235, 161, 156, 236, 132, 184, 236, 138, 164, 32, 236, 157, 180, 235, 166, 132, 58, 32]"
definition txt_bad_url :: string where "txt_bad_url = utf8 [237, 151, 136, 236, 154, 169, 235, 144, 152, 236, 167, 128, 32, 236, 149, 138, 235, 138, 148, 32, 85, 82, 76, 58, 32]"

text \<open>failed to run the command, to read the file, to send the HTTP request\<close>
definition txt_command_failed :: string where "txt_command_failed = utf8 [235, 170, 133, 235, 160, 185, 236, 150, 180, 32, 236, 139, 164, 237, 150, 137, 32, 236, 139, 164, 237, 140, 168, 58, 32]"
definition txt_read_failed :: string where "txt_read_failed = utf8 [237, 140, 140, 236, 157, 188, 32, 236, 157, 189, 234, 184, 176, 32, 236, 139, 164, 237, 140, 168, 58, 32]"
definition txt_http_failed :: string where "txt_http_failed = utf8 [72, 84, 84, 80, 32, 236, 154, 148, 236, 178, 173, 32, 236, 139, 164, 237, 140, 168, 58, 32]"

text \<open>not in the output, not in the file, in the file although it must not be\<close>
definition txt_output_lacks :: string where "txt_output_lacks = utf8 [236, 182, 156, 235, 160, 165, 236, 151, 144, 32, 39]"
definition txt_file_lacks :: string where "txt_file_lacks = utf8 [237, 140, 140, 236, 157, 188, 236, 151, 144, 32, 39]"
definition txt_lacks_end :: string where "txt_lacks_end = utf8 [39, 32, 236, 151, 134, 236, 157, 140]"
definition txt_file_has :: string where "txt_file_has = utf8 [237, 140, 140, 236, 157, 188, 236, 151, 144, 32, 236, 158, 136, 236, 156, 188, 235, 169, 180, 32, 236, 149, 136, 32, 235, 144, 152, 235, 138, 148, 32, 39]"
definition txt_has_end :: string where "txt_has_end = utf8 [39, 32, 234, 176, 128, 32, 236, 158, 136, 236, 157, 140]"

text \<open>no such file, no such directory, a file that must not exist, process not running\<close>
definition txt_no_file :: string where "txt_no_file = utf8 [237, 140, 140, 236, 157, 188, 32, 236, 151, 134, 236, 157, 140, 58, 32]"
definition txt_no_dir :: string where "txt_no_dir = utf8 [235, 148, 148, 235, 160, 137, 237, 132, 176, 235, 166, 172, 32, 236, 151, 134, 236, 157, 140, 58, 32]"
definition txt_file_present :: string where "txt_file_present = utf8 [236, 161, 180, 236, 158, 172, 237, 149, 152, 235, 169, 180, 32, 236, 149, 136, 32, 235, 144, 152, 235, 138, 148, 32, 237, 140, 140, 236, 157, 188, 236, 157, 180, 32, 236, 158, 136, 236, 157, 140, 58, 32]"
definition txt_not_running :: string where "txt_not_running = utf8 [237, 148, 132, 235, 161, 156, 236, 132, 184, 236, 138, 164, 32, 236, 139, 164, 237, 150, 137, 32, 236, 164, 145, 32, 236, 149, 132, 235, 139, 152, 58, 32]"

text \<open>\<open>expect_code\<close> is 0; the response code differs, expected ..., actual ...\<close>
definition txt_code_zero :: string where "txt_code_zero = ''expect_code'' @ utf8 [234, 176, 128, 32, 48]"
definition txt_code_differs :: string where "txt_code_differs = utf8 [236, 157, 145, 235, 139, 181, 32, 236, 189, 148, 235, 147, 156, 32, 235, 182, 136, 236, 157, 188, 236, 185, 152, 46, 32, 234, 184, 176, 235, 140, 128, 58, 32]"
definition txt_actual :: string where "txt_actual = '', '' @ utf8 [236, 139, 164, 236, 160, 156, 58, 32]"

section \<open>Allowed inputs\<close>

text \<open>
  The four regular expressions. They are anchored at both ends of the text and their classes hold
  ASCII characters only.
\<close>

definition safePathRe :: "string \<Rightarrow> bool" where
  "safePathRe s =
     (case s of
        [] \<Rightarrow> False
      | c # r \<Rightarrow> c = CHR ''/'' \<and> r \<noteq> [] \<and> list_all (\<lambda>d. is_alnum d \<or> d \<in> set ''/_.-'') r)"

definition safeNameRe :: "string \<Rightarrow> bool" where
  "safeNameRe s \<longleftrightarrow> s \<noteq> [] \<and> list_all (\<lambda>d. is_alnum d \<or> d \<in> set ''._-'') s"

definition url_rest :: "string \<Rightarrow> string option" where
  "url_rest s =
     (if has_prefix s ''http://'' then Some (drop 7 s)
      else if has_prefix s ''https://'' then Some (drop 8 s) else None)"

definition safeURLRe :: "string \<Rightarrow> bool" where
  "safeURLRe s =
     (case url_rest s of
        None \<Rightarrow> False
      | Some r \<Rightarrow> r \<noteq> [] \<and> list_all (\<lambda>d. is_alnum d \<or> d \<in> set ''/._:-?=&#'') r)"

definition safeCommandRe :: "string \<Rightarrow> bool" where
  "safeCommandRe s \<longleftrightarrow>
     s \<noteq> [] \<and> list_all (\<lambda>d. is_alnum d \<or> d \<in> set '' /._-=:@%'' \<or> d = CHR 0x22 \<or> d = CHR 0x27) s"

text \<open>\<open>strings.TrimSpace\<close>: the UTF-8 encodings of the characters with the Unicode property White Space.\<close>

definition spaces :: "string list" where
  "spaces = map utf8 ([[9], [10], [11], [12], [13], [32], [194, 133], [194, 160], [225, 154, 128],
     [226, 128, 168], [226, 128, 169], [226, 128, 175], [226, 129, 159], [227, 128, 128]]
     @ map (\<lambda>n. [226, 128, 128 + n]) [0..<11])"

fun trim_front :: "nat \<Rightarrow> string list \<Rightarrow> string \<Rightarrow> string" where
  "trim_front 0 ps s = s"
| "trim_front (Suc n) ps s =
     (case find (\<lambda>p. has_prefix s p) ps of None \<Rightarrow> s | Some p \<Rightarrow> trim_front n ps (drop (length p) s))"

definition TrimSpace :: "string \<Rightarrow> string" where
  "TrimSpace s =
     (let l = trim_front (length s) spaces s
      in rev (trim_front (length l) (map rev spaces) (rev l)))"

section \<open>Executors\<close>

text \<open>An error of an executor: whether it is \<open>context.DeadlineExceeded\<close> under \<open>errors.Is\<close>, and its text.\<close>

datatype exec_err = ExecErr (err_deadline: bool) (err_text: string)

record 'v VMExecutor =
  ex_Exec :: "go_time \<Rightarrow> string \<Rightarrow> 'v world \<Rightarrow> (exec_err + string) \<times> 'v world"
  ex_DefaultTimeout :: duration

section \<open>The checks\<close>

definition chk_pass :: "string \<Rightarrow> CheckResult" where
  "chk_pass t = \<lparr>cr_type = t, cr_passed = True, cr_detail = []\<rparr>"

definition chk_fail :: "string \<Rightarrow> string \<Rightarrow> CheckResult" where
  "chk_fail t detail = \<lparr>cr_type = t, cr_passed = False, cr_detail = detail\<rparr>"

definition requestError :: "string \<Rightarrow> CheckResult" where
  "requestError detail = \<lparr>cr_type = CheckRequestError, cr_passed = False, cr_detail = detail\<rparr>"

definition runCommand :: "go_time \<Rightarrow> 'v VMExecutor \<Rightarrow> Check \<Rightarrow> 'v world \<Rightarrow> CheckResult \<times> 'v world" where
  "runCommand ctx exe check v =
     (if chk_command check = [] then (chk_fail (chk_type check) (''cmd'' @ txt_is_empty), v)
      else if \<not> safeCommandRe (chk_command check)
      then (chk_fail (chk_type check) (txt_bad_command @ chk_command check), v)
      else
        (let (r, v1) = ex_Exec exe ctx (chk_command check) v in
         (case r of
            Inl e \<Rightarrow>
              if err_deadline e then requestError txt_timeout
              else chk_fail (chk_type check) (txt_command_failed @ err_text e)
          | Inr output \<Rightarrow>
              if chk_expect check = [] then chk_fail (chk_type check) (''expect'' @ txt_is_empty)
              else if contains output (chk_expect check) then chk_pass (chk_type check)
              else chk_fail (chk_type check) (txt_output_lacks @ chk_expect check @ txt_lacks_end), v1)))"

definition runFileExists :: "go_time \<Rightarrow> 'v VMExecutor \<Rightarrow> Check \<Rightarrow> 'v world \<Rightarrow> CheckResult \<times> 'v world" where
  "runFileExists ctx exe check v =
     (if \<not> safePathRe (chk_path check)
      then (chk_fail (chk_type check) (txt_bad_path @ chk_path check), v)
      else
        (let (r, v1) = ex_Exec exe ctx (''test -f '' @ chk_path check) v in
         (case r of
            Inl e \<Rightarrow>
              if err_deadline e then requestError txt_timeout
              else chk_fail (chk_type check) (txt_no_file @ chk_path check)
          | Inr _ \<Rightarrow> chk_pass (chk_type check), v1)))"

definition runDirExists :: "go_time \<Rightarrow> 'v VMExecutor \<Rightarrow> Check \<Rightarrow> 'v world \<Rightarrow> CheckResult \<times> 'v world" where
  "runDirExists ctx exe check v =
     (if \<not> safePathRe (chk_path check)
      then (chk_fail (chk_type check) (txt_bad_path @ chk_path check), v)
      else
        (let (r, v1) = ex_Exec exe ctx (''test -d '' @ chk_path check) v in
         (case r of
            Inl e \<Rightarrow>
              if err_deadline e then requestError txt_timeout
              else chk_fail (chk_type check) (txt_no_dir @ chk_path check)
          | Inr _ \<Rightarrow> chk_pass (chk_type check), v1)))"

definition runFileAbsent :: "go_time \<Rightarrow> 'v VMExecutor \<Rightarrow> Check \<Rightarrow> 'v world \<Rightarrow> CheckResult \<times> 'v world" where
  "runFileAbsent ctx exe check v =
     (if \<not> safePathRe (chk_path check)
      then (chk_fail (chk_type check) (txt_bad_path @ chk_path check), v)
      else
        (let (r, v1) = ex_Exec exe ctx (''test ! -f '' @ chk_path check) v in
         (case r of
            Inl e \<Rightarrow>
              if err_deadline e then requestError txt_timeout
              else chk_fail (chk_type check) (txt_file_present @ chk_path check)
          | Inr _ \<Rightarrow> chk_pass (chk_type check), v1)))"

definition runFileContent :: "go_time \<Rightarrow> 'v VMExecutor \<Rightarrow> Check \<Rightarrow> 'v world \<Rightarrow> CheckResult \<times> 'v world" where
  "runFileContent ctx exe check v =
     (if \<not> safePathRe (chk_path check)
      then (chk_fail (chk_type check) (txt_bad_path @ chk_path check), v)
      else if chk_expect check = [] then (chk_fail (chk_type check) (''expect'' @ txt_is_empty), v)
      else
        (let (r, v1) = ex_Exec exe ctx (''cat '' @ chk_path check) v in
         (case r of
            Inl e \<Rightarrow>
              if err_deadline e then requestError txt_timeout
              else chk_fail (chk_type check) (txt_read_failed @ err_text e)
          | Inr output \<Rightarrow>
              if contains output (chk_expect check) then chk_pass (chk_type check)
              else chk_fail (chk_type check) (txt_file_lacks @ chk_expect check @ txt_lacks_end), v1)))"

definition runFileContentAbsent ::
  "go_time \<Rightarrow> 'v VMExecutor \<Rightarrow> Check \<Rightarrow> 'v world \<Rightarrow> CheckResult \<times> 'v world" where
  "runFileContentAbsent ctx exe check v =
     (if \<not> safePathRe (chk_path check)
      then (chk_fail (chk_type check) (txt_bad_path @ chk_path check), v)
      else if chk_expect check = [] then (chk_fail (chk_type check) (''expect'' @ txt_is_empty), v)
      else
        (let (r, v1) = ex_Exec exe ctx (''test -e '' @ chk_path check) v in
         case r of
           Inl e \<Rightarrow> (if err_deadline e then requestError txt_timeout else chk_pass (chk_type check), v1)
         | Inr _ \<Rightarrow>
             (let (r2, v2) = ex_Exec exe ctx (''cat '' @ chk_path check) v1 in
              (case r2 of
                 Inl e \<Rightarrow>
                   if err_deadline e then requestError txt_timeout
                   else chk_fail (chk_type check) (txt_read_failed @ err_text e)
               | Inr output \<Rightarrow>
                   if contains output (chk_expect check)
                   then chk_fail (chk_type check) (txt_file_has @ chk_expect check @ txt_has_end)
                   else chk_pass (chk_type check), v2))))"

definition runProcessRunning ::
  "go_time \<Rightarrow> 'v VMExecutor \<Rightarrow> Check \<Rightarrow> 'v world \<Rightarrow> CheckResult \<times> 'v world" where
  "runProcessRunning ctx exe check v =
     (if \<not> safeNameRe (chk_name check)
      then (chk_fail (chk_type check) (txt_bad_name @ chk_name check), v)
      else
        (let (r, v1) = ex_Exec exe ctx (''pgrep '' @ chk_name check) v in
         (case r of
            Inl e \<Rightarrow>
              if err_deadline e then requestError txt_timeout
              else chk_fail (chk_type check) (txt_not_running @ chk_name check)
          | Inr _ \<Rightarrow> chk_pass (chk_type check), v1)))"

definition curl_command :: "string \<Rightarrow> string" where
  "curl_command url = ''curl -s -o /dev/null -w %{http_code} '' @ url"

definition runHTTPResponse ::
  "go_time \<Rightarrow> 'v VMExecutor \<Rightarrow> Check \<Rightarrow> 'v world \<Rightarrow> CheckResult \<times> 'v world" where
  "runHTTPResponse ctx exe check v =
     (if chk_expect_code check = 0 then (chk_fail (chk_type check) txt_code_zero, v)
      else if \<not> safeURLRe (chk_url check)
      then (chk_fail (chk_type check) (txt_bad_url @ chk_url check), v)
      else
        (let (r, v1) = ex_Exec exe ctx (curl_command (chk_url check)) v in
         (case r of
            Inl e \<Rightarrow>
              if err_deadline e then requestError txt_timeout
              else chk_fail (chk_type check) (txt_http_failed @ err_text e)
          | Inr output \<Rightarrow>
              (let expected = Itoa (chk_expect_code check) in
               if TrimSpace output = expected then chk_pass (chk_type check)
               else chk_fail (chk_type check) (txt_code_differs @ expected @ txt_actual @ output)), v1)))"

text \<open>
  The deadline of one check: \<open>time.Duration(check.Timeout) * time.Second\<close> is a product of 64-bit
  integers, and \<open>context.WithTimeout\<close> never extends the deadline of its parent.
\<close>

definition int64 :: "int \<Rightarrow> int" where
  "int64 i = signed_take_bit 63 i"

definition check_timeout :: "'v VMExecutor \<Rightarrow> Check \<Rightarrow> duration" where
  "check_timeout exe check =
     (if chk_timeout check > 0 then int64 (chk_timeout check * second) else ex_DefaultTimeout exe)"

definition dispatch_check :: "go_time \<Rightarrow> 'v VMExecutor \<Rightarrow> Check \<Rightarrow> 'v world \<Rightarrow> CheckResult \<times> 'v world" where
  "dispatch_check ctx exe check v =
     (if chk_type check = CheckCommand then runCommand ctx exe check v
      else if chk_type check = CheckFileExists then runFileExists ctx exe check v
      else if chk_type check = CheckDirExists then runDirExists ctx exe check v
      else if chk_type check = CheckFileAbsent then runFileAbsent ctx exe check v
      else if chk_type check = CheckFileContentAbsent then runFileContentAbsent ctx exe check v
      else if chk_type check = CheckFileContent then runFileContent ctx exe check v
      else if chk_type check = CheckProcessRunning then runProcessRunning ctx exe check v
      else if chk_type check = CheckHTTPResponse then runHTTPResponse ctx exe check v
      else (chk_fail (chk_type check) (txt_unknown_type @ chk_type check), v))"

definition run_check :: "go_time \<Rightarrow> 'v VMExecutor \<Rightarrow> Check \<Rightarrow> 'v world \<Rightarrow> CheckResult \<times> 'v world" where
  "run_check ctx exe check v =
     dispatch_check (min ctx (w_clock v + check_timeout exe check)) exe check v"

fun RunAll ::
  "go_time \<Rightarrow> 'v VMExecutor \<Rightarrow> Check list \<Rightarrow> 'v world \<Rightarrow> (CheckResult list \<times> bool) \<times> 'v world" where
  "RunAll ctx exe [] v = (([], True), v)"
| "RunAll ctx exe (check # checks) v =
     (let (result, v1) = run_check ctx exe check v;
          ((results, allPassed), v2) = RunAll ctx exe checks v1
      in ((result # results, cr_passed result \<and> allPassed), v2))"

lemmas check_defs = runCommand_def runFileExists_def runDirExists_def runFileAbsent_def runFileContent_def
  runFileContentAbsent_def runProcessRunning_def runHTTPResponse_def

lemmas result_defs = chk_pass_def chk_fail_def requestError_def

section \<open>Executors that keep their deadline\<close>

text \<open>
  What the checker relies on: an executor never returns later than the deadline of its context and some
  grace, and a call whose deadline has passed fails as such.
\<close>

definition in_time :: "go_time \<Rightarrow> 'v world \<Rightarrow> 'v world \<Rightarrow> bool" where
  "in_time ctx v v' \<longleftrightarrow> w_clock v \<le> w_clock v' \<and> w_clock v' \<le> max ctx (w_clock v)"

lemma in_time_refl [simp]: "in_time ctx v v"
  by (simp add: in_time_def)

lemma in_time_trans: "in_time ctx v v' \<Longrightarrow> in_time ctx v' v'' \<Longrightarrow> in_time ctx v v''"
  by (auto simp: in_time_def)

lemma in_time_mono: "in_time ctx v v' \<Longrightarrow> ctx \<le> ctx' \<Longrightarrow> in_time ctx' v v'"
  by (auto simp: in_time_def)

locale timely_executor =
  fixes exe :: "'v VMExecutor" and grace :: duration
  assumes exec_in_time: "ex_Exec exe ctx cmd v = (r, v') \<Longrightarrow> in_time (ctx + grace) v v'"
    and exec_expired: "ctx \<le> w_clock v \<Longrightarrow> ex_Exec exe ctx cmd v = (r, v') \<Longrightarrow> \<exists>e. r = Inl e \<and> err_deadline e"
    and default_timeout_pos: "0 < ex_DefaultTimeout exe"
begin

lemma dispatch_in_time:
  assumes "dispatch_check ctx exe check v = (r, v')"
  shows "in_time (ctx + grace) v v'"
  using assms
  by (auto simp: dispatch_check_def check_defs Let_def split: if_splits prod.splits sum.splits
      dest!: exec_in_time intro: in_time_trans)

lemma run_check_in_time: "run_check ctx exe check v = (r, v') \<Longrightarrow> in_time (ctx + grace) v v'"
  unfolding run_check_def by (rule in_time_mono [OF dispatch_in_time]) auto

lemma RunAll_in_time: "RunAll ctx exe checks v = (r, v') \<Longrightarrow> in_time (ctx + grace) v v'"
proof (induction checks arbitrary: v r)
  case (Cons check checks)
  then show ?case
    by (auto simp: Let_def split: prod.splits dest!: run_check_in_time intro: in_time_trans)
qed simp

end

section \<open>Verdicts\<close>

lemma RunAll_verdict:
  "RunAll ctx exe checks v = ((results, allPassed), v') \<Longrightarrow>
   length results = length checks \<and> (allPassed \<longleftrightarrow> list_all cr_passed results)"
proof (induction checks arbitrary: v results allPassed)
  case (Cons check checks)
  from Cons.prems show ?case
    by (auto simp: Let_def split: prod.splits dest!: Cons.IH)
qed simp

text \<open>
  The commands a check may send, and the executor that also records what it is asked to run.
\<close>

definition traced :: "'v VMExecutor \<Rightarrow> ('v \<times> string list) VMExecutor" where
  "traced exe = \<lparr>ex_Exec = (\<lambda>ctx cmd v.
      (let (r, v') = ex_Exec exe ctx cmd \<lparr>w_clock = w_clock v, w_rest = fst (w_rest v)\<rparr>
       in (r, \<lparr>w_clock = w_clock v', w_rest = (w_rest v', snd (w_rest v) @ [cmd])\<rparr>))),
     ex_DefaultTimeout = ex_DefaultTimeout exe\<rparr>"

definition commands_run :: "('v \<times> string list) world \<Rightarrow> string list" where
  "commands_run v = snd (w_rest v)"

lemma traced_exec:
  "ex_Exec (traced exe) ctx cmd v = (r, v') \<Longrightarrow> commands_run v' = commands_run v @ [cmd]"
  by (auto simp: traced_def commands_run_def Let_def split: prod.splits)

text \<open>
  The characters that a shell does not take literally, and the words of a command line that holds none
  of them: a shell runs such a line as one command with these words.
\<close>

definition shell_meta :: "char set" where
  "shell_meta = set '';&|<>()$*?[]#~{}'' \<union> {CHR 0x60, CHR 0x5C, CHR 0x22, CHR 0x27, CHR 0x09, CHR 0x0A, CHR 0x0D}"

fun split_space :: "string \<Rightarrow> string list" where
  "split_space [] = [[]]"
| "split_space (c # s) =
     (if c = CHR '' '' then [] # split_space s
      else case split_space s of [] \<Rightarrow> [[c]] | w # ws \<Rightarrow> (c # w) # ws)"

definition shell_words :: "string \<Rightarrow> string list option" where
  "shell_words s =
     (if list_all (\<lambda>c. c \<notin> shell_meta) s then Some (filter (\<lambda>w. w \<noteq> []) (split_space s)) else None)"

text \<open>The words in front of the path, for each kind of check that looks at a file.\<close>

definition file_words :: "string \<Rightarrow> string list set" where
  "file_words t =
     (if t = CheckFileExists then {[''test'', ''-f'']}
      else if t = CheckDirExists then {[''test'', ''-d'']}
      else if t = CheckFileAbsent then {[''test'', ''!'', ''-f'']}
      else if t = CheckFileContent then {[''cat'']}
      else if t = CheckFileContentAbsent then {[''test'', ''-e''], [''cat'']}
      else {})"

definition sent_for :: "Check \<Rightarrow> string \<Rightarrow> bool" where
  "sent_for check cmd \<longleftrightarrow>
     (\<exists>ws\<in>file_words (chk_type check). shell_words cmd = Some (ws @ [chk_path check]))
   \<or> chk_type check = CheckProcessRunning \<and> shell_words cmd = Some [''pgrep'', chk_name check]
   \<or> chk_type check = CheckCommand \<and> cmd = chk_command check \<and> set cmd \<inter> shell_meta \<subseteq> {CHR 0x22, CHR 0x27}
   \<or> chk_type check = CheckHTTPResponse \<and> cmd = curl_command (chk_url check)
       \<and> set (chk_url check) \<inter> shell_meta \<subseteq> set ''&?#''"

definition plain :: "char \<Rightarrow> bool" where
  "plain c \<longleftrightarrow> c \<notin> shell_meta \<and> c \<noteq> CHR '' ''"

lemma alnum_plain: "is_alnum c \<Longrightarrow> plain c"
  by (auto simp: is_alnum_def plain_def shell_meta_def)

lemma list_all_mono: "list_all P xs \<Longrightarrow> (\<And>x. P x \<Longrightarrow> Q x) \<Longrightarrow> list_all Q xs"
  by (auto simp: list_all_iff)

lemma list_all_class:
  "list_all (\<lambda>d. is_alnum d \<or> d \<in> set ts) r \<Longrightarrow> (\<And>d. is_alnum d \<Longrightarrow> ok d) \<Longrightarrow> list_all ok ts \<Longrightarrow> list_all ok r"
  by (auto simp: list_all_iff)

lemma safe_plain:
  "safePathRe s \<Longrightarrow> list_all plain s \<and> s \<noteq> []"
  "safeNameRe s \<Longrightarrow> list_all plain s \<and> s \<noteq> []"
proof -
  have marks: "list_all plain ''/_.-''" by (simp add: plain_def shell_meta_def)
  show "safePathRe s \<Longrightarrow> list_all plain s \<and> s \<noteq> []"
    using marks by (cases s) (auto simp: safePathRe_def intro: alnum_plain elim!: list_all_mono)
  show "safeNameRe s \<Longrightarrow> list_all plain s \<and> s \<noteq> []"
    using marks by (auto simp: safeNameRe_def intro: alnum_plain elim!: list_all_mono)
qed

lemma split_plain: "list_all plain s \<Longrightarrow> split_space s = [s]"
  by (induction s) (auto simp: plain_def)

lemma plain_inert: "list_all plain s \<Longrightarrow> list_all (\<lambda>c. c \<notin> shell_meta) s"
  by (auto simp: plain_def elim!: list_all_mono)

lemma shell_words_templates:
  assumes "list_all plain s \<and> s \<noteq> []"
  shows "shell_words (''test -f '' @ s) = Some [''test'', ''-f'', s]"
    "shell_words (''test -d '' @ s) = Some [''test'', ''-d'', s]"
    "shell_words (''test ! -f '' @ s) = Some [''test'', ''!'', ''-f'', s]"
    "shell_words (''test -e '' @ s) = Some [''test'', ''-e'', s]"
    "shell_words (''cat '' @ s) = Some [''cat'', s]"
    "shell_words (''pgrep '' @ s) = Some [''pgrep'', s]"
proof -
  have t: "list_all (\<lambda>c. c \<notin> shell_meta) ''testfdpgrca! -''" by (simp add: shell_meta_def)
  note s = split_plain [of s] plain_inert [of s] assms
  show "shell_words (''test -f '' @ s) = Some [''test'', ''-f'', s]"
    "shell_words (''test -d '' @ s) = Some [''test'', ''-d'', s]"
    "shell_words (''test ! -f '' @ s) = Some [''test'', ''!'', ''-f'', s]"
    "shell_words (''test -e '' @ s) = Some [''test'', ''-e'', s]"
    "shell_words (''cat '' @ s) = Some [''cat'', s]"
    "shell_words (''pgrep '' @ s) = Some [''pgrep'', s]"
    using s t by (simp_all add: shell_words_def)
qed

lemma check_types_differ:
  "file_words CheckFileExists = {[''test'', ''-f'']}" "file_words CheckDirExists = {[''test'', ''-d'']}"
  "file_words CheckFileAbsent = {[''test'', ''!'', ''-f'']}" "file_words CheckFileContent = {[''cat'']}"
  "file_words CheckFileContentAbsent = {[''test'', ''-e''], [''cat'']}"
  by (simp_all add: file_words_def check_types)

lemma file_sent:
  assumes "safePathRe (chk_path check)"
  shows "chk_type check = CheckFileExists \<Longrightarrow> sent_for check (''test -f '' @ chk_path check)"
    "chk_type check = CheckDirExists \<Longrightarrow> sent_for check (''test -d '' @ chk_path check)"
    "chk_type check = CheckFileAbsent \<Longrightarrow> sent_for check (''test ! -f '' @ chk_path check)"
    "chk_type check = CheckFileContent \<Longrightarrow> sent_for check (''cat '' @ chk_path check)"
    "chk_type check = CheckFileContentAbsent \<Longrightarrow> sent_for check (''test -e '' @ chk_path check)"
    "chk_type check = CheckFileContentAbsent \<Longrightarrow> sent_for check (''cat '' @ chk_path check)"
  unfolding sent_for_def
  by (rule disjI1, simp add: check_types_differ shell_words_templates [OF safe_plain(1) [OF assms]] del: append.simps)+

lemma process_sent:
  "safeNameRe (chk_name check) \<Longrightarrow> chk_type check = CheckProcessRunning \<Longrightarrow> sent_for check (''pgrep '' @ chk_name check)"
  using shell_words_templates(6) [OF safe_plain(2)] by (simp add: sent_for_def del: append.simps)

lemma command_sent:
  assumes "safeCommandRe (chk_command check)" "chk_type check = CheckCommand"
  shows "sent_for check (chk_command check)"
proof -
  have "list_all (\<lambda>d. d \<notin> shell_meta) '' /._-=:@%''" by (simp add: shell_meta_def)
  then have "list_all (\<lambda>d. d \<in> shell_meta \<longrightarrow> d = CHR 0x22 \<or> d = CHR 0x27) (chk_command check)"
    using assms(1) unfolding safeCommandRe_def
    by (auto elim!: list_all_mono dest!: alnum_plain simp: plain_def)
  then show ?thesis using assms(2) by (auto simp: sent_for_def list_all_iff)
qed

lemma url_split: "url_rest s = Some r \<Longrightarrow> s = ''http://'' @ r \<or> s = ''https://'' @ r"
  by (auto simp: url_rest_def has_prefix_def prefix_def split: if_splits)

lemma safeURLRe_meta:
  assumes "safeURLRe s"
  shows "set s \<inter> shell_meta \<subseteq> set ''&?#''"
proof -
  let ?ok = "\<lambda>d. d \<in> shell_meta \<longrightarrow> d \<in> set ''&?#''"
  obtain r where r: "url_rest s = Some r" "list_all (\<lambda>d. is_alnum d \<or> d \<in> set ''/._:-?=&#'') r"
    using assms by (auto simp: safeURLRe_def split: option.splits)
  have ok: "list_all ?ok ''/._:-?=&#''" "list_all ?ok ''http://''" "list_all ?ok ''https://''"
    by (simp_all add: shell_meta_def)
  have "list_all ?ok r" by (rule list_all_class [OF r(2) _ ok(1)]) (use alnum_plain in \<open>simp add: plain_def\<close>)
  then have "list_all ?ok s" using url_split [OF r(1)] ok(2,3) unfolding list_all_iff by auto
  then show ?thesis unfolding list_all_iff by blast
qed

lemma url_sent:
  "safeURLRe (chk_url check) \<Longrightarrow> chk_type check = CheckHTTPResponse \<Longrightarrow> sent_for check (curl_command (chk_url check))"
  using safeURLRe_meta by (simp add: sent_for_def)

text \<open>\<open>ran check v v'\<close>: between the two states only commands that \<open>check\<close> may send were run.\<close>

definition ran :: "Check \<Rightarrow> ('v \<times> string list) world \<Rightarrow> ('v \<times> string list) world \<Rightarrow> bool" where
  "ran check v v' \<longleftrightarrow> (\<exists>cmds. commands_run v' = commands_run v @ cmds \<and> list_all (sent_for check) cmds)"

lemma ran_refl [simp]: "ran check v v"
  by (simp add: ran_def)

lemma ran_trans: "ran check v v' \<Longrightarrow> ran check v' v'' \<Longrightarrow> ran check v v''"
  by (auto simp: ran_def)

lemma ran_exec: "ex_Exec (traced exe) ctx cmd v = (r, v') \<Longrightarrow> sent_for check cmd \<Longrightarrow> ran check v v'"
  using traced_exec [of exe ctx cmd v r v'] by (auto simp: ran_def)

lemma dispatch_ran:
  assumes "dispatch_check ctx (traced exe) check v = (r, v')"
  shows "ran check v v'"
proof -
  note safe = file_sent process_sent command_sent url_sent
  have "chk_type check = CheckFileContentAbsent \<Longrightarrow> runFileContentAbsent ctx (traced exe) check v = (r, v') \<Longrightarrow> ran check v v'"
    by (auto simp: runFileContentAbsent_def Let_def safe simp del: append.simps
        split: if_splits prod.splits sum.splits elim!: ran_exec intro: ran_trans [OF ran_exec ran_exec])
  then show ?thesis
    using assms unfolding dispatch_check_def
    by (auto simp: runCommand_def runFileExists_def runDirExists_def runFileAbsent_def runFileContent_def
        runProcessRunning_def runHTTPResponse_def Let_def safe simp del: append.simps
        split: if_splits prod.splits elim!: ran_exec)
qed

lemma RunAll_ran:
  "RunAll ctx (traced exe) checks v = (r, v') \<Longrightarrow>
   \<exists>cmds. commands_run v' = commands_run v @ cmds \<and> (\<forall>cmd\<in>set cmds. \<exists>check\<in>set checks. sent_for check cmd)"
proof (induction checks arbitrary: v r)
  case (Cons check checks)
  obtain q v1 where q: "run_check ctx (traced exe) check v = (q, v1)" by fastforce
  with Cons.prems obtain q' where qs: "RunAll ctx (traced exe) checks v1 = (q', v')"
    by (auto simp: Let_def split: prod.splits)
  have "ran check v v1" using q dispatch_ran unfolding run_check_def by metis
  with Cons.IH [OF qs] show ?case by (fastforce simp: ran_def list_all_iff)
qed simp

text \<open>
  C24. Every command line that reaches the learner's machine comes from one of the requested checks. A check of a
  file, a directory or a process sends a line that a shell runs as one command, in which the path
  or the name of the request is exactly one word. A free command is sent as it is and holds no character
  special to a shell but quotes. The URL of an \<open>http_response\<close> check is sent unquoted behind \<open>curl\<close>, and of the
  special characters it can hold \<open>&\<close>, \<open>?\<close> and \<open>#\<close>, no others.
\<close>

theorem checker_command_lines:
  assumes "RunAll ctx (traced exe) checks v = (r, v')" and "commands_run v = []"
  shows "\<forall>cmd\<in>set (commands_run v'). \<exists>check\<in>set checks.
     (\<exists>ws\<in>file_words (chk_type check). shell_words cmd = Some (ws @ [chk_path check]))
   \<or> chk_type check = CheckProcessRunning \<and> shell_words cmd = Some [''pgrep'', chk_name check]
   \<or> chk_type check = CheckCommand \<and> cmd = chk_command check \<and> set cmd \<inter> shell_meta \<subseteq> {CHR 0x22, CHR 0x27}
   \<or> chk_type check = CheckHTTPResponse \<and> cmd = curl_command (chk_url check)
       \<and> set (chk_url check) \<inter> shell_meta \<subseteq> set ''&?#''"
  using RunAll_ran [OF assms(1)] assms(2) unfolding sent_for_def by auto

definition echo_executor :: "unit VMExecutor" where
  "echo_executor = \<lparr>ex_Exec = (\<lambda>ctx cmd v. (Inr cmd, v)), ex_DefaultTimeout = 20 * second\<rparr>"

definition blank_check :: Check where
  "blank_check = \<lparr>chk_type = [], chk_command = [], chk_path = [], chk_url = [], chk_name = [],
     chk_expect = [], chk_expect_code = 0, chk_timeout = 0\<rparr>"

definition start_world :: "(unit \<times> string list) world" where
  "start_world = \<lparr>w_clock = 0, w_rest = ((), [])\<rparr>"

text \<open>A refused command and an accepted one: only the second is run.\<close>

theorem checker_command_lines_witness:
  "let checks = [blank_check\<lparr>chk_type := CheckCommand, chk_command := ''ls; reboot'', chk_expect := ''x''\<rparr>,
                 blank_check\<lparr>chk_type := CheckFileExists, chk_path := ''/etc/hosts''\<rparr>];
       v' = snd (RunAll 9 (traced echo_executor) checks start_world) in
     commands_run v' = [''test -f /etc/hosts''] \<and> shell_words ''test -f /etc/hosts'' = Some [''test'', ''-f'', ''/etc/hosts'']"
proof -
  let ?checks = "[blank_check\<lparr>chk_type := CheckCommand, chk_command := ''ls; reboot'', chk_expect := ''x''\<rparr>,
      blank_check\<lparr>chk_type := CheckFileExists, chk_path := ''/etc/hosts''\<rparr>]"
  have run: "commands_run (snd (RunAll 9 (traced echo_executor) ?checks start_world)) = [''test -f /etc/hosts'']"
    by code_simp
  have start: "commands_run start_world = []" by (simp add: commands_run_def start_world_def)
  have "\<exists>check\<in>set ?checks. sent_for check ''test -f /etc/hosts''"
    using checker_command_lines [OF surjective_pairing start, where ctx = 9 and exe = echo_executor and checks = ?checks]
    unfolding run sent_for_def by simp
  moreover have "\<not> sent_for (?checks ! 0) cmd" if "cmd \<noteq> ''ls; reboot''" for cmd
    using that by (simp add: sent_for_def blank_check_def file_words_def check_types)
  ultimately have "sent_for (?checks ! 1) ''test -f /etc/hosts''" by auto
  then have "shell_words ''test -f /etc/hosts'' = Some [''test'', ''-f'', ''/etc/hosts'']"
    by (simp add: sent_for_def blank_check_def file_words_def check_types del: split_space.simps)
  with run show ?thesis by (simp only: Let_def)
qed

text \<open>
  \<open>&\<close> does reach the shell: the URL \<open>http://a&reboot\<close> satisfies \<open>safeURLRe\<close>, and the check
  sends it unquoted, so that the command line sent to any machine is the \<open>curl\<close> call in the
  background followed by a second command.
\<close>

theorem url_ampersand_reaches_shell:
  "commands_run (snd (RunAll ctx (traced exe)
     [blank_check\<lparr>chk_type := CheckHTTPResponse, chk_url := ''http://a&reboot'', chk_expect_code := 200\<rparr>]
     \<lparr>w_clock = t, w_rest = (m, [])\<rparr>)) = [''curl -s -o /dev/null -w %{http_code} http://a&reboot'']"
proof -
  have safe: "safeURLRe ''http://a&reboot''" by code_simp
  show ?thesis
    by (simp add: run_check_def dispatch_check_def check_types runHTTPResponse_def safe blank_check_def
        commands_run_def traced_def curl_command_def split: prod.split)
qed

text \<open>
  A \<open>file_content_absent\<close> check passes on a machine that cannot be reached: every failure of
  the first command that is not a timeout, a refused connection included, is taken to mean that the
  file does not exist.
\<close>

theorem content_absent_passes_when_unreachable:
  assumes "safePathRe (chk_path check)" and "chk_expect check \<noteq> []" and "chk_type check = CheckFileContentAbsent"
    and "\<And>c cmd u. fst (ex_Exec exe c cmd u) = Inl (ExecErr False reason)"
  shows "cr_passed (fst (run_check ctx exe check v))"
proof -
  obtain v1 where "ex_Exec exe (min ctx (w_clock v + check_timeout exe check)) (''test -e '' @ chk_path check) v
      = (Inl (ExecErr False reason), v1)"
    using assms(4) by (metis prod.collapse)
  then show ?thesis
    using assms(1-3)
    by (simp add: run_check_def dispatch_check_def runFileContentAbsent_def check_types chk_pass_def
        del: append.simps)
qed

theorem content_absent_passes_when_unreachable_witness:
  "cr_passed (fst (run_check 9
     \<lparr>ex_Exec = \<lambda>ctx cmd v. (Inl (ExecErr False ''exit status 255''), v), ex_DefaultTimeout = 20 * second\<rparr>
     (blank_check\<lparr>chk_type := CheckFileContentAbsent, chk_path := ''/home/lab/out'', chk_expect := ''nologin''\<rparr>)
     \<lparr>w_clock = 0, w_rest = ()\<rparr>))"
proof (rule content_absent_passes_when_unreachable)
  show "safePathRe (chk_path (blank_check\<lparr>chk_type := CheckFileContentAbsent, chk_path := ''/home/lab/out'', chk_expect := ''nologin''\<rparr>))"
    by code_simp
qed simp_all

end
