(* ===== verification/Executors.thy ===== *)
theory Executors
  imports Checker
begin

text \<open>
  The two executors of the validation engine (\<open>src/apps/validation-engine/internal/executor\<close>):
  \<open>virtctl ssh\<close> into a KubeVirt machine, and AWS Systems Manager for an EC2 machine.

  A process is given by how long it runs, its exit code, its output, what it has written to
  standard error after a time, and how long children that it leaves behind keep its output open;
  \<open>os/exec\<close> kills it at the deadline of its context. A call of the SSM
  API takes some time and fails with the error of its context when the deadline comes first. Both
  are arguments over the state of the outside world.
\<close>

section \<open>Processes\<close>

record process =
  ps_time :: nat
  ps_code :: int
  ps_stdout :: string
  ps_stderr :: "nat \<Rightarrow> string"
  ps_linger :: nat

text \<open>
  \<open>exec.CommandContext(ctx, ...).Run()\<close>: a context that is already done fails at the start; a
  process that runs over the deadline is killed, which is reported as the exit error
  \<open>signal: killed\<close> and not as the error of the context. The output is collected in buffers and
  \<open>WaitDelay\<close> is not set: in both cases \<open>Run\<close> returns only when every process that inherited the output
  has closed it. The result is the error and its text, or nothing, with the collected output.
\<close>

definition Command_Run ::
  "(string list \<Rightarrow> 'v \<Rightarrow> (string + process) \<times> 'v) \<Rightarrow> go_time \<Rightarrow> string list \<Rightarrow> 'v world \<Rightarrow>
   (exec_err option \<times> string \<times> string) \<times> 'v world" where
  "Command_Run exec ctx argv v =
     (if ctx \<le> w_clock v then ((Some (ExecErr True ''context deadline exceeded''), [], []), v)
      else
        (let (r, rest) = exec argv (w_rest v) in
         case r of
           Inl e \<Rightarrow> ((Some (ExecErr False e), [], []), v\<lparr>w_rest := rest\<rparr>)
         | Inr p \<Rightarrow>
             if w_clock v + int (ps_time p) \<le> ctx
             then ((if ps_code p = 0 then None else Some (ExecErr False (''exit status '' @ Itoa (ps_code p))),
                    ps_stdout p, ps_stderr p (ps_time p)),
                   \<lparr>w_clock = w_clock v + int (ps_time p) + int (ps_linger p), w_rest = rest\<rparr>)
             else ((Some (ExecErr False ''signal: killed''), [], ps_stderr p (nat (ctx - w_clock v))),
                   \<lparr>w_clock = ctx + int (ps_linger p), w_rest = rest\<rparr>)))"

section \<open>KubeVirt\<close>

definition defaultLabSSHUser :: string where
  "defaultLabSSHUser = ''lab''"

definition kubevirtDefaultTimeout :: duration where
  "kubevirtDefaultTimeout = 20 * second"

record KubeVirtExecutor =
  ke_vmName :: string
  ke_namespace :: string
  ke_sshUser :: string
  ke_sshKey :: string

text \<open>a KubeVirt VM needs Name and Namespace; running virtctl failed\<close>
definition txt_kubevirt_spec :: string where "txt_kubevirt_spec = utf8 [75, 117, 98, 101, 86, 105, 114, 116, 32, 86, 77, 236, 157, 128, 32, 78, 97, 109, 101, 234, 179, 188, 32, 78, 97, 109, 101, 115, 112, 97, 99, 101, 234, 176, 128, 32, 237, 149, 132, 236, 154, 148, 237, 149, 169, 235, 139, 136, 235, 139, 164]"
definition txt_virtctl_failed :: string where "txt_virtctl_failed = utf8 [118, 105, 114, 116, 99, 116, 108, 32, 236, 139, 164, 237, 150, 137, 32, 236, 139, 164, 237, 140, 168, 58, 32]"

definition newKubeVirtExecutor :: "(string \<Rightarrow> string) \<Rightarrow> VMSpec \<Rightarrow> string + KubeVirtExecutor" where
  "newKubeVirtExecutor getenv vm =
     (if vm_name vm = [] \<or> vm_namespace vm = [] then Inl txt_kubevirt_spec
      else
        (let sshUser = getenv ''LAB_SSH_USER'' in
         Inr \<lparr>ke_vmName = vm_name vm, ke_namespace = vm_namespace vm,
              ke_sshUser = (if sshUser = [] then defaultLabSSHUser else sshUser),
              ke_sshKey = getenv ''LAB_SSH_KEY''\<rparr>))"

definition virtctl_args :: "KubeVirtExecutor \<Rightarrow> string \<Rightarrow> string list" where
  "virtctl_args e cmd =
     [''ssh'', ''--username'', ke_sshUser e, ''--namespace'', ke_namespace e,
      ''--local-ssh-opts'', ''-o StrictHostKeyChecking=no'',
      ''--local-ssh-opts'', ''-o UserKnownHostsFile=/dev/null'']
     @ (if ke_sshKey e \<noteq> [] then [''--identity-file'', ke_sshKey e] else [])
     @ [''--command'', cmd, ''vmi/'' @ ke_vmName e]"

definition kubevirt_Exec ::
  "(string list \<Rightarrow> 'v \<Rightarrow> (string + process) \<times> 'v) \<Rightarrow> KubeVirtExecutor \<Rightarrow> go_time \<Rightarrow> string \<Rightarrow> 'v world \<Rightarrow>
   (exec_err + string) \<times> 'v world" where
  "kubevirt_Exec exec e ctx cmd v =
     (let ((err, stdout, stderr), v1) = Command_Run exec ctx (''virtctl'' # virtctl_args e cmd) v in
      (case err of
         Some x \<Rightarrow> Inl (ExecErr (err_deadline x)
                    (txt_virtctl_failed @ err_text x @ [CHR 0x0A] @ ''stderr: '' @ stderr))
       | None \<Rightarrow> Inr stdout, v1))"

definition kubevirt_executor ::
  "(string list \<Rightarrow> 'v \<Rightarrow> (string + process) \<times> 'v) \<Rightarrow> KubeVirtExecutor \<Rightarrow> 'v VMExecutor" where
  "kubevirt_executor exec e = \<lparr>ex_Exec = kubevirt_Exec exec e, ex_DefaultTimeout = kubevirtDefaultTimeout\<rparr>"

section \<open>EC2\<close>

definition ec2DefaultTimeout :: duration where
  "ec2DefaultTimeout = 5 * minute"

record invocation =
  iv_status :: string
  iv_stdout :: string
  iv_stderr :: string

record 'v ssm =
  ssm_SendCommand :: "string \<Rightarrow> string \<Rightarrow> 'v \<Rightarrow> (nat \<times> (string + string)) \<times> 'v"
  ssm_GetCommandInvocation :: "string \<Rightarrow> string \<Rightarrow> 'v \<Rightarrow> (nat \<times> (string + invocation)) \<times> 'v"
  ssm_ctx_text :: string

definition api_call ::
  "string \<Rightarrow> ('v \<Rightarrow> (nat \<times> (string + 'r)) \<times> 'v) \<Rightarrow> go_time \<Rightarrow> 'v world \<Rightarrow> (exec_err + 'r) \<times> 'v world" where
  "api_call ctx_text f ctx v =
     (if ctx \<le> w_clock v then (Inl (ExecErr True ctx_text), v)
      else
        (let ((d, r), rest) = f (w_rest v) in
         if w_clock v + int d < ctx
         then (case r of Inl e \<Rightarrow> Inl (ExecErr False e) | Inr x \<Rightarrow> Inr x,
               \<lparr>w_clock = w_clock v + int d, w_rest = rest\<rparr>)
         else (Inl (ExecErr True ctx_text), \<lparr>w_clock = ctx, w_rest = rest\<rparr>)))"

lemma api_call_clock:
  "api_call s f ctx v = (r, v') \<Longrightarrow> w_clock v \<le> w_clock v' \<and> (w_clock v' < ctx \<or> (\<exists>e. r = Inl e \<and> err_deadline e))"
  by (auto simp: api_call_def Let_def split: if_splits prod.splits)

text \<open>SendCommand failed; GetCommandInvocation failed; the command failed (status): stderr\<close>
definition txt_send_failed :: string where "txt_send_failed = utf8 [83, 83, 77, 32, 83, 101, 110, 100, 67, 111, 109, 109, 97, 110, 100, 32, 236, 139, 164, 237, 140, 168, 58, 32]"
definition txt_get_failed :: string where "txt_get_failed = utf8 [83, 83, 77, 32, 71, 101, 116, 67, 111, 109, 109, 97, 110, 100, 73, 110, 118, 111, 99, 97, 116, 105, 111, 110, 32, 236, 139, 164, 237, 140, 168, 58, 32]"
definition txt_ssm_failed :: string where "txt_ssm_failed = utf8 [83, 83, 77, 32, 235, 170, 133, 235, 160, 185, 32, 236, 139, 164, 237, 140, 168, 32, 40]"
definition txt_ec2_spec :: string where "txt_ec2_spec = utf8 [69, 67, 50, 32, 86, 77, 236, 157, 128, 32, 73, 110, 115, 116, 97, 110, 99, 101, 73, 68, 236, 153, 128, 32, 82, 101, 103, 105, 111, 110, 236, 157, 180, 32, 237, 149, 132, 236, 154, 148, 237, 149, 169, 235, 139, 136, 235, 139, 164]"
definition txt_aws_config :: string where "txt_aws_config = utf8 [65, 87, 83, 32, 236, 132, 164, 236, 160, 149, 32, 235, 161, 156, 235, 147, 156, 32, 236, 139, 164, 237, 140, 168, 58, 32]"

fun wrap_err :: "string \<Rightarrow> exec_err \<Rightarrow> exec_err" where
  "wrap_err what (ExecErr d m) = ExecErr d (what @ m)"

lemma err_deadline_wrap [simp]: "err_deadline (wrap_err what e) = err_deadline e"
  by (cases e) simp

text \<open>
  The polling loop. Between two polls it waits two seconds, or until the context is done when that
  comes no later.
\<close>

function ssm_poll ::
  "'v ssm \<Rightarrow> string \<Rightarrow> string \<Rightarrow> go_time \<Rightarrow> 'v world \<Rightarrow> (exec_err + string) \<times> 'v world" where
  "ssm_poll api iid cid ctx v =
     (let (r, v1) = api_call (ssm_ctx_text api) (ssm_GetCommandInvocation api cid iid) ctx v in
      case r of
        Inl e \<Rightarrow> (Inl (wrap_err txt_get_failed e), v1)
      | Inr res \<Rightarrow>
          if iv_status res = ''Success'' then (Inr (iv_stdout res), v1)
          else if iv_status res \<in> set [''Failed'', ''Cancelled'', ''TimedOut'', ''DeliveryTimedOut'']
          then (Inl (ExecErr False (txt_ssm_failed @ iv_status res @ ''): '' @ iv_stderr res)), v1)
          else if ctx \<le> w_clock v1 + 2 * second
          then (Inl (ExecErr True ''context deadline exceeded''), v1\<lparr>w_clock := max (w_clock v1) ctx\<rparr>)
          else ssm_poll api iid cid ctx (v1\<lparr>w_clock := w_clock v1 + 2 * second\<rparr>))"
  by pat_completeness auto
termination
proof (relation "measure (\<lambda>(api, iid, cid, ctx, v). nat (ctx - w_clock v))")
  fix api :: "'v ssm" and iid cid ctx v x r v1 res
  assume call: "x = api_call (ssm_ctx_text api) (ssm_GetCommandInvocation api cid iid) ctx v"
    and x: "(r, v1) = x" and more: "\<not> ctx \<le> w_clock v1 + 2 * second"
  have "w_clock v \<le> w_clock v1" using api_call_clock [of _ _ ctx v r v1] call x by simp
  with more show "((api, iid, cid, ctx, v1\<lparr>w_clock := w_clock v1 + 2 * second\<rparr>), (api, iid, cid, ctx, v))
      \<in> measure (\<lambda>(api, iid, cid, ctx, v). nat (ctx - w_clock v))"
    by (simp add: second_def)
qed simp

declare ssm_poll.simps [simp del]

definition ec2_Exec ::
  "'v ssm \<Rightarrow> string \<Rightarrow> go_time \<Rightarrow> string \<Rightarrow> 'v world \<Rightarrow> (exec_err + string) \<times> 'v world" where
  "ec2_Exec api iid ctx cmd v =
     (let (r, v1) = api_call (ssm_ctx_text api) (ssm_SendCommand api iid cmd) ctx v in
      case r of
        Inl e \<Rightarrow> (Inl (wrap_err txt_send_failed e), v1)
      | Inr cid \<Rightarrow> ssm_poll api iid cid ctx v1)"

definition ec2_executor :: "'v ssm \<Rightarrow> string \<Rightarrow> 'v VMExecutor" where
  "ec2_executor api iid = \<lparr>ex_Exec = ec2_Exec api iid, ex_DefaultTimeout = ec2DefaultTimeout\<rparr>"

section \<open>Choosing the executor\<close>

record 'v engine_env =
  en_getenv :: "string \<Rightarrow> string"
  en_exec :: "string list \<Rightarrow> 'v \<Rightarrow> (string + process) \<times> 'v"
  en_aws_config :: "string \<Rightarrow> string option"
  en_ssm :: "string \<Rightarrow> 'v ssm"

definition newEC2Executor :: "'v engine_env \<Rightarrow> VMSpec \<Rightarrow> string + 'v VMExecutor" where
  "newEC2Executor env vm =
     (if vm_instance_id vm = [] \<or> vm_region vm = [] then Inl txt_ec2_spec
      else
        (case en_aws_config env (vm_region vm) of
           Some e \<Rightarrow> Inl (txt_aws_config @ e)
         | None \<Rightarrow> Inr (ec2_executor (en_ssm env (vm_region vm)) (vm_instance_id vm))))"

text \<open>unknown VM type\<close>
definition txt_unknown_vm :: string where "txt_unknown_vm = utf8 [236, 149, 140, 32, 236, 136, 152, 32, 236, 151, 134, 235, 138, 148, 32, 86, 77, 32, 237, 131, 128, 236, 158, 133, 58, 32]"

definition executor_New :: "'v engine_env \<Rightarrow> VMSpec \<Rightarrow> string + 'v VMExecutor" where
  "executor_New env vm =
     (if vm_type vm = VMTypeKubeVirt
      then (case newKubeVirtExecutor (en_getenv env) vm of
              Inl e \<Rightarrow> Inl e
            | Inr e \<Rightarrow> Inr (kubevirt_executor (en_exec env) e))
      else if vm_type vm = VMTypeEC2 then newEC2Executor env vm
      else Inl (txt_unknown_vm @ vm_type vm))"

section \<open>Deadlines\<close>

text \<open>Nothing keeps the output of a command open for longer than \<open>grace\<close> after the command is gone.\<close>

definition pipes_close :: "(string list \<Rightarrow> 'v \<Rightarrow> (string + process) \<times> 'v) \<Rightarrow> duration \<Rightarrow> bool" where
  "pipes_close exec grace \<longleftrightarrow> 0 \<le> grace \<and> (\<forall>argv w p w'. exec argv w = (Inr p, w') \<longrightarrow> int (ps_linger p) \<le> grace)"

lemma kubevirt_timely:
  fixes exec :: "string list \<Rightarrow> 'v \<Rightarrow> (string + process) \<times> 'v"
  assumes "pipes_close exec grace"
  shows "timely_executor (kubevirt_executor exec e) grace"
proof
  fix ctx cmd and v v' :: "'v world" and r
  show "ex_Exec (kubevirt_executor exec e) ctx cmd v = (r, v') \<Longrightarrow> in_time (ctx + grace) v v'"
    using assms
    by (fastforce simp: kubevirt_executor_def kubevirt_Exec_def Command_Run_def Let_def in_time_def pipes_close_def
        split: if_splits prod.splits sum.splits)
  show "ctx \<le> w_clock v \<Longrightarrow> ex_Exec (kubevirt_executor exec e) ctx cmd v = (r, v') \<Longrightarrow> \<exists>e. r = Inl e \<and> err_deadline e"
    by (auto simp: kubevirt_executor_def kubevirt_Exec_def Command_Run_def Let_def)
qed (simp add: kubevirt_executor_def kubevirtDefaultTimeout_def second_def)

lemma api_call_in_time: "api_call s f ctx v = (r, v') \<Longrightarrow> in_time ctx v v'"
  by (auto simp: api_call_def Let_def in_time_def split: if_splits prod.splits)

lemma ssm_poll_in_time: "ssm_poll api iid cid ctx v = (r, v') \<Longrightarrow> in_time ctx v v'"
proof (induction api iid cid ctx v arbitrary: r v' rule: ssm_poll.induct)
  case (1 api iid cid ctx v)
  obtain q v1 where q: "api_call (ssm_ctx_text api) (ssm_GetCommandInvocation api cid iid) ctx v = (q, v1)"
    by fastforce
  note t = api_call_in_time [OF q]
  show ?case
  proof (cases q)
    case (Inl e)
    then show ?thesis using "1.prems" q t by (simp add: ssm_poll.simps [of api])
  next
    case (Inr res)
    then show ?thesis
      using "1.prems" [unfolded ssm_poll.simps [of api iid cid ctx v]] q t "1.IH" [OF q [symmetric] refl Inr, of r v']
      by (auto simp: in_time_def second_def split: if_splits)
  qed
qed

interpretation ssmexec: timely_executor "ec2_executor api iid" 0 for api :: "'v ssm" and iid
proof unfold_locales
  fix ctx cmd and v v' :: "'v world" and r
  show "ex_Exec (ec2_executor api iid) ctx cmd v = (r, v') \<Longrightarrow> in_time (ctx + 0) v v'"
    by (auto simp: ec2_executor_def ec2_Exec_def Let_def split: prod.splits sum.splits
        dest: api_call_in_time ssm_poll_in_time intro: in_time_trans)
  show "ctx \<le> w_clock v \<Longrightarrow> ex_Exec (ec2_executor api iid) ctx cmd v = (r, v') \<Longrightarrow> \<exists>e. r = Inl e \<and> err_deadline e"
    by (auto simp: ec2_executor_def ec2_Exec_def api_call_def)
qed (simp add: ec2_executor_def ec2DefaultTimeout_def minute_def second_def)

lemma executor_New_timely:
  assumes "executor_New env vm = Inr exe"
  shows "vm_type vm = VMTypeEC2 \<Longrightarrow> timely_executor exe 0"
    and "pipes_close (en_exec env) grace \<Longrightarrow> timely_executor exe grace"
proof -
  have ec2: "timely_executor (ec2_executor api iid) g" if "0 \<le> g" for api :: "'a ssm" and iid g
  proof
    fix ctx cmd and v v' :: "'a world" and r
    show "ex_Exec (ec2_executor api iid) ctx cmd v = (r, v') \<Longrightarrow> in_time (ctx + g) v v'"
      using ssmexec.exec_in_time [of api iid ctx cmd v r v'] that in_time_mono [of ctx v v' "ctx + g"] by simp
  qed (use ssmexec.exec_expired ssmexec.default_timeout_pos in blast)+
  show "vm_type vm = VMTypeEC2 \<Longrightarrow> timely_executor exe 0"
    using assms ec2 by (auto simp: executor_New_def newEC2Executor_def VMTypeEC2_def VMTypeKubeVirt_def split: if_splits option.splits)
  show "pipes_close (en_exec env) grace \<Longrightarrow> timely_executor exe grace"
    using assms ec2 [of grace] kubevirt_timely [of "en_exec env" grace]
    by (auto simp: executor_New_def newEC2Executor_def pipes_close_def split: if_splits sum.splits option.splits)
qed

text \<open>
  C17. The checks of a request end in time, however long commands hang or polls go on: on an EC2 machine the whole
  list of checks is finished by the deadline of the request; on a KubeVirt machine by the deadline
  and the time for which children of a killed command keep its output open, once for the whole list and not
  once for each check.
\<close>

theorem checks_finish_by_deadline:
  assumes "executor_New env vm = Inr exe" and "w_clock v \<le> ctx" and "RunAll ctx exe checks v = (r, v')"
  shows "(vm_type vm = VMTypeEC2 \<longrightarrow> w_clock v' \<le> ctx)
    \<and> (pipes_close (en_exec env) grace \<longrightarrow> w_clock v \<le> w_clock v' \<and> w_clock v' \<le> ctx + grace)"
proof -
  have "w_clock v' \<le> ctx" if "vm_type vm = VMTypeEC2"
    using timely_executor.RunAll_in_time [OF executor_New_timely(1) [OF assms(1) that] assms(3)] assms(2)
    by (simp add: in_time_def)
  moreover have "w_clock v \<le> w_clock v' \<and> w_clock v' \<le> ctx + grace" if "pipes_close (en_exec env) grace"
    using timely_executor.RunAll_in_time [OF executor_New_timely(2) [OF assms(1) that] assms(3)] assms(2) that
    by (simp add: in_time_def pipes_close_def)
  ultimately show ?thesis by blast
qed

definition hung_ssm :: "'v ssm" where
  "hung_ssm = \<lparr>ssm_SendCommand = (\<lambda>iid cmd v. ((0, Inr ''c-1''), v)),
     ssm_GetCommandInvocation = (\<lambda>cid iid v. ((0, Inr \<lparr>iv_status = ''InProgress'', iv_stdout = [], iv_stderr = []\<rparr>), v)),
     ssm_ctx_text = ''context deadline exceeded''\<rparr>"

definition hung_env :: "'v engine_env" where
  "hung_env = \<lparr>en_getenv = (\<lambda>_. []), en_exec = (\<lambda>argv v. (Inl ''not found'', v)), en_aws_config = (\<lambda>_. None),
     en_ssm = (\<lambda>_. hung_ssm)\<rparr>"

definition hung_vm :: VMSpec where
  "hung_vm = \<lparr>vm_type = ''ec2'', vm_name = [], vm_namespace = [], vm_instance_id = ''i-1'', vm_region = ''ap-northeast-2''\<rparr>"

definition file_check :: Check where
  "file_check = blank_check\<lparr>chk_type := CheckFileExists, chk_path := ''/etc/hosts''\<rparr>"

lemma hung_new: "executor_New hung_env hung_vm = Inr (ec2_executor hung_ssm ''i-1'')"
  by (simp add: executor_New_def newEC2Executor_def hung_env_def hung_vm_def VMTypeKubeVirt_def VMTypeEC2_def)

text \<open>A \<open>virtctl\<close> that hangs for a minute and leaves an \<open>ssh\<close> behind that holds its output for two seconds more.\<close>

definition hung_process :: process where
  "hung_process = \<lparr>ps_time = nat (60 * second), ps_code = 0, ps_stdout = [], ps_stderr = (\<lambda>_. []), ps_linger = nat (2 * second)\<rparr>"

definition stuck_env :: "unit engine_env" where
  "stuck_env = hung_env\<lparr>en_exec := (\<lambda>argv v. (Inr hung_process, v))\<rparr>"

definition lab_vm :: VMSpec where
  "lab_vm = \<lparr>vm_type = ''kubevirt'', vm_name = ''session-vm'', vm_namespace = ''lab-1'', vm_instance_id = [], vm_region = []\<rparr>"

theorem checks_finish_by_deadline_witness:
  "(\<exists>r v'. RunAll (300 * second) (ec2_executor hung_ssm ''i-1'') [file_check, file_check] \<lparr>w_clock = 0, w_rest = ()\<rparr> = (r, v')
     \<and> w_clock v' \<le> 300 * second)
   \<and> (\<exists>exe r v'. executor_New stuck_env lab_vm = Inr exe
     \<and> RunAll (30 * second) exe [file_check, file_check] \<lparr>w_clock = 0, w_rest = ()\<rparr> = (r, v')
     \<and> w_clock v' \<le> 32 * second)"
proof
  obtain r v' where run: "RunAll (300 * second) (ec2_executor hung_ssm ''i-1'') [file_check, file_check] \<lparr>w_clock = 0, w_rest = ()\<rparr> = (r, v')"
    by fastforce
  then show "\<exists>r v'. RunAll (300 * second) (ec2_executor hung_ssm ''i-1'') [file_check, file_check] \<lparr>w_clock = 0, w_rest = ()\<rparr> = (r, v')
     \<and> w_clock v' \<le> 300 * second"
    using checks_finish_by_deadline [OF hung_new _ run] by (auto simp: second_def hung_vm_def VMTypeEC2_def)
next
  obtain exe where new: "executor_New stuck_env lab_vm = Inr exe"
    by (simp add: executor_New_def newKubeVirtExecutor_def lab_vm_def VMTypeKubeVirt_def Let_def)
  obtain r v' where run: "RunAll (30 * second) exe [file_check, file_check] \<lparr>w_clock = 0, w_rest = ()\<rparr> = (r, v')" by fastforce
  have "pipes_close (en_exec stuck_env) (2 * second)"
    by (simp add: pipes_close_def stuck_env_def hung_process_def second_def)
  then have "w_clock v' \<le> 30 * second + 2 * second"
    using checks_finish_by_deadline [OF new _ run, of "2 * second"] by (simp add: second_def)
  then show "\<exists>exe r v'. executor_New stuck_env lab_vm = Inr exe
     \<and> RunAll (30 * second) exe [file_check, file_check] \<lparr>w_clock = 0, w_rest = ()\<rparr> = (r, v')
     \<and> w_clock v' \<le> 32 * second"
    using new run by (auto simp: second_def)
qed

text \<open>
  The grace is not an artefact: a command on a KubeVirt machine that is killed at the deadline returns
  only when the processes it left behind close its output, and nothing bounds this time.
\<close>

theorem killed_command_waits_for_pipes:
  assumes "exec (''virtctl'' # virtctl_args e cmd) (w_rest v) = (Inr p, rest)"
    and "w_clock v < ctx" and "ctx < w_clock v + int (ps_time p)"
  shows "w_clock (snd (kubevirt_Exec exec e ctx cmd v)) = ctx + int (ps_linger p)"
  using assms by (simp add: kubevirt_Exec_def Command_Run_def)

text \<open>A command that never finishes keeps the executor until the deadline.\<close>

lemma ssm_poll_hung:
  "w_clock v < ctx \<Longrightarrow> \<exists>e v'. ssm_poll hung_ssm iid cid ctx v = (Inl e, v') \<and> err_deadline e \<and> w_clock v' = ctx"
proof (induction "nat (ctx - w_clock v)" arbitrary: v rule: less_induct)
  case less
  have call: "api_call (ssm_ctx_text hung_ssm) (ssm_GetCommandInvocation hung_ssm cid iid) ctx v
      = (Inr \<lparr>iv_status = ''InProgress'', iv_stdout = [], iv_stderr = []\<rparr>, v)"
    using less.prems by (simp add: api_call_def hung_ssm_def)
  show ?case
  proof (cases "ctx \<le> w_clock v + 2 * second")
    case True
    then show ?thesis using less.prems by (simp add: ssm_poll.simps [of hung_ssm iid cid ctx v] call)
  next
    case False
    then show ?thesis
      using less.hyps [of "v\<lparr>w_clock := w_clock v + 2 * second\<rparr>"] less.prems
      by (simp add: ssm_poll.simps [of hung_ssm iid cid ctx v] call second_def)
  qed
qed

text \<open>
  A KubeVirt machine that does not answer is never reported as such: when \<open>virtctl\<close> runs into the
  deadline it is killed, the error is an exit error and not that of the context, and the checker
  takes it for an answer of the machine. A \<open>file_exists\<close> check is then failed in the learner's name
  instead of a \<open>request_error\<close>, and a \<open>file_content_absent\<close> check even passes.
\<close>

theorem kubevirt_timeout_taken_for_answer:
  assumes "exec (''virtctl'' # virtctl_args e (''test -'' @ m @ '' '' @ chk_path check)) (w_rest v) = (Inr p, rest)"
    and "w_clock v < ctx" and "ctx \<le> w_clock v + kubevirtDefaultTimeout" and "ctx < w_clock v + int (ps_time p)"
    and "safePathRe (chk_path check)" and "chk_timeout check = 0"
  shows "(m = ''f'' \<longrightarrow> chk_type check = CheckFileExists \<longrightarrow>
      fst (run_check ctx (kubevirt_executor exec e) check v) = chk_fail CheckFileExists (txt_no_file @ chk_path check))
    \<and> (m = ''e'' \<longrightarrow> chk_type check = CheckFileContentAbsent \<longrightarrow> chk_expect check \<noteq> [] \<longrightarrow>
      cr_passed (fst (run_check ctx (kubevirt_executor exec e) check v)))"
proof -
  have ctx: "min ctx (w_clock v + check_timeout (kubevirt_executor exec e) check) = ctx"
    using assms(3,6) by (simp add: check_timeout_def kubevirt_executor_def)
  have killed: "\<exists>x v'. ex_Exec (kubevirt_executor exec e) ctx (''test -'' @ m @ '' '' @ chk_path check) v = (Inl x, v')
      \<and> \<not> err_deadline x"
    using assms(1,2,4) by (simp add: kubevirt_executor_def kubevirt_Exec_def Command_Run_def del: append.simps)
  then obtain x v' where x: "ex_Exec (kubevirt_executor exec e) ctx (''test -'' @ m @ '' '' @ chk_path check) v = (Inl x, v')"
    "\<not> err_deadline x" by blast
  show ?thesis
    using x assms(5)
    by (auto simp: run_check_def ctx dispatch_check_def runFileExists_def runFileContentAbsent_def check_types chk_pass_def)
qed

theorem kubevirt_timeout_taken_for_answer_witness:
  "cr_passed (fst (run_check (20 * second)
      (kubevirt_executor (\<lambda>argv v. (Inr hung_process, v)) \<lparr>ke_vmName = ''session-vm'', ke_namespace = ''lab-1'', ke_sshUser = ''lab'', ke_sshKey = []\<rparr>)
      (blank_check\<lparr>chk_type := CheckFileContentAbsent, chk_path := ''/etc/hosts'', chk_expect := ''x''\<rparr>)
      \<lparr>w_clock = 0, w_rest = ()\<rparr>))"
proof -
  have "safePathRe ''/etc/hosts''" by code_simp
  then show ?thesis
    using kubevirt_timeout_taken_for_answer [of "\<lambda>argv v. (Inr hung_process, v)"
        "\<lparr>ke_vmName = ''session-vm'', ke_namespace = ''lab-1'', ke_sshUser = ''lab'', ke_sshKey = []\<rparr>" "''e''"
        "blank_check\<lparr>chk_type := CheckFileContentAbsent, chk_path := ''/etc/hosts'', chk_expect := ''x''\<rparr>"
        "\<lparr>w_clock = 0, w_rest = ()\<rparr>" hung_process "()" "20 * second"]
    by (simp add: second_def hung_process_def kubevirtDefaultTimeout_def blank_check_def)
qed

end
