(* ===== verification/Engine.thy ===== *)
theory Engine
  imports Executors
begin

text \<open>
  The validation engine: validation of requests and the message handler of
  \<open>src/apps/validation-engine/cmd/engine/main.go\<close>, the producer of \<open>internal/producer/producer.go\<close>
  and the consumer loop with its dead letter queue of \<open>internal/consumer\<close>.

  Kafka is outside: writing a message, committing an offset and the sequence of fetch results are
  arguments, as is the JSON encoding. Spans and log lines are left out, but whether a message ended
  in the dead letter queue or only in the log is a result of \<open>publishToDLQ\<close>.
\<close>

section \<open>Validation of requests\<close>

definition maxChecks :: nat where
  "maxChecks = 20"

text \<open>a field is empty, with the particle of its name; what to give instead\<close>
definition txt_is_empty_i :: string where "txt_is_empty_i = utf8 [236, 157, 180, 32, 235, 185, 132, 236, 150, 180, 236, 158, 136, 236, 157, 140]"
definition txt_say_expected :: string where "txt_say_expected = utf8 [32, 226, 128, 148, 32, 237, 140, 140, 236, 157, 188, 236, 151, 144, 236, 132, 156, 32, 236, 176, 190, 236, 157, 132, 32, 235, 172, 184, 236, 158, 144, 236, 151, 180, 236, 157, 132, 32, 236, 167, 128, 236, 160, 149, 237, 149, 180, 236, 149, 188, 32, 237, 149, 169, 235, 139, 136, 235, 139, 164]"
definition txt_say_absent :: string where "txt_say_absent = utf8 [32, 226, 128, 148, 32, 237, 140, 140, 236, 157, 188, 236, 151, 144, 32, 236, 151, 134, 236, 150, 180, 236, 149, 188, 32, 237, 149, 160, 32, 235, 172, 184, 236, 158, 144, 236, 151, 180, 236, 157, 132, 32, 236, 167, 128, 236, 160, 149, 237, 149, 180, 236, 149, 188, 32, 237, 149, 169, 235, 139, 136, 235, 139, 164]"
definition txt_say_code :: string where "txt_say_code = utf8 [32, 226, 128, 148, 32, 234, 184, 176, 235, 140, 128, 237, 149, 152, 235, 138, 148, 32, 72, 84, 84, 80, 32, 236, 131, 129, 237, 131, 156, 236, 189, 148, 235, 147, 156, 235, 165, 188, 32, 236, 167, 128, 236, 160, 149, 237, 149, 180, 236, 149, 188, 32, 237, 149, 169, 235, 139, 136, 235, 139, 164]"

definition validateCheck :: "Check \<Rightarrow> string option" where
  "validateCheck c =
     (if chk_type c = CheckCommand
      then (if chk_command c = [] then Some (''cmd'' @ txt_is_empty) else None)
      else if chk_type c \<in> set [CheckFileExists, CheckDirExists, CheckFileAbsent]
      then (if chk_path c = [] then Some (''path'' @ txt_is_empty) else None)
      else if chk_type c = CheckFileContent
      then (if chk_path c = [] then Some (''path'' @ txt_is_empty)
            else if chk_expect c = [] then Some (''expect'' @ txt_is_empty @ txt_say_expected) else None)
      else if chk_type c = CheckFileContentAbsent
      then (if chk_path c = [] then Some (''path'' @ txt_is_empty)
            else if chk_expect c = [] then Some (''expect'' @ txt_is_empty @ txt_say_absent) else None)
      else if chk_type c = CheckProcessRunning
      then (if chk_name c = [] then Some (''name'' @ txt_is_empty_i) else None)
      else if chk_type c = CheckHTTPResponse
      then (if chk_url c = [] then Some (''url'' @ txt_is_empty_i)
            else if chk_expect_code c = 0 then Some (txt_code_zero @ txt_say_code) else None)
      else Some (txt_unknown_type @ chk_type c))"

fun check_errors :: "nat \<Rightarrow> Check list \<Rightarrow> string option" where
  "check_errors i [] = None"
| "check_errors i (c # cs) =
     (case validateCheck c of
        Some e \<Rightarrow> Some (''checks['' @ Itoa (int i) @ ''] ('' @ chk_type c @ ''): '' @ e)
      | None \<Rightarrow> check_errors (Suc i) cs)"

text \<open>\<open>step_id\<close> is not valid; too many checks\<close>
definition txt_bad_step :: string where "txt_bad_step = ''step_id'' @ utf8 [234, 176, 128, 32, 236, 156, 160, 237, 154, 168, 237, 149, 152, 236, 167, 128, 32, 236, 149, 138, 236, 157, 140, 58, 32]"
definition txt_too_many :: string where "txt_too_many = utf8 [236, 178, 180, 237, 129, 172, 32, 236, 136, 152, 32, 236, 180, 136, 234, 179, 188, 58, 32]"

definition request_error :: "ValidationRequest \<Rightarrow> string option" where
  "request_error req =
     (if vq_session_id req = [] then Some (''session_id'' @ txt_is_empty)
      else if vq_step_id req \<le> 0 then Some (txt_bad_step @ Itoa (vq_step_id req))
      else if length (vq_checks req) = 0 then Some (''checks'' @ txt_is_empty)
      else if length (vq_checks req) > maxChecks
      then Some (txt_too_many @ Itoa (int (length (vq_checks req))) @ '' > '' @ Itoa (int maxChecks))
      else check_errors 0 (vq_checks req))"

section \<open>The message handler\<close>

datatype handler_err = FatalError string | OtherError string

definition millis :: "go_time \<Rightarrow> 'v world \<Rightarrow> int" where
  "millis start v = (w_clock v - start) div 1000000"

definition failed_result :: "go_time \<Rightarrow> ValidationRequest \<Rightarrow> string \<Rightarrow> 'v world \<Rightarrow> ValidationResult" where
  "failed_result start req reason v =
     \<lparr>vr_trace_id = vq_trace_id req, vr_session_id = vq_session_id req, vr_step_id = vq_step_id req,
      vr_passed = False,
      vr_checks = [\<lparr>cr_type = CheckRequestError, cr_passed = False, cr_detail = reason\<rparr>],
      vr_duration_ms = millis start v\<rparr>"

type_synonym 'v publisher = "go_time \<Rightarrow> ValidationResult \<Rightarrow> 'v world \<Rightarrow> string option \<times> 'v world"

definition publish_or_fatal ::
  "'v publisher \<Rightarrow> go_time \<Rightarrow> ValidationResult \<Rightarrow> 'v world \<Rightarrow> handler_err option \<times> 'v world" where
  "publish_or_fatal pub ctx result v =
     (let (e, v1) = pub ctx result v in (map_option FatalError e, v1))"

definition handle ::
  "'v publisher \<Rightarrow> (VMSpec \<Rightarrow> string + 'v VMExecutor) \<Rightarrow> go_time \<Rightarrow> ValidationRequest \<Rightarrow> 'v world \<Rightarrow>
   handler_err option \<times> 'v world" where
  "handle pub newExec ctx req v =
     (let start = w_clock v;
          publishFailed = (\<lambda>reason. publish_or_fatal pub ctx (failed_result start req reason v) v)
      in case request_error req of
           Some reason \<Rightarrow> publishFailed reason
         | None \<Rightarrow>
             (case newExec (vq_vm req) of
                Inl e \<Rightarrow> publishFailed e
              | Inr exe \<Rightarrow>
                  (let ((results, allPassed), v1) = RunAll ctx exe (vq_checks req) v
                   in publish_or_fatal pub ctx
                        \<lparr>vr_trace_id = vq_trace_id req, vr_session_id = vq_session_id req,
                         vr_step_id = vq_step_id req, vr_passed = allPassed, vr_checks = results,
                         vr_duration_ms = millis start v1\<rparr> v1)))"

section \<open>The producer\<close>

record kmsg =
  km_key :: string
  km_value :: string

text \<open>JSON encoding failed; publishing the message failed\<close>
definition txt_json_failed :: string where "txt_json_failed = utf8 [74, 83, 79, 78, 32, 235, 179, 128, 237, 153, 152, 32, 236, 139, 164, 237, 140, 168, 58, 32]"
definition txt_publish_failed :: string where "txt_publish_failed = utf8 [235, 169, 148, 236, 139, 156, 236, 167, 128, 32, 235, 176, 156, 237, 150, 137, 32, 236, 139, 164, 237, 140, 168, 58, 32]"

definition Publish ::
  "(ValidationResult \<Rightarrow> string + string) \<Rightarrow> (go_time \<Rightarrow> kmsg \<Rightarrow> 'v world \<Rightarrow> string option \<times> 'v world) \<Rightarrow> 'v publisher" where
  "Publish marshal write ctx result v =
     (case marshal result of
        Inl e \<Rightarrow> (Some (txt_json_failed @ e), v)
      | Inr data \<Rightarrow>
          (let (e, v1) = write ctx \<lparr>km_key = vr_session_id result, km_value = data\<rparr> v
           in (map_option (\<lambda>e. txt_publish_failed @ e) e, v1)))"

section \<open>The consumer\<close>

definition handlerTimeout :: duration where
  "handlerTimeout = 5 * minute"

definition dlqMaxRetries :: nat where
  "dlqMaxRetries = 3"

definition dlqRetryInterval :: duration where
  "dlqRetryInterval = 500000000"

definition dlqWriteTimeout :: duration where
  "dlqWriteTimeout = 3 * second"

record 'v Consumer =
  co_commit :: "kmsg \<Rightarrow> 'v world \<Rightarrow> string option \<times> 'v world"
  co_dlq_write :: "go_time \<Rightarrow> kmsg \<Rightarrow> 'v world \<Rightarrow> string option \<times> 'v world"
  co_unmarshal :: "string \<Rightarrow> ValidationRequest option"

definition sleep :: "duration \<Rightarrow> 'v world \<Rightarrow> 'v world" where
  "sleep d v = v\<lparr>w_clock := w_clock v + d\<rparr>"

text \<open>The loop counts up to \<open>dlqMaxRetries\<close>; the first argument is the number of attempts left.\<close>

fun dlq_attempts :: "nat \<Rightarrow> 'v Consumer \<Rightarrow> kmsg \<Rightarrow> 'v world \<Rightarrow> bool \<times> 'v world" where
  "dlq_attempts 0 c msg v = (False, v)"
| "dlq_attempts (Suc n) c msg v =
     (let (e, v1) = co_dlq_write c (w_clock v + dlqWriteTimeout) \<lparr>km_key = km_key msg, km_value = km_value msg\<rparr> v in
      case e of
        None \<Rightarrow> (True, v1)
      | Some _ \<Rightarrow> dlq_attempts n c msg (if n > 0 then sleep dlqRetryInterval v1 else v1))"

definition publishToDLQ :: "'v Consumer \<Rightarrow> kmsg \<Rightarrow> 'v world \<Rightarrow> bool \<times> 'v world" where
  "publishToDLQ c msg v = dlq_attempts dlqMaxRetries c msg v"

text \<open>An error of the commit is only logged.\<close>

definition commit :: "'v Consumer \<Rightarrow> kmsg \<Rightarrow> 'v world \<Rightarrow> 'v world" where
  "commit c msg v = snd (co_commit c msg v)"

text \<open>infrastructure error, retry after a restart of the pod; reading a message failed\<close>
definition txt_infra :: string where "txt_infra = utf8 [236, 157, 184, 237, 148, 132, 235, 157, 188, 32, 236, 152, 164, 235, 165, 152, 32, 226, 128, 148, 32, 237, 140, 140, 235, 147, 156, 32, 236, 158, 172, 236, 139, 156, 236, 158, 145, 32, 237, 155, 132, 32, 236, 158, 172, 236, 139, 156, 235, 143, 132, 58, 32]"
definition txt_fetch_failed :: string where "txt_fetch_failed = utf8 [235, 169, 148, 236, 139, 156, 236, 167, 128, 32, 236, 157, 189, 234, 184, 176, 32, 236, 139, 164, 237, 140, 168, 58, 32]"

text \<open>One turn of the loop on a fetched message: \<open>Some\<close> error ends the consumer.\<close>

definition consume ::
  "'v Consumer \<Rightarrow> (go_time \<Rightarrow> ValidationRequest \<Rightarrow> 'v world \<Rightarrow> handler_err option \<times> 'v world) \<Rightarrow>
   kmsg \<Rightarrow> 'v world \<Rightarrow> string option \<times> 'v world" where
  "consume c handler msg v =
     (case co_unmarshal c (km_value msg) of
        None \<Rightarrow> (None, commit c msg (snd (publishToDLQ c msg v)))
      | Some req \<Rightarrow>
          (let (err, v1) = handler (w_clock v + handlerTimeout) req v in
           case err of
             Some (FatalError e) \<Rightarrow> (Some (txt_infra @ e), v1)
           | Some (OtherError _) \<Rightarrow> (None, commit c msg (snd (publishToDLQ c msg v1)))
           | None \<Rightarrow> (None, commit c msg v1)))"

datatype fetch = Fetched kmsg | FetchError string | Cancelled

datatype run_result = Waiting | Stopped | RunError string

text \<open>
  The loop over what \<open>FetchMessage\<close> returns, call by call; at the end of the list the consumer is
  still waiting for a message.
\<close>

fun consumer_Run ::
  "'v Consumer \<Rightarrow> (go_time \<Rightarrow> ValidationRequest \<Rightarrow> 'v world \<Rightarrow> handler_err option \<times> 'v world) \<Rightarrow>
   fetch list \<Rightarrow> 'v world \<Rightarrow> run_result \<times> 'v world" where
  "consumer_Run c handler [] v = (Waiting, v)"
| "consumer_Run c handler (Cancelled # fs) v = (Stopped, v)"
| "consumer_Run c handler (FetchError e # fs) v = (RunError (txt_fetch_failed @ e), v)"
| "consumer_Run c handler (Fetched msg # fs) v =
     (let (err, v1) = consume c handler msg v in
      case err of
        Some e \<Rightarrow> (RunError e, v1)
      | None \<Rightarrow> consumer_Run c handler fs v1)"

section \<open>The handler answers every request or ends the engine\<close>

lemma handle_never_other: "fst (handle pub newExec ctx req v) \<noteq> Some (OtherError e)"
  by (auto simp: handle_def publish_or_fatal_def Let_def split: option.splits sum.splits prod.splits)

text \<open>
  \<open>verdict\<close> is the result that \<open>handle\<close> publishes, with the state in which it does.
\<close>

definition verdict ::
  "(VMSpec \<Rightarrow> string + 'v VMExecutor) \<Rightarrow> go_time \<Rightarrow> ValidationRequest \<Rightarrow> 'v world \<Rightarrow> ValidationResult \<times> 'v world" where
  "verdict newExec ctx req v =
     (case request_error req of
        Some reason \<Rightarrow> (failed_result (w_clock v) req reason v, v)
      | None \<Rightarrow>
          (case newExec (vq_vm req) of
             Inl e \<Rightarrow> (failed_result (w_clock v) req e v, v)
           | Inr exe \<Rightarrow>
               (let ((results, allPassed), v1) = RunAll ctx exe (vq_checks req) v
                in (\<lparr>vr_trace_id = vq_trace_id req, vr_session_id = vq_session_id req,
                     vr_step_id = vq_step_id req, vr_passed = allPassed, vr_checks = results,
                     vr_duration_ms = millis (w_clock v) v1\<rparr>, v1))))"

lemma handle_verdict:
  "handle pub newExec ctx req v =
     (let (result, v1) = verdict newExec ctx req v; (e, v2) = pub ctx result v1 in (map_option FatalError e, v2))"
  by (simp add: handle_def verdict_def publish_or_fatal_def Let_def split: option.split sum.split prod.split)

lemma verdict_ids:
  "verdict newExec ctx req v = (result, v') \<Longrightarrow>
   vr_trace_id result = vq_trace_id req \<and> vr_session_id result = vq_session_id req \<and> vr_step_id result = vq_step_id req"
  by (auto simp: verdict_def failed_result_def Let_def split: option.splits sum.splits prod.splits)

lemma check_errors_None: "check_errors i cs = None \<longleftrightarrow> (\<forall>c\<in>set cs. validateCheck c = None)"
  by (induction i cs rule: check_errors.induct) (auto split: option.split)

lemma request_error_None:
  "request_error req = None \<longleftrightarrow>
     vq_session_id req \<noteq> [] \<and> 0 < vq_step_id req \<and> vq_checks req \<noteq> [] \<and> length (vq_checks req) \<le> maxChecks
     \<and> (\<forall>c\<in>set (vq_checks req). validateCheck c = None)"
  by (auto simp: request_error_def check_errors_None)

lemma verdict_passed:
  assumes "verdict newExec ctx req v = (result, v')" and "vr_passed result"
  shows "request_error req = None \<and> (\<exists>exe results. newExec (vq_vm req) = Inr exe
         \<and> RunAll ctx exe (vq_checks req) v = ((results, True), v') \<and> vr_checks result = results
         \<and> length results = length (vq_checks req) \<and> list_all cr_passed results)"
proof -
  have ok: "request_error req = None"
    using assms by (auto simp: verdict_def failed_result_def split: option.splits)
  then obtain exe where exe: "newExec (vq_vm req) = Inr exe"
    using assms by (auto simp: verdict_def failed_result_def split: sum.splits)
  obtain results b v1 where run: "RunAll ctx exe (vq_checks req) v = ((results, b), v1)"
    by (metis surj_pair)
  with assms ok exe have "b" "v' = v1" "vr_checks result = results" by (auto simp: verdict_def)
  then show ?thesis using ok exe run RunAll_verdict [OF run] by simp
qed

end
