(* ===== verification/Json_Text.thy ===== *)
theory Json_Text
  imports Decimal
begin

text \<open>
  JSON as text, the way Go's \<open>encoding/json\<close> writes and reads it: both processes and the database
  exchange their values in this form. \<open>Marshal\<close> writes no white space and escapes quotes, backslashes,
  control characters, the characters special to HTML and the two Unicode line separators;
  \<open>Unmarshal\<close> accepts any white space and every escape. Strings are bytes; both directions replace every
  byte that is not part of a valid UTF-8 sequence by the replacement character U+FFFD. Numbers are
  integers: neither process writes fractions or exponents.
\<close>

section \<open>UTF-8\<close>

text \<open>The UTF-8 encoding of a code point.\<close>

definition utf8_of :: "nat \<Rightarrow> string" where
  "utf8_of n =
     map char_of
       (if n < 128 then [n]
        else if n < 2048 then [192 + n div 64, 128 + n mod 64]
        else if n < 65536 then [224 + n div 4096, 128 + n div 64 mod 64, 128 + n mod 64]
        else [240 + n div 262144, 128 + n div 4096 mod 64, 128 + n div 64 mod 64, 128 + n mod 64])"

definition byte_in :: "nat \<Rightarrow> nat \<Rightarrow> char \<Rightarrow> bool" where
  "byte_in lo hi c \<longleftrightarrow> lo \<le> of_char c \<and> of_char c \<le> hi"

text \<open>
  The length of the sequence that starts the string, 0 when it is not valid: \<open>utf8.DecodeRune\<close>. The first
  byte gives the length and the range of the second; overlong forms, surrogates and code points above
  10FFFF are excluded by that range.
\<close>

definition second_range :: "nat \<Rightarrow> (nat \<times> nat \<times> nat) option" where
  "second_range b =
     (if b < 194 then None
      else if b \<le> 223 then Some (2, 128, 191)
      else if b = 224 then Some (3, 160, 191)
      else if b = 237 then Some (3, 128, 159)
      else if b \<le> 239 then Some (3, 128, 191)
      else if b = 240 then Some (4, 144, 191)
      else if b \<le> 243 then Some (4, 128, 191)
      else if b = 244 then Some (4, 128, 143)
      else None)"

definition rune_len :: "string \<Rightarrow> nat" where
  "rune_len s =
     (case s of
        [] \<Rightarrow> 0
      | c # t \<Rightarrow>
          if (of_char c :: nat) < 128 then 1
          else (case (second_range (of_char c), t) of
                  (Some (n, lo, hi), d # u) \<Rightarrow>
                    if byte_in lo hi d \<and> n - 2 \<le> length u \<and> list_all (byte_in 128 191) (take (n - 2) u) then n else 0
                | _ \<Rightarrow> 0))"

definition replacement :: string where "replacement = [CHR 0xEF, CHR 0xBF, CHR 0xBD]"

fun valid_utf8 :: "string \<Rightarrow> bool" where
  "valid_utf8 [] \<longleftrightarrow> True"
| "valid_utf8 (c # s) \<longleftrightarrow> rune_len (c # s) \<noteq> 0 \<and> valid_utf8 (drop (rune_len (c # s) - 1) s)"

text \<open>The string with every byte outside a valid sequence replaced.\<close>

fun coerce :: "string \<Rightarrow> string" where
  "coerce [] = []"
| "coerce (c # s) =
     (if rune_len (c # s) = 0 then replacement @ coerce s
      else take (rune_len (c # s)) (c # s) @ coerce (drop (rune_len (c # s) - 1) s))"

lemma second_range_size: "second_range b = Some (n, lo, hi) \<Longrightarrow> 2 \<le> n \<and> 128 \<le> lo \<and> hi \<le> 191"
  by (auto simp: second_range_def split: if_splits)

lemma rune_len_le: "rune_len s \<le> length s"
  by (auto simp: rune_len_def dest: second_range_size split: list.split option.split)

lemma rune_len_ascii [simp]: "(of_char c :: nat) < 128 \<Longrightarrow> rune_len (c # s) = 1"
  by (simp add: rune_len_def)

lemma rune_len_long:
  assumes "rune_len (c # t) = n" "0 < n" "128 \<le> (of_char c :: nat)"
  obtains lo hi d u k where "second_range (of_char c) = Some (n, lo, hi)" "t = d # u" "byte_in lo hi d" "n = Suc (Suc k)"
    "k \<le> length u" "list_all (byte_in 128 191) (take k u)"
proof -
  obtain m lo hi where r: "second_range (of_char c) = Some (m, lo, hi)"
    using assms by (cases "second_range (of_char c)") (auto simp: rune_len_def)
  obtain d u where t: "t = d # u" using assms r by (cases t) (auto simp: rune_len_def)
  have m: "2 \<le> m" using second_range_size [OF r] by simp
  have "rune_len (c # t) =
    (if byte_in lo hi d \<and> m - 2 \<le> length u \<and> list_all (byte_in 128 191) (take (m - 2) u) then m else 0)"
    using assms(3) r t by (simp add: rune_len_def)
  then have n: "n = m" "byte_in lo hi d" "m - 2 \<le> length u" "list_all (byte_in 128 191) (take (m - 2) u)"
    using assms(1,2) by (auto split: if_splits)
  show ?thesis by (rule that [of lo hi d u "m - 2"]) (use n r t m in simp_all)
qed

lemma rune_len_prefix: "rune_len s = n \<Longrightarrow> 0 < n \<Longrightarrow> rune_len (take n s @ t) = n"
proof (cases s)
  case (Cons c r)
  assume n: "rune_len s = n" "0 < n"
  show ?thesis
  proof (cases "(of_char c :: nat) < 128")
    case True
    then show ?thesis using n Cons by auto
  next
    case False
    from n Cons have "rune_len (c # r) = n" by simp
    then obtain lo hi d u k where
      "second_range (of_char c) = Some (n, lo, hi)" "r = d # u" "byte_in lo hi d" "n = Suc (Suc k)"
      "k \<le> length u" "list_all (byte_in 128 191) (take k u)"
      by (rule rune_len_long) (use n False in simp_all)
    then show ?thesis using False Cons by (simp add: rune_len_def)
  qed
qed (simp add: rune_len_def)

lemma valid_coerce: "valid_utf8 s \<Longrightarrow> coerce s = s"
proof (induction s rule: valid_utf8.induct)
  case (2 c s)
  then have "0 < rune_len (c # s)" "coerce (drop (rune_len (c # s) - 1) s) = drop (rune_len (c # s) - 1) s" by simp_all
  then show ?case by (simp add: take_Cons')
qed simp

lemma valid_append_rune: "rune_len x = length x \<Longrightarrow> x \<noteq> [] \<Longrightarrow> valid_utf8 t \<Longrightarrow> valid_utf8 (x @ t)"
  using rune_len_prefix [of x "length x" t] by (cases x) simp_all

lemma valid_coerced: "valid_utf8 (coerce s)"
proof (induction s rule: coerce.induct)
  case (2 c s)
  let ?n = "rune_len (c # s)"
  show ?case
  proof (cases "?n = 0")
    case True
    have "rune_len replacement = length replacement" by code_simp
    then have "valid_utf8 (replacement @ coerce s)"
      using 2(1) True by (intro valid_append_rune) (simp_all add: replacement_def)
    then show ?thesis using True by simp
  next
    case False
    have "length (take ?n (c # s)) = ?n" using rune_len_le [of "c # s"] by simp
    then have "rune_len (take ?n (c # s)) = length (take ?n (c # s))" "take ?n (c # s) \<noteq> []"
      using rune_len_prefix [of "c # s" ?n "[]"] False by auto
    then show ?thesis using 2 False valid_append_rune by simp
  qed
qed simp

lemma coerce_idem: "coerce (coerce s) = coerce s"
  by (simp add: valid_coerce valid_coerced)

section \<open>Writing\<close>

definition hex_lower :: string where "hex_lower = ''0123456789abcdef''"

definition hex4 :: "nat \<Rightarrow> string" where
  "hex4 n = [hex_lower ! (n div 4096 mod 16), hex_lower ! (n div 256 mod 16), hex_lower ! (n div 16 mod 16), hex_lower ! (n mod 16)]"

definition u_escape :: "nat \<Rightarrow> string" where
  "u_escape n = CHR 0x5C # CHR ''u'' # hex4 n"

text \<open>One ASCII character.\<close>

definition escape_char :: "char \<Rightarrow> string" where
  "escape_char c =
     (if c = CHR 0x22 \<or> c = CHR 0x5C then [CHR 0x5C, c]
      else if c = CHR 0x08 then CHR 0x5C # ''b''
      else if c = CHR 0x0C then CHR 0x5C # ''f''
      else if c = CHR 0x0A then CHR 0x5C # ''n''
      else if c = CHR 0x0D then CHR 0x5C # ''r''
      else if c = CHR 0x09 then CHR 0x5C # ''t''
      else if (of_char c :: nat) < 32 \<or> c = CHR ''<'' \<or> c = CHR ''>'' \<or> c = CHR ''&'' then u_escape (of_char c)
      else [c])"

text \<open>U+2028 and U+2029 are the bytes E2 80 A8 and E2 80 A9.\<close>

definition escape_rune :: "string \<Rightarrow> string" where
  "escape_rune x =
     (if x = [CHR 0xE2, CHR 0x80, CHR 0xA8] then u_escape 8232
      else if x = [CHR 0xE2, CHR 0x80, CHR 0xA9] then u_escape 8233
      else x)"

fun escape :: "string \<Rightarrow> string" where
  "escape [] = []"
| "escape (c # s) =
     (if (of_char c :: nat) < 128 then escape_char c @ escape s
      else if rune_len (c # s) = 0 then u_escape 65533 @ escape s
      else escape_rune (take (rune_len (c # s)) (c # s)) @ escape (drop (rune_len (c # s) - 1) s))"

definition quote :: "string \<Rightarrow> string" where
  "quote s = CHR 0x22 # escape s @ [CHR 0x22]"

fun commas :: "string list \<Rightarrow> string" where
  "commas [] = []"
| "commas [x] = x"
| "commas (x # y # ys) = x @ '','' @ commas (y # ys)"

text \<open>A time in the format RFC 3339 with nanoseconds: the fraction without its trailing zeros.\<close>

definition nine_digits :: "int \<Rightarrow> string" where
  "nine_digits n = map (\<lambda>k. dec_digit (n div 10 ^ k)) (rev [0..<9])"

definition fraction :: "go_time \<Rightarrow> string" where
  "fraction t =
     (if t mod second = 0 then []
      else CHR ''.'' # rev (dropWhile (\<lambda>c. c = CHR ''0'') (rev (nine_digits (t mod second)))))"

definition render_nano :: "go_time \<Rightarrow> string" where
  "render_nano t = butlast (render_rfc3339 t) @ fraction t @ ''Z''"

lemma render_nano_example: "render_nano (951782400 * second + 120000000) = ''2000-02-29T00:00:00.12Z''"
  by code_simp

fun Marshal :: "json \<Rightarrow> string" where
  "Marshal JNull = ''null''"
| "Marshal (JBool b) = (if b then ''true'' else ''false'')"
| "Marshal (JInt n) = Itoa n"
| "Marshal (JStr s) = quote s"
| "Marshal (JTime t) = quote (render_nano t)"
| "Marshal (JArr vs) = ''['' @ commas (map Marshal vs) @ '']''"
| "Marshal (JObj fs) = ''{'' @ commas (map (\<lambda>f. quote (fst f) @ '':'' @ Marshal (snd f)) fs) @ ''}''"

section \<open>Reading\<close>

definition skip_ws :: "string \<Rightarrow> string" where
  "skip_ws = dropWhile (\<lambda>c. c = CHR '' '' \<or> c = CHR 0x09 \<or> c = CHR 0x0A \<or> c = CHR 0x0D)"

text \<open>What follows a given character, after white space.\<close>

definition after :: "char \<Rightarrow> string \<Rightarrow> string option" where
  "after c s = (case skip_ws s of [] \<Rightarrow> None | d # r \<Rightarrow> if d = c then Some r else None)"

definition hex_val :: "char \<Rightarrow> nat option" where
  "hex_val c =
     (let n = of_char c :: nat in
      if 48 \<le> n \<and> n \<le> 57 then Some (n - 48)
      else if 97 \<le> n \<and> n \<le> 102 then Some (n - 87)
      else if 65 \<le> n \<and> n \<le> 70 then Some (n - 55)
      else None)"

definition read_hex4 :: "string \<Rightarrow> (nat \<times> string) option" where
  "read_hex4 s =
     (case s of
        a # b # c # d # t \<Rightarrow>
          (case (hex_val a, hex_val b, hex_val c, hex_val d) of
             (Some w, Some x, Some y, Some z) \<Rightarrow> Some (((w * 16 + x) * 16 + y) * 16 + z, t)
           | _ \<Rightarrow> None)
      | _ \<Rightarrow> None)"

text \<open>
  The code point of a \<open>\u\<close> escape: two surrogates in a row are one code point, a lone surrogate is the
  replacement character.
\<close>

definition read_u :: "string \<Rightarrow> (string \<times> string) option" where
  "read_u s =
     (case read_hex4 s of
        None \<Rightarrow> None
      | Some (n, r) \<Rightarrow>
          if 55296 \<le> n \<and> n < 57344
          then (case r of
                  b # u # r1 \<Rightarrow>
                    (case (if b = CHR 0x5C \<and> u = CHR ''u'' then read_hex4 r1 else None) of
                       Some (m, r2) \<Rightarrow>
                         if n < 56320 \<and> 56320 \<le> m \<and> m < 57344
                         then Some (utf8_of (65536 + (n - 55296) * 1024 + (m - 56320)), r2)
                         else Some (utf8_of 65533, r)
                     | None \<Rightarrow> Some (utf8_of 65533, r))
                | _ \<Rightarrow> Some (utf8_of 65533, r))
          else Some (utf8_of n, r))"

definition simple_escapes :: "(char \<times> char) list" where
  "simple_escapes =
     [(CHR 0x22, CHR 0x22), (CHR 0x5C, CHR 0x5C), (CHR ''/'', CHR ''/''), (CHR ''b'', CHR 0x08), (CHR ''f'', CHR 0x0C),
      (CHR ''n'', CHR 0x0A), (CHR ''r'', CHR 0x0D), (CHR ''t'', CHR 0x09)]"

lemma read_hex4_length: "read_hex4 s = Some (n, r) \<Longrightarrow> length r < length s"
  by (auto simp: read_hex4_def split: list.splits option.splits)

lemma read_u_length: "read_u s = Some (x, r) \<Longrightarrow> length r < length s"
  by (fastforce simp: read_u_def dest: read_hex4_length split: option.splits list.splits if_splits)

text \<open>The rest of a string after its opening quote; a raw control character is an error.\<close>

function read_str :: "string \<Rightarrow> (string \<times> string) option" where
  "read_str [] = None"
| "read_str (c # s) =
     (if c = CHR 0x22 then Some ([], s)
      else if c = CHR 0x5C
      then (case s of
              [] \<Rightarrow> None
            | e # t \<Rightarrow>
                if e = CHR ''u''
                then (case read_u t of
                        None \<Rightarrow> None
                      | Some (x, r) \<Rightarrow> map_option (\<lambda>(y, q). (x @ y, q)) (read_str r))
                else (case map_of simple_escapes e of
                        None \<Rightarrow> None
                      | Some x \<Rightarrow> map_option (\<lambda>(y, q). (x # y, q)) (read_str t)))
      else if (of_char c :: nat) < 32 then None
      else if rune_len (c # s) = 0 then map_option (\<lambda>(y, q). (replacement @ y, q)) (read_str s)
      else map_option (\<lambda>(y, q). (take (rune_len (c # s)) (c # s) @ y, q)) (read_str (drop (rune_len (c # s) - 1) s)))"
  by pat_completeness auto
termination
  by (relation "measure length") (auto dest: read_u_length simp: less_Suc_eq_le)

definition read_number :: "string \<Rightarrow> (json \<times> string) option" where
  "read_number s =
     (let (neg, t) = (case s of c # r \<Rightarrow> if c = CHR ''-'' then (True, r) else (False, s) | [] \<Rightarrow> (False, s));
          ds = takeWhile is_digit t; rest = dropWhile is_digit t
      in if ds = [] \<or> (hd ds = CHR ''0'' \<and> length ds > 1) then None
         else if rest \<noteq> [] \<and> hd rest \<in> set ''.eE'' then None
         else Some (JInt (if neg then - int (digits_val 0 ds) else int (digits_val 0 ds)), rest))"

fun read_value :: "nat \<Rightarrow> string \<Rightarrow> (json \<times> string) option"
  and read_elems :: "nat \<Rightarrow> string \<Rightarrow> (json list \<times> string) option"
  and read_members :: "nat \<Rightarrow> string \<Rightarrow> ((string \<times> json) list \<times> string) option" where
  "read_value 0 s = None"
| "read_value (Suc n) s =
     (let t = skip_ws s in
      if prefix ''null'' t then Some (JNull, drop 4 t)
      else if prefix ''true'' t then Some (JBool True, drop 4 t)
      else if prefix ''false'' t then Some (JBool False, drop 5 t)
      else
        (case t of
           [] \<Rightarrow> None
         | c # r \<Rightarrow>
             if c = CHR 0x22 then map_option (\<lambda>(x, q). (JStr x, q)) (read_str r)
             else if c = CHR ''[''
             then (case after (CHR '']'') r of
                     Some q \<Rightarrow> Some (JArr [], q)
                   | None \<Rightarrow> map_option (\<lambda>(vs, q). (JArr vs, q)) (read_elems n r))
             else if c = CHR ''{''
             then (case after (CHR ''}'') r of
                     Some q \<Rightarrow> Some (JObj [], q)
                   | None \<Rightarrow> map_option (\<lambda>(fs, q). (JObj fs, q)) (read_members n r))
             else read_number t))"
| "read_elems 0 s = None"
| "read_elems (Suc n) s =
     (case read_value n s of
        None \<Rightarrow> None
      | Some (v, r) \<Rightarrow>
          (case after (CHR '','') r of
             Some q \<Rightarrow> map_option (\<lambda>(vs, p). (v # vs, p)) (read_elems n q)
           | None \<Rightarrow> map_option (\<lambda>p. ([v], p)) (after (CHR '']'') r)))"
| "read_members 0 s = None"
| "read_members (Suc n) s =
     (case Option.bind (after (CHR 0x22) s) read_str of
        None \<Rightarrow> None
      | Some (k, r) \<Rightarrow>
          (case Option.bind (after (CHR '':'') r) (read_value n) of
             None \<Rightarrow> None
           | Some (v, r1) \<Rightarrow>
               (case after (CHR '','') r1 of
                  Some q \<Rightarrow> map_option (\<lambda>(fs, p). ((k, v) # fs, p)) (read_members n q)
                | None \<Rightarrow> map_option (\<lambda>p. ([(k, v)], p)) (after (CHR ''}'') r1))))"

text \<open>
  The depth of nesting never exceeds the length of the text, so that length is enough fuel. Nothing but
  white space may follow the value.
\<close>

definition Unmarshal_text :: "string \<Rightarrow> json option" where
  "Unmarshal_text s =
     (case read_value (Suc (2 * length s)) s of
        Some (v, r) \<Rightarrow> if skip_ws r = [] then Some v else None
      | None \<Rightarrow> None)"

section \<open>Strings come back\<close>

lemma hex_val_lower: "k < 16 \<Longrightarrow> hex_val (hex_lower ! k) = Some k"
proof -
  have "map hex_val hex_lower = map Some [0..<16]" by code_simp
  moreover have "length hex_lower = 16" by (simp add: hex_lower_def)
  ultimately show "k < 16 \<Longrightarrow> hex_val (hex_lower ! k) = Some k"
    by (metis (no_types, lifting) add_0 diff_zero length_upt nth_map nth_upt)
qed

lemma hex_sum: "n < 65536 \<Longrightarrow> ((n div 4096 mod 16 * 16 + n div 256 mod 16) * 16 + n div 16 mod 16) * 16 + n mod 16 = (n :: nat)"
proof -
  assume "n < 65536"
  then have "n div 4096 mod 16 = n div 4096" by simp
  moreover have "n div 4096 = n div 256 div 16" "n div 256 = n div 16 div 16" by (simp_all flip: div_mult2_eq)
  ultimately show ?thesis by (simp only: div_mult_mod_eq)
qed

lemma read_hex4_hex4: "n < 65536 \<Longrightarrow> read_hex4 (hex4 n @ t) = Some (n, t)"
  using hex_sum [of n] by (simp add: read_hex4_def hex4_def hex_val_lower)

lemma read_u_hex4: "n < 55296 \<Longrightarrow> read_u (hex4 n @ t) = Some (utf8_of n, t)"
  by (simp add: read_u_def read_hex4_hex4)

lemma read_str_u:
  "n < 55296 \<or> 57344 \<le> n \<and> n < 65536 \<Longrightarrow>
   read_str (u_escape n @ t) = map_option (\<lambda>(y, q). (utf8_of n @ y, q)) (read_str t)"
  by (auto simp: u_escape_def read_u_def read_hex4_hex4)

lemma utf8_of_ascii: "(of_char c :: nat) < 128 \<Longrightarrow> utf8_of (of_char c) = [c]"
  by (simp add: utf8_of_def)

lemma utf8_of_separators:
  "utf8_of 8232 = [CHR 0xE2, CHR 0x80, CHR 0xA8]" "utf8_of 8233 = [CHR 0xE2, CHR 0x80, CHR 0xA9]" "utf8_of 65533 = replacement"
  by (simp_all add: utf8_of_def char_of_eq_iff replacement_def)

lemma read_str_ascii:
  "c \<noteq> CHR 0x22 \<Longrightarrow> c \<noteq> CHR 0x5C \<Longrightarrow> 32 \<le> (of_char c :: nat) \<Longrightarrow> (of_char c :: nat) < 128 \<Longrightarrow>
   read_str (c # t) = map_option (\<lambda>(y, q). (c # y, q)) (read_str t)"
  by (simp add: rune_len_def)

lemma read_str_simple:
  "map_of simple_escapes e = Some x \<Longrightarrow> read_str (CHR 0x5C # e # t) = map_option (\<lambda>(y, q). (x # y, q)) (read_str t)"
  by (auto simp: simple_escapes_def split: if_splits)

lemma read_str_char:
  assumes "(of_char c :: nat) < 128"
  shows "read_str (escape_char c @ t) = map_option (\<lambda>(y, q). (c # y, q)) (read_str t)"
proof -
  have u: "read_str (u_escape (of_char c) @ t) = map_option (\<lambda>(y, q). (c # y, q)) (read_str t)"
    using read_str_u [of "of_char c" t] utf8_of_ascii [OF assms] assms by simp
  have s: "map_of simple_escapes (CHR 0x22) = Some (CHR 0x22)" "map_of simple_escapes (CHR 0x5C) = Some (CHR 0x5C)"
    "map_of simple_escapes (CHR ''b'') = Some (CHR 0x08)" "map_of simple_escapes (CHR ''f'') = Some (CHR 0x0C)"
    "map_of simple_escapes (CHR ''n'') = Some (CHR 0x0A)" "map_of simple_escapes (CHR ''r'') = Some (CHR 0x0D)"
    "map_of simple_escapes (CHR ''t'') = Some (CHR 0x09)"
    by (simp_all add: simple_escapes_def)
  show ?thesis
    using u s [THEN read_str_simple] assms read_str_ascii [of c t]
    by (simp add: escape_char_def del: read_str.simps(2) split: if_split)
qed

lemma read_str_rune:
  assumes "rune_len (c # s) = n" "128 \<le> (of_char c :: nat)" "0 < n"
  shows "read_str (take n (c # s) @ t) = map_option (\<lambda>(y, q). (take n (c # s) @ y, q)) (read_str t)"
proof -
  have l: "length (take n (c # s)) = n" using rune_len_le [of "c # s"] assms by simp
  obtain m where m: "n = Suc m" using assms by (cases n) auto
  have "rune_len (c # take m s @ t) = Suc m" using rune_len_prefix [OF assms(1,3), of t] m by simp
  then show ?thesis using assms l m by auto
qed

lemma read_str_escape_rune:
  assumes "rune_len (c # s) = n" "128 \<le> (of_char c :: nat)" "0 < n"
  shows "read_str (escape_rune (take n (c # s)) @ t) = map_option (\<lambda>(y, q). (take n (c # s) @ y, q)) (read_str t)"
  using read_str_rune [OF assms, of t] read_str_u [of 8232 t] read_str_u [of 8233 t] utf8_of_separators
  by (simp add: escape_rune_def)

lemma read_str_escape: "read_str (escape s @ CHR 0x22 # t) = Some (coerce s, t)"
proof (induction s rule: escape.induct)
  case (2 c s)
  show ?case
  proof (cases "(of_char c :: nat) < 128")
    case True
    then show ?thesis using 2(1) read_str_char [OF True] by (simp add: rune_len_def)
  next
    case False
    show ?thesis
    proof (cases "rune_len (c # s) = 0")
      case True
      then show ?thesis using 2(2) False read_str_u [of 65533] utf8_of_separators by simp
    next
      case nz: False
      then show ?thesis using 2(3) False read_str_escape_rune [OF refl, of c s] by simp
    qed
  qed
qed simp

section \<open>Numbers come back\<close>

definition delimited :: "string \<Rightarrow> bool" where
  "delimited r \<longleftrightarrow> r = [] \<or> hd r \<in> set '',]}''"

lemma delimited_Cons [simp]: "c \<in> set '',]}'' \<Longrightarrow> delimited (c # r)"
  by (simp add: delimited_def)

lemma nat_digits_no_leading_zero: "0 < n \<Longrightarrow> hd (nat_digits n) \<noteq> CHR ''0''"
proof (induction n rule: nat_digits.induct)
  case (1 n)
  show ?case
  proof (cases "n < 10")
    case True
    with 1 have "(of_char (char_of (48 + n)) :: nat) \<noteq> of_char (CHR ''0'')" by (simp add: of_digit)
    then have "char_of (48 + n) \<noteq> CHR ''0''" by metis
    then show ?thesis using True by (subst nat_digits.simps) simp
  next
    case False
    then show ?thesis using 1 by (subst nat_digits.simps) (simp add: hd_append)
  qed
qed

lemma nat_digits_zero_short: "hd (nat_digits n) = CHR ''0'' \<Longrightarrow> length (nat_digits n) = 1"
  using nat_digits_no_leading_zero [of n] by (cases "n = 0") (auto simp: nat_digits.simps [of 0])

lemma delimited_not_digit: "delimited r \<Longrightarrow> r \<noteq> [] \<Longrightarrow> \<not> is_digit (hd r) \<and> hd r \<notin> set ''.eE''"
  by (auto simp: delimited_def is_digit_def)

lemma nat_digits_take:
  "delimited r \<Longrightarrow> takeWhile is_digit (nat_digits n @ r) = nat_digits n \<and> dropWhile is_digit (nat_digits n @ r) = r"
  using nat_digits_digits [of n] delimited_not_digit [of r]
  by (cases r) (auto simp: list_all_iff takeWhile_append2 dropWhile_append2)

lemma read_number_Itoa: "delimited r \<Longrightarrow> read_number (Itoa i @ r) = Some (JInt i, r)"
proof -
  assume r: "delimited r"
  have z: "\<not> (hd (nat_digits n) = CHR ''0'' \<and> length (nat_digits n) > 1)" for n using nat_digits_zero_short [of n] by auto
  have e: "\<not> (r \<noteq> [] \<and> hd r \<in> set ''.eE'')" using delimited_not_digit [OF r] by blast
  show ?thesis
  proof (cases "i < 0")
    case True
    then show ?thesis using z [of "nat (- i)"] e nat_digits_take [OF r, of "nat (- i)"]
      by (simp add: read_number_def Itoa_def nat_digits_val Let_def)
  next
    case False
    obtain c s where c: "nat_digits (nat i) = c # s" by (cases "nat_digits (nat i)") auto
    then have "c \<noteq> CHR ''-''" using nat_digits_hd [OF c] by (auto simp: is_digit_def)
    then show ?thesis using False z [of "nat i"] e nat_digits_take [OF r, of "nat i"] c nat_digits_val [of "nat i"]
      by (simp add: read_number_def Itoa_def Let_def)
  qed
qed

section \<open>Values come back\<close>

text \<open>A value with no time in it: times are written as strings and read as such.\<close>

fun plain :: "json \<Rightarrow> bool" where
  "plain (JTime t) \<longleftrightarrow> False"
| "plain (JArr vs) \<longleftrightarrow> list_all plain vs"
| "plain (JObj fs) \<longleftrightarrow> list_all (\<lambda>f. plain (snd f)) fs"
| "plain _ \<longleftrightarrow> True"

text \<open>A value with every string in it made valid.\<close>

fun coerce_json :: "json \<Rightarrow> json" where
  "coerce_json (JStr s) = JStr (coerce s)"
| "coerce_json (JArr vs) = JArr (map coerce_json vs)"
| "coerce_json (JObj fs) = JObj (map (\<lambda>f. (coerce (fst f), coerce_json (snd f))) fs)"
| "coerce_json j = j"

fun jfuel :: "json \<Rightarrow> nat" where
  "jfuel (JArr vs) = Suc (sum_list (map (\<lambda>v. Suc (jfuel v)) vs))"
| "jfuel (JObj fs) = Suc (sum_list (map (\<lambda>f. Suc (jfuel (snd f))) fs))"
| "jfuel _ = 1"

definition member_text :: "string \<times> json \<Rightarrow> string" where
  "member_text f = quote (fst f) @ '':'' @ Marshal (snd f)"

lemma Marshal_JObj: "Marshal (JObj fs) = ''{'' @ commas (map member_text fs) @ ''}''"
  by (simp add: member_text_def [abs_def])

lemma after_hit [simp]: "c \<notin> {CHR '' '', CHR 0x09, CHR 0x0A, CHR 0x0D} \<Longrightarrow> after d (c # s) = (if c = d then Some s else None)"
  by (simp add: after_def skip_ws_def)

text \<open>The first character of a written value decides which reader is used.\<close>

definition starts :: "json \<Rightarrow> char \<Rightarrow> bool" where
  "starts j c \<longleftrightarrow>
     (case j of JNull \<Rightarrow> c = CHR ''n'' | JBool b \<Rightarrow> c = (if b then CHR ''t'' else CHR ''f'')
      | JInt i \<Rightarrow> is_digit c \<or> c = CHR ''-'' | JStr s \<Rightarrow> c = CHR 0x22 | JTime t \<Rightarrow> c = CHR 0x22
      | JArr vs \<Rightarrow> c = CHR ''['' | JObj fs \<Rightarrow> c = CHR ''{'')"

lemma Marshal_starts: "\<exists>c s. Marshal j = c # s \<and> starts j c"
proof (cases j)
  case (JInt i)
  have "\<exists>c s. nat_digits n = c # s \<and> is_digit c" for n using nat_digits_hd [of n] by (cases "nat_digits n") auto
  then show ?thesis using JInt by (simp add: starts_def Itoa_def) metis
qed (auto simp: starts_def quote_def)

lemma starts_plain:
  "starts j c \<Longrightarrow> c \<notin> {CHR '' '', CHR 0x09, CHR 0x0A, CHR 0x0D, CHR '']'', CHR ''}''}"
  by (auto simp: starts_def is_digit_def split: json.splits if_splits)

lemma Marshal_not_closed: "after (CHR '']'') (Marshal j @ r) = None"
  using Marshal_starts [of j] starts_plain [of j] by (auto simp del: Marshal.simps)

lemma skip_ws_Marshal: "skip_ws (Marshal j @ r) = Marshal j @ r"
  using Marshal_starts [of j] starts_plain [of j] by (auto simp: skip_ws_def simp del: Marshal.simps)

lemma commas_Cons: "commas (x # xs) = x @ (if xs = [] then [] else CHR '','' # commas xs)"
  by (cases xs) auto

lemma read_elems_Marshal:
  assumes "\<And>v n r. v \<in> set vs \<Longrightarrow> delimited r \<Longrightarrow> jfuel v \<le> n \<Longrightarrow> read_value n (Marshal v @ r) = Some (coerce_json v, r)"
  shows "vs \<noteq> [] \<Longrightarrow> sum_list (map (\<lambda>v. Suc (jfuel v)) vs) \<le> n
    \<Longrightarrow> read_elems n (commas (map Marshal vs) @ CHR '']'' # r) = Some (map coerce_json vs, r)"
  using assms
proof (induction vs arbitrary: n)
  case (Cons v vs)
  from Cons.prems(2) obtain m where n: "n = Suc m" by (cases n) auto
  have v: "read_value m (Marshal v @ q) = Some (coerce_json v, q)" if "delimited q" for q
    using Cons.prems that n by auto
  show ?case
  proof (cases "vs = []")
    case True
    then show ?thesis using n v [of "CHR '']'' # r"] by simp
  next
    case False
    then have "read_elems m (commas (map Marshal vs) @ CHR '']'' # r) = Some (map coerce_json vs, r)"
      using Cons.IH [of m] Cons.prems n by auto
    then show ?thesis using n v False by (simp add: commas_Cons)
  qed
qed simp

lemma read_members_Marshal:
  assumes "\<And>f n r. f \<in> set fs \<Longrightarrow> delimited r \<Longrightarrow> jfuel (snd f) \<le> n \<Longrightarrow> read_value n (Marshal (snd f) @ r) = Some (coerce_json (snd f), r)"
  shows "fs \<noteq> [] \<Longrightarrow> sum_list (map (\<lambda>f. Suc (jfuel (snd f))) fs) \<le> n
    \<Longrightarrow> read_members n (commas (map member_text fs) @ CHR ''}'' # r) = Some (map (\<lambda>f. (coerce (fst f), coerce_json (snd f))) fs, r)"
  using assms
proof (induction fs arbitrary: n)
  case (Cons f fs)
  from Cons.prems(2) obtain m where n: "n = Suc m" by (cases n) auto
  have v: "read_value m (Marshal (snd f) @ q) = Some (coerce_json (snd f), q)" if "delimited q" for q
    using Cons.prems that n by auto
  show ?case
  proof (cases "fs = []")
    case True
    then show ?thesis using n v [of "CHR ''}'' # r"] by (simp add: member_text_def quote_def read_str_escape)
  next
    case False
    then have "read_members m (commas (map member_text fs) @ CHR ''}'' # r) = Some (map (\<lambda>f. (coerce (fst f), coerce_json (snd f))) fs, r)"
      using Cons.IH [of m] Cons.prems n by auto
    then show ?thesis using n v False
      by (simp add: commas_Cons member_text_def [of f] quote_def read_str_escape)
  qed
qed simp

text \<open>Whatever a value is written before, reading it gives the value and leaves the rest.\<close>

lemma read_value_Marshal:
  "plain j \<Longrightarrow> delimited r \<Longrightarrow> jfuel j \<le> n \<Longrightarrow> read_value n (Marshal j @ r) = Some (coerce_json j, r)"
proof (induction j arbitrary: n r)
  case JNull
  then show ?case by (cases n) (simp_all add: skip_ws_def)
next
  case (JBool b)
  then show ?case by (cases n) (simp_all add: skip_ws_def)
next
  case (JInt i)
  obtain c s where c: "Itoa i = c # s" "is_digit c \<or> c = CHR ''-''"
    using Marshal_starts [of "JInt i"] by (auto simp: starts_def)
  then have "c \<notin> set (''ntf{['' @ [CHR 0x22])" by (auto simp: is_digit_def)
  then show ?case using JInt c skip_ws_Marshal [of "JInt i" r] read_number_Itoa [of r i]
    by (cases n) (auto simp: Let_def)
next
  case (JStr s)
  then show ?case by (cases n) (simp_all add: skip_ws_def quote_def read_str_escape)
next
  case (JArr vs)
  then obtain m where n: "n = Suc m" by (cases n) auto
  show ?case
  proof (cases vs)
    case Nil
    then show ?thesis using n by (simp add: skip_ws_def)
  next
    case (Cons v ws)
    have "read_elems m (commas (map Marshal vs) @ CHR '']'' # r) = Some (map coerce_json vs, r)"
      using JArr n Cons by (intro read_elems_Marshal) (auto simp: list_all_iff)
    moreover have "after (CHR '']'') (commas (map Marshal vs) @ CHR '']'' # r) = None"
      using Cons Marshal_not_closed by (simp add: commas_Cons)
    ultimately show ?thesis using n by (simp add: skip_ws_def)
  qed
next
  case (JObj fs)
  then obtain m where n: "n = Suc m" by (cases n) auto
  show ?case
  proof (cases fs)
    case Nil
    then show ?thesis using n by (simp add: skip_ws_def)
  next
    case (Cons f gs)
    have "read_members m (commas (map member_text fs) @ CHR ''}'' # r) = Some (map (\<lambda>f. (coerce (fst f), coerce_json (snd f))) fs, r)"
    proof (intro read_members_Marshal)
      fix g k q
      assume g: "g \<in> set fs" "delimited q" "jfuel (snd g) \<le> k"
      then have "plain (snd g)" using JObj.prems by (auto simp: list_all_iff)
      then show "read_value k (Marshal (snd g) @ q) = Some (coerce_json (snd g), q)"
        using JObj.IH [of g "snd g"] g by (cases g) simp
    qed (use JObj.prems n Cons in auto)
    moreover have "after (CHR ''}'') (commas (map member_text fs) @ CHR ''}'' # r) = None"
      using Cons by (simp add: commas_Cons member_text_def quote_def)
    ultimately show ?thesis using n by (simp add: skip_ws_def Marshal_JObj del: Marshal.simps)
  qed
qed simp

lemma commas_length: "sum_list (map length xs) + length xs \<le> Suc (length (commas xs))"
  by (induction xs rule: commas.induct) auto

lemma jfuel_sum:
  assumes "\<And>x. x \<in> set xs \<Longrightarrow> f x \<le> 2 * length (g x)"
  shows "sum_list (map (\<lambda>x. Suc (f x)) xs) \<le> 2 * Suc (length (commas (map g xs)))"
proof -
  have "sum_list (map (\<lambda>x. Suc (f x)) xs) \<le> 2 * (sum_list (map (length \<circ> g) xs) + length xs)"
    using assms by (induction xs) fastforce+
  then show ?thesis using commas_length [of "map g xs"] by (simp add: comp_def)
qed

lemma jfuel_le_length: "jfuel j \<le> 2 * length (Marshal j)"
proof (induction j)
  case (JArr vs)
  then show ?case using jfuel_sum [of vs jfuel Marshal] by simp
next
  case (JObj fs)
  have "jfuel (snd f) \<le> 2 * length (member_text f)" if "f \<in> set fs" for f
    using JObj [OF that, of "snd f"] by (cases f) (simp add: member_text_def)
  then show ?case using jfuel_sum [of fs "\<lambda>f. jfuel (snd f)" member_text] by (simp add: Marshal_JObj del: Marshal.simps)
next
  case (JInt i)
  then show ?case using Marshal_starts [of "JInt i"] by auto
qed (auto simp: quote_def)

theorem Marshal_Unmarshal: "plain j \<Longrightarrow> Unmarshal_text (Marshal j) = Some (coerce_json j)"
  using read_value_Marshal [of j "[]" "Suc (2 * length (Marshal j))"] jfuel_le_length [of j]
  by (simp add: Unmarshal_text_def delimited_def skip_ws_def)

lemma Marshal_Unmarshal_example:
  "Unmarshal_text (Marshal (JObj [(''a'', JArr [JInt (- 12), JNull]), (''q'', JStr [CHR 0x22, CHR 0x0A, CHR ''<'', CHR 0xE2])]))
   = Some (JObj [(''a'', JArr [JInt (- 12), JNull]), (''q'', JStr ([CHR 0x22, CHR 0x0A, CHR ''<''] @ replacement))])"
  using Marshal_Unmarshal [of "JObj [(''a'', JArr [JInt (- 12), JNull]), (''q'', JStr [CHR 0x22, CHR 0x0A, CHR ''<'', CHR 0xE2])]"]
  by (simp add: rune_len_def second_range_def)

end
