(* ===== verification/Wire.thy ===== *)
theory Wire
  imports Engine Startup Json_Text
begin

text \<open>
  The messages between the API and the validation engine as JSON values: the struct tags of
  \<open>src/apps/api/internal/validation/message.go\<close> and of
  \<open>src/apps/validation-engine/internal/model/message.go\<close>, which both processes declare on their own, the
  learning events of \<open>src/apps/api/internal/events\<close>, and what a message published by one process is to
  the other.

  The rules of \<open>encoding/json\<close> are the model: a field marked \<open>omitempty\<close> is left out when it has the
  zero value; a field that is missing or null decodes as the zero value, a field of another type or an
  integer outside 64 bits is an error, names are compared without regard to ASCII case, unknown names are
  ignored. An object with one name twice is outside the model: neither process writes one. A nil slice is
  written as null and an empty one as an empty array; the model has one empty list, which both decode to.
\<close>

section \<open>Fields\<close>

type_synonym fields = "(string \<times> json) list"

definition fold_name :: "string \<Rightarrow> string" where
  "fold_name = map (\<lambda>c. if byte_in 65 90 c then char_of (of_char c + 32 :: nat) else c)"

definition obj_get :: "fields \<Rightarrow> string \<Rightarrow> json option" where
  "obj_get fs k = map_of (rev (map (\<lambda>f. (fold_name (fst f), snd f)) fs)) k"

definition in64 :: "int \<Rightarrow> bool" where
  "in64 n \<longleftrightarrow> - (2 ^ 63) \<le> n \<and> n < 2 ^ 63"

definition omit_str :: "string \<Rightarrow> string \<Rightarrow> fields" where
  "omit_str k s = (if s = [] then [] else [(k, JStr s)])"

definition omit_int :: "string \<Rightarrow> int \<Rightarrow> fields" where
  "omit_int k n = (if n = 0 then [] else [(k, JInt n)])"

definition get_str :: "fields \<Rightarrow> string \<Rightarrow> string option" where
  "get_str fs k = (case obj_get fs k of None \<Rightarrow> Some [] | Some JNull \<Rightarrow> Some [] | Some (JStr s) \<Rightarrow> Some s | _ \<Rightarrow> None)"

definition get_int :: "fields \<Rightarrow> string \<Rightarrow> int option" where
  "get_int fs k = (case obj_get fs k of None \<Rightarrow> Some 0 | Some JNull \<Rightarrow> Some 0 | Some (JInt n) \<Rightarrow> if in64 n then Some n else None | _ \<Rightarrow> None)"

definition get_bool :: "fields \<Rightarrow> string \<Rightarrow> bool option" where
  "get_bool fs k = (case obj_get fs k of None \<Rightarrow> Some False | Some JNull \<Rightarrow> Some False | Some (JBool b) \<Rightarrow> Some b | _ \<Rightarrow> None)"

fun map_all :: "('a \<Rightarrow> 'b option) \<Rightarrow> 'a list \<Rightarrow> 'b list option" where
  "map_all f [] = Some []"
| "map_all f (x # xs) = (case f x of None \<Rightarrow> None | Some y \<Rightarrow> map_option (Cons y) (map_all f xs))"

definition get_list :: "(json \<Rightarrow> 'a option) \<Rightarrow> fields \<Rightarrow> string \<Rightarrow> 'a list option" where
  "get_list f fs k = (case obj_get fs k of None \<Rightarrow> Some [] | Some JNull \<Rightarrow> Some [] | Some (JArr vs) \<Rightarrow> map_all f vs | _ \<Rightarrow> None)"

lemma obj_get_append [simp]:
  "obj_get (xs @ ys) k = (case obj_get ys k of Some v \<Rightarrow> Some v | None \<Rightarrow> obj_get xs k)"
  by (simp add: obj_get_def map_add_def split: option.split)

lemma obj_get_Cons [simp]:
  "obj_get ((j, v) # fs) k = (case obj_get fs k of Some w \<Rightarrow> Some w | None \<Rightarrow> if k = fold_name j then Some v else None)"
  by (simp add: obj_get_def map_add_def split: option.split)

lemma obj_get_fields [simp]:
  "obj_get [] k = None"
  "obj_get (omit_str j s) k = (if k = fold_name j \<and> s \<noteq> [] then Some (JStr s) else None)"
  "obj_get (omit_int j n) k = (if k = fold_name j \<and> n \<noteq> 0 then Some (JInt n) else None)"
  by (simp_all add: obj_get_def omit_str_def omit_int_def)

lemma map_all_map: "(\<And>x. x \<in> set xs \<Longrightarrow> f (g x) = Some (h x)) \<Longrightarrow> map_all f (map g xs) = Some (map h xs)"
  by (induction xs) auto

section \<open>Requests\<close>

definition encode_VMSpec :: "VMSpec \<Rightarrow> json" where
  "encode_VMSpec v =
     JObj ([(''type'', JStr (vm_type v))] @ omit_str ''name'' (vm_name v) @ omit_str ''namespace'' (vm_namespace v) @
           omit_str ''instance_id'' (vm_instance_id v) @ omit_str ''region'' (vm_region v))"

definition encode_Check :: "Check \<Rightarrow> json" where
  "encode_Check c =
     JObj ([(''type'', JStr (chk_type c))] @ omit_str ''cmd'' (chk_command c) @ omit_str ''path'' (chk_path c) @
           omit_str ''url'' (chk_url c) @ omit_str ''name'' (chk_name c) @ omit_str ''expect'' (chk_expect c) @
           omit_int ''expect_code'' (chk_expect_code c) @ omit_int ''timeout'' (chk_timeout c))"

definition encode_request :: "ValidationRequest \<Rightarrow> json" where
  "encode_request q =
     JObj (omit_str ''trace_id'' (vq_trace_id q) @ omit_str ''traceparent'' (vq_traceparent q) @
           [(''session_id'', JStr (vq_session_id q))] @ [(''step_id'', JInt (vq_step_id q))] @
           [(''vm'', encode_VMSpec (vq_vm q))] @ [(''checks'', JArr (map encode_Check (vq_checks q)))])"

definition decode_VMSpec :: "json \<Rightarrow> VMSpec option" where
  "decode_VMSpec j =
     (case j of
        JNull \<Rightarrow> Some \<lparr>vm_type = [], vm_name = [], vm_namespace = [], vm_instance_id = [], vm_region = []\<rparr>
      | JObj fs \<Rightarrow>
          (case (get_str fs ''type'', get_str fs ''name'', get_str fs ''namespace'', get_str fs ''instance_id'', get_str fs ''region'') of
             (Some t, Some n, Some ns, Some i, Some r) \<Rightarrow>
               Some \<lparr>vm_type = t, vm_name = n, vm_namespace = ns, vm_instance_id = i, vm_region = r\<rparr>
           | _ \<Rightarrow> None)
      | _ \<Rightarrow> None)"

definition decode_Check :: "json \<Rightarrow> Check option" where
  "decode_Check j =
     (case j of
        JNull \<Rightarrow> Some \<lparr>chk_type = [], chk_command = [], chk_path = [], chk_url = [], chk_name = [], chk_expect = [],
                       chk_expect_code = 0, chk_timeout = 0\<rparr>
      | JObj fs \<Rightarrow>
          (case (get_str fs ''type'', get_str fs ''cmd'', get_str fs ''path'', get_str fs ''url'') of
             (Some t, Some c, Some p, Some u) \<Rightarrow>
               (case (get_str fs ''name'', get_str fs ''expect'', get_int fs ''expect_code'', get_int fs ''timeout'') of
                  (Some n, Some e, Some ec, Some tm) \<Rightarrow>
                    Some \<lparr>chk_type = t, chk_command = c, chk_path = p, chk_url = u, chk_name = n, chk_expect = e,
                          chk_expect_code = ec, chk_timeout = tm\<rparr>
                | _ \<Rightarrow> None)
           | _ \<Rightarrow> None)
      | _ \<Rightarrow> None)"

definition decode_request :: "json \<Rightarrow> ValidationRequest option" where
  "decode_request j =
     (case j of
        JObj fs \<Rightarrow>
          (case (get_str fs ''trace_id'', get_str fs ''traceparent'', get_str fs ''session_id'', get_int fs ''step_id'') of
             (Some t, Some tp, Some s, Some k) \<Rightarrow>
               (case (decode_VMSpec (case obj_get fs ''vm'' of None \<Rightarrow> JNull | Some v \<Rightarrow> v), get_list decode_Check fs ''checks'') of
                  (Some vm, Some cs) \<Rightarrow>
                    Some \<lparr>vq_trace_id = t, vq_traceparent = tp, vq_session_id = s, vq_step_id = k, vq_vm = vm, vq_checks = cs\<rparr>
                | _ \<Rightarrow> None)
           | _ \<Rightarrow> None)
      | JNull \<Rightarrow>
          Some \<lparr>vq_trace_id = [], vq_traceparent = [], vq_session_id = [], vq_step_id = 0,
                vq_vm = \<lparr>vm_type = [], vm_name = [], vm_namespace = [], vm_instance_id = [], vm_region = []\<rparr>, vq_checks = []\<rparr>
      | _ \<Rightarrow> None)"

section \<open>Results\<close>

definition encode_CheckResult :: "CheckResult \<Rightarrow> json" where
  "encode_CheckResult c =
     JObj ([(''type'', JStr (cr_type c))] @ [(''passed'', JBool (cr_passed c))] @ omit_str ''detail'' (cr_detail c))"

definition encode_result :: "ValidationResult \<Rightarrow> json" where
  "encode_result r =
     JObj (omit_str ''trace_id'' (vr_trace_id r) @ [(''session_id'', JStr (vr_session_id r))] @
           [(''step_id'', JInt (vr_step_id r))] @ [(''passed'', JBool (vr_passed r))] @
           [(''checks'', JArr (map encode_CheckResult (vr_checks r)))] @ [(''duration_ms'', JInt (vr_duration_ms r))])"

definition decode_CheckResult :: "json \<Rightarrow> CheckResult option" where
  "decode_CheckResult j =
     (case j of
        JNull \<Rightarrow> Some \<lparr>cr_type = [], cr_passed = False, cr_detail = []\<rparr>
      | JObj fs \<Rightarrow>
          (case (get_str fs ''type'', get_bool fs ''passed'', get_str fs ''detail'') of
             (Some t, Some p, Some d) \<Rightarrow> Some \<lparr>cr_type = t, cr_passed = p, cr_detail = d\<rparr>
           | _ \<Rightarrow> None)
      | _ \<Rightarrow> None)"

definition decode_result :: "json \<Rightarrow> ValidationResult option" where
  "decode_result j =
     (case j of
        JObj fs \<Rightarrow>
          (case (get_str fs ''trace_id'', get_str fs ''session_id'', get_int fs ''step_id'') of
             (Some t, Some s, Some k) \<Rightarrow>
               (case (get_bool fs ''passed'', get_list decode_CheckResult fs ''checks'', get_int fs ''duration_ms'') of
                  (Some p, Some cs, Some d) \<Rightarrow>
                    Some \<lparr>vr_trace_id = t, vr_session_id = s, vr_step_id = k, vr_passed = p, vr_checks = cs, vr_duration_ms = d\<rparr>
                | _ \<Rightarrow> None)
           | _ \<Rightarrow> None)
      | JNull \<Rightarrow> Some \<lparr>vr_trace_id = [], vr_session_id = [], vr_step_id = 0, vr_passed = False, vr_checks = [], vr_duration_ms = 0\<rparr>
      | _ \<Rightarrow> None)"

section \<open>What the other side reads\<close>

text \<open>
  Only bytes that are not valid UTF-8 change on the way: the output of a command in a detail may hold
  some, or a check of a lab file.
\<close>

definition coerce_VMSpec :: "VMSpec \<Rightarrow> VMSpec" where
  "coerce_VMSpec v =
     \<lparr>vm_type = coerce (vm_type v), vm_name = coerce (vm_name v), vm_namespace = coerce (vm_namespace v),
      vm_instance_id = coerce (vm_instance_id v), vm_region = coerce (vm_region v)\<rparr>"

definition coerce_Check :: "Check \<Rightarrow> Check" where
  "coerce_Check c =
     \<lparr>chk_type = coerce (chk_type c), chk_command = coerce (chk_command c), chk_path = coerce (chk_path c),
      chk_url = coerce (chk_url c), chk_name = coerce (chk_name c), chk_expect = coerce (chk_expect c),
      chk_expect_code = chk_expect_code c, chk_timeout = chk_timeout c\<rparr>"

definition coerce_request :: "ValidationRequest \<Rightarrow> ValidationRequest" where
  "coerce_request q =
     \<lparr>vq_trace_id = coerce (vq_trace_id q), vq_traceparent = coerce (vq_traceparent q),
      vq_session_id = coerce (vq_session_id q), vq_step_id = vq_step_id q, vq_vm = coerce_VMSpec (vq_vm q),
      vq_checks = map coerce_Check (vq_checks q)\<rparr>"

definition coerce_CheckResult :: "CheckResult \<Rightarrow> CheckResult" where
  "coerce_CheckResult c =
     \<lparr>cr_type = coerce (cr_type c), cr_passed = cr_passed c, cr_detail = coerce (cr_detail c)\<rparr>"

definition coerce_result :: "ValidationResult \<Rightarrow> ValidationResult" where
  "coerce_result r =
     \<lparr>vr_trace_id = coerce (vr_trace_id r), vr_session_id = coerce (vr_session_id r), vr_step_id = vr_step_id r,
      vr_passed = vr_passed r, vr_checks = map coerce_CheckResult (vr_checks r), vr_duration_ms = vr_duration_ms r\<rparr>"

lemmas field_gets = get_str_def get_int_def get_bool_def get_list_def

definition coerce_fields :: "fields \<Rightarrow> fields" where
  "coerce_fields = map (\<lambda>f. (coerce (fst f), coerce_json (snd f)))"

lemma coerce_json_JObj: "coerce_json (JObj fs) = JObj (coerce_fields fs)"
  by (simp add: coerce_fields_def)

lemma coerce_nonempty [simp]: "coerce s = [] \<longleftrightarrow> s = []"
  by (cases s) (auto simp: replacement_def)

lemma coerce_fields_append [simp]:
  "coerce_fields [] = []"
  "coerce_fields (xs @ ys) = coerce_fields xs @ coerce_fields ys"
  "coerce_fields ((k, v) # fs) = (coerce k, coerce_json v) # coerce_fields fs"
  "coerce_fields (omit_str k s) = omit_str (coerce k) (coerce s)"
  "coerce_fields (omit_int k n) = omit_int (coerce k) n"
  by (simp_all add: coerce_fields_def omit_str_def omit_int_def)

lemmas wire_simps = coerce_json_JObj field_gets rune_len_def fold_name_def byte_in_def

lemma VMSpec_wire: "decode_VMSpec (coerce_json (encode_VMSpec v)) = Some (coerce_VMSpec v)"
  by (simp add: decode_VMSpec_def encode_VMSpec_def coerce_VMSpec_def wire_simps del: coerce_json.simps(3))

definition check_in_range :: "Check \<Rightarrow> bool" where
  "check_in_range c \<longleftrightarrow> in64 (chk_expect_code c) \<and> in64 (chk_timeout c)"

definition request_in_range :: "ValidationRequest \<Rightarrow> bool" where
  "request_in_range q \<longleftrightarrow> in64 (vq_step_id q) \<and> list_all check_in_range (vq_checks q)"

lemma Check_wire: "check_in_range c \<Longrightarrow> decode_Check (coerce_json (encode_Check c)) = Some (coerce_Check c)"
  by (simp add: decode_Check_def encode_Check_def coerce_Check_def check_in_range_def wire_simps del: coerce_json.simps(3))

lemma request_wire: "request_in_range q \<Longrightarrow> decode_request (coerce_json (encode_request q)) = Some (coerce_request q)"
  by (simp add: decode_request_def encode_request_def coerce_request_def request_in_range_def wire_simps VMSpec_wire
      map_all_map list_all_iff Check_wire comp_def del: coerce_json.simps(3))

lemma CheckResult_wire: "decode_CheckResult (coerce_json (encode_CheckResult c)) = Some (coerce_CheckResult c)"
  by (simp add: decode_CheckResult_def encode_CheckResult_def coerce_CheckResult_def wire_simps del: coerce_json.simps(3))

lemma result_wire:
  "in64 (vr_step_id r) \<Longrightarrow> in64 (vr_duration_ms r) \<Longrightarrow> decode_result (coerce_json (encode_result r)) = Some (coerce_result r)"
  by (simp add: decode_result_def encode_result_def coerce_result_def wire_simps map_all_map CheckResult_wire comp_def
      del: coerce_json.simps(3))

section \<open>The encoders and decoders of both processes\<close>

definition marshal_request :: "ValidationRequest \<Rightarrow> string + string" where
  "marshal_request q = Inr (Marshal (encode_request q))"

definition unmarshal_request :: "string \<Rightarrow> ValidationRequest option" where
  "unmarshal_request s = Option.bind (Unmarshal_text s) decode_request"

definition marshal_result :: "ValidationResult \<Rightarrow> string + string" where
  "marshal_result r = Inr (Marshal (encode_result r))"

definition unmarshal_result :: "string \<Rightarrow> string + ValidationResult" where
  "unmarshal_result s =
     (case Option.bind (Unmarshal_text s) decode_result of None \<Rightarrow> Inl ''invalid message'' | Some r \<Rightarrow> Inr r)"

lemma omit_plain [simp]: "list_all (\<lambda>f. plain (snd f)) (omit_str k s)" "list_all (\<lambda>f. plain (snd f)) (omit_int k n)"
  by (simp_all add: omit_str_def omit_int_def)

lemma encode_request_plain: "plain (encode_request q)"
  by (simp add: encode_request_def encode_VMSpec_def encode_Check_def list_all_iff [of _ "map _ _"])

lemma encode_result_plain: "plain (encode_result r)"
  by (simp add: encode_result_def encode_CheckResult_def list_all_iff [of _ "map _ _"])

text \<open>
  What every message of the two processes promises: it holds no times, and its reader gets back its normal
  form. The text between them adds nothing to it.
\<close>

locale message_format =
  fixes encode :: "'a \<Rightarrow> json" and decode :: "json \<Rightarrow> 'a option" and in_range :: "'a \<Rightarrow> bool" and normal :: "'a \<Rightarrow> 'a"
  assumes encode_plain: "plain (encode x)"
    and decode_encode: "in_range x \<Longrightarrow> decode (coerce_json (encode x)) = Some (normal x)"
begin

lemma text_back: "in_range x \<Longrightarrow> Option.bind (Unmarshal_text (Marshal (encode x))) decode = Some (normal x)"
  by (simp add: Marshal_Unmarshal encode_plain decode_encode)

lemma texts_distinct: "in_range x \<Longrightarrow> in_range y \<Longrightarrow> Marshal (encode x) = Marshal (encode y) \<Longrightarrow> normal x = normal y"
  by (metis option.inject text_back)

end

definition result_in_range :: "ValidationResult \<Rightarrow> bool" where
  "result_in_range r \<longleftrightarrow> in64 (vr_step_id r) \<and> in64 (vr_duration_ms r)"

interpretation request_format: message_format encode_request decode_request request_in_range coerce_request
  by unfold_locales (simp_all add: encode_request_plain request_wire)

interpretation result_format: message_format encode_result decode_result result_in_range coerce_result
  by unfold_locales (simp_all add: encode_result_plain result_wire result_in_range_def)

lemma unmarshal_request_marshal:
  "request_in_range q \<Longrightarrow> unmarshal_request (Marshal (encode_request q)) = Some (coerce_request q)"
  by (simp only: unmarshal_request_def request_format.text_back)

lemma unmarshal_result_marshal:
  "in64 (vr_step_id r) \<Longrightarrow> in64 (vr_duration_ms r) \<Longrightarrow> unmarshal_result (Marshal (encode_result r)) = Inr (coerce_result r)"
  using result_format.text_back [of r] by (simp add: unmarshal_result_def result_in_range_def)

text \<open>A request or result whose texts are valid arrives as it was.\<close>

definition request_texts :: "ValidationRequest \<Rightarrow> string list" where
  "request_texts q =
     [vq_trace_id q, vq_traceparent q, vq_session_id q, vm_type (vq_vm q), vm_name (vq_vm q), vm_namespace (vq_vm q),
      vm_instance_id (vq_vm q), vm_region (vq_vm q)]
     @ concat (map (\<lambda>c. [chk_type c, chk_command c, chk_path c, chk_url c, chk_name c, chk_expect c]) (vq_checks q))"

lemma coerce_request_valid: "list_all valid_utf8 (request_texts q) \<Longrightarrow> coerce_request q = q"
  by (simp add: coerce_request_def coerce_VMSpec_def request_texts_def valid_coerce list_all_iff map_idI coerce_Check_def)

section \<open>The events\<close>

text \<open>\<open>events.Event\<close> as its struct tags write it, and \<open>KafkaPublisher.Publish\<close>: the key is the learner.\<close>

definition encode_event :: "Event \<Rightarrow> json" where
  "encode_event e =
     JObj ([(''event_type'', JStr (ev_type e))] @ [(''user_id'', JStr (ev_user_id e))] @
           [(''session_id'', JStr (ev_session_id e))] @ [(''lab_id'', JStr (ev_lab_id e))] @
           omit_int ''step_id'' (ev_step_id e) @ omit_int ''hint_level'' (ev_hint_level e) @
           omit_str ''hint_source'' (ev_hint_source e) @ omit_str ''vm_provisioned_source'' (ev_vm_provider e) @
           [(''ts'', JTime (ev_timestamp e))])"

definition events_Publish ::
  "(Event \<Rightarrow> string + string) \<Rightarrow> (string \<Rightarrow> string \<Rightarrow> 'x \<Rightarrow> string option \<times> 'x) \<Rightarrow> Event \<Rightarrow> 'x \<Rightarrow> string option \<times> 'x" where
  "events_Publish marshal write_message e x =
     (case marshal e of
        Inl er \<Rightarrow> (Some (''marshal learning event: '' @ er), x)
      | Inr data \<Rightarrow>
          (let (er, x1) = write_message (ev_user_id e) data x
           in (map_option (\<lambda>m. ''write learning event: '' @ m) er, x1)))"

section \<open>From one process to the other\<close>

text \<open>A topic as the messages written to it, in order.\<close>

definition append_message :: "string \<Rightarrow> string \<Rightarrow> kmsg list \<Rightarrow> string option \<times> kmsg list" where
  "append_message k d ms = (None, ms @ [\<lparr>km_key = k, km_value = d\<rparr>])"

text \<open>
  C12. A validation request that the API publishes is understood by the engine: one message is written, under
  the session's id as its key, and the engine's consumer gives its handler exactly the request that was
  published (with bytes that are not UTF-8 replaced; none are when its texts are valid) and then commits
  it, so that no request of the API is ever dropped as unreadable. A result that the engine publishes is
  applied by the API's consumer with the same session, step, verdict and verdict of every check, even when
  the output of a command in a detail is not valid UTF-8.
\<close>

theorem validation_messages_understood:
  assumes "request_in_range q" "co_unmarshal c = unmarshal_request"
    and "in64 (vr_step_id r)" "in64 (vr_duration_ms r)" "valid_utf8 (vr_session_id r)"
  shows "(\<exists>m. PublishRequest marshal_request append_message q ms = (None, ms @ [m])
             \<and> km_key m = vq_session_id q
             \<and> (\<forall>v v1. handler (w_clock v + handlerTimeout) (coerce_request q) v = (None, v1) \<longrightarrow>
                       consume c handler m v = (None, commit c m v1)))
         \<and> (list_all valid_utf8 (request_texts q) \<longrightarrow> coerce_request q = q)
         \<and> results_Run unmarshal_result apply_result [Message (Marshal (encode_result r))] s = apply_result (coerce_result r) s
         \<and> vr_session_id (coerce_result r) = vr_session_id r
         \<and> vr_step_id (coerce_result r) = vr_step_id r
         \<and> vr_passed (coerce_result r) = vr_passed r
         \<and> map cr_passed (vr_checks (coerce_result r)) = map cr_passed (vr_checks r)"
proof -
  have "PublishRequest marshal_request append_message q ms
      = (None, ms @ [\<lparr>km_key = vq_session_id q, km_value = Marshal (encode_request q)\<rparr>])"
    by (simp add: PublishRequest_def marshal_request_def append_message_def)
  moreover have "consume c handler \<lparr>km_key = vq_session_id q, km_value = Marshal (encode_request q)\<rparr> v
      = (None, commit c \<lparr>km_key = vq_session_id q, km_value = Marshal (encode_request q)\<rparr> v1)"
    if "handler (w_clock v + handlerTimeout) (coerce_request q) v = (None, v1)" for v v1
    using assms that by (simp add: consume_def unmarshal_request_marshal)
  moreover have "results_Run unmarshal_result apply_result [Message (Marshal (encode_result r))] s = apply_result (coerce_result r) s"
    using assms by (simp add: unmarshal_result_marshal)
  moreover have "vr_session_id (coerce_result r) = vr_session_id r" "vr_step_id (coerce_result r) = vr_step_id r"
    "vr_passed (coerce_result r) = vr_passed r"
    "map cr_passed (vr_checks (coerce_result r)) = map cr_passed (vr_checks r)"
    using assms by (simp_all add: coerce_result_def valid_coerce coerce_CheckResult_def comp_def)
  ultimately show ?thesis using coerce_request_valid by auto
qed

definition wire_request :: ValidationRequest where
  "wire_request =
     \<lparr>vq_trace_id = ''t1'', vq_traceparent = [], vq_session_id = ''s1'', vq_step_id = 2,
      vq_vm = \<lparr>vm_type = ''kubevirt'', vm_name = ''lab-vm'', vm_namespace = ''sess-s1'', vm_instance_id = [], vm_region = []\<rparr>,
      vq_checks = [\<lparr>chk_type = ''command'', chk_command = ''kubectl get pods'', chk_path = [], chk_url = [], chk_name = [],
                    chk_expect = ''<none>'', chk_expect_code = 0, chk_timeout = 30\<rparr>]\<rparr>"

definition wire_result :: ValidationResult where
  "wire_result =
     \<lparr>vr_trace_id = ''t1'', vr_session_id = ''s1'', vr_step_id = 2, vr_passed = False,
      vr_checks = [\<lparr>cr_type = ''command'', cr_passed = False, cr_detail = [CHR 0xFF]\<rparr>], vr_duration_ms = 12\<rparr>"

theorem validation_messages_understood_witness:
  "coerce_request wire_request = wire_request
   \<and> results_Run unmarshal_result (\<lambda>r rs. rs @ [r]) [Message (Marshal (encode_result wire_result))] []
     = [wire_result\<lparr>vr_checks := [\<lparr>cr_type = ''command'', cr_passed = False, cr_detail = replacement\<rparr>]\<rparr>]"
proof -
  have h: "request_in_range wire_request" "in64 (vr_step_id wire_result)" "in64 (vr_duration_ms wire_result)"
    "valid_utf8 (vr_session_id wire_result)"
    by code_simp+
  have t: "list_all valid_utf8 (request_texts wire_request)" by code_simp
  have c: "coerce_result wire_result = wire_result\<lparr>vr_checks := [\<lparr>cr_type = ''command'', cr_passed = False, cr_detail = replacement\<rparr>]\<rparr>"
    by code_simp
  show ?thesis
    using validation_messages_understood
      [OF h(1) _ h(2,3,4), of "\<lparr>co_commit = \<lambda>m v. (None, v), co_dlq_write = \<lambda>d m v. (None, v), co_unmarshal = unmarshal_request\<rparr>"
        "[]" "\<lambda>d q (v :: unit world). (None, v)" "\<lambda>r rs. rs @ [r]" "[]"] t c
    by simp
qed

end
