(* ===== verification/Engine_Safety.thy ===== *)
theory Engine_Safety
  imports Engine
begin

text \<open>
  The validation engine on a Kafka with faults. The state of the outside is a \<open>bus\<close>: the machines,
  the results that were written and those whose writing reported success, the dead letters and the
  attempts to write them, the messages for which a commit was tried and those whose commit was carried
  out. A script gives the fault of every call on Kafka: it may be refused, or be carried out although an
  error is reported. The writer of the results does not wait for acknowledgements (\<open>producer.New\<close> leaves
  \<open>RequiredAcks\<close> at its default), so that a write that reports success may be lost; the writer of dead
  letters waits for all of them. A call whose context is done fails.
\<close>

section \<open>The bus\<close>

record 'm bus =
  b_machines :: 'm
  b_results :: "ValidationResult list"
  b_published :: "ValidationResult list"
  b_dlq :: "kmsg list"
  b_dlq_tries :: "kmsg list"
  b_commits :: "kmsg list"
  b_committed :: "kmsg list"
  b_calls :: nat

datatype wfault = WOk | WRefused string | WUnsure string | WLost

definition fault_err :: "wfault \<Rightarrow> string option" where
  "fault_err f = (case f of WOk \<Rightarrow> None | WRefused m \<Rightarrow> Some m | WUnsure m \<Rightarrow> Some m | WLost \<Rightarrow> None)"

definition took_effect :: "wfault \<Rightarrow> bool" where
  "took_effect f = (case f of WOk \<Rightarrow> True | WRefused _ \<Rightarrow> False | WUnsure _ \<Rightarrow> True | WLost \<Rightarrow> False)"

text \<open>A call that waits for its acknowledgement is not lost when it reports success.\<close>

definition acked :: "wfault \<Rightarrow> wfault" where
  "acked f = (if f = WLost then WOk else f)"

definition count_call :: "'m bus world \<Rightarrow> 'm bus world" where
  "count_call v = v\<lparr>w_rest := (w_rest v)\<lparr>b_calls := Suc (b_calls (w_rest v))\<rparr>\<rparr>"

definition bus_publish :: "(nat \<Rightarrow> wfault) \<Rightarrow> 'm bus publisher" where
  "bus_publish fs ctx result v =
     (if ctx \<le> w_clock v then (Some ''context deadline exceeded'', v)
      else
        (let f = fs (b_calls (w_rest v)); v1 = count_call v in
         (fault_err f,
          v1\<lparr>w_rest := (w_rest v1)
             \<lparr>b_results := b_results (w_rest v1) @ (if took_effect f then [result] else []),
              b_published := b_published (w_rest v1) @ (if fault_err f = None then [result] else [])\<rparr>\<rparr>)))"

definition bus_dlq :: "(nat \<Rightarrow> wfault) \<Rightarrow> go_time \<Rightarrow> kmsg \<Rightarrow> 'm bus world \<Rightarrow> string option \<times> 'm bus world" where
  "bus_dlq fs ctx msg v =
     (let f = acked (fs (b_calls (w_rest v))); v1 = count_call v in
      (fault_err f,
       v1\<lparr>w_rest := (w_rest v1)
          \<lparr>b_dlq := b_dlq (w_rest v1) @ (if took_effect f then [msg] else []),
           b_dlq_tries := b_dlq_tries (w_rest v1) @ [msg]\<rparr>\<rparr>))"

definition bus_commit :: "(nat \<Rightarrow> wfault) \<Rightarrow> kmsg \<Rightarrow> 'm bus world \<Rightarrow> string option \<times> 'm bus world" where
  "bus_commit fs msg v =
     (let f = acked (fs (b_calls (w_rest v))); v1 = count_call v in
      (fault_err f,
       v1\<lparr>w_rest := (w_rest v1)
          \<lparr>b_commits := b_commits (w_rest v1) @ [msg],
           b_committed := b_committed (w_rest v1) @ (if took_effect f then [msg] else [])\<rparr>\<rparr>))"

definition bus_consumer :: "(nat \<Rightarrow> wfault) \<Rightarrow> (string \<Rightarrow> ValidationRequest option) \<Rightarrow> 'm bus Consumer" where
  "bus_consumer fs unmarshal =
     \<lparr>co_commit = bus_commit fs, co_dlq_write = bus_dlq fs, co_unmarshal = unmarshal\<rparr>"

text \<open>An executor for the machines, acting on the bus.\<close>

definition on_machines :: "'m VMExecutor \<Rightarrow> 'm bus VMExecutor" where
  "on_machines exe = \<lparr>ex_Exec = (\<lambda>ctx cmd v.
      (let (r, v1) = ex_Exec exe ctx cmd \<lparr>w_clock = w_clock v, w_rest = b_machines (w_rest v)\<rparr>
       in (r, \<lparr>w_clock = w_clock v1, w_rest = (w_rest v)\<lparr>b_machines := w_rest v1\<rparr>\<rparr>))),
     ex_DefaultTimeout = ex_DefaultTimeout exe\<rparr>"

definition bus_exec :: "'m engine_env \<Rightarrow> VMSpec \<Rightarrow> string + 'm bus VMExecutor" where
  "bus_exec env vm = (case executor_New env vm of Inl e \<Rightarrow> Inl e | Inr exe \<Rightarrow> Inr (on_machines exe))"

abbreviation engine ::
  "(nat \<Rightarrow> wfault) \<Rightarrow> 'm engine_env \<Rightarrow> go_time \<Rightarrow> ValidationRequest \<Rightarrow> 'm bus world \<Rightarrow> handler_err option \<times> 'm bus world" where
  "engine fs env \<equiv> handle (bus_publish fs) (bus_exec env)"

definition quiet :: "'m bus world \<Rightarrow> 'm bus world \<Rightarrow> bool" where
  "quiet v v' \<longleftrightarrow> b_results (w_rest v') = b_results (w_rest v) \<and> b_published (w_rest v') = b_published (w_rest v)
     \<and> b_dlq (w_rest v') = b_dlq (w_rest v) \<and> b_dlq_tries (w_rest v') = b_dlq_tries (w_rest v)
     \<and> b_commits (w_rest v') = b_commits (w_rest v) \<and> b_committed (w_rest v') = b_committed (w_rest v)"

lemma quiet_refl [simp]: "quiet v v"
  by (simp add: quiet_def)

lemma quiet_trans: "quiet v v' \<Longrightarrow> quiet v' v'' \<Longrightarrow> quiet v v''"
  by (simp add: quiet_def)

lemma on_machines_quiet: "ex_Exec (on_machines exe) ctx cmd v = (r, v') \<Longrightarrow> quiet v v'"
  by (auto simp: on_machines_def quiet_def Let_def split: prod.splits)

lemma dispatch_quiet: "dispatch_check ctx (on_machines exe) check v = (r, v') \<Longrightarrow> quiet v v'"
  by (auto simp: dispatch_check_def check_defs Let_def split: if_splits prod.splits sum.splits
      dest!: on_machines_quiet intro: quiet_trans)

lemma RunAll_quiet: "RunAll ctx (on_machines exe) checks v = (r, v') \<Longrightarrow> quiet v v'"
proof (induction checks arbitrary: v r)
  case (Cons check checks)
  then show ?case
    by (auto simp: Let_def run_check_def split: prod.splits dest!: dispatch_quiet intro: quiet_trans)
qed simp

lemma verdict_quiet: "verdict (bus_exec env) ctx req v = (result, v') \<Longrightarrow> quiet v v'"
  by (auto simp: verdict_def bus_exec_def Let_def split: option.splits sum.splits prod.splits dest: RunAll_quiet)

text \<open>What the handler leaves on the bus.\<close>

lemma engine_run:
  assumes "engine fs env ctx req v = (e, v')"
  obtains result v1 where "verdict (bus_exec env) ctx req v = (result, v1)" and "quiet v v1"
    and "b_dlq (w_rest v') = b_dlq (w_rest v)" and "b_dlq_tries (w_rest v') = b_dlq_tries (w_rest v)"
    and "b_commits (w_rest v') = b_commits (w_rest v)" and "b_committed (w_rest v') = b_committed (w_rest v)"
    and "b_results (w_rest v') \<in> {b_results (w_rest v), b_results (w_rest v) @ [result]}"
    and "b_published (w_rest v') = b_published (w_rest v) @ (if e = None then [result] else [])"
    and "(\<And>n. fs n \<noteq> WLost) \<Longrightarrow> e = None \<Longrightarrow> b_results (w_rest v') = b_results (w_rest v) @ [result]"
    and "\<And>m. e \<noteq> Some (OtherError m)"
proof -
  obtain result v1 where ver: "verdict (bus_exec env) ctx req v = (result, v1)" by fastforce
  note q = verdict_quiet [OF ver]
  have run: "(map_option FatalError (fst (bus_publish fs ctx result v1)), snd (bus_publish fs ctx result v1)) = (e, v')"
    using assms by (simp add: handle_verdict ver Let_def split: prod.splits)
  show thesis
    by (rule that [OF ver q])
      (use run q in \<open>auto simp: bus_publish_def quiet_def count_call_def Let_def fault_err_def took_effect_def
        split: if_splits wfault.splits\<close>)
qed

section \<open>No request is lost\<close>

definition grows :: "'m bus world \<Rightarrow> 'm bus world \<Rightarrow> bool" where
  "grows v v' \<longleftrightarrow> set (b_results (w_rest v)) \<subseteq> set (b_results (w_rest v'))
     \<and> set (b_published (w_rest v)) \<subseteq> set (b_published (w_rest v')) \<and> set (b_dlq (w_rest v)) \<subseteq> set (b_dlq (w_rest v'))
     \<and> (\<forall>m. count_list (b_dlq_tries (w_rest v)) m \<le> count_list (b_dlq_tries (w_rest v')) m)"

lemma grows_refl [simp]: "grows v v"
  by (simp add: grows_def)

lemma grows_trans: "grows v v' \<Longrightarrow> grows v' v'' \<Longrightarrow> grows v v''"
  unfolding grows_def by (meson order_trans)

text \<open>
  What has become of a message that was handled in the state \<open>w\<close>, seen in the later state \<open>v\<close>. A request
  is settled when the verdict that was reached on it in \<open>w\<close>, with all the checks that were run for it then, was
  published with success. Anything else is settled when it is in the dead letter queue, or when the three
  attempts to put it there have failed, in which case only the log has it.
\<close>

definition settled ::
  "(string \<Rightarrow> ValidationRequest option) \<Rightarrow> 'm engine_env \<Rightarrow> kmsg \<Rightarrow> 'm bus world \<Rightarrow> 'm bus world \<Rightarrow> bool" where
  "settled unmarshal env msg w v =
     (case unmarshal (km_value msg) of
        Some req \<Rightarrow> fst (verdict (bus_exec env) (w_clock w + handlerTimeout) req w) \<in> set (b_published (w_rest v))
      | None \<Rightarrow> msg \<in> set (b_dlq (w_rest v))
          \<or> count_list (b_dlq_tries (w_rest w)) msg + 3 \<le> count_list (b_dlq_tries (w_rest v)) msg)"

lemma settled_grows: "settled u env msg w v \<Longrightarrow> grows v v' \<Longrightarrow> settled u env msg w v'"
  by (auto simp: settled_def grows_def split: option.splits intro: order_trans)

text \<open>Without lost writes, what was published with success was written.\<close>

definition honest :: "(nat \<Rightarrow> wfault) \<Rightarrow> 'm bus world \<Rightarrow> bool" where
  "honest fs v \<longleftrightarrow> ((\<forall>n. fs n \<noteq> WLost) \<longrightarrow> set (b_published (w_rest v)) \<subseteq> set (b_results (w_rest v)))"

lemma bus_dlq_effect:
  assumes "bus_dlq fs ctx msg v = (e, v1)"
  shows "grows v v1 \<and> b_commits (w_rest v1) = b_commits (w_rest v) \<and> b_committed (w_rest v1) = b_committed (w_rest v)
    \<and> b_results (w_rest v1) = b_results (w_rest v) \<and> b_published (w_rest v1) = b_published (w_rest v)
    \<and> (e = None \<longrightarrow> msg \<in> set (b_dlq (w_rest v1)))
    \<and> count_list (b_dlq_tries (w_rest v1)) msg = Suc (count_list (b_dlq_tries (w_rest v)) msg)"
  using assms by (auto simp: bus_dlq_def Let_def count_call_def grows_def fault_err_def took_effect_def acked_def
      split: if_splits wfault.splits)

lemma sleep_frame [simp]: "w_rest (sleep d v) = w_rest v"
  by (simp add: sleep_def)

lemma dlq_attempts_effect:
  "dlq_attempts n (bus_consumer fs u) msg v = (ok, v') \<Longrightarrow>
   grows v v' \<and> b_commits (w_rest v') = b_commits (w_rest v) \<and> b_committed (w_rest v') = b_committed (w_rest v)
   \<and> b_results (w_rest v') = b_results (w_rest v) \<and> b_published (w_rest v') = b_published (w_rest v)
   \<and> (if ok then msg \<in> set (b_dlq (w_rest v'))
      else count_list (b_dlq_tries (w_rest v)) msg + n \<le> count_list (b_dlq_tries (w_rest v')) msg)"
proof (induction n arbitrary: v)
  case (Suc n)
  obtain e v1 where one: "bus_dlq fs (w_clock v + dlqWriteTimeout) msg v = (e, v1)" by fastforce
  note eff = bus_dlq_effect [OF one]
  have wr: "co_dlq_write (bus_consumer fs u) (w_clock v + dlqWriteTimeout) \<lparr>km_key = km_key msg, km_value = km_value msg\<rparr> v = (e, v1)"
    using one by (cases msg) (simp add: bus_consumer_def)
  show ?case
  proof (cases e)
    case None
    with Suc.prems wr eff show ?thesis by simp
  next
    case (Some m)
    let ?w = "if n > 0 then sleep dlqRetryInterval v1 else v1"
    have rest: "w_rest ?w = w_rest v1" by simp
    have "dlq_attempts n (bus_consumer fs u) msg ?w = (ok, v')"
      using Suc.prems wr Some by simp
    from Suc.IH [OF this] show ?thesis
      unfolding grows_def rest using eff unfolding grows_def by (auto intro: order_trans)
  qed
qed simp

lemma commit_effect:
  assumes "v' = commit (bus_consumer fs u) msg v"
  shows "grows v v' \<and> b_commits (w_rest v') = b_commits (w_rest v) @ [msg]
   \<and> b_results (w_rest v') = b_results (w_rest v) \<and> b_published (w_rest v') = b_published (w_rest v)
   \<and> b_committed (w_rest v') \<in> {b_committed (w_rest v), b_committed (w_rest v) @ [msg]}
   \<and> ((\<forall>n. took_effect (acked (fs n))) \<longrightarrow> b_committed (w_rest v') = b_committed (w_rest v) @ [msg])"
  using assms by (simp add: commit_def bus_consumer_def bus_commit_def Let_def count_call_def grows_def)

text \<open>What one turn of the loop leaves behind.\<close>

definition turn ::
  "(nat \<Rightarrow> wfault) \<Rightarrow> (string \<Rightarrow> ValidationRequest option) \<Rightarrow> 'm engine_env \<Rightarrow> kmsg \<Rightarrow> bool \<Rightarrow> 'm bus world \<Rightarrow> 'm bus world \<Rightarrow> bool" where
  "turn fs u env msg ok v v' \<longleftrightarrow> grows v v' \<and> (honest fs v \<longrightarrow> honest fs v') \<and>
     (if ok
      then b_commits (w_rest v') = b_commits (w_rest v) @ [msg] \<and> settled u env msg v v'
        \<and> b_committed (w_rest v') \<in> {b_committed (w_rest v), b_committed (w_rest v) @ [msg]}
        \<and> ((\<forall>n. took_effect (acked (fs n))) \<longrightarrow> b_committed (w_rest v') = b_committed (w_rest v) @ [msg])
      else b_commits (w_rest v') = b_commits (w_rest v) \<and> b_committed (w_rest v') = b_committed (w_rest v))"

lemma consume_effect:
  assumes "consume (bus_consumer fs u) (engine fs env) msg v = (err, v')"
  shows "turn fs u env msg (err = None) v v'"
proof (cases "u (km_value msg)")
  case None
  obtain ok v1 where dlq: "publishToDLQ (bus_consumer fs u) msg v = (ok, v1)" by fastforce
  note d = dlq_attempts_effect [OF dlq [unfolded publishToDLQ_def]]
  have run: "err = None" "v' = commit (bus_consumer fs u) msg v1"
    using assms None dlq by (auto simp: consume_def bus_consumer_def)
  note c = commit_effect [OF run(2)]
  have "settled u env msg v v1" using None d by (auto simp: settled_def dlqMaxRetries_def split: if_splits)
  then have "settled u env msg v v'" using c settled_grows by blast
  then show ?thesis
    using run(1) c d grows_trans [of v v1 v'] by (auto simp: turn_def honest_def)
next
  case (Some req)
  obtain e v1 where h: "engine fs env (w_clock v + handlerTimeout) req v = (e, v1)" by fastforce
  show ?thesis
  proof (rule engine_run [OF h])
    fix result w
    assume ver: "verdict (bus_exec env) (w_clock v + handlerTimeout) req v = (result, w)" and "quiet v w"
      and frame: "b_dlq (w_rest v1) = b_dlq (w_rest v)" "b_dlq_tries (w_rest v1) = b_dlq_tries (w_rest v)"
        "b_commits (w_rest v1) = b_commits (w_rest v)" "b_committed (w_rest v1) = b_committed (w_rest v)"
        "b_results (w_rest v1) \<in> {b_results (w_rest v), b_results (w_rest v) @ [result]}"
        "b_published (w_rest v1) = b_published (w_rest v) @ (if e = None then [result] else [])"
      and res: "(\<And>n. fs n \<noteq> WLost) \<Longrightarrow> e = None \<Longrightarrow> b_results (w_rest v1) = b_results (w_rest v) @ [result]"
      and no: "\<And>m. e \<noteq> Some (OtherError m)"
    have g: "grows v v1" "honest fs v \<longrightarrow> honest fs v1" using frame res by (auto simp: grows_def honest_def)
    show ?thesis
    proof (cases e)
      case None
      have run: "err = None" "v' = commit (bus_consumer fs u) msg v1"
        using assms Some h None by (auto simp: consume_def bus_consumer_def)
      note c = commit_effect [OF run(2)]
      have "settled u env msg v v1" using Some None frame ver by (simp add: settled_def)
      then have "settled u env msg v v'" using c settled_grows by blast
      then show ?thesis
        using run(1) c g frame(3,4) grows_trans [of v v1 v'] by (auto simp: turn_def honest_def)
    next
      case (Some x)
      with no obtain m where "e = Some (FatalError m)" by (cases x) auto
      then show ?thesis
        using assms \<open>u (km_value msg) = Some req\<close> h g frame by (auto simp: turn_def consume_def bus_consumer_def)
    qed
  qed
qed

fun fetched :: "fetch list \<Rightarrow> kmsg list" where
  "fetched (Fetched m # fs) = m # fetched fs"
| "fetched _ = []"

text \<open>The state in which the \<open>j\<close>-th message is handled.\<close>

definition world_before ::
  "(nat \<Rightarrow> wfault) \<Rightarrow> (string \<Rightarrow> ValidationRequest option) \<Rightarrow> 'm engine_env \<Rightarrow> kmsg list \<Rightarrow> nat \<Rightarrow> 'm bus world \<Rightarrow> 'm bus world" where
  "world_before fs u env msgs j v = snd (consumer_Run (bus_consumer fs u) (engine fs env) (map Fetched (take j msgs)) v)"

lemma world_before_0 [simp]: "world_before fs u env msgs 0 v = v"
  by (simp add: world_before_def)

lemma world_before_Suc:
  "consume (bus_consumer fs u) (engine fs env) msg v = (None, v1) \<Longrightarrow>
   world_before fs u env (msg # msgs) (Suc j) v = world_before fs u env msgs j v1"
  by (simp add: world_before_def)

lemma Run_effect:
  "consumer_Run (bus_consumer fs u) (engine fs env) fetches v = (res, v') \<Longrightarrow>
   grows v v' \<and> (honest fs v \<longrightarrow> honest fs v') \<and>
   (\<exists>k ys. b_commits (w_rest v') = b_commits (w_rest v) @ take k (fetched fetches) \<and> k \<le> length (fetched fetches)
     \<and> b_committed (w_rest v') = b_committed (w_rest v) @ ys \<and> set ys \<subseteq> set (take k (fetched fetches))
     \<and> ((\<forall>n. took_effect (acked (fs n))) \<longrightarrow> ys = take k (fetched fetches))
     \<and> (res \<in> {Waiting, Stopped} \<longrightarrow> k = length (fetched fetches))
     \<and> (\<forall>j<k. settled u env (fetched fetches ! j) (world_before fs u env (fetched fetches) j v) v'))"
proof (induction fetches arbitrary: v)
  case (Cons f fetches)
  show ?case
  proof (cases f)
    case (Fetched msg)
    obtain err v1 where one: "consume (bus_consumer fs u) (engine fs env) msg v = (err, v1)" by fastforce
    note eff = consume_effect [OF one, unfolded turn_def]
    show ?thesis
    proof (cases err)
      case None
      then have rest: "consumer_Run (bus_consumer fs u) (engine fs env) fetches v1 = (res, v')"
        using Cons.prems Fetched one by simp
      from Cons.IH [OF this] obtain k ys where k: "grows v1 v'" "honest fs v1 \<longrightarrow> honest fs v'"
        "b_commits (w_rest v') = b_commits (w_rest v1) @ take k (fetched fetches)" "k \<le> length (fetched fetches)"
        "b_committed (w_rest v') = b_committed (w_rest v1) @ ys" "set ys \<subseteq> set (take k (fetched fetches))"
        "(\<forall>n. took_effect (acked (fs n))) \<longrightarrow> ys = take k (fetched fetches)"
        "res \<in> {Waiting, Stopped} \<longrightarrow> k = length (fetched fetches)"
        "\<forall>j<k. settled u env (fetched fetches ! j) (world_before fs u env (fetched fetches) j v1) v'" by blast
      have "\<exists>zs. b_committed (w_rest v1) = b_committed (w_rest v) @ zs \<and> set zs \<subseteq> {msg}
          \<and> ((\<forall>n. took_effect (acked (fs n))) \<longrightarrow> zs = [msg])"
        using eff None by (cases "b_committed (w_rest v1) = b_committed (w_rest v)") auto
      then obtain zs where zs: "b_committed (w_rest v1) = b_committed (w_rest v) @ zs" "set zs \<subseteq> {msg}"
        "(\<forall>n. took_effect (acked (fs n))) \<longrightarrow> zs = [msg]" by blast
      have first: "settled u env msg v v1" "grows v v1" "honest fs v \<longrightarrow> honest fs v1"
        "b_commits (w_rest v1) = b_commits (w_rest v) @ [msg]" using eff None by simp_all
      have all: "settled u env ((msg # fetched fetches) ! j) (world_before fs u env (msg # fetched fetches) j v) v'"
        if "j < Suc k" for j
      proof (cases j)
        case 0
        then show ?thesis using settled_grows [OF first(1) k(1)] by simp
      next
        case (Suc i)
        then show ?thesis using k(9) that world_before_Suc [of fs u env msg v v1 "fetched fetches" i] one None by simp
      qed
      have comm: "b_committed (w_rest v') = b_committed (w_rest v) @ zs @ ys" using zs(1) k(5) by simp
      have sub: "set (zs @ ys) \<subseteq> set (take (Suc k) (msg # fetched fetches))" using zs(2) k(6) by auto
      have full: "(\<forall>n. took_effect (acked (fs n))) \<longrightarrow> zs @ ys = take (Suc k) (msg # fetched fetches)"
        using zs(3) k(7) by simp
      have "b_commits (w_rest v') = b_commits (w_rest v) @ take (Suc k) (msg # fetched fetches)" using first(4) k(3) by simp
      with comm sub full all first(3) k(2,4,8) grows_trans [OF first(2) k(1)] show ?thesis
        unfolding Fetched fetched.simps by (intro conjI exI [of _ "Suc k"] exI [of _ "zs @ ys"]) simp_all
    next
      case (Some e)
      then show ?thesis using Cons.prems Fetched one eff by (auto intro!: exI [of _ 0])
    qed
  qed (use Cons.prems in \<open>auto intro!: exI [of _ 0]\<close>)
qed auto

text \<open>
  C16. Nothing is committed unanswered: whatever Kafka refuses, loses or carries out while reporting an error, and
  however the machines behave, the consumer tries to commit the fetched messages in order and without gaps, and by then
  each of them is settled: the verdict reached on a request when it was handled has been published
  without an error, any other message is in the dead letter queue or has failed to get there three
  times. As long as no write that reports success is lost, these verdicts have been written. While the consumer
  runs and when it is stopped it has tried to commit everything it fetched; a commit that is refused is
  only logged, and the message is not among the committed ones.
\<close>

theorem engine_answers_before_commit:
  assumes "consumer_Run (bus_consumer fs unmarshal) (engine fs env) fetches v = (res, v')"
    and "b_commits (w_rest v) = []" and "b_committed (w_rest v) = []" and "b_published (w_rest v) = []"
  shows "\<exists>k \<le> length (fetched fetches). b_commits (w_rest v') = take k (fetched fetches)
    \<and> set (b_committed (w_rest v')) \<subseteq> set (take k (fetched fetches))
    \<and> (res \<in> {Waiting, Stopped} \<longrightarrow> k = length (fetched fetches))
    \<and> (\<forall>j<k. settled unmarshal env (fetched fetches ! j) (world_before fs unmarshal env (fetched fetches) j v) v')
    \<and> ((\<forall>n. fs n \<noteq> WLost) \<longrightarrow> set (b_published (w_rest v')) \<subseteq> set (b_results (w_rest v')))"
proof -
  have "honest fs v" using assms(4) by (simp add: honest_def)
  with Run_effect [OF assms(1)] obtain k ys where k: "honest fs v'" "k \<le> length (fetched fetches)"
    "b_commits (w_rest v') = take k (fetched fetches)" "b_committed (w_rest v') = ys" "set ys \<subseteq> set (take k (fetched fetches))"
    "res \<in> {Waiting, Stopped} \<longrightarrow> k = length (fetched fetches)"
    "\<forall>j<k. settled unmarshal env (fetched fetches ! j) (world_before fs unmarshal env (fetched fetches) j v) v'"
    unfolding assms(2,3) append_Nil by blast
  show ?thesis using k(2-7) k(1) [unfolded honest_def] by (intro exI [of _ k] conjI) simp_all
qed

definition hung_request :: ValidationRequest where
  "hung_request = \<lparr>vq_trace_id = ''t1'', vq_traceparent = [], vq_session_id = ''s1'', vq_step_id = 1,
     vq_vm = hung_vm, vq_checks = [file_check]\<rparr>"

definition empty_bus :: "unit bus world" where
  "empty_bus = \<lparr>w_clock = 0, w_rest = \<lparr>b_machines = (), b_results = [], b_published = [], b_dlq = [], b_dlq_tries = [],
     b_commits = [], b_committed = [], b_calls = 0\<rparr>\<rparr>"

text \<open>
  A result that says "passed" is written only for a well-formed request (a session, a step,
  between 1 and 20 checks, every check with the fields of its type) whose machine has an executor
  and all of whose checks were run there and passed; it has one entry per check.
\<close>

theorem engine_passes_only_after_all_checks:
  assumes "engine fs env ctx req v = (e, v')" and "b_results (w_rest v') = b_results (w_rest v) @ [result]"
    and "vr_passed result"
  shows "request_error req = None \<and> 1 \<le> length (vq_checks req) \<and> length (vq_checks req) \<le> 20
    \<and> (\<exists>exe v1. executor_New env (vq_vm req) = Inr exe
         \<and> RunAll ctx (on_machines exe) (vq_checks req) v = ((vr_checks result, True), v1)
         \<and> length (vr_checks result) = length (vq_checks req) \<and> list_all cr_passed (vr_checks result))"
proof (rule engine_run [OF assms(1)])
  fix r v1
  assume ver: "verdict (bus_exec env) ctx req v = (r, v1)"
    and "b_results (w_rest v') \<in> {b_results (w_rest v), b_results (w_rest v) @ [r]}"
  then have "verdict (bus_exec env) ctx req v = (result, v1)" using assms(2) by auto
  from verdict_passed [OF this assms(3)] show ?thesis
    by (auto simp: request_error_None maxChecks_def Suc_le_eq bus_exec_def split: sum.splits)
qed

definition ready_env :: "unit engine_env" where
  "ready_env = \<lparr>en_getenv = (\<lambda>_. []), en_exec = (\<lambda>argv v. (Inr \<lparr>ps_time = 5, ps_code = 0, ps_stdout = [], ps_stderr = (\<lambda>_. []), ps_linger = 0\<rparr>, v)),
     en_aws_config = (\<lambda>_. None), en_ssm = (\<lambda>_. hung_ssm)\<rparr>"

definition ready_request :: ValidationRequest where
  "ready_request = hung_request\<lparr>vq_vm := \<lparr>vm_type = ''kubevirt'', vm_name = ''session-vm'', vm_namespace = ''lab-s1'',
     vm_instance_id = [], vm_region = []\<rparr>\<rparr>"

text \<open>A dead letter that is refused twice, a request that is answered, and a commit of it that is refused.\<close>

definition flaky :: "nat \<Rightarrow> wfault" where
  "flaky n = (if n < 2 \<or> n = 5 then WRefused ''down'' else WOk)"

definition flaky_unmarshal :: "string \<Rightarrow> ValidationRequest option" where
  "flaky_unmarshal s = (if s = ''junk'' then None else Some ready_request)"

definition two_messages :: "kmsg list" where
  "two_messages = [\<lparr>km_key = [], km_value = ''junk''\<rparr>, \<lparr>km_key = ''s1'', km_value = ''request''\<rparr>]"

lemma flaky_run:
  "fst (consumer_Run (bus_consumer flaky flaky_unmarshal) (engine flaky ready_env) (map Fetched two_messages) empty_bus) = Waiting
   \<and> b_committed (w_rest (snd (consumer_Run (bus_consumer flaky flaky_unmarshal) (engine flaky ready_env) (map Fetched two_messages) empty_bus)))
     = [two_messages ! 0]"
  by code_simp

theorem engine_answers_before_commit_witness:
  "\<exists>v'. consumer_Run (bus_consumer flaky flaky_unmarshal) (engine flaky ready_env) (map Fetched two_messages) empty_bus = (Waiting, v')
     \<and> b_commits (w_rest v') = two_messages \<and> b_committed (w_rest v') = [two_messages ! 0]
     \<and> settled flaky_unmarshal ready_env (two_messages ! 1) (world_before flaky flaky_unmarshal ready_env two_messages 1 empty_bus) v'"
proof -
  let ?run = "consumer_Run (bus_consumer flaky flaky_unmarshal) (engine flaky ready_env) (map Fetched two_messages) empty_bus"
  have run: "?run = (Waiting, snd ?run)" using flaky_run by (metis surjective_pairing)
  have f: "fetched (map Fetched two_messages) = two_messages" "length two_messages = 2" by (simp_all add: two_messages_def)
  have "b_commits (w_rest empty_bus) = []" "b_committed (w_rest empty_bus) = []" "b_published (w_rest empty_bus) = []"
    by (simp_all add: empty_bus_def)
  from engine_answers_before_commit [OF run this] obtain k where
    "b_commits (w_rest (snd ?run)) = take k two_messages" "k = 2"
    "\<forall>j<k. settled flaky_unmarshal ready_env (two_messages ! j) (world_before flaky flaky_unmarshal ready_env two_messages j empty_bus) (snd ?run)"
    unfolding f by auto
  with run f flaky_run show ?thesis by (intro exI [of _ "snd ?run"]) auto
qed

theorem engine_passes_only_after_all_checks_witness:
  "\<exists>v' result. engine (\<lambda>_. WOk) ready_env (300 * second) ready_request empty_bus = (None, v')
     \<and> b_results (w_rest v') = [result] \<and> vr_passed result \<and> length (vr_checks result) = 1"
proof -
  let ?run = "engine (\<lambda>_. WOk) ready_env (300 * second) ready_request empty_bus"
  let ?result = "\<lparr>vr_trace_id = ''t1'', vr_session_id = ''s1'', vr_step_id = 1, vr_passed = True,
     vr_checks = [chk_pass CheckFileExists], vr_duration_ms = 0\<rparr>"
  have "fst ?run = None \<and> b_results (w_rest (snd ?run)) = [?result]" by code_simp
  then have run: "?run = (None, snd ?run)" "b_results (w_rest (snd ?run)) = b_results (w_rest empty_bus) @ [?result]"
    by (simp_all add: empty_bus_def prod_eq_iff)
  from engine_passes_only_after_all_checks [OF run] have "length (vr_checks ?result) = length (vq_checks ready_request)"
    by auto
  then show ?thesis
    using run by (intro exI [of _ "snd ?run"] exI [of _ ?result])
      (simp add: ready_request_def hung_request_def empty_bus_def)
qed

lemma hung_exec:
  assumes "w_clock v < ctx"
  shows "\<exists>e v'. ex_Exec (on_machines (ec2_executor hung_ssm iid)) ctx cmd v = (Inl e, v') \<and> err_deadline e \<and> w_clock v' = ctx"
proof -
  let ?m = "\<lparr>w_clock = w_clock v, w_rest = b_machines (w_rest v)\<rparr>"
  have call: "api_call (ssm_ctx_text hung_ssm) (ssm_SendCommand hung_ssm iid cmd) ctx ?m = (Inr ''c-1'', ?m)"
    using assms by (simp add: api_call_def hung_ssm_def)
  show ?thesis
    using ssm_poll_hung [of ?m ctx iid "''c-1''"] assms
    by (auto simp: on_machines_def ec2_executor_def ec2_Exec_def call)
qed

lemma hung_verdict_late:
  assumes "verdict (bus_exec hung_env) (w_clock v + handlerTimeout) hung_request v = (result, v1)"
  shows "w_clock v1 = w_clock v + handlerTimeout"
proof -
  let ?ctx = "w_clock v + handlerTimeout" and ?exe = "on_machines (ec2_executor hung_ssm ''i-1'')"
  have ok: "request_error hung_request = None" by code_simp
  have new: "bus_exec hung_env hung_vm = Inr ?exe" by (simp add: bus_exec_def hung_new)
  have limit: "min ?ctx (w_clock v + check_timeout ?exe file_check) = ?ctx"
    by (simp add: check_timeout_def file_check_def blank_check_def on_machines_def ec2_executor_def
        ec2DefaultTimeout_def handlerTimeout_def)
  have pos: "w_clock v < ?ctx" by (simp add: handlerTimeout_def minute_def second_def)
  obtain e v2 where ex: "ex_Exec ?exe ?ctx (''test -f /etc/hosts'') v = (Inl e, v2)" "err_deadline e" "w_clock v2 = ?ctx"
    using hung_exec [OF pos] by blast
  have safe: "safePathRe ''/etc/hosts''" by code_simp
  have "run_check ?ctx ?exe file_check v = (requestError txt_timeout, v2)"
    unfolding run_check_def limit using ex safe
    by (simp add: dispatch_check_def file_check_def blank_check_def check_types runFileExists_def)
  moreover have "vq_vm hung_request = hung_vm" "vq_checks hung_request = [file_check]"
    by (simp_all add: hung_request_def)
  ultimately show ?thesis
    using assms ex(3) by (auto simp: verdict_def ok new)
qed

text \<open>
  A machine that hangs stops the engine for good: the default time limit of an EC2 check is the
  time limit of the whole request, so that a check on a machine whose command never ends uses up the
  context under which the result is to be published. Publishing fails, the consumer ends with an
  error without having written a result or committed the message, and does so again on every
  delivery, whatever Kafka does.
\<close>

theorem hung_check_wedges_engine:
  "\<exists>e v'. consumer_Run (bus_consumer fs (\<lambda>_. Some hung_request)) (engine fs hung_env) (Fetched msg # fetches) v = (RunError e, v')
     \<and> b_results (w_rest v') = b_results (w_rest v) \<and> b_committed (w_rest v') = b_committed (w_rest v)"
proof -
  let ?ctx = "w_clock v + handlerTimeout" and ?exe = "on_machines (ec2_executor hung_ssm ''i-1'')"
  obtain result v1 where ver: "verdict (bus_exec hung_env) ?ctx hung_request v = (result, v1)" by fastforce
  have late: "w_clock v1 = ?ctx" using hung_verdict_late [OF ver] .
  have "engine fs hung_env ?ctx hung_request v = (Some (FatalError ''context deadline exceeded''), v1)"
    using late by (simp add: handle_verdict ver bus_publish_def)
  then show ?thesis
    using verdict_quiet [OF ver] by (simp add: consume_def bus_consumer_def quiet_def)
qed

end
