(* ===== verification/Step_Machine.thy ===== *)
theory Step_Machine
  imports Step_Store
begin

text \<open>
  The progress of one session as a state machine. The operations of the step store run each under
  the mutex, but a request uses several of them: \<open>ValidateStep\<close> looks the step up with
  \<open>findValidatableStepIndex\<close>, publishes a validation request, and only then calls
  \<open>markStepValidating\<close> (or, without an engine, \<open>markStepPassed\<close>), while results arrive through
  \<open>ApplyValidationResult\<close> at any time. The step relation interleaves these operations freely.
\<close>

section \<open>The step relation\<close>

text \<open>
  \<open>vs_cleared\<close> holds the indices that \<open>findValidatableStepIndex\<close> has returned to requests,
  \<open>vs_published\<close> the step ids of the requests sent to the engine, and \<open>ever_passed\<close> is a ghost: the
  step ids that a passing result (or a mock pass) has been applied to.
\<close>

record vstate =
  vs_sess :: sessionSteps
  vs_cleared :: "nat set"
  vs_published :: "int set"
  ever_passed :: "int set"

inductive vstep :: "vstate \<Rightarrow> vstate \<Rightarrow> bool" where
  precheck: "fst (validatable_fn k (vs_sess s)) = (Some i, False) \<Longrightarrow>
     vstep s (s\<lparr>vs_cleared := insert i (vs_cleared s)\<rparr>)"
| publish: "i \<in> vs_cleared s \<Longrightarrow>
     vstep s (s\<lparr>vs_published := insert (step_id (ss_steps (vs_sess s) ! i)) (vs_published s)\<rparr>)"
| validating: "i \<in> vs_cleared s \<Longrightarrow>
     vstep s (s\<lparr>vs_sess := snd (snd (mark_validating_fn (int i) (vs_sess s)))\<rparr>)"
| mock_pass: "i \<in> vs_cleared s \<Longrightarrow>
     vstep s (s\<lparr>vs_sess := snd (snd (mark_passed_fn (int i) (vs_sess s))),
                ever_passed := insert (step_id (ss_steps (vs_sess s) ! i)) (ever_passed s)\<rparr>)"
| result: "vr_step_id r \<in> vs_published s \<Longrightarrow>
     vstep s (s\<lparr>vs_sess := snd (snd (apply_result_fn r (vs_sess s))),
                ever_passed := (if vr_passed r then insert (vr_step_id r) (ever_passed s)
                                else ever_passed s)\<rparr>)"
| hint: "0 \<le> e \<Longrightarrow> e \<le> maxHintLevel \<Longrightarrow>
     vstep s (s\<lparr>vs_sess := snd (snd (next_hint_fn k e (vs_sess s)))\<rparr>)"

definition vinit :: "string \<Rightarrow> string \<Rightarrow> int list \<Rightarrow> vstate" where
  "vinit lab uid ks =
     \<lparr>vs_sess = init_session lab uid ks, vs_cleared = {}, vs_published = {}, ever_passed = {}\<rparr>"

inductive reachable :: "string \<Rightarrow> string \<Rightarrow> int list \<Rightarrow> vstate \<Rightarrow> bool" for lab uid ks where
  start: "reachable lab uid ks (vinit lab uid ks)"
| step: "reachable lab uid ks s \<Longrightarrow> vstep s s' \<Longrightarrow> reachable lab uid ks s'"

inductive_cases vstepE: "vstep s s'"

section \<open>Gating\<close>

text \<open>
  The invariant: nothing is cleared, published or passed before every earlier step has passed.
\<close>

definition before_passed :: "int list \<Rightarrow> int set \<Rightarrow> nat \<Rightarrow> bool" where
  "before_passed ks ep i \<longleftrightarrow> i < length ks \<and> (\<forall>j<i. ks ! j \<in> ep)"

definition gate_inv :: "string \<Rightarrow> string \<Rightarrow> int list \<Rightarrow> vstate \<Rightarrow> bool" where
  "gate_inv lab uid ks s \<longleftrightarrow>
     legal_session (vs_sess s) \<and> map step_id (ss_steps (vs_sess s)) = ks
     \<and> ss_lab_id (vs_sess s) = lab \<and> ss_user_id (vs_sess s) = uid
     \<and> (\<forall>i\<in>vs_cleared s. before_passed ks (ever_passed s) i)
     \<and> (\<forall>k\<in>vs_published s. \<exists>i. before_passed ks (ever_passed s) i \<and> ks ! i = k)
     \<and> (\<forall>k\<in>ever_passed s. \<exists>i. before_passed ks (ever_passed s) i \<and> ks ! i = k)
     \<and> (\<forall>i<length ks. step_status (ss_steps (vs_sess s) ! i) = ''passed'' \<longrightarrow> ks ! i \<in> ever_passed s)"

lemma before_passed_mono: "before_passed ks ep i \<Longrightarrow> ep \<subseteq> ep' \<Longrightarrow> before_passed ks ep' i"
  by (auto simp: before_passed_def)

lemma modify_step_nth:
  "i < length (ss_steps ss) \<Longrightarrow>
   ss_steps (modify_step j f ss) ! i = (if i = j then f (ss_steps ss ! i) else ss_steps ss ! i)"
  by (auto simp: modify_step_def nth_list_update)

lemma open_next_status:
  "i < length (ss_steps ss) \<Longrightarrow>
   step_status (ss_steps (open_next j ss) ! i)
   = (if i = j + 1 \<and> step_status (ss_steps ss ! i) = ''pending'' then ''active''
      else step_status (ss_steps ss ! i))"
  by (auto simp: open_next_def modify_step_nth)

lemma mark_validating_status:
  "i < length (ss_steps ss) \<Longrightarrow> 0 \<le> j \<Longrightarrow> j < int (length (ss_steps ss)) \<Longrightarrow>
   step_status (ss_steps (snd (snd (mark_validating_fn j ss))) ! i)
   = (if i = nat j then ''validating'' else step_status (ss_steps ss ! i))"
  by (auto simp: mark_validating_fn_def modify_step_nth)

lemma mark_passed_status:
  "i < length (ss_steps ss) \<Longrightarrow> 0 \<le> j \<Longrightarrow> j < int (length (ss_steps ss)) \<Longrightarrow>
   step_status (ss_steps (snd (snd (mark_passed_fn j ss))) ! i)
   = (if i = nat j then ''passed''
      else if i = nat j + 1 \<and> step_status (ss_steps ss ! i) = ''pending'' then ''active''
      else step_status (ss_steps ss ! i))"
  by (auto simp: mark_passed_fn_def Let_def open_next_status modify_step_nth)

lemma apply_result_status:
  "i < length (ss_steps ss) \<Longrightarrow> step_at (vr_step_id r) ss = Some j \<Longrightarrow>
   step_status (ss_steps (snd (snd (apply_result_fn r ss))) ! i)
   = (if i = j then (if vr_passed r then ''passed'' else ''failed'')
      else if vr_passed r \<and> i = j + 1 \<and> step_status (ss_steps ss ! i) = ''pending'' then ''active''
      else step_status (ss_steps ss ! i))"
  by (auto simp: apply_result_fn_def Let_def open_next_status modify_step_nth)

lemma next_hint_status:
  "i < length (ss_steps ss) \<Longrightarrow>
   step_status (ss_steps (snd (snd (next_hint_fn k e ss))) ! i) = step_status (ss_steps ss ! i)"
  by (auto simp: next_hint_fn_def Let_def modify_step_nth split: option.split)

lemma step_at_nth:
  assumes "legal_session ss" and "i < length (ss_steps ss)"
  shows "step_at (step_id (ss_steps ss ! i)) ss = Some i"
  using assms find_index_distinct [of step_id "ss_steps ss" i]
  by (simp add: step_at_def legal_session_def)

lemma gate_invD:
  assumes "gate_inv lab uid ks s"
  shows "legal_session (vs_sess s)" and "map step_id (ss_steps (vs_sess s)) = ks"
    and "ss_lab_id (vs_sess s) = lab" and "ss_user_id (vs_sess s) = uid"
    and "i \<in> vs_cleared s \<Longrightarrow> before_passed ks (ever_passed s) i"
    and "k \<in> vs_published s \<Longrightarrow> \<exists>i. before_passed ks (ever_passed s) i \<and> ks ! i = k"
    and "k \<in> ever_passed s \<Longrightarrow> \<exists>i. before_passed ks (ever_passed s) i \<and> ks ! i = k"
    and "i < length ks \<Longrightarrow> step_status (ss_steps (vs_sess s) ! i) = ''passed'' \<Longrightarrow> ks ! i \<in> ever_passed s"
    and "length (ss_steps (vs_sess s)) = length ks"
    and "i < length ks \<Longrightarrow> step_id (ss_steps (vs_sess s) ! i) = ks ! i"
  using assms by (simp_all add: gate_inv_def) (auto simp: gate_inv_def)

text \<open>
  A change of the session that keeps its shape and legality preserves the invariant when every
  step it turns to \<open>passed\<close> is recorded in the ghost, behind steps that are recorded too.
\<close>

lemma session_change:
  assumes g: "gate_inv lab uid ks s" and wb: "well_behaved fn" and fn: "fn (vs_sess s) = (r, d, ss')"
    and legal: "legal_session ss'" and ep: "ever_passed s \<subseteq> ep"
    and new: "\<And>k. k \<in> ep \<Longrightarrow> k \<notin> ever_passed s \<Longrightarrow> \<exists>i. before_passed ks (ever_passed s) i \<and> ks ! i = k"
    and st: "\<And>i. i < length ks \<Longrightarrow> step_status (ss_steps ss' ! i) = ''passed'' \<Longrightarrow>
           step_status (ss_steps (vs_sess s) ! i) = ''passed'' \<or> ks ! i \<in> ep"
  shows "gate_inv lab uid ks (s\<lparr>vs_sess := ss', ever_passed := ep\<rparr>)"
proof -
  note mono = before_passed_mono [OF _ ep]
  have shape: "same_shape (vs_sess s) ss'" by (rule well_behavedD [OF wb fn])
  have "map step_id (ss_steps ss') = ks" "ss_lab_id ss' = lab" "ss_user_id ss' = uid"
    using shape gate_invD(2-4) [OF g] by (simp_all add: same_shape_def)
  moreover have "before_passed ks ep i" if "i \<in> vs_cleared s" for i
    using mono gate_invD(5) [OF g that] by blast
  moreover have "\<exists>i. before_passed ks ep i \<and> ks ! i = k" if "k \<in> vs_published s" for k
    using mono gate_invD(6) [OF g that] by blast
  moreover have "\<exists>i. before_passed ks ep i \<and> ks ! i = k" if "k \<in> ep" for k
    using mono gate_invD(7) [OF g] new [OF that] by blast
  moreover have "ks ! i \<in> ep" if "i < length ks" "step_status (ss_steps ss' ! i) = ''passed''" for i
    using st [OF that] gate_invD(8) [OF g that(1)] ep by blast
  ultimately show ?thesis
    using legal by (simp add: gate_inv_def)
qed

lemma gate_vinit: "sorted ks \<Longrightarrow> distinct ks \<Longrightarrow> gate_inv lab uid ks (vinit lab uid ks)"
proof -
  assume sd: "sorted ks" "distinct ks"
  have "step_status (init_steps 0 ks ! i) \<noteq> ''passed''" if "i < length ks" for i
    using init_steps_status [of "init_steps 0 ks ! i" 0 ks] that by auto
  then show ?thesis
    using init_session_legal [OF sd, of lab uid]
    by (simp add: gate_inv_def vinit_def init_session_def Let_def)
qed

lemma gate_precheck:
  assumes g: "gate_inv lab uid ks s" and "fst (validatable_fn k (vs_sess s)) = (Some i, False)"
  shows "before_passed ks (ever_passed s) i"
proof -
  from assms(2) have i: "step_at k (vs_sess s) = Some i" and b: "\<not> blocked_loop i (ss_steps (vs_sess s))"
    by (auto simp: validatable_fn_def Let_def split: option.splits)
  have il: "i < length ks"
    using find_index_SomeD(1) [OF i [unfolded step_at_def]] gate_invD(9) [OF g] by simp
  moreover have "ks ! j \<in> ever_passed s" if "j < i" for j
    using that b il gate_invD(8,9) [OF g] by (auto simp: blocked_loop_iff)
  ultimately show ?thesis by (simp add: before_passed_def)
qed

lemma gate_validating:
  assumes g: "gate_inv lab uid ks s" and i: "i \<in> vs_cleared s"
  shows "gate_inv lab uid ks (s\<lparr>vs_sess := snd (snd (mark_validating_fn (int i) (vs_sess s)))\<rparr>)"
proof -
  obtain r d ss' where m: "mark_validating_fn (int i) (vs_sess s) = (r, d, ss')"
    by (cases "mark_validating_fn (int i) (vs_sess s)")
  have il: "i < length (ss_steps (vs_sess s))"
    using gate_invD(5,9) [OF g] i by (simp add: before_passed_def)
  have "gate_inv lab uid ks (s\<lparr>vs_sess := ss', ever_passed := ever_passed s\<rparr>)"
    using m il mark_validating_status [of _ "vs_sess s" "int i"] gate_invD(9) [OF g]
    by (intro session_change [OF g mark_validating_well_behaved m legal_mark_validating [OF gate_invD(1) [OF g] m]])
      (auto split: if_splits)
  then show ?thesis using m by simp
qed

lemma gate_mock_pass:
  assumes g: "gate_inv lab uid ks s" and i: "i \<in> vs_cleared s"
  shows "gate_inv lab uid ks (s\<lparr>vs_sess := snd (snd (mark_passed_fn (int i) (vs_sess s))),
    ever_passed := insert (step_id (ss_steps (vs_sess s) ! i)) (ever_passed s)\<rparr>)"
proof -
  obtain r d ss' where m: "mark_passed_fn (int i) (vs_sess s) = (r, d, ss')"
    by (cases "mark_passed_fn (int i) (vs_sess s)")
  have b: "before_passed ks (ever_passed s) i" using gate_invD(5) [OF g i] .
  then have il: "i < length (ss_steps (vs_sess s))" and id: "step_id (ss_steps (vs_sess s) ! i) = ks ! i"
    using gate_invD(9,10) [OF g] by (simp_all add: before_passed_def)
  have "gate_inv lab uid ks (s\<lparr>vs_sess := ss', ever_passed := insert (ks ! i) (ever_passed s)\<rparr>)"
    using b m il mark_passed_status [of _ "vs_sess s" "int i"] gate_invD(9) [OF g]
    by (intro session_change [OF g mark_passed_well_behaved m legal_mark_passed [OF gate_invD(1) [OF g] m]])
      (auto split: if_splits)
  then show ?thesis using m id by simp
qed

lemma gate_result:
  assumes g: "gate_inv lab uid ks s" and k: "vr_step_id r \<in> vs_published s"
  shows "gate_inv lab uid ks (s\<lparr>vs_sess := snd (snd (apply_result_fn r (vs_sess s))),
    ever_passed := (if vr_passed r then insert (vr_step_id r) (ever_passed s) else ever_passed s)\<rparr>)"
proof -
  obtain x d ss' where m: "apply_result_fn r (vs_sess s) = (x, d, ss')"
    by (cases "apply_result_fn r (vs_sess s)")
  obtain i where b: "before_passed ks (ever_passed s) i" and id: "ks ! i = vr_step_id r"
    using gate_invD(6) [OF g k] by blast
  have il: "i < length (ss_steps (vs_sess s))" using b gate_invD(9) [OF g] by (simp add: before_passed_def)
  then have at: "step_at (vr_step_id r) (vs_sess s) = Some i"
    using step_at_nth [OF gate_invD(1) [OF g] il] gate_invD(9,10) [OF g] id by simp
  have "gate_inv lab uid ks (s\<lparr>vs_sess := ss',
      ever_passed := (if vr_passed r then insert (vr_step_id r) (ever_passed s) else ever_passed s)\<rparr>)"
    using b m il id apply_result_status [OF _ at] gate_invD(9) [OF g]
    by (intro session_change [OF g apply_result_well_behaved m legal_apply_result [OF gate_invD(1) [OF g] m]])
      (auto split: if_splits)
  then show ?thesis using m by simp
qed

lemma gate_hint:
  assumes g: "gate_inv lab uid ks s" and e: "0 \<le> e" "e \<le> maxHintLevel"
  shows "gate_inv lab uid ks (s\<lparr>vs_sess := snd (snd (next_hint_fn k e (vs_sess s)))\<rparr>)"
proof -
  obtain lab' lv d ss' where m: "next_hint_fn k e (vs_sess s) = ((lab', lv), d, ss')"
    by (metis prod.exhaust)
  have "gate_inv lab uid ks (s\<lparr>vs_sess := ss', ever_passed := ever_passed s\<rparr>)"
    using m next_hint_status [of _ "vs_sess s" k e] gate_invD(9) [OF g]
    by (intro session_change [OF g next_hint_well_behaved m legal_next_hint(1) [OF gate_invD(1) [OF g] e m]])
      auto
  then show ?thesis using m by simp
qed

lemma gate_vstep:
  assumes g: "gate_inv lab uid ks s" and "vstep s s'"
  shows "gate_inv lab uid ks s'"
  using assms(2)
proof cases
  case (precheck k i)
  then show ?thesis using g gate_precheck [OF g precheck(2)] by (simp add: gate_inv_def)
next
  case (publish i)
  have "before_passed ks (ever_passed s) i" using gate_invD(5) [OF g publish(2)] .
  moreover from this have "step_id (ss_steps (vs_sess s) ! i) = ks ! i"
    using gate_invD(10) [OF g] by (simp add: before_passed_def)
  ultimately show ?thesis using g publish by (auto simp: gate_inv_def)
qed (simp_all add: gate_validating [OF g] gate_mock_pass [OF g] gate_result [OF g] gate_hint [OF g])

lemma gate_reachable:
  assumes "sorted ks" and "distinct ks" and "reachable lab uid ks s"
  shows "gate_inv lab uid ks s"
  using assms(3)
  by (induction rule: reachable.induct) (auto intro: gate_vinit assms gate_vstep)

section \<open>Properties\<close>

text \<open>
  C3. Step order cannot be bypassed. However requests, published validations, results, mock passes
  and hints interleave, a step of a session is marked passed, or has a validation request
  published for it, only when every earlier step has been passed before.
\<close>

theorem step_order_enforced:
  assumes "sorted ks" and "distinct ks" and "reachable lab uid ks s" and "j < i" and "i < length ks"
    and "step_status (ss_steps (vs_sess s) ! i) = ''passed'' \<or> ks ! i \<in> vs_published s"
  shows "ks ! j \<in> ever_passed s"
proof -
  have g: "gate_inv lab uid ks s" by (rule gate_reachable [OF assms(1-3)])
  have "\<exists>i'. before_passed ks (ever_passed s) i' \<and> ks ! i' = ks ! i"
    using assms(5,6) gate_invD(6-8) [OF g] by blast
  then have "before_passed ks (ever_passed s) i"
    using assms(2,5) by (auto simp: before_passed_def nth_eq_iff_index_eq)
  with assms(4) show ?thesis by (simp add: before_passed_def)
qed

text \<open>A concrete run: step 1 is requested and passes, then step 2.\<close>

definition demo_result :: "int \<Rightarrow> ValidationResult" where
  "demo_result k = \<lparr>vr_trace_id = [], vr_session_id = ''s1'', vr_step_id = k, vr_passed = True,
     vr_checks = [], vr_duration_ms = 0\<rparr>"

definition demo1 :: vstate where
  "demo1 = (vinit ''lab'' ''u'' [1, 2])\<lparr>vs_cleared := {0}\<rparr>"

definition demo2 :: vstate where
  "demo2 = demo1\<lparr>vs_published := {1}\<rparr>"

definition demo3 :: vstate where
  "demo3 = demo2\<lparr>vs_sess := snd (snd (apply_result_fn (demo_result 1) (vs_sess demo2))), ever_passed := {1}\<rparr>"

definition demo4 :: vstate where
  "demo4 = demo3\<lparr>vs_cleared := {0, 1}\<rparr>"

definition demo5 :: vstate where
  "demo5 = demo4\<lparr>vs_published := {1, 2}\<rparr>"

lemmas demo_defs = demo1_def demo2_def demo3_def demo4_def demo5_def demo_result_def vinit_def
  init_session_def validatable_fn_def step_at_def apply_result_fn_def modify_step_def open_next_def
  allPassed_def result_outcomes_def mk_event_def event0_def

lemma demo_steps:
  "vstep (vinit ''lab'' ''u'' [1, 2]) demo1" "vstep demo1 demo2" "vstep demo2 demo3"
  "vstep demo3 demo4" "vstep demo4 demo5"
  using vstep.precheck [of 1 "vinit ''lab'' ''u'' [1, 2]" 0] vstep.publish [of 0 demo1]
    vstep.result [of "demo_result 1" demo2] vstep.precheck [of 2 demo3 1] vstep.publish [of 1 demo4]
  by (simp_all add: demo_defs insert_commute)

lemma demo_reachable: "reachable ''lab'' ''u'' [1, 2] demo5"
  by (rule reachable.step [OF reachable.step [OF reachable.step [OF reachable.step
        [OF reachable.step [OF reachable.start]]]]] demo_steps)+

theorem step_order_enforced_witness:
  "reachable ''lab'' ''u'' [1, 2] demo5 \<and> 2 \<in> vs_published demo5 \<and> 1 \<in> ever_passed demo5"
proof -
  have p: "2 \<in> vs_published demo5" by (simp add: demo5_def)
  have "1 \<in> ever_passed demo5"
    using step_order_enforced [of "[1, 2]" "''lab''" "''u''" demo5 0 1] demo_reachable p by simp
  with demo_reachable p show ?thesis by blast
qed

end
