(* ===== verification/Pipeline.thy ===== *)
theory Pipeline
  imports Wire Engine_Safety Step_Machine Step_Safety
begin

text \<open>
  Both processes together, from the request the API publishes to the step it marks: the API writes
  requests to one topic, the engine of \<open>Engine_Safety\<close> (on a Kafka with faults) reads them in any order
  and any number of times, writes its results to the other topic, and the API's consumer hands what it
  reads there, again in any order and any number of times, to \<open>ApplyValidationResult\<close>, which works on
  the cache and a database with faults. Every message passes through the text of its JSON encoding.
\<close>

section \<open>Every result is a verdict on a request\<close>

lemma dlq_results: "b_results (w_rest (snd (dlq_attempts n (bus_consumer fs u) msg v))) = b_results (w_rest v)"
  using dlq_attempts_effect [OF surjective_pairing] by blast

lemma commit_results: "b_results (w_rest (commit (bus_consumer fs u) msg v)) = b_results (w_rest v)"
  using commit_effect [OF refl] by blast

lemma consume_results:
  assumes "consume (bus_consumer fs u) (engine fs env) msg v = (err, v')"
    and "r \<in> set (b_results (w_rest v'))" "r \<notin> set (b_results (w_rest v))"
  shows "\<exists>q v1. u (km_value msg) = Some q \<and> verdict (bus_exec env) (w_clock v + handlerTimeout) q v = (r, v1)"
proof -
  have u: "co_unmarshal (bus_consumer fs u) = u" by (simp add: bus_consumer_def)
  show ?thesis
  proof (cases "u (km_value msg)")
    case None
    then have "b_results (w_rest v') = b_results (w_rest v)"
      using assms(1) by (auto simp: consume_def u commit_results publishToDLQ_def dlq_results)
    then show ?thesis using assms(2,3) by simp
  next
    case (Some q)
    obtain e w where h: "engine fs env (w_clock v + handlerTimeout) q v = (e, w)" by fastforce
    have no: "e \<noteq> Some (OtherError m)" for m using handle_never_other h by (metis fst_conv)
    have "b_results (w_rest v') = b_results (w_rest w)"
      using assms(1) h no Some by (auto simp: consume_def u commit_results split: option.splits handler_err.splits)
    then have new: "r \<in> set (b_results (w_rest w))" using assms(2) by simp
    show ?thesis
      by (rule engine_run [OF h]) (use new Some assms(3) in auto)
  qed
qed

lemma Run_results:
  "consumer_Run (bus_consumer fs u) (engine fs env) fetches v = (res, v') \<Longrightarrow>
   r \<in> set (b_results (w_rest v')) \<Longrightarrow> r \<notin> set (b_results (w_rest v)) \<Longrightarrow>
   \<exists>j q w v1. j < length (fetched fetches) \<and> w = world_before fs u env (fetched fetches) j v
     \<and> u (km_value (fetched fetches ! j)) = Some q \<and> verdict (bus_exec env) (w_clock w + handlerTimeout) q w = (r, v1)"
proof (induction fetches arbitrary: v)
  case (Cons f fetches)
  show ?case
  proof (cases f)
    case (Fetched msg)
    obtain err v1 where one: "consume (bus_consumer fs u) (engine fs env) msg v = (err, v1)" by fastforce
    show ?thesis
    proof (cases "r \<in> set (b_results (w_rest v1))")
      case True
      then show ?thesis using consume_results [OF one True Cons.prems(3)] Fetched by (auto intro!: exI [of _ 0])
    next
      case False
      then have None: "err = None" using Cons.prems Fetched one by (cases err) auto
      then have "consumer_Run (bus_consumer fs u) (engine fs env) fetches v1 = (res, v')" using Cons.prems(1) Fetched one by simp
      from Cons.IH [OF this Cons.prems(2) False] obtain j q w v2 where j: "j < length (fetched fetches)"
        "w = world_before fs u env (fetched fetches) j v1" "u (km_value (fetched fetches ! j)) = Some q"
        "verdict (bus_exec env) (w_clock w + handlerTimeout) q w = (r, v2)" by blast
      have "w = world_before fs u env (fetched (f # fetches)) (Suc j) v"
        using j(2) world_before_Suc [of fs u env msg v v1] one None Fetched by simp
      with j Fetched show ?thesis by (intro exI [of _ "Suc j"] exI [of _ q] exI [of _ w] exI [of _ v2]) auto
    qed
  qed (use Cons.prems in auto)
qed auto

section \<open>What the API makes of a result\<close>

lemma get_int_out: "\<not> in64 n \<Longrightarrow> obj_get fs k = Some (JInt n) \<Longrightarrow> get_int fs k = None"
  by (simp add: get_int_def)

lemma unmarshal_result_only:
  assumes "unmarshal_result (Marshal (encode_result r)) = Inr r'"
  shows "r' = coerce_result r"
proof (cases "in64 (vr_step_id r) \<and> in64 (vr_duration_ms r)")
  case True
  then show ?thesis using assms unmarshal_result_marshal by simp
next
  case False
  then have "decode_result (coerce_json (encode_result r)) = None"
    by (auto simp: decode_result_def encode_result_def wire_simps simp del: coerce_json.simps(3) split: option.splits)
  then show ?thesis using assms by (simp add: unmarshal_result_def Marshal_Unmarshal encode_result_plain)
qed

text \<open>The steps of a session after a result for it.\<close>

definition apply_to_steps :: "ValidationResult \<Rightarrow> sessionSteps \<Rightarrow> sessionSteps" where
  "apply_to_steps r ss = snd (snd (apply_result_fn r ss))"

lemma apply_to_steps_shape: "same_shape ss (apply_to_steps r ss)"
  using apply_result_well_behaved by (auto simp: apply_to_steps_def well_behaved_def) (metis prod.collapse)

lemma passed_by_result:
  assumes "i < length (ss_steps ss)" "step_status (ss_steps (apply_to_steps r ss) ! i) = ''passed''"
    "step_status (ss_steps ss ! i) \<noteq> ''passed''"
  shows "vr_passed r \<and> vr_step_id r = step_id (ss_steps ss ! i)"
proof (cases "step_at (vr_step_id r) ss")
  case None
  then show ?thesis using assms by (simp add: apply_to_steps_def apply_result_fn_def)
next
  case (Some j)
  then have "i = j" "vr_passed r"
    using assms apply_result_status [OF assms(1) Some] by (auto simp: apply_to_steps_def split: if_splits)
  then show ?thesis using Some assms by (auto simp: step_at_def dest: find_index_SomeD)
qed

text \<open>
  What a result does to the sessions that the API sees, whatever the database does: nothing, or exactly this
  to the session it names.
\<close>

context progress_persistence
begin

lemma apply_view:
  assumes "h_db h = Some P" and "store_inv view ok (a_steps a)"
  shows "store_inv view ok (a_steps (ApplyValidationResult h now r a))
    \<and> (store_abs view (a_steps (ApplyValidationResult h now r a)) = store_abs view (a_steps a)
       \<or> (\<exists>ss. store_abs view (a_steps a) (vr_session_id r) = Some ss
            \<and> store_abs view (a_steps (ApplyValidationResult h now r a))
              = (store_abs view (a_steps a))(vr_session_id r \<mapsto> apply_to_steps r ss)))"
proof -
  let ?sid = "vr_session_id r"
  define a1 where "a1 = (case h_redis_getdel h of None \<Rightarrow> a
     | Some getdel \<Rightarrow> if vr_trace_id r \<noteq> [] then a\<lparr>a_ext := getdel (validation_start_key (vr_trace_id r)) (a_ext a)\<rparr> else a)"
  have a1: "a_steps a1 = a_steps a" by (simp add: a1_def split: option.split)
  obtain x st where w: "withSession (Some P) now ?sid (apply_result_fn r) (a_steps a) = (x, st)"
    by (cases "withSession (Some P) now ?sid (apply_result_fn r) (a_steps a)")
  have ap: "ApplyValidationResult h now r a = (case x of None \<Rightarrow> a1\<lparr>a_steps := st\<rparr>
     | Some (evs, uid, lab) \<Rightarrow> recordLabCompletion h now ?sid uid lab (fold (emit h now) evs (a1\<lparr>a_steps := st\<rparr>)))"
    using w assms(1) a1 by (simp add: ApplyValidationResult_def a1_def [symmetric] on_steps_def)
  show ?thesis
  proof (cases x)
    case None
    then show ?thesis using withSession_missing(1,2) [OF assms(2) w [unfolded None]] ap by simp
  next
    case (Some y)
    obtain evs uid lab where y: "y = (evs, uid, lab)" by (cases y)
    let ?b = "fold (emit h now) evs (a1\<lparr>a_steps := st\<rparr>)"
    obtain ss dirty ss' where ss: "store_abs view (a_steps a) ?sid = Some ss" "apply_result_fn r ss = (y, dirty, ss')"
      "store_abs view st = (store_abs view (a_steps a))(?sid \<mapsto> ss')" "store_inv view ok st"
      using withSession_found [OF assms(2) apply_result_well_behaved w [unfolded Some]] by blast
    have "a_steps ?b = st" by (simp add: fold_emit)
    with record_view [OF assms(1), of ?b now ?sid uid lab] ss ap Some y show ?thesis
      by (auto simp: apply_to_steps_def)
  qed
qed

end

text \<open>One message of the topic of results reaches the API at the time \<open>now\<close>.\<close>

definition deliver_result :: "('d, 'p, 'x) handler \<Rightarrow> go_time \<times> ValidationResult \<Rightarrow> ('d, 'p, 'x) app \<Rightarrow> ('d, 'p, 'x) app" where
  "deliver_result h d a = results_Run unmarshal_result (ApplyValidationResult h (fst d)) [Message (Marshal (encode_result (snd d)))] a"

lemma deliver_view:
  assumes "h_db h = Some (store_persistence fs)" and "store_inv db_view db_ok (a_steps a)"
  shows "store_inv db_view db_ok (a_steps (deliver_result h d a))
    \<and> (store_abs db_view (a_steps (deliver_result h d a)) = store_abs db_view (a_steps a)
       \<or> (\<exists>ss. store_abs db_view (a_steps a) (vr_session_id (coerce_result (snd d))) = Some ss
            \<and> store_abs db_view (a_steps (deliver_result h d a))
              = (store_abs db_view (a_steps a))(vr_session_id (coerce_result (snd d)) \<mapsto> apply_to_steps (coerce_result (snd d)) ss)))"
proof (cases "unmarshal_result (Marshal (encode_result (snd d)))")
  case (Inl e)
  then show ?thesis using assms(2) by (simp add: deliver_result_def)
next
  case (Inr r)
  then have "r = coerce_result (snd d)" by (rule unmarshal_result_only)
  then show ?thesis using pgdb.apply_view [OF assms, of "fst d" r] Inr by (simp add: deliver_result_def)
qed

lemma apply_to_steps_frame:
  assumes "i < length (ss_steps ss)"
  shows "i < length (ss_steps (apply_to_steps r ss)) \<and> step_id (ss_steps (apply_to_steps r ss) ! i) = step_id (ss_steps ss ! i)"
proof -
  have ids: "map step_id (ss_steps (apply_to_steps r ss)) = map step_id (ss_steps ss)"
    using apply_to_steps_shape [of ss r] by (simp add: same_shape_def)
  then have "length (ss_steps (apply_to_steps r ss)) = length (ss_steps ss)" by (metis length_map)
  with ids assms show ?thesis by (metis nth_map)
qed

lemma passed_by_deliveries:
  assumes "h_db h = Some (store_persistence fs)"
  shows "store_inv db_view db_ok (a_steps a) \<Longrightarrow> store_abs db_view (a_steps a) sid = Some ss \<Longrightarrow> i < length (ss_steps ss) \<Longrightarrow>
   step_status (ss_steps ss ! i) \<noteq> ''passed'' \<Longrightarrow>
   store_abs db_view (a_steps (fold (deliver_result h) ds a)) sid = Some ss' \<Longrightarrow> step_status (ss_steps ss' ! i) = ''passed'' \<Longrightarrow>
   \<exists>r\<in>snd ` set ds. coerce (vr_session_id r) = sid \<and> vr_passed r \<and> vr_step_id r = step_id (ss_steps ss ! i)"
proof (induction ds arbitrary: a ss)
  case (Cons d ds)
  let ?r = "coerce_result (snd d)" and ?a = "deliver_result h d a"
  have r: "vr_session_id ?r = coerce (vr_session_id (snd d))" "vr_passed ?r = vr_passed (snd d)" "vr_step_id ?r = vr_step_id (snd d)"
    by (simp_all add: coerce_result_def)
  note v = deliver_view [OF assms Cons.prems(1), of d]
  have inv: "store_inv db_view db_ok (a_steps ?a)" using v by blast
  have rest: "store_abs db_view (a_steps (fold (deliver_result h) ds ?a)) sid = Some ss'" using Cons.prems(5) by simp
  show ?case
  proof (cases "store_abs db_view (a_steps ?a) sid = Some ss")
    case True
    from Cons.IH [OF inv True Cons.prems(3,4) rest Cons.prems(6)] show ?thesis by auto
  next
    case False
    then have sid: "vr_session_id ?r = sid" and at: "store_abs db_view (a_steps ?a) sid = Some (apply_to_steps ?r ss)"
      using v Cons.prems(2) by (auto split: if_splits)
    note f = apply_to_steps_frame [OF Cons.prems(3), of ?r]
    show ?thesis
    proof (cases "step_status (ss_steps (apply_to_steps ?r ss) ! i) = ''passed''")
      case True
      from passed_by_result [OF Cons.prems(3) True Cons.prems(4)] show ?thesis using sid r by auto
    next
      case False
      from Cons.IH [OF inv at conjunct1 [OF f] False rest Cons.prems(6)] f show ?thesis by auto
    qed
  qed
qed simp

section \<open>A passed step was checked on the machine of its session\<close>

text \<open>The message that the API writes for a request.\<close>

definition request_message :: "ValidationRequest \<Rightarrow> kmsg" where
  "request_message q = last (snd (PublishRequest marshal_request append_message q []))"

lemma request_message_text: "km_value (request_message q) = Marshal (encode_request q)"
  by (simp add: request_message_def PublishRequest_def marshal_request_def append_message_def)

text \<open>
  C11. A step is passed only by the checks of its lab on the machine of its session, through both processes:
  let the API publish any requests, let the engine read these messages in any order and any number of
  times on a Kafka that may refuse, lose or fail calls, and let the API's consumer receive results the engine wrote, of
  any sessions, in any order and any number of times, over a database that may fail. If this turns a step that was not passed
  into a passed one, then the API had published a request for this very session and step, the engine
  fetched that request as its \<open>j\<close>-th message, and in the state in which it handled that
  message it ran all of the request's checks through the executor of the request's machine, and they all passed.
\<close>

theorem passed_step_was_checked:
  assumes requests: "\<And>q. q \<in> set qs \<Longrightarrow> request_in_range q \<and> list_all valid_utf8 (request_texts q)"
    and read: "set (fetched fetches) \<subseteq> request_message ` set qs"
    and engine: "consumer_Run (bus_consumer fs unmarshal_request) (engine fs env) fetches v = (res, v')"
    and start: "b_results (w_rest v) = []"
    and results: "snd ` set ds \<subseteq> set (b_results (w_rest v'))"
    and db: "h_db h = Some (store_persistence dbfaults)" "store_inv db_view db_ok (a_steps a)"
    and api: "a' = fold (deliver_result h) ds a"
    and before: "store_abs db_view (a_steps a) sid = Some ss" "i < length (ss_steps ss)" "step_status (ss_steps ss ! i) \<noteq> ''passed''"
    and after: "store_abs db_view (a_steps a') sid = Some ss'" "step_status (ss_steps ss' ! i) = ''passed''"
  shows "\<exists>q\<in>set qs. vq_session_id q = sid \<and> vq_step_id q = step_id (ss_steps ss ! i) \<and> vq_checks q \<noteq> []
    \<and> (\<exists>j w exe results w'. j < length (fetched fetches) \<and> fetched fetches ! j = request_message q
        \<and> w = world_before fs unmarshal_request env (fetched fetches) j v
        \<and> executor_New env (vq_vm q) = Inr exe
        \<and> RunAll (w_clock w + handlerTimeout) (on_machines exe) (vq_checks q) w = ((results, True), w')
        \<and> length results = length (vq_checks q) \<and> list_all cr_passed results)"
proof -
  obtain r where r: "r \<in> snd ` set ds" "coerce (vr_session_id r) = sid" "vr_passed r" "vr_step_id r = step_id (ss_steps ss ! i)"
    using passed_by_deliveries [OF db before after(1) [unfolded api] after(2)] by blast
  then have "r \<in> set (b_results (w_rest v'))" using results by auto
  from Run_results [OF engine this] start obtain j q w v1 where j: "j < length (fetched fetches)"
    "w = world_before fs unmarshal_request env (fetched fetches) j v"
    "unmarshal_request (km_value (fetched fetches ! j)) = Some q"
    "verdict (bus_exec env) (w_clock w + handlerTimeout) q w = (r, v1)" by auto
  have "fetched fetches ! j \<in> set (fetched fetches)" using j(1) by simp
  then obtain p where p: "p \<in> set qs" "fetched fetches ! j = request_message p" using read by blast
  have ok: "list_all valid_utf8 (request_texts p)" using requests [OF p(1)] by simp
  then have "q = p"
    using j(3) p(2) requests [OF p(1)] coerce_request_valid [of p] by (simp add: request_message_text unmarshal_request_marshal)
  have sid: "vq_session_id p = sid"
    using r(2) verdict_ids [OF j(4)] ok \<open>q = p\<close> by (simp add: request_texts_def valid_coerce)
  have "vq_step_id p = step_id (ss_steps ss ! i)" using r(4) verdict_ids [OF j(4)] \<open>q = p\<close> by simp
  moreover obtain exe where "vq_checks p \<noteq> []" "executor_New env (vq_vm p) = Inr exe"
    "RunAll (w_clock w + handlerTimeout) (on_machines exe) (vq_checks p) w = ((vr_checks r, True), v1)"
    "length (vr_checks r) = length (vq_checks p)" "list_all cr_passed (vr_checks r)"
    using verdict_passed [OF j(4) r(3)] \<open>q = p\<close> by (auto simp: bus_exec_def request_error_None split: sum.splits)
  ultimately show ?thesis using p sid j(1,2) by blast
qed

lemma ready_request_sent:
  "request_in_range ready_request \<and> list_all valid_utf8 (request_texts ready_request)"
  by (rule conjI) code_simp+

definition ready_result :: ValidationResult where
  "ready_result =
     \<lparr>vr_trace_id = ''t1'', vr_session_id = ''s1'', vr_step_id = 1, vr_passed = True,
      vr_checks = [chk_pass CheckFileExists], vr_duration_ms = 0\<rparr>"

lemma ready_result_sent: "unmarshal_result (Marshal (encode_result ready_result)) = Inr ready_result"
proof -
  have "in64 (vr_step_id ready_result)" "in64 (vr_duration_ms ready_result)" "coerce_result ready_result = ready_result"
    by code_simp+
  then show ?thesis using unmarshal_result_marshal by metis
qed

lemma ready_run:
  "b_results (w_rest (snd (consumer_Run (bus_consumer (\<lambda>_. WOk) unmarshal_request) (engine (\<lambda>_. WOk) ready_env)
     [Fetched (request_message ready_request)] empty_bus))) = [ready_result]"
proof -
  let ?run = "engine (\<lambda>_. WOk) ready_env (w_clock empty_bus + handlerTimeout) ready_request empty_bus"
  have "fst ?run = None \<and> b_results (w_rest (snd ?run)) = [ready_result]" by code_simp
  then have run: "?run = (None, snd ?run)" "b_results (w_rest (snd ?run)) = [ready_result]" by (simp_all add: prod_eq_iff)
  have u: "co_unmarshal (bus_consumer (\<lambda>_. WOk) unmarshal_request) (km_value (request_message ready_request)) = Some ready_request"
    using ready_request_sent coerce_request_valid
    by (simp add: bus_consumer_def request_message_text unmarshal_request_marshal)
  have "consume (bus_consumer (\<lambda>_. WOk) unmarshal_request) (engine (\<lambda>_. WOk) ready_env) (request_message ready_request) empty_bus
      = (None, commit (bus_consumer (\<lambda>_. WOk) unmarshal_request) (request_message ready_request) (snd ?run))"
    unfolding consume_def u using run(1) by (auto simp: Let_def split: prod.split)
  then show ?thesis using run(2) by (simp add: commit_results)
qed

lemma deliver_ready:
  "store_abs db_view (a_steps (deliver_result (demo_handler (\<lambda>_. Healthy)) (7, ready_result) demo_progress)) ''s1''
   = Some (apply_to_steps ready_result (init_session ''lab-linux-basics'' ''u'' [1, 2]))"
proof -
  have h: "h_db (demo_handler (\<lambda>_. Healthy)) = Some (store_persistence (\<lambda>_. Healthy))" by (simp add: demo_handler_def)
  show ?thesis
    using healthy_pgdb.ApplyValidationResult_spec [OF h demo_progress_spec(1,2), of 7 ready_result] demo_progress_spec(3)
    by (simp add: deliver_result_def ready_result_sent spec_with_def apply_to_steps_def)
      (simp add: ready_result_def split: prod.split)
qed

theorem passed_step_was_checked_witness:
  "\<exists>w exe results w'. w = world_before (\<lambda>_. WOk) unmarshal_request ready_env [request_message ready_request] 0 empty_bus
     \<and> executor_New ready_env (vq_vm ready_request) = Inr exe
     \<and> RunAll (w_clock w + handlerTimeout) (on_machines exe) (vq_checks ready_request) w = ((results, True), w')
     \<and> list_all cr_passed results"
proof -
  let ?run = "consumer_Run (bus_consumer (\<lambda>_. WOk) unmarshal_request) (engine (\<lambda>_. WOk) ready_env)
     [Fetched (request_message ready_request)] empty_bus"
  let ?ss = "init_session ''lab-linux-basics'' ''u'' [1, 2]" and ?h = "demo_handler (\<lambda>_. Healthy)"
  have e: "b_results (w_rest empty_bus) = []" by (simp add: empty_bus_def)
  have h: "h_db ?h = Some (store_persistence (\<lambda>_. Healthy))" by (simp add: demo_handler_def)
  have s: "0 < length (ss_steps ?ss)" "step_status (ss_steps ?ss ! 0) \<noteq> ''passed''"
    "step_status (ss_steps (apply_to_steps ready_result ?ss) ! 0) = ''passed''"
    by code_simp+
  have d: "fold (deliver_result ?h) [(7, ready_result)] demo_progress = deliver_result ?h (7, ready_result) demo_progress" by simp
  have r: "snd ` set [(7 :: int, ready_result)] \<subseteq> set (b_results (w_rest (snd ?run)))"
    unfolding ready_run by simp
  from passed_step_was_checked
      [of "[ready_request]" "[Fetched (request_message ready_request)]" "\<lambda>_. WOk" ready_env empty_bus "fst ?run" "snd ?run",
       OF _ _ surjective_pairing [of ?run] e r h demo_progress_spec(1) d [symmetric] demo_progress_spec(3) s(1,2) deliver_ready s(3)]
    ready_request_sent
  show ?thesis by auto
qed

end
