(* ===== verification/Engine_Start.thy ===== *)
theory Engine_Start
  imports Wiring Pipeline
begin

text \<open>
  The start and the end of the validation engine: \<open>run\<close>, \<open>loadTLS\<close> and \<open>getEnv\<close> of
  \<open>src/apps/validation-engine/cmd/engine/main.go\<close>, the constructors of its consumer and its producer, and
  the constructors of the API's two publishers and its consumer. A reader or writer of the Kafka client is
  the configuration it is made from. Tracing, logging and the probe on port 8080, which always answers 200,
  are left out.
\<close>

section \<open>Readers and writers\<close>

record kafka_reader =
  kr_Brokers :: "string list"
  kr_Topic :: string
  kr_GroupID :: string
  kr_TLS :: tls_config

datatype balancer = RoundRobin | HashKey

datatype acks = RequireNone | RequireOne | RequireAll

text \<open>An absent balancer is round robin and absent acknowledgements are none, the zero values of the client.\<close>

record kafka_writer =
  kw_Addr :: "string list"
  kw_Topic :: string
  kw_TLS :: tls_config
  kw_Balancer :: balancer
  kw_RequiredAcks :: acks

definition consumer_New :: "string list \<Rightarrow> tls_config \<Rightarrow> kafka_reader \<times> kafka_writer" where
  "consumer_New brokers tlsCfg =
     (\<lparr>kr_Brokers = brokers, kr_Topic = ''validation-requests'', kr_GroupID = ''validation-engine'', kr_TLS = tlsCfg\<rparr>,
      \<lparr>kw_Addr = brokers, kw_Topic = ''validation-requests-dlq'', kw_TLS = tlsCfg, kw_Balancer = RoundRobin,
       kw_RequiredAcks = RequireAll\<rparr>)"

definition producer_New :: "string list \<Rightarrow> tls_config \<Rightarrow> kafka_writer" where
  "producer_New brokers tlsCfg =
     \<lparr>kw_Addr = brokers, kw_Topic = ''validation-results'', kw_TLS = tlsCfg, kw_Balancer = HashKey, kw_RequiredAcks = RequireNone\<rparr>"

definition NewKafkaPublisher :: "string list \<Rightarrow> string \<Rightarrow> tls_config \<Rightarrow> kafka_writer" where
  "NewKafkaPublisher brokers topic tlsCfg =
     \<lparr>kw_Addr = brokers, kw_Topic = topic, kw_TLS = tlsCfg, kw_Balancer = HashKey, kw_RequiredAcks = RequireNone\<rparr>"

definition events_NewKafkaPublisher :: "string list \<Rightarrow> string \<Rightarrow> tls_config \<Rightarrow> kafka_writer" where
  "events_NewKafkaPublisher brokers topic tlsCfg =
     \<lparr>kw_Addr = brokers, kw_Topic = topic, kw_TLS = tlsCfg, kw_Balancer = HashKey, kw_RequiredAcks = RequireNone\<rparr>"

definition NewKafkaConsumer :: "string list \<Rightarrow> string \<Rightarrow> string \<Rightarrow> tls_config \<Rightarrow> kafka_reader" where
  "NewKafkaConsumer brokers topic grp tlsCfg =
     \<lparr>kr_Brokers = brokers, kr_Topic = topic, kr_GroupID = grp, kr_TLS = tlsCfg\<rparr>"

section \<open>The start of the engine\<close>

definition getEnv :: "environ \<Rightarrow> string \<Rightarrow> string \<Rightarrow> string" where
  "getEnv env key defaultVal = (if Getenv env key \<noteq> [] then Getenv env key else defaultVal)"

text \<open>
  The pool holds the certificates of the file; a file without one leaves it empty, and the engine's
  \<open>loadTLS\<close>, unlike that of the API, does not look.
\<close>

definition loadTLS ::
  "(string \<Rightarrow> string + string) \<Rightarrow> (string \<Rightarrow> bool) \<Rightarrow> (string \<Rightarrow> string \<Rightarrow> string option) \<Rightarrow>
   string \<Rightarrow> string \<Rightarrow> string \<Rightarrow> string + tls_config" where
  "loadTLS readFile pem keyPair certFile keyFile caFile =
     (case readFile caFile of
        Inl e \<Rightarrow> Inl e
      | Inr caPEM \<Rightarrow>
          (case keyPair certFile keyFile of
             Some e \<Rightarrow> Inl e
           | None \<Rightarrow> Inr \<lparr>tls_RootCAs = (if pem caPEM then caPEM else []), tls_cert = certFile, tls_key = keyFile, tls_MinVersion = 13\<rparr>))"

definition engine_tls ::
  "(string \<Rightarrow> string + string) \<Rightarrow> (string \<Rightarrow> bool) \<Rightarrow> (string \<Rightarrow> string \<Rightarrow> string option) \<Rightarrow> environ \<Rightarrow> string + tls_config" where
  "engine_tls readFile pem keyPair env =
     loadTLS readFile pem keyPair
       (getEnv env ''KAFKA_TLS_CERT'' ''/etc/kafka-certs/tls.crt'')
       (getEnv env ''KAFKA_TLS_KEY'' ''/etc/kafka-certs/tls.key'')
       (getEnv env ''KAFKA_CA_CERT'' ''/etc/kafka-certs/ca.crt'')"

definition engine_brokers :: "environ \<Rightarrow> string list" where
  "engine_brokers env = split_on CHR '','' (getEnv env ''KAFKA_BROKERS'' ''cledyu-kafka-kafka-bootstrap.kafka.svc:9093'')"

text \<open>
  \<open>run\<close>: the exit status, \<open>None\<close> while the consumer runs, the parts that the deferred calls have closed, in
  their order, and the state. \<open>loop\<close> is \<open>Consumer.Run\<close> with \<open>handle\<close>, for the reader and the writers.
\<close>

definition engine_main ::
  "(string \<Rightarrow> string + string) \<Rightarrow> (string \<Rightarrow> bool) \<Rightarrow> (string \<Rightarrow> string \<Rightarrow> string option) \<Rightarrow> environ \<Rightarrow>
   (kafka_reader \<Rightarrow> kafka_writer \<Rightarrow> kafka_writer \<Rightarrow> 'v \<Rightarrow> run_result \<times> 'v) \<Rightarrow> 'v \<Rightarrow> int option \<times> string list \<times> 'v" where
  "engine_main readFile pem keyPair env loop v =
     (case engine_tls readFile pem keyPair env of
        Inl _ \<Rightarrow> (Some 1, [''log''], v)
      | Inr tlsCfg \<Rightarrow>
          (let brokers = engine_brokers env;
               (reader, dlq) = consumer_New brokers tlsCfg;
               (res, v1) = loop reader dlq (producer_New brokers tlsCfg) v;
               shut = [''tracing'', ''signals'', ''producer'', ''consumer'', ''log'']
           in case res of
                Waiting \<Rightarrow> (None, [], v1)
              | Stopped \<Rightarrow> (Some 0, shut, v1)
              | RunError _ \<Rightarrow> (Some 1, shut, v1)))"

section \<open>Both processes meet\<close>

lemma kafka_fields:
  "kfc_Brokers (cfg_Kafka default_config) = ''cledyu-kafka-kafka-bootstrap.kafka.svc:9093''"
  "kfc_Topic (cfg_Kafka default_config) = ''validation-requests''"
  "kfc_ResultsTopic (cfg_Kafka default_config) = ''validation-results''"
  "kfc_EventsTopic (cfg_Kafka default_config) = ''lab-events''"
  "kfc_ConsumerGroup (cfg_Kafka default_config) = ''cledyu-api-validation-results''"
proof -
  let ?s = "settings Map.empty Map.empty"
  have v: "?s ''kafka.brokers'' = Some (VStr ''cledyu-kafka-kafka-bootstrap.kafka.svc:9093'')"
    "?s ''kafka.topic'' = Some (VStr ''validation-requests'')"
    "?s ''kafka.results_topic'' = Some (VStr ''validation-results'')"
    "?s ''kafka.events_topic'' = Some (VStr ''lab-events'')"
    "?s ''kafka.consumer_group'' = Some (VStr ''cledyu-api-validation-results'')"
    by code_simp+
  show "kfc_Brokers (cfg_Kafka default_config) = ''cledyu-kafka-kafka-bootstrap.kafka.svc:9093''"
    "kfc_Topic (cfg_Kafka default_config) = ''validation-requests''"
    "kfc_ResultsTopic (cfg_Kafka default_config) = ''validation-results''"
    "kfc_EventsTopic (cfg_Kafka default_config) = ''lab-events''"
    "kfc_ConsumerGroup (cfg_Kafka default_config) = ''cledyu-api-validation-results''"
    using v by (simp_all add: default_config_def decode_Config_def decode_KafkaConfig_def)
qed

text \<open>
  Without settings both processes use the same brokers, the engine reads the topic that the API writes, the
  API reads the topic that the engine writes, and neither reads what is for someone else: dead letters
  and events go to topics of their own. The messages of a session, in both directions, are assigned to
  partitions by its id.
\<close>

theorem processes_meet:
  "(let k = cfg_Kafka default_config; brokers = split_on CHR '','' (kfc_Brokers k);
        (reader, dlq) = consumer_New (engine_brokers Map.empty) t; prod = producer_New (engine_brokers Map.empty) t;
        pub = NewKafkaPublisher brokers (kfc_Topic k) t; ev = events_NewKafkaPublisher brokers (kfc_EventsTopic k) t;
        cons = NewKafkaConsumer brokers (kfc_ResultsTopic k) (kfc_ConsumerGroup k) t
    in kr_Topic reader = kw_Topic pub \<and> kr_Brokers reader = kw_Addr pub
       \<and> kr_Topic cons = kw_Topic prod \<and> kr_Brokers cons = kw_Addr prod
       \<and> kw_Topic dlq \<notin> {kr_Topic reader, kr_Topic cons} \<and> kw_Topic ev \<notin> {kr_Topic reader, kr_Topic cons}
       \<and> kw_Balancer pub = HashKey \<and> kw_Balancer prod = HashKey)"
  by (simp add: kafka_fields consumer_New_def producer_New_def NewKafkaPublisher_def events_NewKafkaPublisher_def
      NewKafkaConsumer_def engine_brokers_def getEnv_def Getenv_def)

text \<open>
  A file without a certificate is refused by the API at the start; the engine starts with it and an empty
  pool of authorities, with which no connection succeeds.
\<close>

lemma engine_accepts_empty_pool:
  assumes "readFile ca = Inr text" "\<not> pem text" "keyPair cert key = None"
  shows "isl (LoadTLS readFile pem keyPair cert key ca)
    \<and> (\<exists>t. loadTLS readFile pem keyPair cert key ca = Inr t \<and> tls_RootCAs t = [])"
  using assms by (simp add: LoadTLS_def loadTLS_def)

section \<open>The exit status\<close>

text \<open>The consumer of \<open>Engine_Safety\<close> as the loop.\<close>

definition engine_loop ::
  "(nat \<Rightarrow> wfault) \<Rightarrow> 'm engine_env \<Rightarrow> fetch list \<Rightarrow> kafka_reader \<Rightarrow> kafka_writer \<Rightarrow> kafka_writer \<Rightarrow> 'm bus world \<Rightarrow>
   run_result \<times> 'm bus world" where
  "engine_loop fs env fetches reader dlq producer v =
     consumer_Run (bus_consumer fs unmarshal_request) (engine fs env) fetches v"

lemma Run_Stopped:
  "consumer_Run c handler fetches v = (Stopped, v') \<Longrightarrow> Engine.Cancelled \<in> set fetches"
  by (induction c handler fetches v rule: consumer_Run.induct) (auto simp: Let_def split: prod.splits option.splits)

text \<open>
  C37. The exit status tells Kubernetes the truth: 0 is returned only after a signal, and then every message
  that was fetched has been handled and its commit has been tried; it has been committed where Kafka carried the commit out (a
  commit that fails is only logged). 1 is returned when the certificates cannot be
  read, before any message is fetched, or when the consumer gave up on a message. In both cases a commit
  was tried only for messages that were settled: a verdict was published, or the message is in the dead letter
  queue or failed three times to get there. In every case in which the consumer
  ran, both Kafka clients are closed before the process ends.
\<close>

theorem engine_exit_status:
  assumes run: "engine_main readFile pem keyPair e (engine_loop fs env fetches) v = (Some code, shut, v')"
    and start: "b_commits (w_rest v) = []" "b_committed (w_rest v) = []"
  shows "(code = 0 \<or> code = 1)
    \<and> (code = 0 \<longrightarrow> Engine.Cancelled \<in> set fetches \<and> b_commits (w_rest v') = fetched fetches
         \<and> ((\<forall>n. took_effect (acked (fs n))) \<longrightarrow> b_committed (w_rest v') = fetched fetches))
    \<and> set (b_committed (w_rest v')) \<subseteq> set (b_commits (w_rest v'))
    \<and> (\<forall>j<length (b_commits (w_rest v')). b_commits (w_rest v') ! j = fetched fetches ! j
         \<and> settled unmarshal_request env (fetched fetches ! j) (world_before fs unmarshal_request env (fetched fetches) j v) v')
    \<and> (isl (engine_tls readFile pem keyPair e) \<longrightarrow> code = 1 \<and> v' = v)
    \<and> (\<not> isl (engine_tls readFile pem keyPair e) \<longrightarrow> {''producer'', ''consumer''} \<subseteq> set shut)"
proof (cases "engine_tls readFile pem keyPair e")
  case (Inl x)
  then show ?thesis using run start by (auto simp: engine_main_def)
next
  case (Inr t)
  obtain res w where loop: "consumer_Run (bus_consumer fs unmarshal_request) (engine fs env) fetches v = (res, w)" by fastforce
  have out: "w = v'" "code = 0 \<longleftrightarrow> res = Stopped" "code = 0 \<or> code = 1" "{''producer'', ''consumer''} \<subseteq> set shut"
    using run Inr loop by (cases res; auto simp: engine_main_def engine_loop_def Let_def consumer_New_def)+
  from Run_effect [OF loop] obtain k ys where k: "b_commits (w_rest v') = take k (fetched fetches)" "k \<le> length (fetched fetches)"
    "b_committed (w_rest v') = ys" "set ys \<subseteq> set (take k (fetched fetches))"
    "(\<forall>n. took_effect (acked (fs n))) \<longrightarrow> ys = take k (fetched fetches)"
    "res \<in> {Waiting, Stopped} \<longrightarrow> k = length (fetched fetches)"
    "\<forall>j<k. settled unmarshal_request env (fetched fetches ! j) (world_before fs unmarshal_request env (fetched fetches) j v) v'"
    unfolding start append_Nil out(1) by blast
  have stop: "code = 0 \<longrightarrow> Engine.Cancelled \<in> set fetches \<and> k = length (fetched fetches)"
  proof
    assume "code = 0"
    then have "res = Stopped" using out(2) by simp
    then show "Engine.Cancelled \<in> set fetches \<and> k = length (fetched fetches)"
      using Run_Stopped loop k(6) by blast
  qed
  show ?thesis
    using out(3,4) k(1-5,7) stop Inr by (intro conjI) auto
qed

text \<open>A message that is no request goes to the dead letter queue, and the engine is stopped.\<close>

definition junk_message :: kmsg where
  "junk_message = \<lparr>km_key = [], km_value = ''junk''\<rparr>"

lemma junk_start:
  "fst (engine_main (\<lambda>_. Inr ''pem'') (\<lambda>_. True) (\<lambda>_ _. None) Map.empty
        (engine_loop (\<lambda>_. WOk) ready_env [Fetched junk_message, Engine.Cancelled]) empty_bus) = Some 0"
proof -
  have "unmarshal_request ''junk'' = None" by code_simp
  then show ?thesis
    by (simp add: engine_main_def engine_tls_def loadTLS_def engine_loop_def consumer_New_def consume_def bus_consumer_def
        junk_message_def split: prod.split)
qed

theorem engine_exit_status_witness:
  "let out = engine_main (\<lambda>_. Inr ''pem'') (\<lambda>_. True) (\<lambda>_ _. None) Map.empty
        (engine_loop (\<lambda>_. WOk) ready_env [Fetched junk_message, Engine.Cancelled]) empty_bus;
       v = w_rest (snd (snd out))
   in fst out = Some 0 \<and> b_commits v = [junk_message] \<and> b_committed v = [junk_message]
     \<and> settled unmarshal_request ready_env junk_message empty_bus (snd (snd out))"
proof -
  let ?run = "engine_main (\<lambda>_. Inr ''pem'') (\<lambda>_. True) (\<lambda>_ _. None) Map.empty
     (engine_loop (\<lambda>_. WOk) ready_env [Fetched junk_message, Engine.Cancelled]) empty_bus"
  have e: "b_commits (w_rest empty_bus) = []" "b_committed (w_rest empty_bus) = []" by (simp_all add: empty_bus_def)
  have r: "?run = (Some 0, fst (snd ?run), snd (snd ?run))" using junk_start by (simp add: prod_eq_iff)
  have ok: "\<forall>n::nat. took_effect (acked WOk)" by (simp add: took_effect_def acked_def)
  from engine_exit_status [OF r e] ok
  have "b_commits (w_rest (snd (snd ?run))) = [junk_message]" "b_committed (w_rest (snd (snd ?run))) = [junk_message]"
    "settled unmarshal_request ready_env junk_message empty_bus (snd (snd ?run))" by auto
  then show ?thesis using junk_start by (simp add: Let_def)
qed

end
