(* ===== verification/Locks.thy ===== *)
theory Locks
  imports Prelude
begin

text \<open>
  The locks that serialise the creation of sessions (\<open>src/apps/api/internal/lock\<close>): the in-memory
  locker of a single instance and the Redis locker for several replicas.

  The first part is the Redis commands the code uses and the loop of \<open>Acquire\<close>, over a Redis whose
  calls take time and may fail; the second part puts many callers on one lock table, as a list of
  operations in the order in which they take effect, and shows mutual exclusion for both lockers
  from one contract.
\<close>

section \<open>Parameters\<close>

definition lockTTL :: duration where
  "lockTTL = 30 * second"

definition lockRetry :: duration where
  "lockRetry = 50000000"

definition lockMaxWait :: duration where
  "lockMaxWait = 2 * second"

definition lockKeyPrefix :: string where
  "lockKeyPrefix = ''cledyu:lock:''"

section \<open>Redis\<close>

text \<open>A key holds a value until its expiry.\<close>

type_synonym keyspace = "string \<rightharpoonup> string \<times> go_time"

definition redis_get :: "go_time \<Rightarrow> keyspace \<Rightarrow> string \<Rightarrow> string option" where
  "redis_get now m k = (case m k of None \<Rightarrow> None | Some (x, e) \<Rightarrow> if now < e then Some x else None)"

definition redis_SetNX :: "go_time \<Rightarrow> string \<Rightarrow> string \<Rightarrow> duration \<Rightarrow> keyspace \<Rightarrow> bool \<times> keyspace" where
  "redis_SetNX now k x ttl m =
     (if redis_get now m k = None then (True, m(k \<mapsto> (x, now + ttl))) else (False, m))"

definition releaseScript :: "go_time \<Rightarrow> string \<Rightarrow> string \<Rightarrow> keyspace \<Rightarrow> keyspace" where
  "releaseScript now k x m = (if redis_get now m k = Some x then m(k := None) else m)"

section \<open>Acquiring a Redis lock\<close>

text \<open>
  A call of \<open>SetNX\<close> takes some time and gives an error or the answer. The context of the request
  is the instant at which it is cancelled, if ever. The result is whether the lock was taken; the
  function that releases it runs \<open>releaseScript\<close> with the same key and token.
\<close>

type_synonym 'v setnx = "string \<Rightarrow> string \<Rightarrow> duration \<Rightarrow> 'v \<Rightarrow> (nat \<times> (string + bool)) \<times> 'v"

definition call_setnx :: "'v setnx \<Rightarrow> string \<Rightarrow> string \<Rightarrow> 'v world \<Rightarrow> (string + bool) \<times> 'v world" where
  "call_setnx setnx k token v =
     (let ((d, r), rest) = setnx k token lockTTL (w_rest v)
      in (r, \<lparr>w_clock = w_clock v + int d, w_rest = rest\<rparr>))"

lemma call_setnx_clock: "call_setnx setnx k token v = (r, v') \<Longrightarrow> w_clock v \<le> w_clock v'"
  by (auto simp: call_setnx_def Let_def split: prod.splits)

function acquire_loop ::
  "'v setnx \<Rightarrow> go_time option \<Rightarrow> string \<Rightarrow> string \<Rightarrow> go_time \<Rightarrow> 'v world \<Rightarrow> bool \<times> 'v world" where
  "acquire_loop setnx ctx k token deadline v =
     (let (r, v1) = call_setnx setnx k token v in
      case r of
        Inl _ \<Rightarrow> (False, v1)
      | Inr ok \<Rightarrow>
          if ok then (True, v1)
          else if w_clock v1 > deadline then (False, v1)
          else
            (case ctx of
               Some t \<Rightarrow>
                 if t \<le> w_clock v1 + lockRetry then (False, v1\<lparr>w_clock := max (w_clock v1) t\<rparr>)
                 else acquire_loop setnx ctx k token deadline (v1\<lparr>w_clock := w_clock v1 + lockRetry\<rparr>)
             | None \<Rightarrow> acquire_loop setnx ctx k token deadline (v1\<lparr>w_clock := w_clock v1 + lockRetry\<rparr>)))"
  by pat_completeness auto
termination
proof (relation "measure (\<lambda>(setnx, ctx, k, token, deadline, v). nat (deadline + lockRetry + 1 - w_clock v))")
  fix setnx :: "'v setnx" and ctx k token deadline v x r v1 ok t
  assume call: "x = call_setnx setnx k token v" "(r, v1) = x" and "\<not> deadline < w_clock v1"
  moreover have "w_clock v \<le> w_clock v1" using call_setnx_clock [of setnx k token v r v1] call by simp
  ultimately have "nat (deadline + lockRetry + 1 - (w_clock v1 + lockRetry)) < nat (deadline + lockRetry + 1 - w_clock v)"
    by (simp add: lockRetry_def)
  then show "((setnx, ctx, k, token, deadline, v1\<lparr>w_clock := w_clock v1 + lockRetry\<rparr>), (setnx, ctx, k, token, deadline, v))
      \<in> measure (\<lambda>(setnx, ctx, k, token, deadline, v). nat (deadline + lockRetry + 1 - w_clock v))"
    and "((setnx, ctx, k, token, deadline, v1\<lparr>w_clock := w_clock v1 + lockRetry\<rparr>), (setnx, ctx, k, token, deadline, v))
      \<in> measure (\<lambda>(setnx, ctx, k, token, deadline, v). nat (deadline + lockRetry + 1 - w_clock v))"
    by simp_all
qed simp

declare acquire_loop.simps [simp del]

definition RedisLocker_Acquire ::
  "'v setnx \<Rightarrow> go_time option \<Rightarrow> string \<Rightarrow> string \<Rightarrow> 'v world \<Rightarrow> bool \<times> 'v world" where
  "RedisLocker_Acquire setnx ctx token key v =
     acquire_loop setnx ctx (lockKeyPrefix @ key) token (w_clock v + lockMaxWait) v"

lemma acquire_loop_bound:
  assumes "acquire_loop setnx ctx k token deadline v = (ok, v')" and "w_clock v \<le> deadline + lockRetry"
    and "\<And>k x d s. fst (fst (setnx k x d s)) \<le> L"
  shows "w_clock v' \<le> deadline + lockRetry + int L"
  using assms
proof (induction setnx ctx k token deadline v arbitrary: ok v' rule: acquire_loop.induct)
  case (1 setnx ctx k token deadline v)
  obtain r v1 where call: "call_setnx setnx k token v = (r, v1)" by fastforce
  have c1: "w_clock v1 \<le> w_clock v + int L"
    using call "1.prems"(3) [of k token lockTTL "w_rest v"] by (auto simp: call_setnx_def Let_def split: prod.splits)
  have retry: "0 \<le> lockRetry" by (simp add: lockRetry_def)
  note run = "1.prems"(1) [unfolded acquire_loop.simps [of setnx ctx k token deadline v]]
  show ?case
  proof (cases r)
    case (Inl e)
    then show ?thesis using run call c1 "1.prems"(2) by simp
  next
    case (Inr b)
    show ?thesis
    proof (cases "b \<or> deadline < w_clock v1")
      case True
      then show ?thesis using run call c1 "1.prems"(2) Inr by (auto split: if_splits)
    next
      case False
      note IH = "1.IH" [OF call [symmetric] refl Inr]
      show ?thesis
        using run call False Inr retry IH(1) IH(2) "1.prems"(3)
        by (auto split: option.splits if_splits)
    qed
  qed
qed

text \<open>
  C26. Waiting for the lock of a user is bounded: when a Redis call takes at most \<open>L\<close>, \<open>Acquire\<close>
  returns within the maximal wait of two seconds, one retry interval and one call, whether the lock
  is taken, refused or Redis fails.
\<close>

theorem redis_acquire_bounded:
  assumes "\<And>k x d s. fst (fst (setnx k x d s)) \<le> L"
    and "RedisLocker_Acquire setnx ctx token key v = (ok, v')"
  shows "w_clock v' \<le> w_clock v + lockMaxWait + lockRetry + int L"
  using acquire_loop_bound [OF assms(2) [unfolded RedisLocker_Acquire_def] _ assms(1)]
  by (simp add: lockMaxWait_def lockRetry_def second_def)

text \<open>A Redis whose lock is never free: the loop gives up.\<close>

theorem redis_acquire_bounded_witness:
  "\<exists>v'. RedisLocker_Acquire (\<lambda>k x d s. ((0, Inr False), s)) None ''tok'' ''session:u1'' \<lparr>w_clock = 0, w_rest = ()\<rparr> = (False, v')
     \<and> w_clock v' \<le> 2050000000"
proof -
  let ?setnx = "\<lambda>(k::string) (x::string) (d::duration) (s::unit). ((0::nat, Inr False :: string + bool), s)"
  let ?run = "RedisLocker_Acquire ?setnx None ''tok'' ''session:u1'' \<lparr>w_clock = 0, w_rest = ()\<rparr>"
  have "\<not> fst ?run" by code_simp
  then have run: "?run = (False, snd ?run)" by (simp add: prod_eq_iff)
  show ?thesis
    using redis_acquire_bounded [of ?setnx 0, OF _ run] run
    by (intro exI [of _ "snd ?run"]) (simp add: lockMaxWait_def lockRetry_def second_def)
qed

section \<open>Many callers\<close>

text \<open>
  The operations on a lock table in the order in which they take effect: a caller with its token
  takes a lock, a caller releases it, time passes. An attempt that finds the lock taken has no
  effect (the in-memory locker blocks, the Redis locker tries again or gives up).
\<close>

datatype lock_op = Take string string | Release string string | Pass nat

text \<open>
  The contract of a locker: \<open>holders s k\<close> is the set of callers that own the lock \<open>k\<close> and may rely on
  it.
\<close>

locale locker =
  fixes holders :: "'s \<Rightarrow> string \<Rightarrow> string set"
    and step :: "lock_op \<Rightarrow> 's \<Rightarrow> 's"
    and ok :: "'s \<Rightarrow> bool"
  assumes take_only_free: "ok s \<Longrightarrow> holders (step (Take k x) s) k' \<subseteq>
      (if k' = k \<and> holders s k = {} then {x} else holders s k')"
    and release_own: "ok s \<Longrightarrow> holders (step (Release k x) s) k' = (if k' = k then holders s k - {x} else holders s k')"
    and pass_keeps_none_new: "ok s \<Longrightarrow> holders (step (Pass d) s) k' \<subseteq> holders s k'"
    and step_ok: "ok s \<Longrightarrow> ok (step op s)"
begin

lemma exclusive_step:
  assumes "ok s" and "\<And>k a b. a \<in> holders s k \<Longrightarrow> b \<in> holders s k \<Longrightarrow> a = b"
    and "a \<in> holders (step op s) k" and "b \<in> holders (step op s) k"
  shows "a = b"
proof (cases op)
  case (Take k0 x)
  then show ?thesis
    using take_only_free [OF assms(1), of k0 x k] assms(2-4)
    by (cases "k = k0 \<and> holders s k0 = {}") (simp_all, blast+)
next
  case (Release k0 x)
  then show ?thesis using release_own [OF assms(1), of k0 x k] assms(2-4) by (auto split: if_splits)
next
  case (Pass d)
  then show ?thesis using subsetD [OF pass_keeps_none_new [OF assms(1), of d k]] assms(3,4) by (intro assms(2) [of a k b]) simp_all
qed

lemma exclusive_run:
  assumes "ok s" and "\<And>k a b. a \<in> holders s k \<Longrightarrow> b \<in> holders s k \<Longrightarrow> a = b"
    and "a \<in> holders (fold step ops s) k" and "b \<in> holders (fold step ops s) k"
  shows "a = b"
  using assms
proof (induction ops arbitrary: s)
  case (Cons op ops)
  show ?case
    by (rule Cons.IH [of "step op s"])
      (use Cons.prems step_ok exclusive_step [of s] in \<open>auto\<close>)
qed simp

end

subsection \<open>In memory\<close>

text \<open>
  \<open>MemLocker\<close> keeps a mutex per key; a mutex is locked by its owner until the owner unlocks it. The
  mutexes that were never used are unlocked, as are those that \<open>get\<close> creates.
\<close>

type_synonym MemLocker = "string \<rightharpoonup> string"

fun mem_op :: "lock_op \<Rightarrow> MemLocker \<Rightarrow> MemLocker" where
  "mem_op (Take k x) m = (if m k = None then m(k \<mapsto> x) else m)"
| "mem_op (Release k x) m = (if m k = Some x then m(k := None) else m)"
| "mem_op (Pass d) m = m"

definition mem_holders :: "MemLocker \<Rightarrow> string \<Rightarrow> string set" where
  "mem_holders m k = set_option (m k)"

interpretation mem: locker mem_holders mem_op "\<lambda>_. True"
  by unfold_locales (auto simp: mem_holders_def split: if_splits)

subsection \<open>Redis\<close>

text \<open>
  The key space, the clock, and the leases: every caller whose \<open>SetNX\<close> succeeded and that has not
  released yet, with the end of the time for which Redis keeps the key.
\<close>

record redis_locks =
  rl_keys :: keyspace
  rl_now :: go_time
  rl_leases :: "(string \<times> string \<times> go_time) list"

fun redis_op :: "lock_op \<Rightarrow> redis_locks \<Rightarrow> redis_locks" where
  "redis_op (Take k x) s =
     (let (got, m) = redis_SetNX (rl_now s) (lockKeyPrefix @ k) x lockTTL (rl_keys s) in
      if got then s\<lparr>rl_keys := m, rl_leases := (k, x, rl_now s + lockTTL) # rl_leases s\<rparr> else s)"
| "redis_op (Release k x) s =
     s\<lparr>rl_keys := releaseScript (rl_now s) (lockKeyPrefix @ k) x (rl_keys s),
       rl_leases := filter (\<lambda>(k', x', e). \<not> (k' = k \<and> x' = x)) (rl_leases s)\<rparr>"
| "redis_op (Pass d) s = s\<lparr>rl_now := rl_now s + int d\<rparr>"

definition redis_holders :: "redis_locks \<Rightarrow> string \<Rightarrow> string set" where
  "redis_holders s k = {x. \<exists>e. (k, x, e) \<in> set (rl_leases s) \<and> rl_now s < e}"

text \<open>A lease that has not run out is in Redis.\<close>

definition redis_ok :: "redis_locks \<Rightarrow> bool" where
  "redis_ok s \<longleftrightarrow> (\<forall>(k, x, e) \<in> set (rl_leases s). rl_now s < e \<longrightarrow> rl_keys s (lockKeyPrefix @ k) = Some (x, e))"

lemma redis_ok_step: "redis_ok s \<Longrightarrow> redis_ok (redis_op op s)"
  by (cases op) (fastforce simp: redis_ok_def redis_SetNX_def releaseScript_def redis_get_def Let_def
      split: if_splits option.splits prod.splits)+

interpretation redis: locker redis_holders redis_op redis_ok
proof unfold_locales
  fix s k x k' d op
  assume ok: "redis_ok s"
  show "redis_holders (redis_op (Take k x) s) k' \<subseteq> (if k' = k \<and> redis_holders s k = {} then {x} else redis_holders s k')"
    using ok by (fastforce simp: redis_holders_def redis_ok_def redis_SetNX_def redis_get_def Let_def split: if_splits option.splits)
  show "redis_holders (redis_op (Release k x) s) k' = (if k' = k then redis_holders s k - {x} else redis_holders s k')"
    by (auto simp: redis_holders_def)
  show "redis_holders (redis_op (Pass d) s) k' \<subseteq> redis_holders s k'"
    by (auto simp: redis_holders_def)
  show "redis_ok (redis_op op s)" using redis_ok_step [OF ok] .
qed

text \<open>
  C25. At most one caller relies on a user's lock at any time, for both lockers: after any sequence of
  attempts, releases and passing time, from an empty table, the callers that took the lock, have not
  released it and (with Redis) are within the 30 seconds of its life are at most one. In particular
  a caller that releases late never removes the lock of the next one.
\<close>

theorem locks_mutually_exclusive:
  "(a \<in> redis_holders (fold redis_op ops \<lparr>rl_keys = Map.empty, rl_now = t, rl_leases = []\<rparr>) k \<and>
    b \<in> redis_holders (fold redis_op ops \<lparr>rl_keys = Map.empty, rl_now = t, rl_leases = []\<rparr>) k \<longrightarrow> a = b)
   \<and> (a \<in> mem_holders (fold mem_op ops Map.empty) k \<and> b \<in> mem_holders (fold mem_op ops Map.empty) k \<longrightarrow> a = b)"
proof (intro conjI impI; elim conjE)
  show "a = b" if "a \<in> redis_holders (fold redis_op ops \<lparr>rl_keys = Map.empty, rl_now = t, rl_leases = []\<rparr>) k"
      and "b \<in> redis_holders (fold redis_op ops \<lparr>rl_keys = Map.empty, rl_now = t, rl_leases = []\<rparr>) k"
    by (rule redis.exclusive_run [OF _ _ that]) (auto simp: redis_ok_def redis_holders_def)
  show "a = b" if "a \<in> mem_holders (fold mem_op ops Map.empty) k" and "b \<in> mem_holders (fold mem_op ops Map.empty) k"
    by (rule mem.exclusive_run [OF _ _ that]) (auto simp: mem_holders_def)
qed

text \<open>
  The first caller overruns its lease and releases late, after the second has taken the lock: the
  second still holds it, and a third is refused.
\<close>

theorem locks_mutually_exclusive_witness:
  "redis_holders (fold redis_op [Take ''u'' ''t1'', Pass (nat lockTTL), Take ''u'' ''t2'', Release ''u'' ''t1'', Take ''u'' ''t3'']
     \<lparr>rl_keys = Map.empty, rl_now = 0, rl_leases = []\<rparr>) ''u'' = {''t2''}"
proof -
  let ?s = "fold redis_op [Take ''u'' ''t1'', Pass (nat lockTTL), Take ''u'' ''t2'', Release ''u'' ''t1'', Take ''u'' ''t3'']
     \<lparr>rl_keys = Map.empty, rl_now = 0, rl_leases = []\<rparr>"
  have "''t2'' \<in> redis_holders ?s ''u''"
    by (simp add: redis_holders_def redis_SetNX_def redis_get_def releaseScript_def lockTTL_def second_def)
  then show ?thesis
    using locks_mutually_exclusive [of _ "[Take ''u'' ''t1'', Pass (nat lockTTL), Take ''u'' ''t2'', Release ''u'' ''t1'', Take ''u'' ''t3'']" 0 "''u''" "''t2''"]
    by blast
qed

text \<open>
  Past the end of its lease a caller is not told that it lost the lock: two callers are then in the
  critical section at once, which the code accepts because creating a session takes far less.
\<close>

lemma lease_overrun:
  "\<exists>s. s = fold redis_op [Take ''u'' ''t1'', Pass (nat lockTTL), Take ''u'' ''t2''] \<lparr>rl_keys = Map.empty, rl_now = 0, rl_leases = []\<rparr>
     \<and> {x. \<exists>e. (''u'', x, e) \<in> set (rl_leases s)} = {''t1'', ''t2''}"
  by (auto simp: redis_SetNX_def redis_get_def lockTTL_def second_def)

end
