(* ===== verification/File_Flights.thy ===== *)
theory File_Flights
  imports Vm_Files
begin

text \<open>
  Concurrent use of the file service (\<open>src/apps/api/internal/vmfiles/service.go\<close>). The service merges
  listings of one session that overlap (\<open>singleflight.Group.DoChan\<close>) and bounds the work on all machines
  by a channel used as a counting semaphore. \<open>Vm_Files\<close> follows one request on its own; here any number
  of requests run interleaved, one step of one goroutine at a time.

  Of \<open>singleflight\<close> this models what it documents: a call with a key joins the running call of that key
  or starts one, the function runs in a goroutine of its own, and when it returns the key is forgotten
  and every caller that joined gets the one result.
\<close>

section \<open>State and steps\<close>

datatype phase = Starting | Running | Finished "vf_err + Snapshot"

record flight =
  ca_phase :: phase
  ca_waiters :: "nat list"

datatype reply = Listed "vf_err + Snapshot" | CtxDone

text \<open>
  The calls of the group by session, the length of the channel, the session every request to \<open>List\<close>
  asked for, the requests in the second half of \<open>Read\<close>, and the replies given so far. A request that
  asked and has no reply is in the \<open>select\<close> of \<open>List\<close>.
\<close>

record flights =
  fl_group :: "string \<Rightarrow> flight option"
  fl_used :: nat
  fl_asked :: "nat \<Rightarrow> string option"
  fl_reading :: "nat set"
  fl_reply :: "nat \<Rightarrow> reply option"

definition flights_start :: flights where
  "flights_start = \<lparr>fl_group = (\<lambda>_. None), fl_used = 0, fl_asked = (\<lambda>_. None), fl_reading = {}, fl_reply = (\<lambda>_. None)\<rparr>"

text \<open>\<open>select { case s.limit <- struct{}{}: ... default: ErrBusy }\<close>\<close>

definition acquireLimit :: "file_service \<Rightarrow> flights \<Rightarrow> flights option" where
  "acquireLimit sv s = (if fl_used s < fs_limit sv then Some (s\<lparr>fl_used := Suc (fl_used s)\<rparr>) else None)"

definition releaseLimit :: "flights \<Rightarrow> flights" where
  "releaseLimit s = s\<lparr>fl_used := fl_used s - 1\<rparr>"

text \<open>\<open>List\<close> up to its \<open>select\<close>. \<open>ended\<close> is whether the context of the request has ended already.\<close>

definition enter_List :: "bool \<Rightarrow> nat \<Rightarrow> string \<Rightarrow> flights \<Rightarrow> flights" where
  "enter_List ended q sid s =
     (let s0 = s\<lparr>fl_asked := (fl_asked s)(q \<mapsto> sid)\<rparr> in
      if ended then s0\<lparr>fl_reply := (fl_reply s)(q \<mapsto> CtxDone)\<rparr>
      else if sid = [] then s0\<lparr>fl_reply := (fl_reply s)(q \<mapsto> Listed (Inl (VfOther ''session ID is required'')))\<rparr>
      else
        (let call = (case fl_group s sid of
                       None \<Rightarrow> \<lparr>ca_phase = Starting, ca_waiters = [q]\<rparr>
                     | Some c \<Rightarrow> c\<lparr>ca_waiters := ca_waiters c @ [q]\<rparr>)
         in s0\<lparr>fl_group := (fl_group s)(sid \<mapsto> call)\<rparr>))"

text \<open>The function of the call: it takes a slot or ends at once, and gives the slot back when it returns.\<close>

definition begin_call :: "file_service \<Rightarrow> string \<Rightarrow> flight \<Rightarrow> flights \<Rightarrow> flights" where
  "begin_call sv sid c s =
     (case acquireLimit sv s of
        None \<Rightarrow> s\<lparr>fl_group := (fl_group s)(sid \<mapsto> c\<lparr>ca_phase := Finished (Inl ErrBusy)\<rparr>)\<rparr>
      | Some s1 \<Rightarrow> s1\<lparr>fl_group := (fl_group s)(sid \<mapsto> c\<lparr>ca_phase := Running\<rparr>)\<rparr>)"

definition end_call :: "string \<Rightarrow> flight \<Rightarrow> vf_err + Snapshot \<Rightarrow> flights \<Rightarrow> flights" where
  "end_call sid c r s = (releaseLimit s)\<lparr>fl_group := (fl_group s)(sid \<mapsto> c\<lparr>ca_phase := Finished r\<rparr>)\<rparr>"

text \<open>The key is forgotten and the result goes to every caller still in its \<open>select\<close>.\<close>

definition deliver :: "string \<Rightarrow> flight \<Rightarrow> vf_err + Snapshot \<Rightarrow> flights \<Rightarrow> flights" where
  "deliver sid c r s =
     s\<lparr>fl_group := (fl_group s)(sid := None),
       fl_reply := (\<lambda>q. if q \<in> set (ca_waiters c) \<and> fl_reply s q = None then Some (Listed r) else fl_reply s q)\<rparr>"

definition cancel_List :: "nat \<Rightarrow> flights \<Rightarrow> flights" where
  "cancel_List q s = s\<lparr>fl_reply := (fl_reply s)(q \<mapsto> CtxDone)\<rparr>"

definition begin_read :: "file_service \<Rightarrow> nat \<Rightarrow> flights \<Rightarrow> flights" where
  "begin_read sv q s =
     (case acquireLimit sv s of None \<Rightarrow> s | Some s1 \<Rightarrow> s1\<lparr>fl_reading := insert q (fl_reading s)\<rparr>)"

definition end_read :: "nat \<Rightarrow> flights \<Rightarrow> flights" where
  "end_read q s = (releaseLimit s)\<lparr>fl_reading := fl_reading s - {q}\<rparr>"

text \<open>
  One step of one goroutine. A listing runs on the machine as \<open>list_work\<close> does, from whatever state \<open>v\<close>
  the outside is in when it runs.
\<close>

inductive flight_step ::
  "file_service \<Rightarrow> (string \<Rightarrow> string + Snapshot) \<Rightarrow> 'v ssh \<Rightarrow> flights \<Rightarrow> flights \<Rightarrow> bool"
  for sv decode ssh where
  enter: "fl_asked s q = None \<Longrightarrow>
    flight_step sv decode ssh s (enter_List ended q sid s)"
| start: "fl_group s sid = Some c \<Longrightarrow> ca_phase c = Starting \<Longrightarrow>
    flight_step sv decode ssh s (begin_call sv sid c s)"
| finish: "fl_group s sid = Some c \<Longrightarrow> ca_phase c = Running \<Longrightarrow> r = fst (list_work decode ssh sid v) \<Longrightarrow>
    flight_step sv decode ssh s (end_call sid c r s)"
| hand_out: "fl_group s sid = Some c \<Longrightarrow> ca_phase c = Finished r \<Longrightarrow>
    flight_step sv decode ssh s (deliver sid c r s)"
| cancel: "fl_asked s q \<noteq> None \<Longrightarrow> fl_reply s q = None \<Longrightarrow> flight_step sv decode ssh s (cancel_List q s)"
| read_in: "q \<notin> fl_reading s \<Longrightarrow> flight_step sv decode ssh s (begin_read sv q s)"
| read_out: "q \<in> fl_reading s \<Longrightarrow> flight_step sv decode ssh s (end_read q s)"

inductive_cases flight_stepE: "flight_step sv decode ssh s s'"

inductive flight_reachable ::
  "file_service \<Rightarrow> (string \<Rightarrow> string + Snapshot) \<Rightarrow> 'v ssh \<Rightarrow> flights \<Rightarrow> bool"
  for sv decode ssh where
  init: "flight_reachable sv decode ssh flights_start"
| step: "flight_reachable sv decode ssh s \<Longrightarrow> flight_step sv decode ssh s s' \<Longrightarrow> flight_reachable sv decode ssh s'"

lemmas flight_ops = enter_List_def begin_call_def end_call_def deliver_def cancel_List_def begin_read_def
  end_read_def acquireLimit_def releaseLimit_def

section \<open>Slots\<close>

definition running :: "flights \<Rightarrow> string set" where
  "running s = {sid. \<exists>c. fl_group s sid = Some c \<and> ca_phase c = Running}"

definition slots_ok :: "file_service \<Rightarrow> flights \<Rightarrow> bool" where
  "slots_ok sv s \<longleftrightarrow>
     finite (running s) \<and> finite (fl_reading s) \<and>
     fl_used s = card (running s) + card (fl_reading s) \<and> fl_used s \<le> fs_limit sv"

lemma enter_keeps [simp]:
  "running (enter_List ended q sid s) = running s" "fl_used (enter_List ended q sid s) = fl_used s"
  "fl_reading (enter_List ended q sid s) = fl_reading s"
  by (auto simp: running_def enter_List_def Let_def split: option.splits if_splits)

lemma cancel_keeps [simp]:
  "running (cancel_List q s) = running s" "fl_used (cancel_List q s) = fl_used s" "fl_reading (cancel_List q s) = fl_reading s"
  by (simp_all add: running_def cancel_List_def)

lemma deliver_keeps:
  "fl_group s sid = Some c \<Longrightarrow> ca_phase c = Finished r \<Longrightarrow>
   running (deliver sid c r s) = running s \<and> fl_used (deliver sid c r s) = fl_used s \<and>
   fl_reading (deliver sid c r s) = fl_reading s"
  by (auto simp: running_def deliver_def)

lemma running_end: "running (end_call sid c r s) = running s - {sid}"
  by (auto simp: running_def end_call_def releaseLimit_def)

lemma running_begin:
  "fl_group s sid = Some c \<Longrightarrow> ca_phase c = Starting \<Longrightarrow>
   running (begin_call sv sid c s) = (if fl_used s < fs_limit sv then insert sid (running s) else running s) \<and>
   sid \<notin> running s"
  by (auto simp: running_def begin_call_def acquireLimit_def)

lemma running_read: "running (end_read q s) = running s" "running (begin_read sv q s) = running s"
  by (auto simp: running_def flight_ops split: option.splits)

lemma slots_step:
  assumes "flight_step sv decode ssh s s'" "slots_ok sv s"
  shows "slots_ok sv s'"
  using assms
proof cases
  case (start sid c)
  have "fl_reading s' = fl_reading s" "fl_used s' = (if fl_used s < fs_limit sv then Suc (fl_used s) else fl_used s)"
    by (simp_all add: start(1) begin_call_def acquireLimit_def)
  then show ?thesis using assms(2) running_begin [OF start(2,3), of sv]
    by (cases "fl_used s < fs_limit sv") (simp_all add: slots_ok_def start(1))
next
  case (finish sid c r v)
  then have "sid \<in> running s" by (auto simp: running_def)
  moreover have "finite (running s)" using assms(2) by (simp add: slots_ok_def)
  ultimately have "card (running s) = Suc (card (running s - {sid}))" by (intro card.remove)
  then show ?thesis using assms(2) finish
    by (auto simp: slots_ok_def running_end) (auto simp: end_call_def releaseLimit_def)
next
  case (read_in q)
  then show ?thesis using assms(2)
    by (auto simp: slots_ok_def running_read) (auto simp: begin_read_def acquireLimit_def)
next
  case (read_out q)
  then have "card (fl_reading s) = Suc (card (fl_reading s - {q}))"
    using assms(2) by (intro card.remove) (simp_all add: slots_ok_def)
  then show ?thesis using assms(2) read_out
    by (auto simp: slots_ok_def running_read) (auto simp: end_read_def releaseLimit_def)
qed (auto simp: slots_ok_def deliver_keeps)

section \<open>Replies\<close>

definition listing_of :: "(string \<Rightarrow> string + Snapshot) \<Rightarrow> 'v ssh \<Rightarrow> string \<Rightarrow> vf_err + Snapshot \<Rightarrow> bool" where
  "listing_of decode ssh sid r \<longleftrightarrow>
     r = Inl ErrBusy \<or> sid = [] \<and> isl r \<or> (\<exists>v. r = fst (list_work decode ssh sid v))"

text \<open>
  A request in the \<open>select\<close> is a waiter of the call of its session, waiters of a call asked for its
  session, and results and replies belong to the session asked for.
\<close>

definition waiting_ok :: "flights \<Rightarrow> bool" where
  "waiting_ok s \<longleftrightarrow>
     (\<forall>q sid. fl_asked s q = Some sid \<longrightarrow> fl_reply s q = None \<longrightarrow>
        (\<exists>c. fl_group s sid = Some c \<and> q \<in> set (ca_waiters c)))"

definition waiters_ok :: "flights \<Rightarrow> bool" where
  "waiters_ok s \<longleftrightarrow> (\<forall>sid c q. fl_group s sid = Some c \<longrightarrow> q \<in> set (ca_waiters c) \<longrightarrow> fl_asked s q = Some sid)"

definition results_ok :: "(string \<Rightarrow> string + Snapshot) \<Rightarrow> 'v ssh \<Rightarrow> flights \<Rightarrow> bool" where
  "results_ok decode ssh s \<longleftrightarrow>
     (\<forall>sid c r. fl_group s sid = Some c \<longrightarrow> ca_phase c = Finished r \<longrightarrow> listing_of decode ssh sid r) \<and>
     (\<forall>q r. fl_reply s q = Some (Listed r) \<longrightarrow> (\<exists>sid. fl_asked s q = Some sid \<and> listing_of decode ssh sid r))"

lemmas reply_invs = waiting_ok_def waiters_ok_def results_ok_def

lemma listing_of_intros [intro]:
  "listing_of decode ssh sid (Inl ErrBusy)" "listing_of decode ssh [] (Inl e)"
  "listing_of decode ssh sid (fst (list_work decode ssh sid v))"
  by (auto simp: listing_of_def)

lemma waiting_step:
  assumes "flight_step sv decode ssh s s'" "waiting_ok s" "waiters_ok s"
  shows "waiting_ok s' \<and> waiters_ok s'"
  using assms
proof cases
  case (enter q ended sid)
  then show ?thesis using assms(2,3)
    by (cases "fl_group s sid") (auto simp: reply_invs enter_List_def Let_def, fastforce+)
next
  case (hand_out sid c r)
  then have w: "\<And>q. q \<in> set (ca_waiters c) \<Longrightarrow> fl_asked s q = Some sid"
    using assms(3) by (auto simp: waiters_ok_def)
  have "waiters_ok s'" using assms(3) hand_out by (auto simp: waiters_ok_def deliver_def split: if_splits)
  moreover have "waiting_ok s'" unfolding waiting_ok_def
  proof (intro allI impI)
    fix q x assume a: "fl_asked s' q = Some x" "fl_reply s' q = None"
    then have "fl_asked s q = Some x" "fl_reply s q = None" "q \<notin> set (ca_waiters c)"
      by (auto simp: hand_out(1) deliver_def split: if_splits)
    moreover from this obtain d where "fl_group s x = Some d" "q \<in> set (ca_waiters d)"
      using assms(2) unfolding waiting_ok_def by blast
    ultimately show "\<exists>d. fl_group s' x = Some d \<and> q \<in> set (ca_waiters d)"
      using hand_out by (auto simp: deliver_def)
  qed
  ultimately show ?thesis by simp
qed (auto simp: reply_invs flight_ops split: if_splits option.splits, (metis option.inject)+)

lemma results_step:
  assumes "flight_step sv decode ssh s s'" "results_ok decode ssh s" "waiters_ok s"
  shows "results_ok decode ssh s'"
  using assms
proof cases
  case (enter q ended sid)
  then show ?thesis using assms(2,3)
    by (cases "fl_group s sid") (auto simp: results_ok_def enter_List_def Let_def split: if_splits, fastforce+)
next
  case (hand_out sid c r)
  then have "\<And>q. q \<in> set (ca_waiters c) \<Longrightarrow> fl_asked s q = Some sid" "listing_of decode ssh sid r"
    using assms(2,3) by (auto simp: waiters_ok_def results_ok_def)
  then show ?thesis using assms(2) hand_out(1) by (auto simp: results_ok_def deliver_def split: if_splits)
qed (auto simp: results_ok_def flight_ops split: if_splits option.splits)

lemma flight_invariant:
  assumes "flight_reachable sv decode ssh s"
  shows "slots_ok sv s \<and> waiting_ok s \<and> waiters_ok s \<and> results_ok decode ssh s"
  using assms
proof induction
  case init
  then show ?case by (simp add: slots_ok_def reply_invs flights_start_def running_def)
next
  case (step s s')
  then show ?case using slots_step waiting_step results_step by blast
qed

section \<open>Every request is answered\<close>

lemma finished_answers:
  assumes "fl_group s sid = Some c" "ca_phase c = Finished r" "q \<in> set (ca_waiters c)" "fl_reply s q = None"
  shows "\<exists>s'. flight_step sv decode ssh s s' \<and> fl_reply s' q = Some (Listed r)"
proof (intro exI conjI)
  show "flight_step sv decode ssh s (deliver sid c r s)" using assms(1,2) by (rule flight_step.hand_out)
  show "fl_reply (deliver sid c r s) q = Some (Listed r)" using assms(3,4) by (simp add: deliver_def)
qed

lemma running_answers:
  assumes "fl_group s sid = Some c" "ca_phase c = Running" "q \<in> set (ca_waiters c)" "fl_reply s q = None"
  shows "\<exists>s' r. (flight_step sv decode ssh)\<^sup>*\<^sup>* s s' \<and> fl_reply s' q = Some (Listed r)"
proof -
  fix v
  let ?r = "fst (list_work decode ssh sid v)"
  let ?s = "end_call sid c ?r s"
  have "flight_step sv decode ssh s ?s" using assms(1,2) by (rule flight_step.finish) simp
  moreover obtain s' where "flight_step sv decode ssh ?s s'" "fl_reply s' q = Some (Listed ?r)"
    using finished_answers [of ?s sid "c\<lparr>ca_phase := Finished ?r\<rparr>" ?r q sv decode ssh] assms(3,4)
    by (auto simp: end_call_def releaseLimit_def)
  ultimately show ?thesis by (meson converse_rtranclp_into_rtranclp rtranclp.rtrancl_refl)
qed

lemma waiting_answered:
  assumes "waiting_ok s" "fl_asked s q = Some sid" "fl_reply s q = None"
  shows "\<exists>s' r. (flight_step sv decode ssh)\<^sup>*\<^sup>* s s' \<and> fl_reply s' q = Some (Listed r)"
proof -
  obtain c where c: "fl_group s sid = Some c" "q \<in> set (ca_waiters c)"
    using assms unfolding waiting_ok_def by blast
  show ?thesis
  proof (cases "ca_phase c")
    case Starting
    let ?s = "begin_call sv sid c s"
    have st: "flight_step sv decode ssh s ?s" using c(1) Starting by (rule flight_step.start)
    have "\<exists>s' r. (flight_step sv decode ssh)\<^sup>*\<^sup>* ?s s' \<and> fl_reply s' q = Some (Listed r)"
    proof (cases "fl_used s < fs_limit sv")
      case True
      then show ?thesis using c assms(3)
        by (intro running_answers [of _ sid "c\<lparr>ca_phase := Running\<rparr>"]) (auto simp: begin_call_def acquireLimit_def)
    next
      case False
      then have "\<exists>s'. flight_step sv decode ssh ?s s' \<and> fl_reply s' q = Some (Listed (Inl ErrBusy))"
        using c assms(3)
        by (intro finished_answers [of _ sid "c\<lparr>ca_phase := Finished (Inl ErrBusy)\<rparr>"])
           (auto simp: begin_call_def acquireLimit_def)
      then show ?thesis by (meson r_into_rtranclp)
    qed
    with st show ?thesis by (meson converse_rtranclp_into_rtranclp)
  next
    case Running
    with c assms(3) show ?thesis by (intro running_answers)
  next
    case (Finished r)
    with c assms(3) show ?thesis using finished_answers by blast
  qed
qed

text \<open>
  C20. Merging and bounding the listings is safe and starves nobody. However requests interleave, arrive
  or give up, the number of listings and reads on machines at any moment is what the channel counts and
  never above the limit, so no slot leaks; a request that gets a listing gets one of the session it asked
  for, or the busy error, never that of another session it happened to overlap with; and a request still
  waiting is always one the running call of its session knows, so that the steps of that call alone lead
  to its reply, also when the request that started the call has gone.
\<close>

theorem merged_listings_safe_and_answered:
  assumes "flight_reachable sv decode (ssh :: 'v ssh) s"
  shows "card (running s) + card (fl_reading s) = fl_used s \<and> fl_used s \<le> fs_limit sv \<and>
    (\<forall>q r. fl_reply s q = Some (Listed r) \<longrightarrow>
       (\<exists>sid. fl_asked s q = Some sid \<and> listing_of decode ssh sid r)) \<and>
    (\<forall>q sid. fl_asked s q = Some sid \<and> fl_reply s q = None \<longrightarrow>
       (\<exists>s' r. (flight_step sv decode ssh)\<^sup>*\<^sup>* s s' \<and> fl_reply s' q = Some (Listed r)))"
  using flight_invariant [OF assms] waiting_answered
  by (auto simp: slots_ok_def results_ok_def)

definition one_slot :: file_service where "one_slot = NewService 0 0"

definition demo_flights :: flights where
  "demo_flights = cancel_List 0 (enter_List False 1 ''a'' (begin_call one_slot ''a'' \<lparr>ca_phase = Starting, ca_waiters = [0]\<rparr>
     (enter_List False 0 ''a'' flights_start)))"

lemmas demo_flight_defs = flight_ops flights_start_def one_slot_def NewService_def

lemma demo_flight: "flight_reachable one_slot (\<lambda>_. Inl ''bad'') (demo_ssh :: unit ssh) demo_flights"
proof -
  let ?reach = "flight_reachable one_slot (\<lambda>_. Inl ''bad'') (demo_ssh :: unit ssh)"
  let ?s1 = "enter_List False 0 ''a'' flights_start"
  let ?s2 = "begin_call one_slot ''a'' \<lparr>ca_phase = Starting, ca_waiters = [0]\<rparr> ?s1"
  have "?reach ?s1"
    by (rule flight_reachable.step [OF flight_reachable.init], rule flight_step.enter) (simp add: flights_start_def)
  then have "?reach ?s2"
    by (rule flight_reachable.step, intro flight_step.start) (simp_all add: demo_flight_defs)
  then have "?reach (enter_List False 1 ''a'' ?s2)"
    by (rule flight_reachable.step, intro flight_step.enter) (simp add: demo_flight_defs)
  then show ?thesis unfolding demo_flights_def
    by (rule flight_reachable.step, intro flight_step.cancel) (simp_all add: demo_flight_defs)
qed

theorem merged_listings_safe_and_answered_witness:
  "fl_used demo_flights = 1 \<and> fl_reply demo_flights 0 = Some CtxDone \<and>
   (\<exists>s' r. (flight_step one_slot (\<lambda>_. Inl ''bad'') (demo_ssh :: unit ssh))\<^sup>*\<^sup>* demo_flights s' \<and> fl_reply s' 1 = Some (Listed r))"
proof -
  have "fl_used demo_flights = 1" "fl_reply demo_flights 0 = Some CtxDone"
    "fl_asked demo_flights 1 = Some ''a''" "fl_reply demo_flights 1 = None"
    by (simp_all add: demo_flights_def demo_flight_defs)
  then show ?thesis using merged_listings_safe_and_answered [OF demo_flight] by blast
qed

end
