(* ===== verification/Validation_Race.thy ===== *)
theory Validation_Race
  imports Step_Machine "HOL-Library.Multiset"
begin

text \<open>
  The requests to validate the steps of one session, each with its place in \<open>ValidateStep\<close>: it looks the
  step up, publishes the message for the engine, and marks the step as \<open>validating\<close>, in this order. Other requests,
  the answers of the engine and hints come in between. The question is whether a step can be left in
  \<open>validating\<close> when no answer is awaited any more.
\<close>

section \<open>Requests and answers\<close>

text \<open>
  A running request has looked up step \<open>k\<close> at index \<open>i\<close>, or has also published its message and has yet to
  mark the step.
\<close>

datatype request_place = LookedUp int nat | Published int nat

text \<open>
  \<open>rc_waiting\<close> holds the step ids of the messages that have not been answered, \<open>rc_answered\<close> those for which an
  answer was applied. Three fields only record: how many messages were published, the steps a passing answer
  was applied to, and whether an answer came too early: it was the last one awaited for its step, and a
  request that had published its message for this step was still to mark it.
\<close>

record race_state =
  rc_sess :: sessionSteps
  rc_running :: "nat \<Rightarrow> request_place option"
  rc_waiting :: "int multiset"
  rc_answered :: "int set"
  rc_sent :: nat
  rc_passed :: "int set"
  rc_early :: bool

definition race_init :: "string \<Rightarrow> string \<Rightarrow> int list \<Rightarrow> race_state" where
  "race_init lab uid ks =
     \<lparr>rc_sess = init_session lab uid ks, rc_running = Map.empty, rc_waiting = {#}, rc_answered = {}, rc_sent = 0,
      rc_passed = {}, rc_early = False\<rparr>"

definition rc_publish :: "int \<Rightarrow> race_state \<Rightarrow> race_state" where
  "rc_publish k s = s\<lparr>rc_waiting := add_mset k (rc_waiting s), rc_sent := Suc (rc_sent s)\<rparr>"

definition rc_apply :: "ValidationResult \<Rightarrow> race_state \<Rightarrow> race_state" where
  "rc_apply r s = s\<lparr>rc_sess := snd (snd (apply_result_fn r (rc_sess s))),
     rc_passed := (if vr_passed r then insert (vr_step_id r) (rc_passed s) else rc_passed s)\<rparr>"

definition rc_answer :: "ValidationResult \<Rightarrow> race_state \<Rightarrow> race_state" where
  "rc_answer r s =
     (let k = vr_step_id r; w = rc_waiting s - {#k#}
      in (rc_apply r s)\<lparr>rc_waiting := w, rc_answered := insert k (rc_answered s),
           rc_early := rc_early s \<or> k \<notin># w \<and> (\<exists>n i. rc_running s n = Some (Published k i))\<rparr>)"

text \<open>
  A request that was looked up may also end there: an error before the message is published, or an error of
  publishing, whether or not the message was written. The engine answers each message; an answer may
  be delivered again.
\<close>

inductive race_step :: "race_state \<Rightarrow> race_state \<Rightarrow> bool" where
  look_up: "rc_running s n = None \<Longrightarrow> fst (validatable_fn k (rc_sess s)) = (Some i, False) \<Longrightarrow>
     race_step s (s\<lparr>rc_running := (rc_running s)(n \<mapsto> LookedUp k i)\<rparr>)"
| give_up: "rc_running s n = Some (LookedUp k i) \<Longrightarrow> race_step s (s\<lparr>rc_running := (rc_running s)(n := None)\<rparr>)"
| publish_unsure: "rc_running s n = Some (LookedUp k i) \<Longrightarrow>
     race_step s (rc_publish k (s\<lparr>rc_running := (rc_running s)(n := None)\<rparr>))"
| publish: "rc_running s n = Some (LookedUp k i) \<Longrightarrow>
     race_step s (rc_publish k (s\<lparr>rc_running := (rc_running s)(n \<mapsto> Published k i)\<rparr>))"
| mark: "rc_running s n = Some (Published k i) \<Longrightarrow>
     race_step s (s\<lparr>rc_sess := snd (snd (mark_validating_fn (int i) (rc_sess s))), rc_running := (rc_running s)(n := None)\<rparr>)"
| answer: "vr_step_id r \<in># rc_waiting s \<Longrightarrow> race_step s (rc_answer r s)"
| answer_again: "vr_step_id r \<in> rc_answered s \<Longrightarrow> race_step s (rc_apply r s)"
| hint: "race_step s (s\<lparr>rc_sess := snd (snd (next_hint_fn k e (rc_sess s)))\<rparr>)"

inductive_cases race_stepE: "race_step s s'"

inductive race_reachable :: "string \<Rightarrow> string \<Rightarrow> int list \<Rightarrow> race_state \<Rightarrow> bool" for lab uid ks where
  start: "race_reachable lab uid ks (race_init lab uid ks)"
| step: "race_reachable lab uid ks s \<Longrightarrow> race_step s s' \<Longrightarrow> race_reachable lab uid ks s'"

text \<open>Nothing is under way.\<close>

definition race_over :: "race_state \<Rightarrow> bool" where
  "race_over s \<longleftrightarrow> rc_running s = Map.empty \<and> rc_waiting s = {#}"

lemmas race_ops = rc_publish_def rc_apply_def rc_answer_def Let_def

section \<open>Without an early answer no step is left behind\<close>

definition race_inv :: "int list \<Rightarrow> race_state \<Rightarrow> bool" where
  "race_inv ks s \<longleftrightarrow>
     map step_id (ss_steps (rc_sess s)) = ks \<and>
     (\<forall>n k i. rc_running s n \<in> {Some (LookedUp k i), Some (Published k i)} \<longrightarrow> i < length ks \<and> ks ! i = k) \<and>
     (\<not> rc_early s \<longrightarrow>
        (\<forall>n k i. rc_running s n = Some (Published k i) \<longrightarrow> k \<in># rc_waiting s) \<and>
        (\<forall>i<length ks. step_status (ss_steps (rc_sess s) ! i) = ''validating'' \<longrightarrow> ks ! i \<in># rc_waiting s))"

lemma snd_shape:
  assumes "well_behaved fn"
  shows "map step_id (ss_steps (snd (snd (fn ss)))) = map step_id (ss_steps ss)"
  using assms well_behavedD(1) [of fn ss "fst (fn ss)" "fst (snd (fn ss))" "snd (snd (fn ss))"]
  by (simp add: same_shape_def)

lemma steps_length: "map step_id (ss_steps ss) = ks \<Longrightarrow> length (ss_steps ss) = length ks"
  by (metis length_map)

lemma apply_validating:
  assumes "distinct ks" "map step_id (ss_steps ss) = ks" "i < length ks"
    and "step_status (ss_steps (snd (snd (apply_result_fn r ss))) ! i) = ''validating''"
  shows "step_status (ss_steps ss ! i) = ''validating'' \<and> ks ! i \<noteq> vr_step_id r"
proof (cases "step_at (vr_step_id r) ss")
  case None
  then have "vr_step_id r \<notin> step_id ` set (ss_steps ss)"
    by (auto simp: step_at_def find_index_None)
  moreover have "ks ! i \<in> set ks" using assms(3) by simp
  ultimately show ?thesis
    using None assms(2,4) by (auto simp: apply_result_fn_def)
next
  case (Some j)
  have len: "length (ss_steps ss) = length ks" using assms(2) by (rule steps_length)
  have j: "j < length ks" "ks ! j = vr_step_id r"
    using Some assms(2) len by (auto simp: step_at_def find_index_Some)
  show ?thesis
    using assms(3,4) j len apply_result_status [of i ss r j] Some nth_eq_iff_index_eq [OF assms(1,3) j(1)]
    by (auto split: if_splits)
qed

lemma mark_validating:
  assumes "map step_id (ss_steps ss) = ks" "i < length ks" "j < length ks"
    and "step_status (ss_steps (snd (snd (mark_validating_fn (int j) ss))) ! i) = ''validating''"
  shows "i = j \<or> step_status (ss_steps ss ! i) = ''validating''"
  using assms mark_validating_status [of i ss "int j"] steps_length [OF assms(1)] by (auto split: if_splits)

lemma race_inv_answered:
  assumes "distinct ks" "race_inv ks s"
  shows "race_inv ks (rc_apply r s)" and "race_inv ks (rc_answer r s)"
proof -
  let ?ss = "snd (snd (apply_result_fn r (rc_sess s)))"
  have ids: "map step_id (ss_steps (rc_sess s)) = ks" "map step_id (ss_steps ?ss) = ks"
    using assms(2) snd_shape [OF apply_result_well_behaved, of r "rc_sess s"] by (simp_all add: race_inv_def)
  note v = apply_validating [OF assms(1) ids(1), where r = r]
  show "race_inv ks (rc_apply r s)"
    using assms(2) ids v by (auto simp: race_inv_def race_ops)
  have "ks ! i \<in># rc_waiting s - {#vr_step_id r#}"
    if "\<not> rc_early s" "i < length ks" "step_status (ss_steps ?ss ! i) = ''validating''" for i
    using that v [OF that(2,3)] assms(2) by (auto simp: race_inv_def in_diff_count)
  moreover have "k \<in># rc_waiting s - {#vr_step_id r#}"
    if "\<not> rc_early s" "rc_running s n = Some (Published k i)"
      "vr_step_id r \<notin># rc_waiting s - {#vr_step_id r#} \<longrightarrow> (\<forall>n i. rc_running s n \<noteq> Some (Published (vr_step_id r) i))" for n k i
  proof (cases "k = vr_step_id r")
    case True
    then show ?thesis using that by blast
  next
    case False
    have "k \<in># rc_waiting s" using assms(2) that(1,2) unfolding race_inv_def by blast
    with False show ?thesis by (simp add: in_diff_count)
  qed
  ultimately show "race_inv ks (rc_answer r s)"
    using assms(2) ids unfolding race_inv_def race_ops by auto
qed

lemma race_inv_step:
  assumes "distinct ks" "race_inv ks s" "race_step s s'"
  shows "race_inv ks s'"
  using assms(3)
proof (cases rule: race_step.cases)
  case (look_up n k i)
  have "length (ss_steps (rc_sess s)) = length ks" "map step_id (ss_steps (rc_sess s)) = ks"
    using assms(2) steps_length by (auto simp: race_inv_def)
  then have "i < length ks" "ks ! i = k"
    using look_up(3) by (auto simp: validatable_fn_def step_at_def find_index_Some Let_def)
  then show ?thesis using assms(2) look_up(1) by (auto simp: race_inv_def)
next
  case (give_up n k i)
  then show ?thesis using assms(2) by (auto simp: race_inv_def)
next
  case (publish_unsure n k i)
  then show ?thesis using assms(2) by (auto simp: race_inv_def race_ops)
next
  case (publish n k i)
  then show ?thesis using assms(2) by (auto simp: race_inv_def race_ops)
next
  case (mark n k i)
  have ids: "map step_id (ss_steps (rc_sess s)) = ks" using assms(2) by (simp add: race_inv_def)
  have i: "i < length ks" "ks ! i = k" using assms(2) mark(2) by (auto simp: race_inv_def)
  have w: "k \<in># rc_waiting s" if "\<not> rc_early s" using assms(2) mark(2) that unfolding race_inv_def by blast
  let ?ss = "snd (snd (mark_validating_fn (int i) (rc_sess s)))"
  have ids': "map step_id (ss_steps ?ss) = ks" using ids snd_shape [OF mark_validating_well_behaved] by simp
  have v: "ks ! j \<in># rc_waiting s"
    if "\<not> rc_early s" "j < length ks" "step_status (ss_steps ?ss ! j) = ''validating''" for j
    using mark_validating [OF ids that(2) i(1) that(3)]
  proof
    assume "j = i"
    then show ?thesis using w [OF that(1)] i(2) by simp
  next
    assume "step_status (ss_steps (rc_sess s) ! j) = ''validating''"
    then show ?thesis using assms(2) that(1,2) unfolding race_inv_def by blast
  qed
  have "\<not> rc_early s \<longrightarrow> (\<forall>m k i. rc_running s m = Some (Published k i) \<longrightarrow> k \<in># rc_waiting s)"
    "\<forall>m k i. rc_running s m \<in> {Some (LookedUp k i), Some (Published k i)} \<longrightarrow> i < length ks \<and> ks ! i = k"
    using assms(2) by (simp_all add: race_inv_def)
  then show ?thesis using ids' v unfolding race_inv_def mark(1) by simp
next
  case (answer r)
  then show ?thesis using race_inv_answered(2) [OF assms(1,2)] by simp
next
  case (answer_again r)
  then show ?thesis using race_inv_answered(1) [OF assms(1,2)] by simp
next
  case (hint k e)
  then show ?thesis
    using assms(2) snd_shape [OF next_hint_well_behaved, of k e "rc_sess s"] steps_length [of "rc_sess s" ks]
    by (auto simp: race_inv_def next_hint_status)
qed

lemma init_not_validating: "i < length ks \<Longrightarrow> step_status (init_steps n ks ! i) \<noteq> ''validating''"
  by (induction ks arbitrary: i n) (auto simp: nth_Cons split: nat.split)

lemma race_invariant:
  assumes "distinct ks"
  shows "race_reachable lab uid ks s \<Longrightarrow> race_inv ks s"
proof (induction rule: race_reachable.induct)
  case start
  show ?case using init_not_validating by (simp add: race_inv_def race_init_def init_session_def Let_def)
next
  case (step s s')
  then show ?case using race_inv_step [OF assms] by blast
qed

section \<open>With an early answer a passed step is lost\<close>

text \<open>One request for the first step, answered with a pass before the step is marked.\<close>

definition early_pass :: "int \<Rightarrow> ValidationResult" where
  "early_pass k = \<lparr>vr_trace_id = [], vr_session_id = [], vr_step_id = k, vr_passed = True, vr_checks = [], vr_duration_ms = 0\<rparr>"

definition overtaken :: "string \<Rightarrow> string \<Rightarrow> int \<Rightarrow> int list \<Rightarrow> race_state" where
  "overtaken lab uid k ks =
     rc_answer (early_pass k) (rc_publish k ((race_init lab uid (k # ks))\<lparr>rc_running := [0 \<mapsto> Published k 0]\<rparr>))"

definition lost_pass :: "string \<Rightarrow> string \<Rightarrow> int \<Rightarrow> int list \<Rightarrow> race_state" where
  "lost_pass lab uid k ks = (overtaken lab uid k ks)
     \<lparr>rc_sess := snd (snd (mark_validating_fn 0 (rc_sess (overtaken lab uid k ks)))), rc_running := Map.empty\<rparr>"

lemma lost_pass_reachable: "race_reachable lab uid (k # ks) (lost_pass lab uid k ks)"
proof -
  let ?s0 = "race_init lab uid (k # ks)"
  let ?s1 = "?s0\<lparr>rc_running := [0 \<mapsto> LookedUp k 0]\<rparr>"
  let ?s2 = "rc_publish k (?s0\<lparr>rc_running := [0 \<mapsto> Published k 0]\<rparr>)"
  have 1: "race_step ?s0 ?s1"
    using race_step.look_up [of ?s0 0 k 0]
    by (simp add: race_init_def validatable_fn_def step_at_def init_session_def)
  have 2: "race_step ?s1 ?s2"
    using race_step.publish [of ?s1 0 k 0] by simp
  have 3: "race_step ?s2 (overtaken lab uid k ks)"
    unfolding overtaken_def by (rule race_step.answer) (simp add: early_pass_def rc_publish_def)
  have "rc_running (overtaken lab uid k ks) = [0 \<mapsto> Published k 0]"
    by (simp add: overtaken_def race_ops)
  then have 4: "race_step (overtaken lab uid k ks) (lost_pass lab uid k ks)"
    using race_step.mark [of "overtaken lab uid k ks" 0 k 0] by (simp add: lost_pass_def)
  show ?thesis
    by (rule race_reachable.step [OF race_reachable.step [OF race_reachable.step [OF race_reachable.step
          [OF race_reachable.start 1] 2] 3] 4])
qed

lemma lost_pass_ids: "map step_id (ss_steps (rc_sess (lost_pass lab uid k ks))) = k # ks"
  by (simp add: lost_pass_def overtaken_def race_ops race_init_def init_session_def
      snd_shape [OF mark_validating_well_behaved] snd_shape [OF apply_result_well_behaved])

lemma lost_pass_status: "step_status (ss_steps (rc_sess (lost_pass lab uid k ks)) ! 0) = ''validating''"
proof -
  have "map step_id (ss_steps (rc_sess (overtaken lab uid k ks))) = k # ks"
    by (simp add: overtaken_def race_ops race_init_def init_session_def snd_shape [OF apply_result_well_behaved])
  from steps_length [OF this] show ?thesis
    using mark_validating_status [of 0 "rc_sess (overtaken lab uid k ks)" 0] by (simp add: lost_pass_def)
qed

lemma later_blocked:
  assumes "map step_id (ss_steps ss) = k # ks" "step_status (ss_steps ss ! 0) \<noteq> ''passed''" "j \<in> set ks" "j \<noteq> k"
  shows "snd (fst (validatable_fn j ss))"
proof -
  have "j \<in> step_id ` set (ss_steps ss)" using assms(1,3) by (metis image_set list.set_intros(2))
  then obtain i where i: "step_at j ss = Some i"
    by (cases "step_at j ss") (auto simp: step_at_def find_index_None)
  have "ss_steps ss \<noteq> []" using assms(1) by auto
  moreover have "step_id (ss_steps ss ! 0) = k" using assms(1) by (cases "ss_steps ss") auto
  then have "i \<noteq> 0" using assms(4) find_index_SomeD(2) [OF i [unfolded step_at_def]] by (cases "i = 0") simp_all
  ultimately show ?thesis
    using i assms(2) by (auto simp: validatable_fn_def Let_def blocked_loop_iff)
qed

text \<open>
  C40. A step stays in \<open>validating\<close> for good exactly when an answer of the engine overtakes the request that asked for it.
  Whatever requests, answers, repeated answers and hints come in whatever order: as long as no last
  answer for a step is applied between the publishing of a request for it and its mark, every step that is
  \<open>validating\<close> has an unanswered request, so that once everything is answered no step is \<open>validating\<close>. But
  since \<open>ValidateStep\<close> publishes before it marks, for every lab a state can be reached in which one
  request was sent, it was answered with a pass, the pass was applied, nothing is under way any more, and the step is \<open>validating\<close>:
  the lab is not finished, and every later step is refused.
\<close>

theorem early_answer_loses_step:
  assumes "distinct ks" and "ks \<noteq> []"
  shows "(\<forall>s i. race_reachable lab uid ks s \<and> \<not> rc_early s \<and> i < length ks
       \<and> step_status (ss_steps (rc_sess s) ! i) = ''validating'' \<longrightarrow> ks ! i \<in># rc_waiting s)
    \<and> (\<forall>s. race_reachable lab uid ks s \<and> \<not> rc_early s \<and> race_over s \<longrightarrow>
         ''validating'' \<notin> step_status ` set (ss_steps (rc_sess s)))
    \<and> (\<exists>s. race_reachable lab uid ks s \<and> rc_early s \<and> race_over s \<and> rc_sent s = 1 \<and> rc_passed s = {hd ks}
         \<and> step_status (hd (ss_steps (rc_sess s))) = ''validating'' \<and> \<not> allPassed (rc_sess s)
         \<and> (\<forall>k\<in>set (tl ks). snd (fst (validatable_fn k (rc_sess s)))))"
proof -
  have awaited: "ks ! i \<in># rc_waiting s" if "race_reachable lab uid ks s" "\<not> rc_early s" "i < length ks"
    "step_status (ss_steps (rc_sess s) ! i) = ''validating''" for s i
    using race_invariant [OF assms(1) that(1)] that(2-4) by (simp add: race_inv_def)
  have over: "''validating'' \<notin> step_status ` set (ss_steps (rc_sess s))"
    if "race_reachable lab uid ks s" "\<not> rc_early s" "race_over s" for s
  proof -
    have "length (ss_steps (rc_sess s)) = length ks"
      using race_invariant [OF assms(1) that(1)] steps_length by (auto simp: race_inv_def)
    then have "step_status (ss_steps (rc_sess s) ! i) \<noteq> ''validating''" if "i < length (ss_steps (rc_sess s))" for i
      using awaited [OF \<open>race_reachable lab uid ks s\<close> \<open>\<not> rc_early s\<close>, of i] \<open>race_over s\<close> that by (auto simp: race_over_def)
    then show ?thesis by (fastforce simp: in_set_conv_nth)
  qed
  obtain k ks' where ks: "ks = k # ks'" using assms(2) by (cases ks) auto
  let ?s = "lost_pass lab uid k ks'"
  have ne: "ss_steps (rc_sess ?s) \<noteq> []" using lost_pass_ids [of lab uid k ks'] by auto
  have st: "step_status (hd (ss_steps (rc_sess ?s))) = ''validating''"
    using lost_pass_status ne by (simp add: hd_conv_nth)
  have "\<not> allPassed (rc_sess ?s)" using st ne by (cases "ss_steps (rc_sess ?s)") (auto simp: allPassed_def)
  moreover have "rc_early ?s \<and> race_over ?s \<and> rc_sent ?s = 1 \<and> rc_passed ?s = {hd ks}"
    by (auto simp: lost_pass_def overtaken_def race_ops race_init_def race_over_def early_pass_def ks)
  moreover have "snd (fst (validatable_fn j (rc_sess ?s)))" if "j \<in> set (tl ks)" for j
    using later_blocked [OF lost_pass_ids, of lab uid k ks' j] lost_pass_status [of lab uid k ks'] that assms(1) ks by auto
  ultimately show ?thesis
    using awaited over lost_pass_reachable [of lab uid k ks'] st ks by blast
qed

theorem early_answer_loses_step_witness:
  "\<exists>s. race_reachable ''lab'' ''u'' [1, 2] s \<and> race_over s \<and> rc_sent s = 1 \<and> rc_passed s = {1}
     \<and> step_status (hd (ss_steps (rc_sess s))) = ''validating'' \<and> snd (fst (validatable_fn 2 (rc_sess s)))"
  using early_answer_loses_step [of "[1, 2]" "''lab''" "''u''"] by auto

end
