(* ===== verification/Spec2Isabelle.thy ===== *)
theory Spec2Isabelle
  imports Observability Discovery Boot_Watcher Session_Safety Engine_Start Locks File_Flights Validation_Race
begin

text \<open>
  Verification of Cledyu, a platform on which learners work through labs on virtual machines of their
  own: the API server (\<open>src/apps/api\<close>) and the validation engine (\<open>src/apps/validation-engine\<close>), both
  written in Go.

  \<^bold>\<open>How the program works.\<close> A learner logs in through Keycloak and creates a session. The API
  stores the initial progress, asks a session provider for a machine (KubeVirt on premises, EC2 for the
  overflow, chosen by a dispatcher) and from then on serves the steps of the lab. To validate a step
  the API publishes a request to Kafka; the engine runs the checks of the step on the machine and
  publishes a result, which the API applies to the progress. Reapers remove stuck and expired
  sessions. Around this are the catalogue, hints, billing, a leaderboard and a dashboard, terminals,
  an IDE and file previews for the machine, and an administration interface.

  \<^bold>\<open>Theories and sources.\<close> Paths are below \<open>src/apps/api/internal\<close> unless they start with
  \<open>engine:\<close>, which stands for \<open>src/apps/validation-engine\<close>; \<open>handlers\<close> is \<open>api/handlers\<close>.

  \<^item> \<open>Prelude\<close>: time, metadata strings, errors, JSON and responses, keyed rows, the clock of the outside.
  \<^item> \<open>Store\<close>, \<open>Persistence\<close>: \<open>store/store.go\<close>. Tables are lists of rows; every method takes a fault: an
    error at its n-th statement, or a commit whose answer is lost. \<open>Persistence\<close> is the interface the
    handlers use, with the laws of the progress methods as the locale \<open>progress_persistence\<close>,
    interpreted for the store with and without faults.
  \<^item> \<open>Messages\<close>: \<open>validation/message.go\<close>, \<open>events/events.go\<close> and the same types of the engine.
  \<^item> \<open>Step_Store\<close>, \<open>Step_Refinement\<close>, \<open>Step_Machine\<close>, \<open>Validation_Race\<close>: \<open>handlers/progress.go\<close>, the step
    operations of \<open>handlers/session.go\<close>, \<open>ownership.go\<close> and \<open>hint.go\<close>: the cache with write-through and load on
    miss; its refinement of a plain map; the interleaving of requests and results as a step relation; the same
    with the place of every request in \<open>ValidateStep\<close> and the answers still awaited.
  \<^item> \<open>Session_Provider\<close>, \<open>Dispatch\<close>: \<open>session/session.go\<close>, \<open>session/dispatcher.go\<close>.
  \<^item> \<open>Cloud_Init\<close>: \<open>kubevirt/cloudinit.go\<close>, \<open>ec2/cloudinit.go\<close>. \<open>Vm_Metrics\<close>: \<open>vmmetrics/vmmetrics.go\<close>.
  \<^item> \<open>Kubevirt\<close>, \<open>Boot_Watcher\<close>: \<open>kubevirt/session.go\<close>, \<open>kubevirt/watcher.go\<close>. \<open>Ec2\<close>: \<open>ec2/provisioner.go\<close>.
  \<^item> \<open>Content\<close>: \<open>content/loader.go\<close>, \<open>handlers/lab.go\<close>. \<open>Billing\<close>: \<open>handlers/billing.go\<close>,
    \<open>entitlement.go\<close>. \<open>Decimal\<close>, \<open>Clients\<close>: decimal numbers, \<open>ai/client.go\<close>, \<open>auth/admin.go\<close>.
  \<^item> \<open>App\<close>, \<open>Session_Safety\<close>: the life cycle of sessions in \<open>handlers/session.go\<close> and \<open>admin.go\<close>.
  \<^item> \<open>Step_Handlers\<close>, \<open>Step_Safety\<close>: steps, validation, results and hints (\<open>handlers/session.go\<close>,
    \<open>hint.go\<close>).
  \<^item> \<open>Learning\<close>: \<open>handlers/leaderboard.go\<close>, \<open>dashboard.go\<close>. \<open>Locks\<close>: \<open>lock/lock.go\<close>, \<open>lock/redis.go\<close>.
  \<^item> \<open>Access\<close>, \<open>Login\<close>: \<open>auth/oidc.go\<close>, \<open>middleware/auth.go\<close>, \<open>middleware/rbac.go\<close>,
    \<open>handlers/auth.go\<close>, \<open>admin.go\<close>, \<open>user.go\<close>. \<open>Discovery\<close>: the provider as \<open>NewProvider\<close> of
    \<open>auth/oidc.go\<close> builds it, and the start of \<open>NewRouter\<close>.
  \<^item> \<open>Vm_Files\<close>: \<open>vmfiles/snapshot.go\<close>, \<open>service.go\<close>, \<open>ssh_runner.go\<close>, \<open>handlers/vm_files.go\<close>.
  \<^item> \<open>Console\<close>: \<open>handlers/console.go\<close>, \<open>console_registry.go\<close>, \<open>ide.go\<close>.
  \<^item> \<open>File_Flights\<close>: the merging of simultaneous listings and the slots of \<open>vmfiles/service.go\<close> as a step
    relation. \<open>Port_Forward\<close>: \<open>vmfiles/kubevirt_connector.go\<close>, \<open>access.go\<close>: the address of a session's machine
    and the byte stream over a websocket.
  \<^item> \<open>Live_Terminal\<close>: \<open>ec2/terminal.go\<close>, \<open>tailnet/tailnet.go\<close>, the counters, pings and deadlines of
    \<open>handlers/console.go\<close> as a step relation with a clock.
  \<^item> \<open>Router\<close>: \<open>api/router.go\<close>, \<open>handlers/health.go\<close>: the route table and one request from the table
    through the middlewares to its handler. \<open>Observability\<close>: \<open>middleware/metrics.go\<close>, \<open>logger.go\<close>, \<open>tracing.go\<close>,
    \<open>handlers/metrics.go\<close> and the CORS settings, around the route table.
  \<^item> \<open>Config\<close>: \<open>config/config.go\<close>: the defaults, the variables and the decoding of every field.
    \<open>Bootstrap\<close>: \<open>kube/client.go\<close>, \<open>kubevirt/client.go\<close>, the constructors of the providers, \<open>LoadTLS\<close>,
    \<open>store.Open\<close>, the fresh ids. \<open>Wiring\<close>: \<open>cmd/server/main.go\<close> and \<open>New\<close> of \<open>handlers/handlers.go\<close>.
  \<^item> \<open>Startup\<close>: \<open>store/migrate.go\<close>, the key checks of \<open>config/config.go\<close>, \<open>ec2/authkey.go\<close>,
    \<open>validation/kafka.go\<close>, \<open>validation/consumer.go\<close>.
  \<^item> \<open>Checker\<close>, \<open>Executors\<close>, \<open>Engine\<close>, \<open>Engine_Safety\<close>: \<open>engine:internal/checker\<close>, \<open>internal/executor\<close>,
    \<open>cmd/engine/main.go\<close>, \<open>internal/producer\<close>, \<open>internal/consumer\<close>.
  \<^item> \<open>Json_Text\<close>, \<open>Wire\<close>: JSON as text and the struct tags of \<open>validation/message.go\<close>,
    \<open>engine:internal/model/message.go\<close>, \<open>events/events.go\<close>, \<open>events/kafka.go\<close>. \<open>Pipeline\<close>: both processes with
    their messages between them. \<open>Engine_Start\<close>: \<open>run\<close> and the TLS files of \<open>engine:cmd/engine/main.go\<close>, the
    readers and writers of both processes.
  \<^item> This theory: the way of a validation request from its handler to its verdict.

  \<^bold>\<open>State.\<close> The handlers work on a record \<open>app\<close>: the step store (cache and database), the state of the
  provider, the log of published events, and the rest of the outside. A handler takes the request
  and the state and gives a response and the new state; every early return of the source is a
  branch. The type \<open>handler\<close> holds the configuration and the interfaces (provider, database, locks,
  validator, AI tutor) as functions, so that \<open>nil\<close> is \<open>None\<close>. Times are integers in nanoseconds, and
  one handler call reads the clock once. Strings are their UTF-8 bytes. Where Go iterates over a map,
  or sorts with an unstable order, the order is an argument. Random ids and tokens are arguments.

  \<^bold>\<open>What is shown.\<close> Sessions: a created session is durably initialised, at most one per user, within
  the quota, and leaves nothing behind on failure; only its owner sees it; reapers take only overdue
  sessions and drop exactly their progress. Steps: the cached store refines a map, stored sessions
  stay legal, steps are validated in order, without an engine nothing passes in release mode,
  redelivered results change nothing, and a step is left in validation only when an answer overtakes its
  request. The engine: command lines are simple commands with the words of the request in their places (but
  for what a URL may bring in), checks end by their deadline (but for the pipes of a killed command), a commit is tried only
  for a settled message, a step passes only after all its checks. Access: no route outside the login
  runs without a verified token in release mode, no administration route without the role, no
  session cookie without the state, nonce and verifier of the same browser and an ID token for the
  configured client; terminals, the IDE and
  file previews only for the owner. Data: locks exclude each other, checkouts are atomic, migrations
  apply in order and once, rankings and dashboards are consistent, tags and scalars round-trip.
  The processes: each decodes what the other encodes, as text and whatever bytes it holds; a step
  passes only by a request for it whose checks passed when the engine handled it, through any order and
  repetition of the messages; a server that starts without its parts fails safe; every field of the loaded configuration
  comes from where it is promised, with two stated exceptions; the exit status of the engine tells whether work is left. The machine: a port-forward reaches only the
  machine of its session and is a byte stream, merged listings never exceed their slots or mix
  sessions, a terminal of a dead peer ends unless the machine refuses or holds up a write. Observation: every request is
  counted once, under its own route, and each result of a boot at most once.
  Several theorems state behaviour that contradicts the intent of the code; they are named in the
  text before them.

  \<^bold>\<open>Interfaces as locales.\<close> \<open>progress_persistence\<close> (the database as the step store needs it),
  \<open>session_provider\<close> and \<open>two_providers\<close> (what handlers and dispatcher need of a provider), \<open>locker\<close>
  (mutual exclusion, for both lockers), \<open>timely_executor\<close> (an executor that respects its
  deadline up to a grace: none for EC2, the time its pipes stay open for KubeVirt), \<open>file_access\<close> (what reading files may start on a machine),
  \<open>message_format\<close> (what a reader of a message gets back, for requests and results), each
  interpreted for the definitions of the code.

  \<^bold>\<open>Loops.\<close> All loops terminate by structural recursion or by a measure proved in the theory: polling a
  command and waiting for a lock end because the clock passes the deadline. Loops that serve for ever
  (consumers, terminals) take the finite list of what they receive and say what holds after it, or
  are step relations. Reading from a websocket may meet empty messages for ever and is a partial function,
  shown to return. The JSON reader takes fuel for its nesting: twice the length of the text, which is shown
  to be enough for every text the writer makes.

  \<^bold>\<open>Not modelled.\<close> Log messages, spans and the exporter of traces. The informer behind the watcher of
  \<open>kubevirt/watcher.go\<close>: what it delivers is an argument. The listening sockets and
  the signals of both processes beyond the order in which they start and stop their parts. Third-party services and libraries (Keycloak, Kafka, Redis, PostgreSQL, Kubernetes, AWS, SSH,
  websockets, YAML) are parameters. The results the engine writes are not acknowledged, so that a write that
  reports success may be lost in \<open>Engine_Safety\<close> and what builds on it; the API's own publishing of requests and events
  is taken to have happened when it reports success.
\<close>

section \<open>From a validation request to its verdict\<close>

text \<open>
  The API hands requests to Kafka, the engine takes them from there. \<open>queue\<close> is what has been published:
  a successful publish appends the request, and noting the start time in Redis does not touch it.
\<close>

definition publishes :: "('x \<Rightarrow> ValidationRequest list) \<Rightarrow> ('d, 'p, 'x) handler \<Rightarrow> bool" where
  "publishes queue h \<longleftrightarrow>
     (\<forall>pub req x x'. h_validator h = Some pub \<longrightarrow> pub req x = (None, x') \<longrightarrow> queue x' = queue x @ [req]) \<and>
     (\<forall>store key v ttl x. h_redis_set h = Some store \<longrightarrow> queue (store key v ttl x) = queue x)"

lemma publish_validation_accepted:
  assumes "publishes queue h" "h_validator h = Some pub"
    and "publish_validation h pub now idx msg a = (r, a')" "resp_status r = 202"
  shows "queue (a_ext a') = queue (a_ext a) @ [msg]"
  using assms
  by (auto simp: publish_validation_def on_ext_def publishes_def Let_def split: prod.splits option.splits)

lemma build_request_Inr:
  assumes "build_request h tr tp sid k s = Inr req"
  shows "\<exists>lc step. h_labs h (s_LabID s) = Some lc \<and> findContentStep lc k = Some step \<and> cs_checks step \<noteq> [] \<and>
    req = \<lparr>vq_trace_id = tr, vq_traceparent = tp, vq_session_id = sid, vq_step_id = k, vq_vm = vmSpecForSession s sid,
           vq_checks = toValidationChecks (cs_checks step)\<rparr>"
  using assms by (auto simp: build_request_def split: option.splits if_splits)

lemma engine_validate_accepted:
  assumes "publishes queue h" "h_validator h = Some pub"
    and "engine_validate h pub now tr tp sid k idx a = (r, a')" "resp_status r = 202"
  shows "\<exists>P s p p' req. h_sessions h = Some P \<and> pv_Get P now sid p = (Inr s, p') \<and>
    build_request h tr tp sid k s = Inr req \<and> queue (a_ext a') = queue (a_ext a) @ [req]"
proof -
  obtain P where P: "h_sessions h = Some P"
    using assms(3,4) by (cases "h_sessions h") (auto simp: engine_validate_def)
  obtain x p' where get: "pv_Get P now sid (a_prov a) = (x, p')" by (rule prod.exhaust)
  obtain s where s: "x = Inr s"
    using assms(3,4) P get by (cases x) (auto simp: engine_validate_def on_prov_def not_found_def split: if_splits)
  obtain req where b: "build_request h tr tp sid k s = Inr req"
    using assms(3,4) P get s
    by (cases "build_request h tr tp sid k s") (auto simp: engine_validate_def on_prov_def build_request_def split: option.splits if_splits)
  have "publish_validation h pub now idx req (a\<lparr>a_prov := p'\<rparr>) = (r, a')"
    using assms(3) P get s b by (simp add: engine_validate_def on_prov_def)
  from publish_validation_accepted [OF assms(1,2) this assms(4)] P get s b show ?thesis by auto
qed

lemma guards_keep_ext:
  "a_ext (snd (ensureStepSession h now uid sid a)) = a_ext a"
  "fst (ensureStepSession h now uid sid a) = Some r \<Longrightarrow> resp_status r \<noteq> 202"
  "a_ext (snd (denyIfNotStoreOwner h now uid sid a)) = a_ext a"
  "fst (denyIfNotStoreOwner h now uid sid a) = Some r \<Longrightarrow> resp_status r \<noteq> 202"
  by (auto simp: ensureStepSession_def denyIfNotStoreOwner_def denyIfNotSessionOwner_def denyIfNotOwner_def not_found_def
      on_defs Let_def split: prod.splits option.splits sum.splits if_splits)

lemma guarded_accepted:
  assumes "guarded h now uid sid k a = (r, a')" "resp_status r = 202"
  shows "\<exists>a2. a_ext a2 = a_ext a \<and> k a2 = (r, a')"
proof -
  obtain x a1 where e: "ensureStepSession h now uid sid a = (x, a1)" by (rule prod.exhaust)
  obtain y a2 where d: "denyIfNotStoreOwner h now uid sid a1 = (y, a2)" by (rule prod.exhaust)
  have "x = None" "y = None" "a_ext a2 = a_ext a"
    using assms e d guards_keep_ext(1,2) [of h now uid sid a] guards_keep_ext(3,4) [of h now uid sid a1]
    by (auto simp: guarded_def split: option.splits)
  then show ?thesis using assms(1) e d by (auto simp: guarded_def)
qed

lemma ValidateStep_accepted:
  assumes "publishes queue h" "h_validator h = Some pub"
    and "ValidateStep h now tr tp sid (Inr k) uid a = (r, a')" "resp_status r = 202"
  shows "\<exists>P s p p' req. h_sessions h = Some P \<and> pv_Get P now sid p = (Inr s, p') \<and>
    build_request h tr tp sid k s = Inr req \<and> queue (a_ext a') = queue (a_ext a) @ [req]"
proof -
  have k: "\<not> k < 1" using assms(3,4) by (auto simp: ValidateStep_def)
  then obtain a2 where a2: "a_ext a2 = a_ext a"
    "(let (r, a1) = on_steps (findValidatableStepIndex (h_db h) now sid k) a2 in
             case r of
               Inl errStepSessionNotFound \<Rightarrow> (not_found, a1)
             | Inl errStepNotFound \<Rightarrow> (err_resp 404 ''step not found'', a1)
             | Inl errStepOrderBlocked \<Rightarrow>
                 (err_resp 409 ''previous step must be passed before validating this step'', a1)
             | Inr idx \<Rightarrow>
                 (case h_validator h of
                    None \<Rightarrow> mock_validate h now sid idx a1
                  | Some pub \<Rightarrow> engine_validate h pub now tr tp sid k idx a1)) = (r, a')"
    using assms(3,4) by (auto simp: ValidateStep_def dest!: guarded_accepted)
  obtain x st where f: "findValidatableStepIndex (h_db h) now sid k (a_steps a2) = (x, st)" by (rule prod.exhaust)
  obtain idx where "x = Inr idx"
    using a2(2) f assms(4) by (cases x) (auto simp: on_steps_def not_found_def split: step_err.splits)
  then have "engine_validate h pub now tr tp sid k idx (a2\<lparr>a_steps := st\<rparr>) = (r, a')"
    using a2(2) f assms(2) by (simp add: on_steps_def)
  from engine_validate_accepted [OF assms(1,2) this assms(4)] a2(1) show ?thesis by simp
qed

text \<open>
  C1. From end to end, a step passes only after its own checks passed on the machine of its session: a
  request that \<open>ValidateStep\<close> accepts publishes exactly one message, and when the engine answers it with
  "passed", then every check that the content of the lab lists for that step was run through the
  executor of the machine of that session and passed, and the answer names that session and that step.
\<close>

theorem pipeline_passes_only_checked_steps:
  assumes "publishes queue h" and "h_validator h = Some pub"
    and "ValidateStep h now tr tp sid (Inr k) uid a = (r, a')" and "resp_status r = 202"
    and "engine fs env ctx (last (queue (a_ext a'))) v = (e, v')"
    and "b_results (w_rest v') = b_results (w_rest v) @ [result]" and "vr_passed result"
  shows "\<exists>P s p p' lc step exe v1. h_sessions h = Some P \<and> pv_Get P now sid p = (Inr s, p') \<and>
    h_labs h (s_LabID s) = Some lc \<and> findContentStep lc k = Some step \<and> cs_checks step \<noteq> [] \<and>
    length (queue (a_ext a')) = Suc (length (queue (a_ext a))) \<and>
    executor_New env (vmSpecForSession s sid) = Inr exe \<and>
    RunAll ctx (on_machines exe) (toValidationChecks (cs_checks step)) v = ((vr_checks result, True), v1) \<and>
    length (vr_checks result) = length (cs_checks step) \<and> list_all cr_passed (vr_checks result) \<and>
    vr_session_id result = sid \<and> vr_step_id result = k"
proof -
  obtain P s p p' req where req: "h_sessions h = Some P" "pv_Get P now sid p = (Inr s, p')"
    "build_request h tr tp sid k s = Inr req" "queue (a_ext a') = queue (a_ext a) @ [req]"
    using ValidateStep_accepted [OF assms(1-4)] by blast
  obtain lc step where lc: "h_labs h (s_LabID s) = Some lc" "findContentStep lc k = Some step" "cs_checks step \<noteq> []"
    "vq_vm req = vmSpecForSession s sid" "vq_checks req = toValidationChecks (cs_checks step)"
    "vq_session_id req = sid" "vq_step_id req = k"
    using build_request_Inr [OF req(3)] by auto
  have run: "engine fs env ctx req v = (e, v')" using assms(5) req(4) by simp
  show ?thesis
  proof (rule engine_run [OF run])
    fix x v1
    assume ver: "verdict (bus_exec env) ctx req v = (x, v1)"
      and "b_results (w_rest v') \<in> {b_results (w_rest v), b_results (w_rest v) @ [x]}"
    then have ver': "verdict (bus_exec env) ctx req v = (result, v1)" using assms(6) by auto
    from verdict_passed [OF this assms(7)] obtain exe where exe: "executor_New env (vq_vm req) = Inr exe"
      "RunAll ctx (on_machines exe) (vq_checks req) v = ((vr_checks result, True), v1)"
      "length (vr_checks result) = length (vq_checks req)" "list_all cr_passed (vr_checks result)"
      by (auto simp: bus_exec_def split: sum.splits)
    have "vr_session_id result = sid" "vr_step_id result = k"
      using verdict_ids [OF ver'] lc(6,7) by simp_all
    then show ?thesis
      using req lc exe by (intro exI [of _ P] exI [of _ s] exI [of _ p] exI [of _ p'] exI [of _ lc] exI [of _ step]
          exI [of _ exe] exI [of _ v1]) (simp add: toValidationChecks_def)
  qed
qed

text \<open>A session of the files demonstration whose lab has one step with one check.\<close>

definition pipe_lab :: LabContent where
  "pipe_lab = demo_lab\<lparr>lc_steps := [\<lparr>cs_ID = 1, cs_title = ''one'', cs_description = [], cs_commands = [], cs_hint = [],
     cs_hint_levels = [], cs_checks = [\<lparr>cc_type = CheckFileExists, cc_command = [], cc_path = ''/etc/hosts'', cc_url = [],
       cc_name = [], cc_expect = [], cc_expect_code = 0, cc_timeout = 0\<rparr>]\<rparr>]\<rparr>"

definition pipe_handler :: "(unit, unit, ValidationRequest list) handler" where
  "pipe_handler = \<lparr>h_mode = Some ''release'', h_provision_timeout_min = 10, h_labs = [''lab'' \<mapsto> pipe_lab],
     h_sessions = Some demo_files_provider, h_db = None, h_events = False,
     h_lock_acquire = (\<lambda>_ x. (True, x)), h_lock_release = (\<lambda>_ x. x), h_validator = Some (\<lambda>req q. (None, q @ [req])),
     h_redis_set = None, h_redis_getdel = None, h_ai = None, h_kc_admin = None, h_ec2_dial = False\<rparr>"

definition pipe_app :: "(unit, unit, ValidationRequest list) app" where
  "pipe_app = \<lparr>a_steps = \<lparr>st_m = [''s1'' \<mapsto> init_session ''lab'' ''u1'' [1]], st_d = ()\<rparr>, a_prov = (), a_events = [], a_ext = []\<rparr>"

lemma pipe_run:
  "resp_status (fst (ValidateStep pipe_handler 0 ''t1'' [] ''s1'' (Inr 1) ''u1'' pipe_app)) = 202 \<and>
   a_ext (snd (ValidateStep pipe_handler 0 ''t1'' [] ''s1'' (Inr 1) ''u1'' pipe_app)) = [ready_request]"
  by code_simp

theorem pipeline_passes_only_checked_steps_witness:
  "\<exists>r a' v' result s step. ValidateStep pipe_handler 0 ''t1'' [] ''s1'' (Inr 1) ''u1'' pipe_app = (r, a') \<and> resp_status r = 202 \<and>
     engine (\<lambda>_. WOk) ready_env (300 * second) (last (a_ext a')) empty_bus = (None, v') \<and>
     b_results (w_rest v') = [result] \<and> findContentStep pipe_lab 1 = Some step \<and>
     list_all cr_passed (vr_checks result) \<and> length (vr_checks result) = length (cs_checks step)"
proof -
  let ?v = "ValidateStep pipe_handler 0 ''t1'' [] ''s1'' (Inr 1) ''u1'' pipe_app"
  let ?run = "engine (\<lambda>_. WOk) ready_env (300 * second) ready_request empty_bus"
  let ?result = "\<lparr>vr_trace_id = ''t1'', vr_session_id = ''s1'', vr_step_id = 1, vr_passed = True,
     vr_checks = [chk_pass CheckFileExists], vr_duration_ms = 0\<rparr>"
  obtain r a' where v: "?v = (r, a')" by (rule prod.exhaust)
  have status: "resp_status r = 202" "a_ext a' = [ready_request]" using pipe_run v by simp_all
  have "fst ?run = None \<and> b_results (w_rest (snd ?run)) = [?result]" by code_simp
  then have run: "engine (\<lambda>_. WOk) ready_env (300 * second) (last (a_ext a')) empty_bus = (None, snd ?run)"
      "b_results (w_rest (snd ?run)) = b_results (w_rest empty_bus) @ [?result]" "vr_passed ?result"
    using status by (simp_all add: empty_bus_def prod_eq_iff)
  have pub: "publishes (\<lambda>q. q) pipe_handler" "h_validator pipe_handler = Some (\<lambda>req q. (None, q @ [req]))"
    by (simp_all add: publishes_def pipe_handler_def)
  from pipeline_passes_only_checked_steps [OF pub v status(1) run]
  obtain s :: Session and lc :: LabContent and step :: Step where "h_labs pipe_handler (s_LabID s) = Some lc" "findContentStep lc 1 = Some step"
    "length (vr_checks ?result) = length (cs_checks step)" "list_all cr_passed (vr_checks ?result)" by blast
  then show ?thesis
    using v status run by (auto simp: pipe_handler_def empty_bus_def split: if_splits)
qed

end
